(* ===== verification/Mlm_Prelude.thy ===== *)
theory Mlm_Prelude
  imports Main "HOL-Library.Word" "HOL-Library.Multiset" "HOL-Library.AList" "HOL-Library.Char_ord"
    "HOL-Library.List_Lexorder"
begin

text \<open>
  Shared vocabulary of the development: Go's fixed-width integers as words, Go errors and panics
  as values of a sum type, the part of Go's standard library the sources use
  (\<^verbatim>\<open>encoding/binary\<close> big-endian words, \<^verbatim>\<open>sort.Slice\<close>, \<^verbatim>\<open>strings\<close> and
  \<^verbatim>\<open>fmt\<close> helpers), and the lemmas on lists, association lists and words that the
  component theories share.
\<close>

unbundle bit_operations_syntax

section \<open>Machine integers, bytes, errors\<close>

type_synonym u8 = "8 word"
type_synonym u16 = "16 word"
type_synonym u32 = "32 word"
type_synonym u64 = "64 word"
type_synonym bytes = "8 word list"

text \<open>
  \<open>Errorf\<close> is an error made by \<^verbatim>\<open>fmt.Errorf\<close> or \<^verbatim>\<open>errors.New\<close>, named by the
  constant part of its message; \<open>Wrapf\<close> is \<^verbatim>\<open>fmt.Errorf("...: %w", err)\<close>; \<open>Panic\<close>
  is a run-time panic (index out of range, integer division by zero, nil dereference).
\<close>

datatype go_error = Errorf string | Wrapf string go_error | Panic string

type_synonym 'a res = "go_error + 'a"

named_theorems go_simps \<open>unfolding of the Go run-time helpers\<close>
named_theorems unat_simps \<open>reading 32 and 64 bit arithmetic as arithmetic on naturals\<close>

definition idx :: "'a list \<Rightarrow> nat \<Rightarrow> 'a res" where
  [go_simps]: "idx xs i = (if i < length xs then Inr (xs ! i) else Inl (Panic ''index out of range''))"

fun is_panic :: "go_error \<Rightarrow> bool" where
  "is_panic (Panic m) = True"
| "is_panic (Wrapf m e) = is_panic e"
| "is_panic (Errorf m) = False"

text \<open>Wrap-around of Go's int64 (and int) arithmetic.\<close>

definition go_int64 :: "int \<Rightarrow> int" where
  "go_int64 x = sint (of_int x :: u64)"

lemma go_int64_id: "- (2 ^ 63) \<le> x \<Longrightarrow> x < 2 ^ 63 \<Longrightarrow> go_int64 x = x"
  unfolding go_int64_def sint_sbintrunc' by (intro signed_take_bit_int_eq_self) simp_all

section \<open>encoding/binary: big-endian 32 bit words\<close>

definition be32_put :: "u32 \<Rightarrow> bytes" where
  "be32_put n = [ucast (drop_bit 24 n), ucast (drop_bit 16 n), ucast (drop_bit 8 n), ucast n]"

definition be32_get :: "bytes \<Rightarrow> u32" where
  "be32_get b = push_bit 24 (ucast (b ! 0)) OR push_bit 16 (ucast (b ! 1))
                OR push_bit 8 (ucast (b ! 2)) OR ucast (b ! 3)"

lemma length_be32_put [simp]: "length (be32_put n) = 4"
  by (simp add: be32_put_def)

lemma be32_get_put [simp]: "be32_get (be32_put n) = n"
proof (rule bit_word_eqI)
  fix k :: nat
  assume "k < LENGTH(32)"
  then consider "k < 8" | "8 \<le> k" "k < 16" | "16 \<le> k" "k < 24" | "24 \<le> k" "k < 32"
    by fastforce
  then show "bit (be32_get (be32_put n)) k \<longleftrightarrow> bit n k"
    by cases (auto simp: be32_get_def be32_put_def bit_simps)
qed

lemma be32_get_append: "length a = 4 \<Longrightarrow> be32_get (a @ b) = be32_get a"
  by (simp add: be32_get_def nth_append)

lemma take4_be32_put [simp]: "take 4 (be32_put n @ xs) = be32_put n"
  by simp

lemma drop4_be32_put [simp]: "drop 4 (be32_put n @ xs) = xs"
  by simp

lemma be32_put_get: "length b = 4 \<Longrightarrow> be32_put (be32_get b) = b"
proof -
  assume "length b = 4"
  then obtain w x y z where b: "b = [w, x, y, z]"
    by (auto simp: eval_nat_numeral length_Suc_conv)
  show ?thesis
    unfolding b be32_get_def be32_put_def
    by (simp, intro conjI; rule bit_word_eqI; auto simp: bit_simps dest: bit_imp_le_length)
qed

section \<open>sort.Slice\<close>

text \<open>
  \<^verbatim>\<open>sort.Slice(xs, less)\<close> permutes \<open>xs\<close> so that no later element is \<open>lt\<close> than an
  earlier one. The model is insertion sort, which is also what Go runs on short slices; where
  \<open>lt\<close> is total on the elements the result does not depend on the algorithm
  (\<open>sort_slice_unique\<close> in the locale below).
\<close>

fun insert_by :: "('a \<Rightarrow> 'a \<Rightarrow> bool) \<Rightarrow> 'a \<Rightarrow> 'a list \<Rightarrow> 'a list" where
  "insert_by lt x [] = [x]"
| "insert_by lt x (y # ys) = (if lt y x then y # insert_by lt x ys else x # y # ys)"

fun sort_slice :: "('a \<Rightarrow> 'a \<Rightarrow> bool) \<Rightarrow> 'a list \<Rightarrow> 'a list" where
  "sort_slice lt [] = []"
| "sort_slice lt (x # xs) = insert_by lt x (sort_slice lt xs)"

lemma mset_insert_by [simp]: "mset (insert_by lt x xs) = add_mset x (mset xs)"
  by (induction xs) auto

lemma mset_sort_slice [simp]: "mset (sort_slice lt xs) = mset xs"
  by (induction xs) auto

lemma set_sort_slice [simp]: "set (sort_slice lt xs) = set xs"
  by (metis mset_sort_slice set_mset_mset)

lemma length_sort_slice [simp]: "length (sort_slice lt xs) = length xs"
  by (metis mset_sort_slice size_mset)

lemma distinct_map_sort_slice: "distinct (map f (sort_slice lt xs)) \<longleftrightarrow> distinct (map f xs)"
  by (metis mset_map mset_eq_imp_distinct_iff mset_sort_slice)

text \<open>A comparison that orders elements strictly and totally by a key.\<close>

locale keyed_order =
  fixes lt :: "'a \<Rightarrow> 'a \<Rightarrow> bool" and key :: "'a \<Rightarrow> 'k"
  assumes lt_irrefl: "\<not> lt a a"
    and lt_trans: "lt a b \<Longrightarrow> lt b c \<Longrightarrow> lt a c"
    and lt_total: "key a \<noteq> key b \<Longrightarrow> lt a b \<or> lt b a"
begin

lemma lt_asym: "lt a b \<Longrightarrow> \<not> lt b a"
  using lt_irrefl lt_trans by blast

lemma sorted_insert_by:
  "sorted_wrt lt xs \<Longrightarrow> key x \<notin> key ` set xs \<Longrightarrow> sorted_wrt lt (insert_by lt x xs)"
proof (induction xs)
  case Nil
  then show ?case by simp
next
  case (Cons y ys)
  have set_ins: "set (insert_by lt x ys) = insert x (set ys)"
    by (metis mset_insert_by set_mset_add_mset_insert set_mset_mset)
  show ?case
  proof (cases "lt y x")
    case True
    with Cons show ?thesis by (auto simp: set_ins)
  next
    case False
    with Cons.prems have "lt x y" using lt_total by force
    with Cons.prems False show ?thesis by (auto dest: lt_trans)
  qed
qed

lemma sorted_sort_slice: "distinct (map key xs) \<Longrightarrow> sorted_wrt lt (sort_slice lt xs)"
proof (induction xs)
  case Nil
  then show ?case by simp
next
  case (Cons x xs)
  then show ?case by (auto intro!: sorted_insert_by)
qed

lemma sorted_unique:
  "sorted_wrt lt xs \<Longrightarrow> sorted_wrt lt ys \<Longrightarrow> set xs = set ys \<Longrightarrow> xs = ys"
proof (induction xs arbitrary: ys)
  case Nil
  then show ?case by simp
next
  case (Cons x xs)
  then obtain y ys' where ys: "ys = y # ys'" by (cases ys) auto
  have "x = y"
  proof (rule ccontr)
    assume "x \<noteq> y"
    with Cons.prems ys have "y \<in> set xs" "x \<in> set ys'" by auto
    with Cons.prems ys have "lt x y" "lt y x" by auto
    then show False using lt_asym by blast
  qed
  moreover have "set xs = set ys'"
  proof -
    have "x \<notin> set xs" "y \<notin> set ys'" using Cons.prems ys lt_irrefl by auto
    with Cons.prems(3) ys \<open>x = y\<close> show ?thesis by auto
  qed
  ultimately show ?case using Cons ys by auto
qed

lemma sort_slice_unique:
  assumes "distinct (map key xs)" and "mset ys = mset xs" and "sorted_wrt lt ys"
  shows "ys = sort_slice lt xs"
proof (rule sorted_unique)
  show "sorted_wrt lt ys" by fact
  show "sorted_wrt lt (sort_slice lt xs)" using assms(1) by (rule sorted_sort_slice)
  show "set ys = set (sort_slice lt xs)" using assms(2) by (metis set_mset_mset set_sort_slice)
qed

lemma sort_slice_perm:
  assumes "distinct (map key xs)" and "mset ys = mset xs"
  shows "sort_slice lt ys = sort_slice lt xs"
proof (rule sort_slice_unique [OF assms(1)])
  have "distinct (map key ys)"
    using assms by (metis mset_eq_imp_distinct_iff mset_map)
  then show "sorted_wrt lt (sort_slice lt ys)" by (rule sorted_sort_slice)
qed (use assms in simp)

end

section \<open>strings, strconv and fmt helpers\<close>

fun has_prefix :: "string \<Rightarrow> string \<Rightarrow> bool" where
  "has_prefix s [] = True"
| "has_prefix [] (p # ps) = False"
| "has_prefix (c # s) (p # ps) = (c = p \<and> has_prefix s ps)"

definition has_suffix :: "string \<Rightarrow> string \<Rightarrow> bool" where
  "has_suffix s t = has_prefix (rev s) (rev t)"

definition trim_suffix :: "string \<Rightarrow> string \<Rightarrow> string" where
  "trim_suffix s t = (if has_suffix s t then take (length s - length t) s else s)"

fun str_contains :: "string \<Rightarrow> string \<Rightarrow> bool" where
  "str_contains [] t = (t = [])"
| "str_contains (c # s) t = (has_prefix (c # s) t \<or> str_contains s t)"

definition digit :: "nat \<Rightarrow> char" where
  "digit n = char_of (48 + n)"

fun dec :: "nat \<Rightarrow> string" where
  "dec n = (if n < 10 then [digit n] else dec (n div 10) @ [digit (n mod 10)])"

declare dec.simps [simp del]

definition itoa :: "int \<Rightarrow> string" where
  "itoa i = (if i < 0 then CHR ''-'' # dec (nat (- i)) else dec (nat i))"

definition pad0 :: "nat \<Rightarrow> int \<Rightarrow> string" where
  "pad0 w i = (if i < 0 then CHR ''-'' # replicate (w - 1 - length (dec (nat (- i)))) CHR ''0'' @ dec (nat (- i))
               else replicate (w - length (dec (nat i))) CHR ''0'' @ dec (nat i))"

definition undec :: "string \<Rightarrow> nat" where
  "undec s = foldl (\<lambda>a c. 10 * a + (of_char c - 48)) 0 s"

lemma of_char_digit [simp]: "n < 10 \<Longrightarrow> (of_char (digit n) :: nat) = 48 + n"
  by (simp add: digit_def)

lemma undec_dec [simp]: "undec (dec n) = n"
proof (induction n rule: dec.induct)
  case (1 n)
  show ?case
  proof (cases "n < 10")
    case True
    then show ?thesis by (simp add: dec.simps [of n] undec_def)
  next
    case False
    with 1 have "undec (dec (n div 10)) = n div 10" by simp
    with False show ?thesis by (simp add: dec.simps [of n] undec_def)
  qed
qed

lemma dec_inject [simp]: "dec m = dec n \<longleftrightarrow> m = n"
  by (metis undec_dec)

lemma dec_not_Nil [simp]: "dec n \<noteq> []"
  by (simp add: dec.simps [of n])

lemma digit_not_slash: "n < 10 \<Longrightarrow> digit n \<noteq> CHR ''/''"
proof
  assume "n < 10" and "digit n = CHR ''/''"
  then have "48 + n = of_char CHR ''/''" by (metis of_char_digit)
  then show False by simp
qed

lemma slash_notin_dec [simp]: "CHR ''/'' \<notin> set (dec n)"
proof (induction n rule: dec.induct)
  case (1 n)
  then show ?case using digit_not_slash [of n] digit_not_slash [of "n mod 10"]
    by (auto simp: dec.simps [of n])
qed

lemma has_prefix_iff: "has_prefix s t \<longleftrightarrow> (\<exists>u. s = t @ u)"
  by (induction s t rule: has_prefix.induct) auto

lemma has_suffix_iff: "has_suffix s t \<longleftrightarrow> (\<exists>u. s = u @ t)"
  unfolding has_suffix_def has_prefix_iff
  by (metis rev_append rev_rev_ident)

lemma has_suffix_append [simp]: "has_suffix (s @ t) t"
  by (auto simp: has_suffix_iff)

lemma trim_suffix_append [simp]: "trim_suffix (s @ t) t = s"
  by (simp add: trim_suffix_def)

lemma trim_suffix_no: "\<not> has_suffix s t \<Longrightarrow> trim_suffix s t = s"
  by (simp add: trim_suffix_def)

lemma str_contains_iff: "str_contains s t \<longleftrightarrow> (\<exists>a b. s = a @ t @ b)"
proof (induction s)
  case Nil
  then show ?case by auto
next
  case (Cons c s)
  have "(\<exists>a b. c # s = a @ t @ b) \<longleftrightarrow> (\<exists>b. c # s = t @ b) \<or> (\<exists>a b. s = a @ t @ b)"
    by (metis append_Cons append_Nil append_eq_Cons_conv)
  then show ?case using Cons by (simp add: has_prefix_iff)
qed

section \<open>Lists and association lists\<close>

lemma find_Some_mem: "find P xs = Some x \<Longrightarrow> x \<in> set xs \<and> P x"
  by (auto simp: find_Some_iff)

lemma find_append: "find P (xs @ ys) = (case find P xs of Some x \<Rightarrow> Some x | None \<Rightarrow> find P ys)"
  by (induction xs) auto

lemma sorted_wrt_filter_mono: "sorted_wrt R xs \<Longrightarrow> sorted_wrt R (filter P xs)"
  by (induction xs) auto

lemma map_of_filter_neq: "map_of (filter (\<lambda>kv. fst kv \<noteq> k) xs) = (map_of xs)(k := None)"
  by (induction xs) (auto simp: fun_eq_iff)

lemma distinct_fst_filter: "distinct (map fst xs) \<Longrightarrow> distinct (map fst (filter P xs))"
  by (induction xs) auto

section \<open>Words as naturals\<close>

lemma unat_mult_lt [unat_simps]:
  fixes a b :: "'a::len word"
  shows "unat a * unat b < 2 ^ LENGTH('a) \<Longrightarrow> unat (a * b) = unat a * unat b"
  by (simp add: unat_mult_lem [THEN iffD1])

lemma unat_add_lt [unat_simps]:
  fixes a b :: "'a::len word"
  shows "unat a + unat b < 2 ^ LENGTH('a) \<Longrightarrow> unat (a + b) = unat a + unat b"
  by (simp add: unat_add_lem [THEN iffD1])

lemma unat_ucast_32_64 [simp, unat_simps]: "unat (ucast (x :: u32) :: u64) = unat x"
  using unsigned_less [of x, where ?'a = nat] by (simp add: unsigned_ucast_eq take_bit_nat_eq_self)

lemma unat_lt_2_32 [simp]: "unat (x :: u32) < 4294967296"
  using unsigned_less [of x, where ?'a = nat] by simp

lemma unat_lt_2_64 [simp]: "unat (x :: u64) < 18446744073709551616"
  using unsigned_less [of x, where ?'a = nat] by simp

section \<open>Ceiling division\<close>

definition cdiv :: "nat \<Rightarrow> nat \<Rightarrow> nat" where
  "cdiv a b = a div b + (if a mod b \<noteq> 0 then 1 else 0)"

lemma cdiv_mult: "0 < b \<Longrightarrow> cdiv a b * b = a + (if a mod b \<noteq> 0 then b - a mod b else 0)"
proof -
  assume b: "0 < b"
  have eq: "a div b * b + a mod b = a" by (rule div_mult_mod_eq)
  have lt: "a mod b < b" using b by simp
  have "a div b * b + b = a + (b - a mod b)" using eq lt by linarith
  then show ?thesis using eq by (auto simp: cdiv_def distrib_right)
qed

lemma cdiv_mult_ge: "0 < b \<Longrightarrow> a \<le> cdiv a b * b"
  by (simp add: cdiv_mult)

lemma cdiv_mult_less: "0 < b \<Longrightarrow> cdiv a b * b < a + b"
  by (simp add: cdiv_mult)

lemma cdiv_le_iff: "0 < b \<Longrightarrow> cdiv a b \<le> n \<longleftrightarrow> a \<le> n * b"
proof
  assume b: "0 < b" and "cdiv a b \<le> n"
  then have "cdiv a b * b \<le> n * b" by simp
  with cdiv_mult_ge [OF b, of a] show "a \<le> n * b" by linarith
next
  assume b: "0 < b" and "a \<le> n * b"
  then have "cdiv a b * b < (n + 1) * b" using cdiv_mult_less [OF b, of a] by simp
  then have "cdiv a b < n + 1" using b mult_less_cancel2 by blast
  then show "cdiv a b \<le> n" by simp
qed

lemma cdiv_mono: "0 < b \<Longrightarrow> a \<le> a' \<Longrightarrow> cdiv a b \<le> cdiv a' b"
  by (meson cdiv_le_iff cdiv_mult_ge order_trans)

lemma cdiv_mult_self [simp]: "0 < b \<Longrightarrow> cdiv (n * b) b = n"
  by (simp add: cdiv_def)

lemma cdiv_dvd: "b dvd a \<Longrightarrow> cdiv a b = a div b"
  by (simp add: cdiv_def)

lemma unat_cdiv:
  fixes a b :: "'a::len word"
  assumes "b \<noteq> 0"
  shows "unat (a div b + (if a mod b \<noteq> 0 then 1 else 0)) = cdiv (unat a) (unat b)"
proof (cases "a mod b = 0")
  case True
  then have "unat a mod unat b = 0" by (metis unat_mod unsigned_0)
  with True show ?thesis by (simp add: cdiv_def unat_div)
next
  case False
  then have m: "unat a mod unat b \<noteq> 0" by (metis unat_mod unat_eq_zero)
  have b: "0 < unat b" using assms by (simp add: unat_gt_0)
  have "unat b \<noteq> 1" using m by auto
  with b have "2 \<le> unat b" by linarith
  then have "unat a div unat b \<le> unat a div 2" by (simp add: div_le_mono2)
  moreover have "0 < unat a" using m by (metis bot_nat_0.not_eq_extremum mod_0)
  ultimately have "unat a div unat b + 1 \<le> unat a" by linarith
  then have "unat (a div b) + unat (1 :: 'a word) < 2 ^ LENGTH('a)"
    using le_less_trans [OF _ unsigned_less [of a, where ?'a = nat]] by (simp add: unat_div)
  then show ?thesis using False m
    by (simp add: unat_add_lt unat_div cdiv_def)
qed

lemma unat_sub_le: "unat (b :: 'a::len word) \<le> unat a \<Longrightarrow> unat (a - b) = unat a - unat b"
  by (simp add: unat_sub word_le_nat_alt)

lemma unat_next: "nr < (e :: u64) \<Longrightarrow> unat (nr + 1) = Suc (unat nr)"
proof -
  assume "nr < e"
  then have "unat nr < 18446744073709551615" using unat_lt_2_64 [of e] unfolding word_less_nat_alt by linarith
  then show ?thesis using unat_add_lt [of nr 1] by simp
qed

lemma sint_nat: "unat (x :: u64) < 2 ^ 63 \<Longrightarrow> sint x = int (unat x)"
proof -
  assume a: "unat x < 2 ^ 63"
  have u: "uint x = int (unat x)" by (simp only: uint_nat)
  define n where "n = unat x"
  show ?thesis unfolding sint_uint u n_def [symmetric]
    by (rule signed_take_bit_int_eq_self) (use a in \<open>simp_all only: n_def [symmetric], simp_all\<close>)
qed

lemma unat_mult3:
  fixes a b c :: u64
  assumes "unat a * unat b * unat c < 2 ^ 64" and "0 < unat c"
  shows "unat (a * b * c) = unat a * unat b * unat c"
proof -
  have "unat a * unat b * 1 \<le> unat a * unat b * unat c" using assms(2) by (intro mult_le_mono2) simp
  from le_less_trans [OF this assms(1)] have "unat (a * b) = unat a * unat b" by (simp add: unat_mult_lt)
  then show ?thesis using assms(1) by (simp add: unat_mult_lt)
qed

lemma word_loop_measure: "nr < (e :: u64) \<Longrightarrow> unat (e - (nr + 1)) < unat (e - nr)"
proof -
  assume "nr < e"
  then have "e - nr \<noteq> 0" by auto
  then have "0 < unat (e - nr)" by (simp add: unat_gt_0)
  moreover have "unat (e - nr - 1) = unat (e - nr) - 1" using calculation by (subst unat_sub_le) simp_all
  ultimately show ?thesis by (simp add: diff_diff_eq)
qed

section \<open>Results\<close>

text \<open>Wrapping an error (\<^verbatim>\<open>fmt.Errorf("...: %w", err)\<close>) and a loop that stops at the first error.\<close>

definition wrap_err :: "string \<Rightarrow> 'a res \<Rightarrow> 'a res" where
  "wrap_err m r = (case r of Inl e \<Rightarrow> Inl (Wrapf m e) | Inr x \<Rightarrow> Inr x)"

fun map_res :: "('a \<Rightarrow> 'b res) \<Rightarrow> 'a list \<Rightarrow> 'b list res" where
  "map_res f [] = Inr []"
| "map_res f (x # xs) = (case f x of Inl e \<Rightarrow> Inl e
     | Inr y \<Rightarrow> (case map_res f xs of Inl e \<Rightarrow> Inl e | Inr ys \<Rightarrow> Inr (y # ys)))"

lemma map_res_Inr: "map_res f xs = Inr ys \<Longrightarrow> list_all2 (\<lambda>x y. f x = Inr y) xs ys"
  by (induction xs arbitrary: ys) (auto split: sum.splits)

lemma map_res_mem: "map_res f xs = Inr ys \<Longrightarrow> y \<in> set ys \<Longrightarrow> \<exists>x \<in> set xs. f x = Inr y"
  by (induction xs arbitrary: ys) (auto split: sum.splits)

lemma map_res_ex: "map_res f xs = Inr ys \<Longrightarrow> x \<in> set xs \<Longrightarrow> \<exists>y. f x = Inr y"
  by (induction xs arbitrary: ys) (auto split: sum.splits)

lemma map_res_set: "map_res f xs = Inr ys \<Longrightarrow> set ys = {y. \<exists>x \<in> set xs. f x = Inr y}"
  by (induction xs arbitrary: ys) (auto split: sum.splits)

end
