(* ===== verification/Go_Float.thy ===== *)
theory Go_Float
  imports Complex_Main Mlm_Prelude
begin

text \<open>
  Go's \<^verbatim>\<open>float64\<close> arithmetic as the sources use it: frame rates, bitrates and the cue
  duration. A finite float64 is a rational; every operation is exact and then rounded to 53
  significant bits, ties to even (\<open>f64_round\<close>). The values that occur (bit rates, frame
  rates, millisecond counts) are far from the exponent range's ends, so overflow to infinity and
  subnormal numbers are left out.
\<close>

type_synonym f64 = rat

function int_log2 :: "int \<Rightarrow> int" where
  "int_log2 n = (if n < 2 then 0 else 1 + int_log2 (n div 2))"
  by auto
termination by (relation "measure nat") auto

declare int_log2.simps [simp del]

definition rat_log2 :: "rat \<Rightarrow> int" where
  "rat_log2 x = (let (a, b) = quotient_of \<bar>x\<bar>;
                     e = int_log2 a - int_log2 b
                 in if 2 powi e \<le> \<bar>x\<bar> then e else e - 1)"

definition round_half_even :: "rat \<Rightarrow> int" where
  "round_half_even y = (let f = \<lfloor>y\<rfloor>; d = y - of_int f
     in if d < 1 / 2 then f else if 1 / 2 < d then f + 1 else if even f then f else f + 1)"

definition f64_round :: "rat \<Rightarrow> f64" where
  "f64_round x = (if x = 0 then 0
     else let e = rat_log2 x - 52 in of_int (round_half_even (x / 2 powi e)) * 2 powi e)"

definition f64_of_int :: "int \<Rightarrow> f64" where "f64_of_int i = f64_round (of_int i)"
definition f64_add :: "f64 \<Rightarrow> f64 \<Rightarrow> f64" where "f64_add x y = f64_round (x + y)"
definition f64_mul :: "f64 \<Rightarrow> f64 \<Rightarrow> f64" where "f64_mul x y = f64_round (x * y)"
definition f64_div :: "f64 \<Rightarrow> f64 \<Rightarrow> f64" where "f64_div x y = f64_round (x / y)"

text \<open>Conversion to an integer truncates towards zero.\<close>

definition f64_trunc :: "f64 \<Rightarrow> int" where
  "f64_trunc x = (if x < 0 then - \<lfloor>- x\<rfloor> else \<lfloor>x\<rfloor>)"

lemmas f64_defs = f64_of_int_def f64_add_def f64_mul_def f64_div_def

section \<open>Integers below 2^53 are exact\<close>

lemma round_half_even_of_int [simp]: "round_half_even (of_int i) = i"
  by (simp add: round_half_even_def)

lemma int_log2_nonneg: "0 \<le> int_log2 n"
  by (induction n rule: int_log2.induct) (simp add: int_log2.simps)

lemma int_log2_bounds: "0 < n \<Longrightarrow> 2 ^ nat (int_log2 n) \<le> n \<and> n < 2 * 2 ^ nat (int_log2 n)"
proof (induction n rule: int_log2.induct)
  case (1 n)
  show ?case
  proof (cases "n < 2")
    case True
    with 1 show ?thesis by (simp add: int_log2.simps [of n])
  next
    case False
    with 1 have "2 ^ nat (int_log2 (n div 2)) \<le> n div 2" "n div 2 < 2 * 2 ^ nat (int_log2 (n div 2))" by auto
    moreover have "nat (1 + int_log2 (n div 2)) = Suc (nat (int_log2 (n div 2)))"
      using int_log2_nonneg [of "n div 2"] by simp
    ultimately show ?thesis using False by (simp add: int_log2.simps [of n]) linarith
  qed
qed

lemma rat_log2_of_int:
  assumes "0 < i" shows "rat_log2 (of_int i) = int_log2 i"
proof -
  have "(2::rat) ^ nat (int_log2 i) \<le> of_int i"
    using int_log2_bounds [OF assms] by (metis of_int_le_iff of_int_numeral of_int_power)
  then show ?thesis
    using assms int_log2_nonneg [of i] by (simp add: rat_log2_def int_log2.simps [of 1] power_int_def Let_def)
qed

lemma f64_round_of_int:
  assumes "0 \<le> i" "i < 2 ^ 53" shows "f64_round (of_int i) = of_int i"
proof (cases "i = 0")
  case True
  then show ?thesis by (simp add: f64_round_def)
next
  case False
  with assms have pos: "0 < i" by simp
  let ?l = "nat (int_log2 i)"
  have "(2::int) ^ ?l < 2 ^ 53" using int_log2_bounds [OF pos] assms(2) by linarith
  then have l: "?l \<le> 52" using power_strict_increasing_iff [of "2::int" ?l 53] by simp
  let ?k = "52 - ?l"
  have e: "rat_log2 (of_int i) - 52 = - int ?k" using rat_log2_of_int [OF pos] l int_log2_nonneg [of i] by simp
  have p: "(2::rat) powi (- int ?k) = 1 / 2 ^ ?k" by (simp add: power_int_minus divide_simps)
  have "(of_int i :: rat) / (1 / 2 ^ ?k) = of_int (i * 2 ^ ?k)" by simp
  then show ?thesis using False
    by (simp add: f64_round_def Let_def e p del: of_int_mult of_int_power)
      (simp add: field_simps)
qed

lemma f64_of_int_exact [simp]: "0 \<le> i \<Longrightarrow> i < 9007199254740992 \<Longrightarrow> f64_of_int i = of_int i"
  using f64_round_of_int [of i] by (simp add: f64_of_int_def)

lemma f64_trunc_of_int [simp]: "f64_trunc (of_int i) = i"
  by (simp add: f64_trunc_def)

end
