(* ===== verification/Catalog.thy ===== *)
theory Catalog
  imports Mlm_Prelude Go_Float
begin

text \<open>
  The MSF/CMSF catalog of \<^verbatim>\<open>internal/catalog.go\<close>: the records that are serialised to JSON
  (optional JSON members are \<open>option\<close>s for the Go pointers, empty strings and lists for the
  \<^verbatim>\<open>omitempty\<close> values), the lookups by track name and by init-data reference, and the
  shortening of init payloads that \<^verbatim>\<open>Catalog.String\<close> applies before printing. JSON
  encoding itself is not modelled. The locale \<open>named_lookup\<close> is the contract of every
  \<^verbatim>\<open>Get...ByName\<close> method of the program: the first item with that name, in document order.
\<close>

section \<open>Records\<close>

record accessibility =
  acc_Scheme :: string
  acc_Value :: string

record drm_service =
  svc_URL :: string
  svc_Type :: string

record drm_system =
  sys_SystemID :: string
  sys_Robustness :: string
  sys_LaURL :: "drm_service option"
  sys_AuthzURL :: "drm_service option"
  sys_CertURL :: "drm_service option"
  sys_Pssh :: string

record content_protection =
  cp_RefID :: string
  cp_DefaultKIDs :: "string list"
  cp_Scheme :: string
  cp_DRMSystem :: "drm_system option"

record track =
  tr_Name :: string
  tr_Namespace :: string
  tr_Packaging :: string
  tr_LocmafVersion :: string
  tr_IsLive :: bool
  tr_TargetLatency :: "int option"
  tr_Role :: string
  tr_Label :: string
  tr_RenderGroup :: "int option"
  tr_AltGroup :: "int option"
  tr_InitRef :: string
  tr_Dependencies :: "string list"
  tr_TemporalID :: "int option"
  tr_SpatialID :: "int option"
  tr_Codec :: string
  tr_Framerate :: "f64 option"
  tr_Timescale :: "int option"
  tr_Bitrate :: "int option"
  tr_Width :: "int option"
  tr_Height :: "int option"
  tr_SampleRate :: "int option"
  tr_ChannelConfig :: string
  tr_DisplayWidth :: "int option"
  tr_DisplayHeight :: "int option"
  tr_Language :: string
  tr_TrackDuration :: "int option"
  tr_EventType :: string
  tr_ParentName :: string
  tr_ContentProtectionRefIDs :: "string list"
  tr_Accessibility :: "accessibility list"

record init_data =
  id_ID :: string
  id_Type :: string
  id_Data :: string

record delta_operation =
  do_Op :: string
  do_Tracks :: "track list"

record catalog =
  cat_Version :: string
  cat_GeneratedAt :: "int option"
  cat_IsComplete :: bool
  cat_DeltaUpdate :: "delta_operation list"
  cat_Tracks :: "track list"
  cat_InitDataList :: "init_data list"
  cat_ContentProtections :: "content_protection list"

text \<open>The zero value of the Go struct \<^verbatim>\<open>Track\<close>, which composite literals extend.\<close>

definition zero_track :: track where
  "zero_track = \<lparr>tr_Name = [], tr_Namespace = [], tr_Packaging = [], tr_LocmafVersion = [],
     tr_IsLive = False, tr_TargetLatency = None, tr_Role = [], tr_Label = [], tr_RenderGroup = None,
     tr_AltGroup = None, tr_InitRef = [], tr_Dependencies = [], tr_TemporalID = None,
     tr_SpatialID = None, tr_Codec = [], tr_Framerate = None, tr_Timescale = None, tr_Bitrate = None,
     tr_Width = None, tr_Height = None, tr_SampleRate = None, tr_ChannelConfig = [],
     tr_DisplayWidth = None, tr_DisplayHeight = None, tr_Language = [], tr_TrackDuration = None,
     tr_EventType = [], tr_ParentName = [], tr_ContentProtectionRefIDs = [], tr_Accessibility = []\<rparr>"

definition zero_catalog :: catalog where
  "zero_catalog = \<lparr>cat_Version = [], cat_GeneratedAt = None, cat_IsComplete = False,
     cat_DeltaUpdate = [], cat_Tracks = [], cat_InitDataList = [], cat_ContentProtections = []\<rparr>"

section \<open>Lookups\<close>

text \<open>\<^verbatim>\<open>for _, x := range xs { if x.Name == name { return &x } }; return nil\<close>\<close>

fun first_named :: "('a \<Rightarrow> string) \<Rightarrow> 'a list \<Rightarrow> string \<Rightarrow> 'a option" where
  "first_named nm [] n = None"
| "first_named nm (x # xs) n = (if nm x = n then Some x else first_named nm xs n)"

definition GetTrackByName :: "catalog \<Rightarrow> string \<Rightarrow> track option" where
  "GetTrackByName c n = first_named tr_Name (cat_Tracks c) n"

definition InitDataFor :: "catalog \<Rightarrow> track option \<Rightarrow> string \<times> bool" where
  "InitDataFor c t = (case t of None \<Rightarrow> ([], False)
     | Some tr \<Rightarrow> if tr_InitRef tr = [] then ([], False)
         else case first_named id_ID (cat_InitDataList c) (tr_InitRef tr) of
                Some d \<Rightarrow> (id_Data d, True)
              | None \<Rightarrow> ([], False))"

text \<open>The payload shortening of \<^verbatim>\<open>Catalog.String\<close>, and the copy of the catalog it prints.\<close>

definition shorten_init :: "init_data \<Rightarrow> init_data" where
  "shorten_init d = (if 20 < length (id_Data d)
     then d\<lparr>id_Data := take 20 (id_Data d) @ ''...'' @ ''(len='' @ itoa (int (length (id_Data d))) @ '')''\<rparr>
     else d)"

definition string_copy :: "catalog \<Rightarrow> catalog" where
  "string_copy c = c\<lparr>cat_InitDataList := map shorten_init (cat_InitDataList c)\<rparr>"

section \<open>The contract of a lookup by name\<close>

locale named_lookup =
  fixes items :: "'c \<Rightarrow> 'a list" and nm :: "'a \<Rightarrow> string" and lookup :: "'c \<Rightarrow> string \<Rightarrow> 'a option"
  assumes lookup_first: "lookup c n = find (\<lambda>x. nm x = n) (items c)"
begin

lemma lookup_sound: "lookup c n = Some x \<Longrightarrow> x \<in> set (items c) \<and> nm x = n"
  by (auto simp: lookup_first dest: find_Some_mem)

lemma lookup_None: "lookup c n = None \<longleftrightarrow> n \<notin> nm ` set (items c)"
  by (auto simp: lookup_first find_None_iff)

lemma lookup_hit: "x \<in> set (items c) \<Longrightarrow> \<exists>y. lookup c (nm x) = Some y \<and> nm y = nm x"
  using lookup_None lookup_sound by (metis imageI not_None_eq)

lemma lookup_distinct:
  assumes "distinct (map nm (items c))" and "x \<in> set (items c)"
  shows "lookup c (nm x) = Some x"
proof -
  obtain y where "lookup c (nm x) = Some y" "nm y = nm x" using lookup_hit [OF assms(2)] by blast
  moreover have "y \<in> set (items c)" using \<open>lookup c (nm x) = Some y\<close> lookup_sound by blast
  ultimately show ?thesis using assms by (metis distinct_map inj_onD)
qed

end

lemma first_named_find: "first_named nm xs n = find (\<lambda>x. nm x = n) xs"
  by (induction xs) auto

interpretation catalog_lookup: named_lookup cat_Tracks tr_Name GetTrackByName
  by unfold_locales (simp add: GetTrackByName_def first_named_find)

interpretation init_lookup: named_lookup cat_InitDataList id_ID "\<lambda>c. first_named id_ID (cat_InitDataList c)"
  by unfold_locales (simp add: first_named_find)

lemma shorten_init_id [simp]: "id_ID (shorten_init d) = id_ID d"
  by (simp add: shorten_init_def)

lemma first_named_map:
  "(\<And>x. nm (f x) = nm x) \<Longrightarrow> first_named nm (map f xs) n = map_option f (first_named nm xs n)"
  by (induction xs) auto

end
