(* ===== verification/Track_Model.thy ===== *)
theory Track_Model
  imports Catalog
begin

text \<open>
  The data model of \<^verbatim>\<open>internal/asset.go\<close>, \<^verbatim>\<open>internal/media.go\<close>,
  \<^verbatim>\<open>internal/drm.go\<close> and \<^verbatim>\<open>internal/subtitle.go\<close>: codec-specific data, samples, content
  tracks, track groups and the asset. Types of third-party packages are type variables:
  \<open>'i\<close> is \<^verbatim>\<open>*mp4.InitSegment\<close>, \<open>'p\<close> is \<^verbatim>\<open>*mp4.InitProtectData\<close> and \<open>'u\<close> is go-608's
  \<^verbatim>\<open>generate.UnitCue\<close>. \<open>mp4.FullSample\<close> is the record \<open>full_sample\<close> of the fields
  the sources read and write.
\<close>

record full_sample =
  fs_Flags :: u32
  fs_Dur :: u32
  fs_Size :: u32
  fs_DecodeTime :: u64
  fs_Data :: bytes

record 'i avc_data =
  av_inInit :: 'i
  av_outInit :: 'i
  av_Spss :: "bytes list"
  av_Ppss :: "bytes list"
  av_codec :: string
  av_width :: u32
  av_height :: u32

record 'i hevc_data =
  hv_inInit :: 'i
  hv_outInit :: 'i
  hv_Vpss :: "bytes list"
  hv_Spss :: "bytes list"
  hv_Ppss :: "bytes list"
  hv_codec :: string
  hv_width :: u32
  hv_height :: u32

record av1_spatial_layer =
  sl_SpatialID :: u8
  sl_Width :: u32
  sl_Height :: u32
  sl_Samples :: "bytes list"
  sl_totalSize :: u64

record 'i av1_data =
  a1_inInit :: 'i
  a1_outInit :: 'i
  a1_codec :: string
  a1_width :: u32
  a1_height :: u32
  a1_configOBUs :: bytes
  a1_locNeedsConfig :: bool
  a1_spatialLayers :: "av1_spatial_layer list"

record 'i aac_data =
  aa_inInit :: 'i
  aa_outInit :: 'i
  aa_codec :: string
  aa_sampleRate :: u32
  aa_channelConfig :: string

record 'i opus_data =
  op_inInit :: 'i
  op_outInit :: 'i
  op_codec :: string
  op_sampleRate :: u32
  op_channelConfig :: string

record 'i ac3_data =
  ac_inInit :: 'i
  ac_outInit :: 'i
  ac_codec :: string
  ac_sampleRate :: u32
  ac_channelConfig :: string

text \<open>The implementations of the Go interface \<^verbatim>\<open>CodecSpecificData\<close> used by content tracks.\<close>

datatype 'i spec_data =
    AVCData "'i avc_data"
  | HEVCData "'i hevc_data"
  | AV1Data "'i av1_data"
  | AACData "'i aac_data"
  | OpusData "'i opus_data"
  | AC3Data "'i ac3_data"

fun sd_Codec :: "'i spec_data \<Rightarrow> string" where
  "sd_Codec (AVCData d) = av_codec d"
| "sd_Codec (HEVCData d) = hv_codec d"
| "sd_Codec (AV1Data d) = a1_codec d"
| "sd_Codec (AACData d) = aa_codec d"
| "sd_Codec (OpusData d) = op_codec d"
| "sd_Codec (AC3Data d) = ac_codec d"

fun sd_GetInit :: "'i spec_data \<Rightarrow> 'i" where
  "sd_GetInit (AVCData d) = av_outInit d"
| "sd_GetInit (HEVCData d) = hv_outInit d"
| "sd_GetInit (AV1Data d) = a1_outInit d"
| "sd_GetInit (AACData d) = aa_outInit d"
| "sd_GetInit (OpusData d) = op_outInit d"
| "sd_GetInit (AC3Data d) = ac_outInit d"

fun sd_set_outInit :: "'i \<Rightarrow> 'i spec_data \<Rightarrow> 'i spec_data" where
  "sd_set_outInit i (AVCData d) = AVCData (d\<lparr>av_outInit := i\<rparr>)"
| "sd_set_outInit i (HEVCData d) = HEVCData (d\<lparr>hv_outInit := i\<rparr>)"
| "sd_set_outInit i (AV1Data d) = AV1Data (d\<lparr>a1_outInit := i\<rparr>)"
| "sd_set_outInit i (AACData d) = AACData (d\<lparr>aa_outInit := i\<rparr>)"
| "sd_set_outInit i (OpusData d) = OpusData (d\<lparr>op_outInit := i\<rparr>)"
| "sd_set_outInit i (AC3Data d) = AC3Data (d\<lparr>ac_outInit := i\<rparr>)"

text \<open>
  \<^verbatim>\<open>Clone\<close>: the init segment is encoded and decoded again (\<open>enc\<close> and \<open>decf\<close> are
  mp4ff's \<^verbatim>\<open>InitSegment.Encode\<close> and \<^verbatim>\<open>DecodeFile(..).Init\<close>), the other fields are copied.
\<close>

definition cloneInitSegment ::
  "('i \<Rightarrow> bytes res) \<Rightarrow> (bytes \<Rightarrow> 'i option res) \<Rightarrow> 'i option \<Rightarrow> 'i res" where
  "cloneInitSegment enc decf iseg = (case iseg of None \<Rightarrow> Inl (Errorf ''init segment is nil'')
     | Some i \<Rightarrow> (case enc i of Inl e \<Rightarrow> Inl (Wrapf ''failed to encode init segment'' e)
     | Inr b \<Rightarrow> (case decf b of Inl e \<Rightarrow> Inl (Wrapf ''failed to decode cloned init segment'' e)
     | Inr None \<Rightarrow> Inl (Errorf ''decoded file missing init segment'')
     | Inr (Some j) \<Rightarrow> Inr j)))"

definition sd_Clone ::
  "('i \<Rightarrow> bytes res) \<Rightarrow> (bytes \<Rightarrow> 'i option res) \<Rightarrow> 'i spec_data \<Rightarrow> 'i spec_data res" where
  "sd_Clone enc decf sd = (case cloneInitSegment enc decf (Some (sd_GetInit sd)) of
     Inl e \<Rightarrow> Inl e | Inr i \<Rightarrow> Inr (sd_set_outInit i sd))"

definition cloneCodecSpecificData ::
  "('i \<Rightarrow> bytes res) \<Rightarrow> (bytes \<Rightarrow> 'i option res) \<Rightarrow> 'i spec_data option \<Rightarrow> 'i spec_data res" where
  "cloneCodecSpecificData enc decf sdo = (case sdo of
     None \<Rightarrow> Inl (Errorf ''codec specific data is nil'')
   | Some sd \<Rightarrow> (case sd_Clone enc decf sd of
       Inl e \<Rightarrow> Inl (Wrapf ''failed to clone codec'' e) | Inr c \<Rightarrow> Inr c))"

datatype ProtectionType = ProtectionNone | ProtectionDRM | ProtectionECCP

record cenc_info =
  ci_key :: bytes
  ci_iv :: bytes

record drm_info =
  di_ContentProtections :: "content_protection list"
  di_cenc :: cenc_info

text \<open>A CTA-608 caption generator (\<^verbatim>\<open>internal/cc608\<close>); its content function maps a cue index
  and a start time in milliseconds to a cue.\<close>

record 'u generator =
  gen_enabled :: bool
  gen_channel :: int
  gen_lang :: string
  gen_content :: "int \<Rightarrow> int \<Rightarrow> 'u"

record ('i, 'p, 'u) content_track =
  ct_Name :: string
  ct_ContentType :: string
  ct_Language :: string
  ct_SampleBitrate :: u32
  ct_TimeScale :: u32
  ct_Duration :: u32
  ct_GopLength :: u32
  ct_SampleDur :: u32
  ct_NrSamples :: u32
  ct_LoopDur :: u32
  ct_SampleBatch :: int
  ct_Samples :: "full_sample list"
  ct_SpecData :: "'i spec_data option"
  ct_Protection :: ProtectionType
  ct_contentProtectionRefIDs :: "string list"
  ct_cenc :: "cenc_info option"
  ct_ipd :: "'p option"
  ct_currentIV :: "bytes option"
  ct_cc608 :: "'u generator option"

record ('i, 'p, 'u) track_group =
  tg_AltGroupID :: u32
  tg_Tracks :: "('i, 'p, 'u) content_track list"

datatype SubtitleFormat = SubtitleFormatWVTT | SubtitleFormatSTPP | SubtitleFormatOther string

record subtitle_data =
  sd_format :: SubtitleFormat
  sd_language :: string

record subtitle_track =
  st_Name :: string
  st_Format :: SubtitleFormat
  st_Language :: string
  st_TimeScale :: u32
  st_CueDurMS :: int
  st_Region :: int
  st_SpecData :: "subtitle_data option"

record ('i, 'p, 'u) asset =
  as_Name :: string
  as_Groups :: "('i, 'p, 'u) track_group list"
  as_LoopDurMS :: u32
  as_SubtitleTracks :: "subtitle_track list"
  as_Drm :: "drm_info option"
  as_Eccp :: "drm_info option"

record ('i, 'p, 'u) loc_track =
  lt_ContentTrack :: "('i, 'p, 'u) content_track"
  lt_SpatialLayer :: "av1_spatial_layer option"

text \<open>Go's zero values of the two structs the loader fills in.\<close>

definition zero_sample :: full_sample where
  "zero_sample = \<lparr>fs_Flags = 0, fs_Dur = 0, fs_Size = 0, fs_DecodeTime = 0, fs_Data = []\<rparr>"

definition zero_content_track :: "('i, 'p, 'u) content_track" where
  "zero_content_track = \<lparr>ct_Name = [], ct_ContentType = [], ct_Language = [], ct_SampleBitrate = 0,
     ct_TimeScale = 0, ct_Duration = 0, ct_GopLength = 0, ct_SampleDur = 0, ct_NrSamples = 0, ct_LoopDur = 0,
     ct_SampleBatch = 0, ct_Samples = [], ct_SpecData = None, ct_Protection = ProtectionNone,
     ct_contentProtectionRefIDs = [], ct_cenc = None, ct_ipd = None, ct_currentIV = None, ct_cc608 = None\<rparr>"

section \<open>Lookups by name\<close>

definition all_tracks :: "('i, 'p, 'u) asset \<Rightarrow> ('i, 'p, 'u) content_track list" where
  "all_tracks a = concat (map tg_Tracks (as_Groups a))"

fun asset_scan :: "('i, 'p, 'u) track_group list \<Rightarrow> string \<Rightarrow> ('i, 'p, 'u) content_track option" where
  "asset_scan [] n = None"
| "asset_scan (g # gs) n = (case first_named ct_Name (tg_Tracks g) n of
      Some ct \<Rightarrow> Some ct | None \<Rightarrow> asset_scan gs n)"

definition asset_GetTrackByName :: "('i, 'p, 'u) asset \<Rightarrow> string \<Rightarrow> ('i, 'p, 'u) content_track option" where
  "asset_GetTrackByName a n = asset_scan (as_Groups a) n"

definition GetSubtitleTrackByName :: "('i, 'p, 'u) asset \<Rightarrow> string \<Rightarrow> subtitle_track option" where
  "GetSubtitleTrackByName a n = first_named st_Name (as_SubtitleTracks a) n"

text \<open>The name of a spatial layer's track, \<^verbatim>\<open>fmt.Sprintf("%s/s%d", name, id)\<close>.\<close>

definition layer_name :: "string \<Rightarrow> nat \<Rightarrow> string" where
  "layer_name n k = n @ ''/s'' @ dec k"

fun find_layer :: "string \<Rightarrow> av1_spatial_layer list \<Rightarrow> string \<Rightarrow> av1_spatial_layer option" where
  "find_layer cn [] n = None"
| "find_layer cn (l # ls) n =
     (if n = layer_name cn (unat (sl_SpatialID l)) then Some l else find_layer cn ls n)"

definition spatial_layers_of :: "('i, 'p, 'u) content_track \<Rightarrow> av1_spatial_layer list" where
  "spatial_layers_of ct = (case ct_SpecData ct of Some (AV1Data ad) \<Rightarrow> a1_spatialLayers ad | _ \<Rightarrow> [])"

fun loc_scan :: "('i, 'p, 'u) content_track list \<Rightarrow> string \<Rightarrow> ('i, 'p, 'u) loc_track option" where
  "loc_scan [] n = None"
| "loc_scan (ct # cts) n =
     (if ct_Name ct = n then Some \<lparr>lt_ContentTrack = ct, lt_SpatialLayer = None\<rparr>
      else case find_layer (ct_Name ct) (spatial_layers_of ct) n of
             Some l \<Rightarrow> Some \<lparr>lt_ContentTrack = ct, lt_SpatialLayer = Some l\<rparr>
           | None \<Rightarrow> loc_scan cts n)"

definition GetLOCTrackByName :: "('i, 'p, 'u) asset \<Rightarrow> string \<Rightarrow> ('i, 'p, 'u) loc_track option" where
  "GetLOCTrackByName a n = loc_scan (all_tracks a) n"

lemma asset_scan_find: "asset_scan gs n = find (\<lambda>ct. ct_Name ct = n) (concat (map tg_Tracks gs))"
  by (induction gs) (auto simp: first_named_find find_append split: option.splits)

interpretation asset_lookup: named_lookup all_tracks ct_Name asset_GetTrackByName
  by unfold_locales (simp add: asset_GetTrackByName_def asset_scan_find all_tracks_def)

interpretation subtitle_lookup: named_lookup as_SubtitleTracks st_Name GetSubtitleTrackByName
  by unfold_locales (simp add: GetSubtitleTrackByName_def first_named_find)

end
