(* ===== verification/Loc_Object.thy ===== *)
theory Loc_Object
  imports Track_Model
begin

text \<open>
  LOC objects: what the publisher builds (\<^verbatim>\<open>internal/pub/pub.go\<close>, \<open>buildLOCObject\<close>,
  \<open>locFrameMarking\<close>, \<open>locPriority\<close>) and what the subscriber reads back
  (\<^verbatim>\<open>internal/sub/loc.go\<close>, \<open>getLOCFrameMarking\<close>, \<open>locTimestampMicros\<close>).
  \<open>kv\<close> is moqtransport's \<^verbatim>\<open>KeyValuePair\<close>, a header list is a \<^verbatim>\<open>KVPList\<close>. The
  lemmas give the round trip of the two-octet frame marking and the exactness of the
  overflow-avoiding timestamp conversion.
\<close>

record kv =
  kv_Type :: u64
  kv_ValueBytes :: bytes
  kv_ValueVarInt :: u64

definition locPropFrameMark :: u64 where "locPropFrameMark = 4"
definition locPropTimestamp :: u64 where "locPropTimestamp = 6"
definition MediaPriority :: u8 where "MediaPriority = 128"

definition kv_varint :: "u64 \<Rightarrow> u64 \<Rightarrow> kv" where
  "kv_varint t v = \<lparr>kv_Type = t, kv_ValueBytes = [], kv_ValueVarInt = v\<rparr>"

section \<open>The publisher's side\<close>

definition locPriority :: "u8 \<Rightarrow> u8" where
  "locPriority spatialID = MediaPriority + spatialID"

definition pub_locFrameMarking :: "u8 \<Rightarrow> bool \<Rightarrow> u64" where
  "pub_locFrameMarking spatialID indep =
     (let first = (if indep then 0xc0 OR 0x20 else 0xc0 :: u8)
      in push_bit 8 (ucast first) OR ucast spatialID)"

definition buildLOCObject ::
  "bytes \<Rightarrow> bool \<Rightarrow> u64 \<Rightarrow> u64 \<Rightarrow> bytes \<Rightarrow> av1_spatial_layer option \<Rightarrow> (kv list \<times> bytes) res" where
  "buildLOCObject dat sync sampleTime timebase videoConfig layer =
     (let spatialID = (case layer of None \<Rightarrow> 0 | Some l \<Rightarrow> sl_SpatialID l);
          payload = (if sync \<and> videoConfig \<noteq> [] \<and> (layer = None \<or> spatialID = 0)
                     then videoConfig @ dat else dat)
      in if timebase = 0 then Inl (Panic ''integer divide by zero'')
         else let timestampUs = (sampleTime div timebase) * 1000000
                                + (sampleTime mod timebase) * 1000000 div timebase;
                  headers = [kv_varint locPropTimestamp timestampUs] @
                    (case layer of None \<Rightarrow> []
                     | Some l \<Rightarrow> [kv_varint locPropFrameMark (pub_locFrameMarking spatialID sync)])
              in Inr (headers, payload))"

section \<open>The subscriber's side\<close>

record frame_marking =
  fm_Start :: bool
  fm_End :: bool
  fm_Independent :: bool
  fm_Discardable :: bool
  fm_BaseLayerSync :: bool
  fm_TemporalID :: u8
  fm_LayerID :: u8

definition zero_marking :: frame_marking where
  "zero_marking = \<lparr>fm_Start = False, fm_End = False, fm_Independent = False, fm_Discardable = False,
     fm_BaseLayerSync = False, fm_TemporalID = 0, fm_LayerID = 0\<rparr>"

text \<open>The three results of \<^verbatim>\<open>getLOCFrameMarking\<close>: marking, found, error.\<close>

fun getLOCFrameMarking :: "kv list \<Rightarrow> frame_marking \<times> bool \<times> go_error option" where
  "getLOCFrameMarking [] = (zero_marking, False, None)"
| "getLOCFrameMarking (h # hs) =
     (if kv_Type h \<noteq> locPropFrameMark then getLOCFrameMarking hs
      else if kv_ValueVarInt h > 0xffff
        then (zero_marking, True, Some (Errorf ''LOC frame marking exceeds two bytes''))
      else let flags = ucast (drop_bit 8 (kv_ValueVarInt h)) :: u8
        in (\<lparr>fm_Start = flags AND 0x80 \<noteq> 0, fm_End = flags AND 0x40 \<noteq> 0,
             fm_Independent = flags AND 0x20 \<noteq> 0, fm_Discardable = flags AND 0x10 \<noteq> 0,
             fm_BaseLayerSync = flags AND 0x08 \<noteq> 0, fm_TemporalID = flags AND 0x07,
             fm_LayerID = ucast (kv_ValueVarInt h)\<rparr>, True, None))"

fun locTimestampMicros :: "kv list \<Rightarrow> u64 \<times> bool" where
  "locTimestampMicros [] = (0, False)"
| "locTimestampMicros (h # hs) =
     (if kv_Type h = locPropTimestamp then (kv_ValueVarInt h, True) else locTimestampMicros hs)"

section \<open>Lemmas\<close>

lemma marking_value:
  "pub_locFrameMarking sid ind = (if ind then 0xe000 else 0xc000) OR ucast sid"
  by (simp add: pub_locFrameMarking_def)

lemma ucast_u8_high: "drop_bit 8 (ucast (sid :: u8) :: u64) = 0"
proof (rule bit_word_eqI)
  fix k assume "k < LENGTH(64)"
  show "bit (drop_bit 8 (ucast sid :: u64)) k \<longleftrightarrow> bit (0 :: u64) k"
    by (auto simp: bit_drop_bit_eq bit_ucast_iff dest: bit_imp_le_length)
qed

lemma ucast_u8_u64_u8: "ucast (ucast (sid :: u8) :: u64) = sid"
  by (rule bit_word_eqI) (simp add: bit_ucast_iff)

lemma marking_decode:
  "ucast (drop_bit 8 (pub_locFrameMarking sid ind)) = (if ind then 0xe0 else 0xc0 :: u8)"
  "ucast (pub_locFrameMarking sid ind) = sid"
  "pub_locFrameMarking sid ind \<le> 0xffff"
proof -
  show "ucast (drop_bit 8 (pub_locFrameMarking sid ind)) = (if ind then 0xe0 else 0xc0 :: u8)"
    by (simp add: marking_value drop_bit_or ucast_u8_high)
  have z: "(0xe000 :: u8) = 0" "(0xc000 :: u8) = 0" by simp_all
  show "ucast (pub_locFrameMarking sid ind) = sid"
    by (simp add: marking_value unsigned_or_eq ucast_u8_u64_u8 z)
  have "drop_bit 16 (pub_locFrameMarking sid ind) = 0"
  proof -
    have "drop_bit 16 (ucast sid :: u64) = drop_bit 8 (drop_bit 8 (ucast sid :: u64))" by simp
    then show ?thesis by (simp add: marking_value drop_bit_or ucast_u8_high)
  qed
  then have "unat (pub_locFrameMarking sid ind) div 2 ^ 16 = 0"
    by (metis drop_bit_eq_div unat_drop_bit_eq unsigned_0)
  then show "pub_locFrameMarking sid ind \<le> 0xffff"
    by (simp add: word_le_nat_alt div_eq_0_iff)
qed

text \<open>The division-first conversion to microseconds, where the result fits 64 bits.\<close>

lemma split_division: "(n div d) * (m :: nat) + (n mod d) * m div d = n * m div d"
proof (cases "d = 0")
  case False
  have "n * m = (n div d * m) * d + (n mod d) * m"
    by (metis div_mult_mod_eq distrib_right mult.assoc mult.commute)
  then show ?thesis using False by (metis div_mult_self3)
qed simp

lemma timestamp_nat:
  fixes st tb :: u64
  assumes tb: "0 < unat tb" "unat tb < 2 ^ 32" and fits: "unat st * 1000000 div unat tb < 2 ^ 64"
  shows "unat ((st div tb) * 1000000 + (st mod tb) * 1000000 div tb) = unat st * 1000000 div unat tb"
proof -
  have sum: "unat st div unat tb * 1000000 + unat st mod unat tb * 1000000 div unat tb < 2 ^ 64"
    using fits by (simp only: split_division)
  then have a: "unat (st div tb * 1000000) = unat st div unat tb * 1000000"
    using le_less_trans [OF le_add1 sum] by (simp add: unat_mult_lt unat_div)
  have "unat st mod unat tb * 1000000 < 2 ^ 32 * 1000000"
    using less_trans [OF mod_less_divisor [OF tb(1)] tb(2)] by simp
  then have "unat (st mod tb * 1000000) = unat st mod unat tb * 1000000"
    by (simp add: unat_mult_lt unat_mod)
  then have b: "unat (st mod tb * 1000000 div tb) = unat st mod unat tb * 1000000 div unat tb"
    by (simp add: unat_div)
  show ?thesis using sum by (simp add: unat_add_lt a b split_division)
qed

section \<open>Properties\<close>

text \<open>The frame marking the publisher writes is the one the subscriber reads: a start-and-end,
  non-discardable marking of temporal layer 0 with the sync flag as independence and the layer's
  spatial id, whatever the other headers before it are.\<close>

theorem frame_marking_roundtrip:
  "getLOCFrameMarking (kv_varint locPropTimestamp ts # kv_varint locPropFrameMark (pub_locFrameMarking sid ind) # hs)
   = (\<lparr>fm_Start = True, fm_End = True, fm_Independent = ind, fm_Discardable = False,
       fm_BaseLayerSync = False, fm_TemporalID = 0, fm_LayerID = sid\<rparr>, True, None)"
  using marking_decode [of sid ind]
  by (cases ind) (simp_all add: kv_varint_def locPropTimestamp_def locPropFrameMark_def Let_def not_less)

text \<open>A LOC object carries the exact media time. For a 32 bit time scale the timestamp header is
  the sample time in microseconds rounded down, computed without an intermediate overflow; the
  payload is the sample, preceded by the decoder configuration exactly on sync samples of an
  unlayered track or of the base layer.\<close>

theorem buildLOCObject_timestamp:
  assumes "timebase \<noteq> 0" and "unat timebase < 2 ^ 32"
    and "unat sampleTime * 1000000 div unat timebase < 2 ^ 64"
  shows "\<exists>hs payload ts. buildLOCObject dat sync sampleTime timebase cfg layer = Inr (hs, payload) \<and>
     locTimestampMicros hs = (ts, True) \<and> unat ts = unat sampleTime * 1000000 div unat timebase \<and>
     payload = (if sync \<and> (case layer of None \<Rightarrow> True | Some l \<Rightarrow> sl_SpatialID l = 0) then cfg @ dat else dat)"
  using assms(1) timestamp_nat [OF _ assms(2,3)]
  by (auto simp: buildLOCObject_def Let_def kv_varint_def unat_gt_0 split: option.splits)

theorem buildLOCObject_timestamp_witness:
  "\<exists>hs payload ts. buildLOCObject [1] True 6300000000000000 90000 [9] None = Inr (hs, payload) \<and>
     locTimestampMicros hs = (ts, True) \<and> unat ts = 70000000000000000 \<and> payload = [9, 1]"
  using buildLOCObject_timestamp [of 90000 6300000000000000 "[1]" True "[9]" None] by simp

text \<open>Lower spatial layers are sent with a more urgent (smaller) priority, for the 128 ids the
  priority byte has room for.\<close>

theorem locPriority_strict:
  assumes "i < j" and "j < 128"
  shows "locPriority i < locPriority j"
proof -
  have "unat i < unat j" "unat j < 128" using assms by (simp_all add: word_less_nat_alt)
  then have "unat (128 + i) = 128 + unat i" "unat (128 + j) = 128 + unat j"
    by (simp_all add: unat_add_lt)
  then show ?thesis using \<open>unat i < unat j\<close> by (simp add: locPriority_def MediaPriority_def word_less_nat_alt)
qed

theorem locPriority_strict_witness: "locPriority 0 < locPriority 2"
  using locPriority_strict [of 0 2] by simp

end
