(* ===== verification/Playback.thy ===== *)
theory Playback
  imports Loc_Object
begin

text \<open>
  The simulated player of the native subscriber, \<^verbatim>\<open>internal/sub/playback.go\<close>: the units that
  wait for presentation, the layer that is played (\<open>np_active\<close>), the start, switch and stall
  rules, the deadlines that drive the run loop and the metrics it samples. One definition per
  method, on the record \<open>native_playback\<close>; the mutex makes every method one atomic step, so
  the run loop and the receiving goroutines are the step relation of theory
  \<^verbatim>\<open>Playback_Inv\<close>.

  Instants are nanoseconds since the epoch (int), \<^verbatim>\<open>time.Duration\<close> is a 64 bit signed
  number of nanoseconds (\<open>dur64\<close> wraps, \<open>time_Sub\<close> saturates, as Go's do) and a
  \<^verbatim>\<open>time.Time\<close> that may be the zero value is an option. The Go map of pending units is a list
  of units with distinct keys and the map of layers an association list, both in an unspecified
  order; the operations are shown not to depend on it.
\<close>

section \<open>Data\<close>

record playback_track =
  pt_name :: string
  pt_spatialID :: int
  pt_width :: "int option"
  pt_height :: "int option"
  pt_bitrate :: int

record playback_layer =
  pl_timestampUs :: u64
  pl_independent :: bool
  pl_bytes :: int

record unit_key =
  uk_group :: u64
  uk_object :: u64

record playback_unit =
  un_key :: unit_key
  un_layers :: "(nat \<times> playback_layer) list"
  un_invalidFrom :: nat

record timed_bytes =
  tb_at :: int
  tb_bytes :: int

text \<open>The values of the string fields \<^verbatim>\<open>state\<close> and \<^verbatim>\<open>switchState\<close>.\<close>

datatype play_state = Receiving | Starting | Buffering | Playing | Stalled

datatype switch_state = Stable | Waiting_independent

record native_playback =
  np_tracks :: "playback_track list"
  np_trackIndex :: "(string \<times> nat) list"
  np_target :: int
  np_active :: int
  np_valid :: "bool list"
  np_pending :: "playback_unit list"
  np_simulated :: bool
  np_minimalBuffer :: int
  np_targetLatency :: int
  np_metricsPath :: string
  np_state :: play_state
  np_switchState :: switch_state
  np_started :: bool
  np_lastPresented :: "u64 option"
  np_lastPresentedAt :: "int option"
  np_stallStarted :: "int option"
  np_stallCount :: int
  np_stallDuration :: int
  np_received :: "timed_bytes list"
  np_played :: "timed_bytes list"
  np_wake :: bool

definition maxPendingUnits :: nat where "maxPendingUnits = 64"

definition zero_layer :: playback_layer where
  "zero_layer = \<lparr>pl_timestampUs = 0, pl_independent = False, pl_bytes = 0\<rparr>"

section \<open>Time\<close>

definition dur64 :: "int \<Rightarrow> int" where
  "dur64 x = sint (of_int x :: u64)"

definition micros :: "u64 \<Rightarrow> int" where
  "micros d = sint (d * 1000)"

definition time_Sub :: "int \<Rightarrow> int \<Rightarrow> int" where
  "time_Sub a b = max (- (2 ^ 63)) (min (2 ^ 63 - 1) (a - b))"

definition UnixMicro :: "u64 \<Rightarrow> int" where
  "UnixMicro t = sint t * 1000"

section \<open>Construction\<close>

definition to_lower :: "string \<Rightarrow> string" where
  "to_lower s = map (\<lambda>c. if CHR ''A'' \<le> c \<and> c \<le> CHR ''Z'' then char_of (of_char c + 32 :: nat) else c) s"

fun add_tracks :: "catalog \<Rightarrow> bool \<Rightarrow> nat \<Rightarrow> string list \<Rightarrow> native_playback \<Rightarrow> native_playback res" where
  "add_tracks c simulated i [] p = Inr p"
| "add_tracks c simulated i (name # names) p = (case GetTrackByName c name of
      None \<Rightarrow> Inl (Errorf ''video dependency track not found'')
    | Some t \<Rightarrow> if simulated \<and> (tr_Packaging t \<noteq> ''loc'' \<or> \<not> has_prefix (to_lower (tr_Codec t)) ''av01'')
        then Inl (Errorf ''simulated playback requires LOC AV1 track'')
        else let spatialID = (case tr_SpatialID t of None \<Rightarrow> int i | Some s \<Rightarrow> s);
                 bitrate = (case tr_Bitrate t of None \<Rightarrow> 0 | Some b \<Rightarrow> b)
             in add_tracks c simulated (Suc i) names
                  (p\<lparr>np_tracks := np_tracks p @ [\<lparr>pt_name = name, pt_spatialID = spatialID,
                       pt_width = tr_Width t, pt_height = tr_Height t, pt_bitrate = bitrate\<rparr>],
                     np_trackIndex := AList.update name i (np_trackIndex p)\<rparr>))"

definition newNativePlayback ::
  "catalog \<Rightarrow> string list \<Rightarrow> string \<Rightarrow> bool \<Rightarrow> int \<Rightarrow> int \<Rightarrow> string \<Rightarrow> native_playback res" where
  "newNativePlayback c names targetName simulated minimalBuffer targetLatency metricsPath =
     (if names = [] then Inl (Errorf ''empty video dependency chain'')
      else if simulated \<and> (minimalBuffer < 0 \<or> targetLatency \<le> minimalBuffer)
        then Inl (Errorf ''target latency must exceed non-negative minimum buffer'')
      else case add_tracks c simulated 0 names
          \<lparr>np_tracks = [], np_trackIndex = [], np_target = int (length names) - 1, np_active = -1,
           np_valid = replicate (length names) False, np_pending = [], np_simulated = simulated,
           np_minimalBuffer = minimalBuffer, np_targetLatency = targetLatency, np_metricsPath = metricsPath,
           np_state = (if simulated then Starting else Receiving), np_switchState = Stable,
           np_started = False, np_lastPresented = None, np_lastPresentedAt = None, np_stallStarted = None,
           np_stallCount = 0, np_stallDuration = 0, np_received = [], np_played = [], np_wake = False\<rparr> of
        Inl e \<Rightarrow> Inl e
      | Inr p \<Rightarrow> if pt_name (np_tracks p ! nat (np_target p)) \<noteq> targetName
          then Inl (Errorf ''target track is not the dependency-chain tip'') else Inr p)"

section \<open>Pending units\<close>

definition layer_at :: "playback_unit \<Rightarrow> nat \<Rightarrow> playback_layer" where
  "layer_at u i = (case map_of (un_layers u) i of Some l \<Rightarrow> l | None \<Rightarrow> zero_layer)"

text \<open>\<^verbatim>\<open>timestamp\<close>: the scan over the layer map keeps the lowest index seen so far.\<close>

fun ts_scan :: "(nat \<times> playback_layer) list \<Rightarrow> (nat \<times> u64) option \<Rightarrow> (nat \<times> u64) option" where
  "ts_scan [] acc = acc"
| "ts_scan ((i, l) # ls) acc = ts_scan ls
     (case acc of None \<Rightarrow> Some (i, pl_timestampUs l)
      | Some (lowest, t) \<Rightarrow> if i < lowest then Some (i, pl_timestampUs l) else Some (lowest, t))"

definition timestamp :: "playback_unit \<Rightarrow> u64 option" where
  "timestamp u = map_option snd (ts_scan (un_layers u) None)"

definition unit_less :: "playback_unit \<Rightarrow> playback_unit \<Rightarrow> bool" where
  "unit_less x y =
     (let a = timestamp x; b = timestamp y
      in if a \<noteq> None \<and> b \<noteq> None \<and> a \<noteq> b then the a < the b
         else if (a \<noteq> None) \<noteq> (b \<noteq> None) then a \<noteq> None
         else if uk_group (un_key x) \<noteq> uk_group (un_key y) then uk_group (un_key x) < uk_group (un_key y)
         else uk_object (un_key x) < uk_object (un_key y))"

definition sortedUnits :: "native_playback \<Rightarrow> playback_unit list" where
  "sortedUnits p = sort_slice unit_less (np_pending p)"

definition delete_unit :: "unit_key \<Rightarrow> playback_unit list \<Rightarrow> playback_unit list" where
  "delete_unit k us = filter (\<lambda>u. un_key u \<noteq> k) us"

lemma delete_unit_length: "u \<in> set us \<Longrightarrow> length (delete_unit (un_key u) us) < length us"
  by (auto simp: delete_unit_def intro: length_filter_less)

function trimPending :: "native_playback \<Rightarrow> native_playback" where
  "trimPending p = (if length (np_pending p) > maxPendingUnits
     then trimPending (p\<lparr>np_pending := delete_unit (un_key (hd (sortedUnits p))) (np_pending p)\<rparr>)
     else p)"
  by auto
termination
proof (relation "measure (\<lambda>p :: native_playback. length (np_pending p))", simp)
  fix p :: native_playback
  assume "length (np_pending p) > maxPendingUnits"
  then have "sortedUnits p \<noteq> []" by (metis length_sort_slice list.size(3) not_less_zero sortedUnits_def)
  then have "hd (sortedUnits p) \<in> set (np_pending p)" by (metis hd_in_set set_sort_slice sortedUnits_def)
  from delete_unit_length [OF this]
  show "(p\<lparr>np_pending := delete_unit (un_key (hd (sortedUnits p))) (np_pending p)\<rparr>, p)
        \<in> measure (\<lambda>p :: native_playback. length (np_pending p))" by simp
qed

declare trimPending.simps [simp del]

text \<open>\<^verbatim>\<open>nextUnit\<close> drops the units that are not newer than the last presented one.\<close>

fun next_scan :: "u64 option \<Rightarrow> playback_unit list \<Rightarrow> playback_unit list \<Rightarrow>
    playback_unit list \<times> playback_unit option" where
  "next_scan lp [] pend = (pend, None)"
| "next_scan lp (u # us) pend = (case timestamp u of
      None \<Rightarrow> next_scan lp us pend
    | Some t \<Rightarrow> if lp = None \<or> t > the lp then (pend, Some u)
        else next_scan lp us (delete_unit (un_key u) pend))"

definition nextUnit :: "native_playback \<Rightarrow> native_playback \<times> playback_unit option" where
  "nextUnit p = (case next_scan (np_lastPresented p) (sortedUnits p) (np_pending p) of
     (pend, r) \<Rightarrow> (p\<lparr>np_pending := pend\<rparr>, r))"

text \<open>\<^verbatim>\<open>completePrefix\<close>: the highest layer up to which all layers are present and agree with the
  base layer; -1 for none.\<close>

fun prefix_scan :: "playback_unit \<Rightarrow> playback_layer \<Rightarrow> nat \<Rightarrow> nat \<Rightarrow> int" where
  "prefix_scan u base i 0 = int i - 1"
| "prefix_scan u base i (Suc n) = (case map_of (un_layers u) i of
      None \<Rightarrow> int i - 1
    | Some l \<Rightarrow> if pl_timestampUs l \<noteq> pl_timestampUs base \<or> pl_independent l \<noteq> pl_independent base
        then int i - 1 else prefix_scan u base (Suc i) n)"

definition completePrefix :: "native_playback \<Rightarrow> playback_unit \<Rightarrow> int \<times> bool" where
  "completePrefix p u = (if un_invalidFrom u = 0 then (-1, False)
     else case map_of (un_layers u) 0 of
       None \<Rightarrow> (-1, False)
     | Some base \<Rightarrow> (prefix_scan u base 0 (min (length (np_tracks p)) (un_invalidFrom u)), pl_independent base))"

text \<open>The loop of \<^verbatim>\<open>bufferFor\<close>; pending units are identified by their keys.\<close>

fun buffer_scan :: "native_playback \<Rightarrow> unit_key \<Rightarrow> u64 \<Rightarrow> int \<Rightarrow> bool \<Rightarrow> u64 \<Rightarrow> playback_unit list \<Rightarrow> u64" where
  "buffer_scan p first start prefix seen latest [] = latest"
| "buffer_scan p first start prefix seen latest (u # us) = (case timestamp u of
      None \<Rightarrow> buffer_scan p first start prefix seen latest us
    | Some t \<Rightarrow> if t < start then buffer_scan p first start prefix seen latest us
        else let seen' = (seen \<or> un_key u = first)
             in if \<not> seen' then buffer_scan p first start prefix seen' latest us
                else case map_of (un_layers u) 0 of
                  None \<Rightarrow> latest
                | Some base \<Rightarrow> if fst (completePrefix p u) < prefix then latest
                    else buffer_scan p first start prefix seen' (pl_timestampUs base) us)"

definition bufferFor :: "native_playback \<Rightarrow> playback_unit \<Rightarrow> int \<Rightarrow> int" where
  "bufferFor p first prefix =
     (let start = pl_timestampUs (layer_at first 0)
      in micros (buffer_scan p (un_key first) start prefix False start (sortedUnits p) - start))"

section \<open>Arrival\<close>

definition notifyPlayback :: "native_playback \<Rightarrow> native_playback" where
  "notifyPlayback p = p\<lparr>np_wake := True\<rparr>"

definition validPlaybackMarking :: "frame_marking \<Rightarrow> int \<Rightarrow> bool" where
  "validPlaybackMarking m spatialID \<longleftrightarrow> fm_Start m \<and> fm_End m \<and> \<not> fm_Discardable m \<and>
     \<not> fm_BaseLayerSync m \<and> fm_TemporalID m = 0 \<and> int (unat (fm_LayerID m)) = spatialID"

fun find_unit :: "unit_key \<Rightarrow> playback_unit list \<Rightarrow> playback_unit option" where
  "find_unit k [] = None"
| "find_unit k (u # us) = (if un_key u = k then Some u else find_unit k us)"

text \<open>The unit behind the pointer is updated in place: the first unit with the key, or a new one.\<close>

fun put_unit :: "playback_unit \<Rightarrow> playback_unit list \<Rightarrow> playback_unit list" where
  "put_unit v [] = [v]"
| "put_unit v (u # us) = (if un_key u = un_key v then v # us else u # put_unit v us)"

definition add_layer :: "nat \<Rightarrow> playback_layer \<Rightarrow> playback_unit \<Rightarrow> playback_unit" where
  "add_layer i l u = (case map_of (un_layers u) i of
     Some previous \<Rightarrow> if previous \<noteq> l \<and> i < un_invalidFrom u then u\<lparr>un_invalidFrom := i\<rparr> else u
   | None \<Rightarrow> u\<lparr>un_layers := (i, l) # un_layers u\<rparr>)"

definition new_unit :: "native_playback \<Rightarrow> unit_key \<Rightarrow> playback_unit" where
  "new_unit p k = \<lparr>un_key = k, un_layers = [], un_invalidFrom = length (np_tracks p)\<rparr>"

definition file_layer :: "native_playback \<Rightarrow> unit_key \<Rightarrow> nat \<Rightarrow> playback_layer \<Rightarrow> native_playback" where
  "file_layer p k i l =
     (let u = (case find_unit k (np_pending p) of Some u \<Rightarrow> u | None \<Rightarrow> new_unit p k)
      in trimPending (p\<lparr>np_pending := put_unit (add_layer i l u) (np_pending p)\<rparr>))"

definition addObject ::
  "native_playback \<Rightarrow> string \<Rightarrow> u64 \<Rightarrow> u64 \<Rightarrow> kv list \<Rightarrow> int \<Rightarrow> int \<Rightarrow> native_playback" where
  "addObject p trackName grp obj headers sz now =
     (let p1 = p\<lparr>np_received := np_received p @ [\<lparr>tb_at = now, tb_bytes = sz\<rparr>]\<rparr>
      in if \<not> np_simulated p then p1
         else notifyPlayback (case map_of (np_trackIndex p) trackName of
           None \<Rightarrow> p1
         | Some index \<Rightarrow>
             (case (locTimestampMicros headers, getLOCFrameMarking headers) of
                ((ts, hasTs), (marking, hasMarking, err)) \<Rightarrow>
                  if err \<noteq> None \<or> \<not> hasTs \<or> \<not> hasMarking \<or>
                     \<not> validPlaybackMarking marking (pt_spatialID (np_tracks p ! index))
                  then p1
                  else file_layer p1 \<lparr>uk_group = grp, uk_object = obj\<rparr> index
                         \<lparr>pl_timestampUs = ts, pl_independent = fm_Independent marking, pl_bytes = sz\<rparr>)))"

section \<open>Presentation\<close>

definition enterStall :: "int \<Rightarrow> native_playback \<Rightarrow> native_playback" where
  "enterStall now p = (if np_state p = Stalled then p
     else p\<lparr>np_state := Stalled, np_stallCount := np_stallCount p + 1, np_stallStarted := Some now\<rparr>)"

definition leaveStall :: "int \<Rightarrow> native_playback \<Rightarrow> native_playback" where
  "leaveStall now p = (case np_stallStarted p of None \<Rightarrow> p
     | Some s \<Rightarrow> p\<lparr>np_stallDuration := dur64 (np_stallDuration p + time_Sub now s), np_stallStarted := None\<rparr>)"

definition present :: "playback_unit \<Rightarrow> int \<Rightarrow> native_playback \<Rightarrow> native_playback" where
  "present u now p =
     (let bytes = sum_list (map (\<lambda>i. pl_bytes (layer_at u i)) [0..<nat (np_active p + 1)])
      in p\<lparr>np_played := np_played p @ [\<lparr>tb_at = now, tb_bytes = bytes\<rparr>],
           np_lastPresented := Some (pl_timestampUs (layer_at u 0)), np_lastPresentedAt := Some now,
           np_pending := delete_unit (un_key u) (np_pending p), np_started := True, np_state := Playing,
           np_switchState := (if np_active p < np_target p then Waiting_independent else Stable)\<rparr>)"

definition presentationDeadline :: "native_playback \<Rightarrow> u64 \<Rightarrow> int" where
  "presentationDeadline p t =
     (case (np_started p, np_lastPresented p, np_lastPresentedAt p) of
        (True, Some lp, Some lpAt) \<Rightarrow> if t \<le> lp then lpAt else lpAt + micros (t - lp)
      | _ \<Rightarrow> UnixMicro t + np_targetLatency p)"

text \<open>\<^verbatim>\<open>for i := lo; i < hi; i++ { valid[i] = b }\<close>\<close>

definition set_range :: "int \<Rightarrow> int \<Rightarrow> bool \<Rightarrow> bool list \<Rightarrow> bool list" where
  "set_range lo hi b vs = map (\<lambda>i. if lo \<le> int i \<and> int i < hi then b else vs ! i) [0..<length vs]"

function lower_active :: "bool list \<Rightarrow> int \<Rightarrow> int \<Rightarrow> int" where
  "lower_active valid prefix a =
     (if 0 \<le> a \<and> (a > prefix \<or> \<not> valid ! nat a) then lower_active valid prefix (a - 1) else a)"
  by auto
termination by (relation "measure (\<lambda>(v, pr, a). nat (a + 1))") auto

declare lower_active.simps [simp del]

text \<open>One turn of the loop of \<^verbatim>\<open>advance\<close> up to the stall test: the layers that stay decodable.\<close>

definition switch_layers :: "int \<Rightarrow> bool \<Rightarrow> native_playback \<Rightarrow> native_playback" where
  "switch_layers prefix indep p =
     (let v1 = (if prefix < np_active p then set_range (prefix + 1) (int (length (np_valid p))) False (np_valid p)
                else np_valid p)
      in if indep then p\<lparr>np_valid := set_range 0 (prefix + 1) True v1, np_active := prefix\<rparr>
         else p\<lparr>np_valid := v1, np_active := lower_active v1 prefix (np_active p)\<rparr>)"

datatype turn = Return native_playback | Again native_playback

definition advance_turn :: "int \<Rightarrow> native_playback \<Rightarrow> turn" where
  "advance_turn now p = (case nextUnit p of
     (p1, None) \<Rightarrow> Return p1
   | (p1, Some u) \<Rightarrow> (case timestamp u of
       None \<Rightarrow> Return p1
     | Some t \<Rightarrow> if now < presentationDeadline p1 t then Return p1
         else case completePrefix p1 u of (prefix, indep) \<Rightarrow>
           let p2 = switch_layers prefix indep p1
           in if np_active p2 < 0 then Return ((enterStall now p2)\<lparr>np_switchState := Waiting_independent\<rparr>)
              else Again (present u now p2)))"

lemma next_scan_filter: "\<exists>K. fst (next_scan lp us pend) = filter (\<lambda>u. un_key u \<notin> K) pend"
proof (induction us arbitrary: pend)
  case Nil
  show ?case by (auto intro: exI [of _ "{}"])
next
  case (Cons u us)
  show ?case
  proof (cases "\<exists>t. timestamp u = Some t \<and> (lp = None \<or> t > the lp)")
    case True
    then show ?thesis by (auto intro: exI [of _ "{}"])
  next
    case False
    have "\<exists>K. fst (next_scan lp us (delete_unit (un_key u) pend)) = filter (\<lambda>v. un_key v \<notin> insert (un_key u) K) pend"
      using Cons [of "delete_unit (un_key u) pend"] by (auto simp: delete_unit_def conj_commute)
    then have "\<exists>K. fst (next_scan lp us (delete_unit (un_key u) pend)) = filter (\<lambda>v. un_key v \<notin> K) pend" by blast
    with False Cons [of pend] show ?thesis by (auto split: option.splits)
  qed
qed

lemma next_scan_mem: "snd (next_scan lp us pend) = Some u \<Longrightarrow> u \<in> set us"
  by (induction lp us pend rule: next_scan.induct) (auto split: option.splits if_splits)

lemma nextUnit_shrinks:
  assumes "nextUnit p = (p1, Some u)"
  shows "length (delete_unit (un_key u) (np_pending p1)) < length (np_pending p)"
proof -
  obtain K where Q: "np_pending p1 = filter (\<lambda>u. un_key u \<notin> K) (np_pending p)" and u: "u \<in> set (np_pending p)"
    using assms next_scan_filter [of "np_lastPresented p" "sortedUnits p" "np_pending p"]
      next_scan_mem [of "np_lastPresented p" "sortedUnits p" "np_pending p" u]
    by (auto simp: nextUnit_def sortedUnits_def split: prod.splits)
  show ?thesis
  proof (cases "u \<in> set (np_pending p1)")
    case True
    from delete_unit_length [OF this] show ?thesis
      using length_filter_le [of _ "np_pending p"] unfolding Q by (rule less_le_trans)
  next
    case False
    with u have "length (np_pending p1) < length (np_pending p)" unfolding Q by (auto intro: length_filter_less)
    moreover have "length (delete_unit (un_key u) (np_pending p1)) \<le> length (np_pending p1)"
      by (simp add: delete_unit_def)
    ultimately show ?thesis by (rule le_less_trans [rotated])
  qed
qed

lemma switch_layers_pending [simp]: "np_pending (switch_layers pr ind p) = np_pending p"
  by (simp add: switch_layers_def Let_def)

lemma advance_turn_shrinks: "advance_turn now p = Again p' \<Longrightarrow> length (np_pending p') < length (np_pending p)"
  by (auto simp: advance_turn_def Let_def present_def dest!: nextUnit_shrinks
      split: prod.splits option.splits if_splits)

function advance_loop :: "int \<Rightarrow> native_playback \<Rightarrow> native_playback" where
  "advance_loop now p = (case advance_turn now p of Return p' \<Rightarrow> p' | Again p' \<Rightarrow> advance_loop now p')"
  by auto
termination
  by (relation "measure (\<lambda>(now, p). length (np_pending p))") (auto dest: advance_turn_shrinks)

declare advance_loop.simps [simp del]

fun tryStart_scan :: "int \<Rightarrow> playback_unit list \<Rightarrow> native_playback \<Rightarrow> native_playback" where
  "tryStart_scan now [] p = (if np_started p then (enterStall now p)\<lparr>np_switchState := Waiting_independent\<rparr>
     else p\<lparr>np_state := Buffering\<rparr>)"
| "tryStart_scan now (u # us) p = (case completePrefix p u of (prefix, indep) \<Rightarrow>
     if \<not> indep \<or> prefix < 0 \<or> bufferFor p u prefix < np_minimalBuffer p then tryStart_scan now us p
     else if now < UnixMicro (pl_timestampUs (layer_at u 0)) + np_targetLatency p then p\<lparr>np_state := Buffering\<rparr>
     else present u now (leaveStall now
            (p\<lparr>np_valid := set_range 0 (prefix + 1) True (np_valid p), np_active := prefix\<rparr>)))"

definition tryStart :: "int \<Rightarrow> native_playback \<Rightarrow> native_playback" where
  "tryStart now p = tryStart_scan now (sortedUnits p) p"

definition advance :: "int \<Rightarrow> native_playback \<Rightarrow> native_playback" where
  "advance now p = (if \<not> np_simulated p then p
     else if np_active p < 0 then tryStart now p else advance_loop now p)"

text \<open>\<^verbatim>\<open>nextAdvanceDeadline\<close>; its \<^verbatim>\<open>nextUnit\<close> call also drops stale units.\<close>

fun start_scan :: "native_playback \<Rightarrow> playback_unit list \<Rightarrow> int option" where
  "start_scan p [] = None"
| "start_scan p (u # us) = (case completePrefix p u of (prefix, indep) \<Rightarrow>
     if \<not> indep \<or> prefix < 0 \<or> bufferFor p u prefix < np_minimalBuffer p then start_scan p us
     else Some (UnixMicro (pl_timestampUs (layer_at u 0)) + np_targetLatency p))"

definition nextAdvanceDeadline :: "native_playback \<Rightarrow> native_playback \<times> int option" where
  "nextAdvanceDeadline p = (if \<not> np_simulated p then (p, None)
     else if 0 \<le> np_active p
       then (case nextUnit p of (p1, None) \<Rightarrow> (p1, None)
             | (p1, Some u) \<Rightarrow> (p1, map_option (presentationDeadline p1) (timestamp u)))
     else (p, start_scan p (sortedUnits p)))"

section \<open>Metrics\<close>

fun trimByteWindow :: "timed_bytes list \<Rightarrow> int \<Rightarrow> timed_bytes list" where
  "trimByteWindow [] now = []"
| "trimByteWindow (s # ss) now = (if tb_at s < now - 1000000000 then trimByteWindow ss now else s # ss)"

definition byteRate :: "timed_bytes list \<Rightarrow> f64" where
  "byteRate ss = f64_of_int (sum_list (map tb_bytes ss) * 8)"

definition playheadTimestamp :: "native_playback \<Rightarrow> int \<Rightarrow> u64" where
  "playheadTimestamp p now = (case (np_lastPresented p, np_lastPresentedAt p) of
     (Some lp, Some lpAt) \<Rightarrow>
       (let until = (case np_stallStarted p of Some s \<Rightarrow> if s < now then s else now | None \<Rightarrow> now);
            elapsed = time_Sub until lpAt
        in if elapsed \<le> 0 then lp else lp + of_int (elapsed div 1000))
   | _ \<Rightarrow> 0)"

fun ahead_scan :: "native_playback \<Rightarrow> u64 \<Rightarrow> playback_unit list \<Rightarrow> u64" where
  "ahead_scan p latest [] = latest"
| "ahead_scan p latest (u # us) = (case timestamp u of
      None \<Rightarrow> ahead_scan p latest us
    | Some t \<Rightarrow> if t \<le> latest then ahead_scan p latest us
        else case map_of (un_layers u) 0 of
          None \<Rightarrow> latest
        | Some base \<Rightarrow> if fst (completePrefix p u) < np_active p then latest
            else ahead_scan p (pl_timestampUs base) us)"

definition bufferAhead :: "native_playback \<Rightarrow> int \<Rightarrow> int" where
  "bufferAhead p now = (case np_lastPresented p of
     None \<Rightarrow> 0
   | Some lp \<Rightarrow> if np_active p < 0 then 0
       else let latest = ahead_scan p lp (sortedUnits p); playhead = playheadTimestamp p now
            in if latest \<le> playhead then 0 else micros (latest - playhead))"

record playback_metrics =
  pm_SampledAtUnixMS :: int
  pm_Simulated :: bool
  pm_State :: play_state
  pm_TargetTrack :: string
  pm_ActiveTrack :: "string option"
  pm_SwitchState :: switch_state
  pm_Quality :: "(int \<times> int option \<times> int option) option"
  pm_E2ELatencyMS :: "f64 option"
  pm_PlayerBitrateBPS :: "f64 option"
  pm_ReceiveBitrateBPS :: f64
  pm_CatalogBitrateBPS :: "int option"
  pm_BufferLevelMS :: "f64 option"
  pm_PlaybackRate :: "f64 option"
  pm_StallCount :: int
  pm_StallDurationMS :: f64

definition snapshot :: "native_playback \<Rightarrow> int \<Rightarrow> native_playback \<times> playback_metrics" where
  "snapshot p0 now =
     (let p = p0\<lparr>np_received := trimByteWindow (np_received p0) now,
                 np_played := trimByteWindow (np_played p0) now\<rparr>;
          msOf = (\<lambda>d. f64_div (f64_of_int d) (f64_of_int 1000000));
          stallMS = msOf (np_stallDuration p);
          on = np_simulated p \<and> 0 \<le> np_active p;
          trk = np_tracks p ! nat (np_active p);
          latency = map_option (\<lambda>lp. f64_div (f64_of_int (dur64 (now div 1000 - sint lp))) (f64_of_int 1000))
                      (np_lastPresented p)
      in (p, \<lparr>pm_SampledAtUnixMS = now div 1000000, pm_Simulated = np_simulated p, pm_State = np_state p,
             pm_TargetTrack = pt_name (np_tracks p ! nat (np_target p)),
             pm_ActiveTrack = (if on then Some (pt_name trk) else None),
             pm_SwitchState = np_switchState p,
             pm_Quality = (if on then Some (pt_spatialID trk, pt_width trk, pt_height trk) else None),
             pm_E2ELatencyMS = (if \<not> np_simulated p then None
                else case latency of Some l \<Rightarrow> if 0 \<le> l then Some l else None | None \<Rightarrow> None),
             pm_PlayerBitrateBPS = (if np_simulated p then Some (byteRate (np_played p)) else None),
             pm_ReceiveBitrateBPS = byteRate (np_received p),
             pm_CatalogBitrateBPS = (if on then Some (sum_list (map (\<lambda>i. pt_bitrate (np_tracks p ! i))
                [0..<nat (np_active p + 1)])) else None),
             pm_BufferLevelMS = (if on then Some (msOf (bufferAhead p now)) else None),
             pm_PlaybackRate = (if np_simulated p then Some 1 else None),
             pm_StallCount = np_stallCount p,
             pm_StallDurationMS = (case np_stallStarted p of None \<Rightarrow> stallMS
                | Some s \<Rightarrow> f64_add stallMS (msOf (time_Sub now s)))\<rparr>))"

text \<open>\<^verbatim>\<open>writeMetrics\<close>: the state change and the metrics handed to the JSON file writer, if any.\<close>

definition writeMetrics :: "native_playback \<Rightarrow> int \<Rightarrow> native_playback \<times> playback_metrics option" where
  "writeMetrics p now = (if np_metricsPath p = [] then (p, None)
     else case snapshot p now of (p', m) \<Rightarrow> (p', Some m))"

end
