(* ===== verification/Playback_Inv.thy ===== *)
theory Playback_Inv
  imports Playback
begin

text \<open>
  Invariants of the simulated player and the laws of its methods. The comparison of
  \<^verbatim>\<open>sortedUnits\<close> is a strict order that is total on unit keys, so the order of the Go map
  never shows (interpretation \<open>unit_order\<close>); the array of valid layers is exactly the set of
  layers up to the active one, so that \<open>switch_layers\<close> refines the two-line rule
  \<open>quality_after\<close>; the invariant \<open>pb_wf\<close> holds in every state the run loop and the
  receivers can reach (\<open>pb_reach\<close>).
\<close>

section \<open>The order of units\<close>

lemma unit_key_eqI: "uk_group a = uk_group b \<Longrightarrow> uk_object a = uk_object b \<Longrightarrow> a = (b :: unit_key)"
  by simp

interpretation unit_order: keyed_order unit_less un_key
proof
  fix a b c :: playback_unit
  show "\<not> unit_less a a" by (simp add: unit_less_def Let_def)
  show "unit_less a b \<Longrightarrow> unit_less b c \<Longrightarrow> unit_less a c"
    by (cases "timestamp a"; cases "timestamp b"; cases "timestamp c")
      (auto simp: unit_less_def Let_def split: if_splits)
  show "un_key a \<noteq> un_key b \<Longrightarrow> unit_less a b \<or> unit_less b a"
    by (cases "timestamp a"; cases "timestamp b")
      (auto simp: unit_less_def Let_def not_less dest: unit_key_eqI split: if_splits)
qed

lemma set_sortedUnits [simp]: "set (sortedUnits p) = set (np_pending p)"
  by (simp add: sortedUnits_def)

lemma unit_less_ts: "unit_less x y \<Longrightarrow> timestamp x = Some a \<Longrightarrow> timestamp y = Some b \<Longrightarrow> a \<le> b"
  by (auto simp: unit_less_def Let_def split: if_splits)

section \<open>Timestamps and prefixes\<close>

lemma ts_scan_min:
  "ts_scan ls acc = Some (j, t) \<Longrightarrow>
     (acc = Some (j, t) \<or> (\<exists>l. (j, l) \<in> set ls \<and> t = pl_timestampUs l)) \<and>
     (\<forall>i \<in> fst ` set ls. j \<le> i) \<and> (\<forall>i t'. acc = Some (i, t') \<longrightarrow> j \<le> i)"
proof (induction ls arbitrary: acc)
  case (Cons il ls)
  obtain i l where il: "il = (i, l)" by force
  define acc' where "acc' = (case acc of None \<Rightarrow> Some (i, pl_timestampUs l)
      | Some (lowest, t) \<Rightarrow> if i < lowest then Some (i, pl_timestampUs l) else Some (lowest, t))"
  from Cons.prems have "ts_scan ls acc' = Some (j, t)" by (simp add: il acc'_def)
  note IH = Cons.IH [OF this]
  have "acc' = Some (i, pl_timestampUs l) \<or> acc' = acc \<and> acc \<noteq> None"
    by (auto simp: acc'_def split: option.splits)
  moreover have "\<exists>k t. acc' = Some (k, t) \<and> k \<le> i \<and> (\<forall>m t'. acc = Some (m, t') \<longrightarrow> k \<le> m)"
    by (auto simp: acc'_def split: option.splits)
  ultimately show ?case using IH by (fastforce simp: il)
qed simp

lemma ts_scan_None: "ts_scan ls acc = None \<longleftrightarrow> ls = [] \<and> acc = None"
  by (induction ls acc rule: ts_scan.induct) (auto split: option.splits)

lemma timestamp_None: "timestamp u = None \<longleftrightarrow> un_layers u = []"
  by (simp add: timestamp_def ts_scan_None)

text \<open>The timestamp is that of the lowest layer: the order of the layer map does not matter.\<close>

lemma timestamp_lowest:
  assumes "distinct (map fst (un_layers u))" and "map_of (un_layers u) j = Some l"
    and "\<forall>i \<in> fst ` set (un_layers u). j \<le> i"
  shows "timestamp u = Some (pl_timestampUs l)"
proof -
  have "un_layers u \<noteq> []" using assms(2) by auto
  then obtain k t where k: "ts_scan (un_layers u) None = Some (k, t)"
    using ts_scan_None by (metis not_None_eq old.prod.exhaust)
  from ts_scan_min [OF this] obtain l' where l': "(k, l') \<in> set (un_layers u)" "t = pl_timestampUs l'"
    "\<forall>i \<in> fst ` set (un_layers u). k \<le> i" by auto
  have "j \<in> fst ` set (un_layers u)" using assms(2) by (metis map_of_SomeD fst_conv imageI)
  then have "k = j" using l' assms(3) by (metis fst_conv imageI le_antisym)
  with l' assms(1,2) have "l' = l" by (metis map_of_is_SomeI option.inject)
  then show ?thesis using k l' by (simp add: timestamp_def)
qed

lemma timestamp_base:
  "distinct (map fst (un_layers u)) \<Longrightarrow> map_of (un_layers u) 0 = Some l \<Longrightarrow> timestamp u = Some (pl_timestampUs l)"
  by (rule timestamp_lowest) auto

lemma prefix_scan_range: "int i - 1 \<le> prefix_scan u b i n \<and> prefix_scan u b i n \<le> int i + int n - 1"
  by (induction u b i n rule: prefix_scan.induct) (auto split: option.splits)

lemma prefix_scan_layers:
  "i \<le> j \<Longrightarrow> int j \<le> prefix_scan u b i n \<Longrightarrow> \<exists>l. map_of (un_layers u) j = Some l \<and>
     pl_timestampUs l = pl_timestampUs b \<and> pl_independent l = pl_independent b"
proof (induction u b i n rule: prefix_scan.induct)
  case (2 u b i n)
  then show ?case by (cases "i = j") (auto split: option.splits if_splits)
qed simp

lemma prefix_scan_min: "-1 \<le> prefix_scan u b 0 (min m n)" "prefix_scan u b 0 (min m n) \<le> int m - 1"
  using prefix_scan_range [of 0 u b "min m n"] by linarith+

lemma completePrefix_range:
  "completePrefix p u = (pr, ind) \<Longrightarrow> -1 \<le> pr \<and> pr \<le> int (length (np_tracks p)) - 1"
  using prefix_scan_min [of u]
  by (cases "map_of (un_layers u) 0") (auto simp: completePrefix_def split: if_splits)

lemma completePrefix_layers:
  assumes "completePrefix p u = (pr, ind)" and "int j \<le> pr"
  shows "\<exists>b l. map_of (un_layers u) 0 = Some b \<and> map_of (un_layers u) j = Some l \<and>
     pl_timestampUs l = pl_timestampUs b \<and> pl_independent l = ind \<and> j < un_invalidFrom u"
proof -
  from assms obtain b where b: "map_of (un_layers u) 0 = Some b" "ind = pl_independent b"
    and pr: "pr = prefix_scan u b 0 (min (length (np_tracks p)) (un_invalidFrom u))"
    by (auto simp: completePrefix_def split: if_splits option.splits)
  moreover from pr assms(2) prefix_scan_range [of 0 u b "min (length (np_tracks p)) (un_invalidFrom u)"]
  have "j < un_invalidFrom u" by (auto simp: min_def split: if_splits)
  ultimately show ?thesis using prefix_scan_layers [of 0 j u b] assms(2) by auto
qed

lemma completePrefix_independent:
  assumes "completePrefix p u = (pr, True)" and "np_tracks p \<noteq> []"
  shows "0 \<le> pr"
proof -
  from assms obtain b where "map_of (un_layers u) 0 = Some b" "un_invalidFrom u \<noteq> 0"
    "pr = prefix_scan u b 0 (min (length (np_tracks p)) (un_invalidFrom u))"
    by (auto simp: completePrefix_def split: if_splits option.splits)
  moreover from this assms(2) obtain n where "min (length (np_tracks p)) (un_invalidFrom u) = Suc n"
    by (cases "min (length (np_tracks p)) (un_invalidFrom u)") (auto simp: min_def split: if_splits)
  ultimately show ?thesis using prefix_scan_range [of 1 u b n] by simp
qed

section \<open>The layer switch\<close>

definition layers_wf :: "native_playback \<Rightarrow> bool" where
  "layers_wf p \<longleftrightarrow> np_tracks p \<noteq> [] \<and> np_target p = int (length (np_tracks p)) - 1 \<and>
     -1 \<le> np_active p \<and> np_active p \<le> np_target p \<and>
     np_valid p = map (\<lambda>i. int i \<le> np_active p) [0..<length (np_tracks p)]"

definition quality_after :: "int \<Rightarrow> int \<Rightarrow> bool \<Rightarrow> int" where
  "quality_after a prefix indep = (if indep then prefix else min a prefix)"

lemma lower_active_min:
  assumes "\<And>i. 0 \<le> i \<Longrightarrow> i \<le> a \<Longrightarrow> i \<le> pr \<Longrightarrow> v ! nat i" and "-1 \<le> pr" and "-1 \<le> a"
  shows "lower_active v pr a = min a pr"
  using assms
proof (induction v pr a rule: lower_active.induct)
  case (1 v pr a)
  show ?case
  proof (cases "0 \<le> a \<and> (a > pr \<or> \<not> v ! nat a)")
    case True
    then have "a > pr" using 1(2) [of a] by (cases "a \<le> pr") auto
    with True 1 show ?thesis by (subst lower_active.simps) auto
  next
    case False
    with 1 show ?thesis by (subst lower_active.simps) (auto simp: min_def)
  qed
qed

lemma set_range_map:
  "set_range lo hi b (map f [0..<n]) = map (\<lambda>i. if lo \<le> int i \<and> int i < hi then b else f i) [0..<n]"
  by (simp add: set_range_def)

lemma switch_layers_rule:
  fixes ind :: bool
  assumes wf: "layers_wf p" and pr: "-1 \<le> pr" "pr \<le> np_target p"
  defines "a \<equiv> quality_after (np_active p) pr ind"
  shows "switch_layers pr ind p = p\<lparr>np_active := a, np_valid := map (\<lambda>i. int i \<le> a) [0..<length (np_tracks p)]\<rparr>"
proof -
  define v1 where "v1 = (if pr < np_active p then set_range (pr + 1) (int (length (np_valid p))) False (np_valid p)
                         else np_valid p)"
  have v1: "v1 = map (\<lambda>i. int i \<le> np_active p \<and> (pr < np_active p \<longrightarrow> int i \<le> pr)) [0..<length (np_tracks p)]"
    using wf by (auto simp: v1_def layers_wf_def set_range_map)
  have low: "lower_active v1 pr (np_active p) = min (np_active p) pr"
    using wf pr by (intro lower_active_min) (auto simp: v1 layers_wf_def)
  show ?thesis
  proof (cases ind)
    case True
    then show ?thesis unfolding switch_layers_def Let_def v1_def [symmetric] a_def quality_after_def
      by (auto simp: v1 set_range_map)
  next
    case False
    have "v1 = map (\<lambda>i. int i \<le> min (np_active p) pr) [0..<length (np_tracks p)]" by (auto simp: v1)
    then show ?thesis using False
      unfolding switch_layers_def Let_def v1_def [symmetric] a_def quality_after_def low by simp
  qed
qed

section \<open>The invariant\<close>

definition unit_ok :: "nat \<Rightarrow> playback_unit \<Rightarrow> bool" where
  "unit_ok n u \<longleftrightarrow> un_layers u \<noteq> [] \<and> distinct (map fst (un_layers u)) \<and>
     (\<forall>i \<in> fst ` set (un_layers u). i < n) \<and> un_invalidFrom u \<le> n"

definition units_wf :: "native_playback \<Rightarrow> bool" where
  "units_wf p \<longleftrightarrow> distinct (map un_key (np_pending p)) \<and> length (np_pending p) \<le> maxPendingUnits \<and>
     (\<forall>u \<in> set (np_pending p). unit_ok (length (np_tracks p)) u) \<and>
     (\<forall>n i. map_of (np_trackIndex p) n = Some i \<longrightarrow> i < length (np_tracks p))"

definition play_wf :: "native_playback \<Rightarrow> bool" where
  "play_wf p \<longleftrightarrow> (np_started p \<longleftrightarrow> np_lastPresented p \<noteq> None) \<and>
     (np_started p \<longleftrightarrow> np_lastPresentedAt p \<noteq> None) \<and>
     (0 \<le> np_active p \<longrightarrow> np_simulated p \<and> np_started p \<and> np_state p = Playing \<and> np_stallStarted p = None) \<and>
     (np_state p = Stalled \<longrightarrow> np_stallStarted p \<noteq> None) \<and>
     (np_stallStarted p \<noteq> None \<longrightarrow> np_started p \<and> np_state p \<in> {Stalled, Buffering}) \<and>
     0 \<le> np_stallCount p"

definition pb_wf :: "native_playback \<Rightarrow> bool" where
  "pb_wf p \<longleftrightarrow> layers_wf p \<and> units_wf p \<and> play_wf p"

lemma wf_pending [simp]:
  "layers_wf (p\<lparr>np_pending := us\<rparr>) = layers_wf p" "play_wf (p\<lparr>np_pending := us\<rparr>) = play_wf p"
  by (simp_all add: layers_wf_def play_wf_def)

lemma pb_wf_filter: "pb_wf p \<Longrightarrow> pb_wf (p\<lparr>np_pending := filter P (np_pending p)\<rparr>)"
  using order_trans [OF length_filter_le [of P "np_pending p"], of maxPendingUnits]
  by (simp add: pb_wf_def units_wf_def distinct_map inj_on_def)

lemma pb_wf_bytes [simp]:
  "pb_wf (p\<lparr>np_received := r\<rparr>) = pb_wf p" "pb_wf (p\<lparr>np_played := r\<rparr>) = pb_wf p"
  "pb_wf (p\<lparr>np_wake := w\<rparr>) = pb_wf p" "pb_wf (p\<lparr>np_switchState := s\<rparr>) = pb_wf p"
  by (simp_all add: pb_wf_def layers_wf_def units_wf_def play_wf_def)

subsection \<open>Arrival\<close>

lemma set_put_unit:
  "distinct (map un_key us) \<Longrightarrow> set (put_unit v us) = insert v {u \<in> set us. un_key u \<noteq> un_key v}"
  by (induction us) (auto simp: image_iff)

lemma keys_put_unit: "distinct (map un_key us) \<Longrightarrow> distinct (map un_key (put_unit v us))"
  by (induction us) (auto simp: set_put_unit)

lemma find_unit_mem: "find_unit k us = Some u \<Longrightarrow> u \<in> set us \<and> un_key u = k"
  by (induction us) (auto split: if_splits)

lemma trimPending_filter:
  "\<exists>P. trimPending p = p\<lparr>np_pending := filter P (np_pending p)\<rparr> \<and> length (np_pending (trimPending p)) \<le> maxPendingUnits"
proof (induction p rule: trimPending.induct)
  case (1 p)
  show ?case
  proof (cases "length (np_pending p) > maxPendingUnits")
    case True
    with 1 obtain P where "trimPending p = p\<lparr>np_pending := filter P (delete_unit (un_key (hd (sortedUnits p))) (np_pending p))\<rparr>"
      "length (np_pending (trimPending p)) \<le> maxPendingUnits"
      by (auto simp: trimPending.simps [of p])
    then show ?thesis unfolding delete_unit_def filter_filter by blast
  next
    case False
    then show ?thesis by (auto simp: trimPending.simps [of p] intro: exI [of _ "\<lambda>_. True"])
  qed
qed

lemma trimPending_id: "length (np_pending p) \<le> maxPendingUnits \<Longrightarrow> trimPending p = p"
  by (simp add: trimPending.simps [of p])

lemma add_layer_key [simp]: "un_key (add_layer i l u) = un_key u"
  by (simp add: add_layer_def split: option.splits)

lemma add_layer_ok:
  assumes "unit_ok n u \<or> un_layers u = [] \<and> un_invalidFrom u \<le> n" and "i < n"
  shows "unit_ok n (add_layer i l u)"
  using assms by (auto simp: add_layer_def unit_ok_def map_of_eq_None_iff split: option.splits)

lemma file_layer_wf:
  assumes wf: "pb_wf p" and i: "i < length (np_tracks p)"
  shows "pb_wf (file_layer p k i l)"
proof -
  define u where "u = (case find_unit k (np_pending p) of Some u \<Rightarrow> u | None \<Rightarrow> new_unit p k)"
  define q where "q = p\<lparr>np_pending := put_unit (add_layer i l u) (np_pending p)\<rparr>"
  have "unit_ok (length (np_tracks p)) (add_layer i l u)"
    using wf i find_unit_mem [of k "np_pending p"]
    by (intro add_layer_ok) (auto simp: u_def new_unit_def pb_wf_def units_wf_def split: option.splits)
  then have q: "\<forall>v \<in> set (np_pending q). unit_ok (length (np_tracks p)) v" "distinct (map un_key (np_pending q))"
    using wf by (auto simp: q_def pb_wf_def units_wf_def set_put_unit keys_put_unit)
  obtain P where P: "trimPending q = q\<lparr>np_pending := filter P (np_pending q)\<rparr>"
    "length (np_pending (trimPending q)) \<le> maxPendingUnits" using trimPending_filter by blast
  have "layers_wf (trimPending q)" "play_wf (trimPending q)"
    using wf unfolding P(1) by (simp_all add: q_def pb_wf_def)
  moreover have "units_wf (trimPending q)"
    using wf q P(2) unfolding P(1) by (auto simp: units_wf_def q_def pb_wf_def distinct_map inj_on_def)
  ultimately show ?thesis unfolding file_layer_def Let_def u_def [symmetric] q_def [symmetric] pb_wf_def by simp
qed

lemma addObject_wf: "pb_wf p \<Longrightarrow> pb_wf (addObject p n g ob hs sz now)"
proof -
  assume wf: "pb_wf p"
  then have "map_of (np_trackIndex p) n = Some i \<Longrightarrow> i < length (np_tracks p)" for i
    by (auto simp: pb_wf_def units_wf_def)
  with wf show ?thesis
    by (auto simp: addObject_def Let_def notifyPlayback_def intro!: file_layer_wf split: option.splits prod.splits)
qed

subsection \<open>Presentation\<close>

lemma nextUnit_pending:
  assumes "nextUnit p = (p1, r)"
  obtains K where "p1 = p\<lparr>np_pending := filter (\<lambda>u. un_key u \<notin> K) (np_pending p)\<rparr>"
  using assms next_scan_filter [of "np_lastPresented p" "sortedUnits p" "np_pending p"]
  by (fastforce simp: nextUnit_def split: prod.splits)

lemma nextUnit_wf: "pb_wf p \<Longrightarrow> nextUnit p = (p1, r) \<Longrightarrow> pb_wf p1 \<and> np_active p1 = np_active p"
  by (elim nextUnit_pending) (simp add: pb_wf_filter)

lemma layers_wf_map:
  "layers_wf p \<Longrightarrow> -1 \<le> a \<Longrightarrow> a \<le> np_target p \<Longrightarrow>
   layers_wf (p\<lparr>np_active := a, np_valid := map (\<lambda>i. int i \<le> a) [0..<length (np_tracks p)]\<rparr>)"
  by (simp add: layers_wf_def)

lemma present_wf:
  assumes "layers_wf p" "units_wf p" "np_simulated p" "np_stallStarted p = None" "0 \<le> np_stallCount p"
  shows "pb_wf (present u now p)"
proof -
  have "layers_wf (present u now p)" "play_wf (present u now p)"
    using assms by (simp_all add: layers_wf_def play_wf_def present_def Let_def)
  moreover have "length (delete_unit (un_key u) (np_pending p)) \<le> maxPendingUnits"
    using assms(2) order_trans [OF length_filter_le] by (auto simp: delete_unit_def units_wf_def)
  then have "units_wf (present u now p)"
    using assms(2) by (auto simp: units_wf_def present_def Let_def delete_unit_def distinct_map inj_on_def)
  ultimately show ?thesis by (simp add: pb_wf_def)
qed

lemma quality_after_range:
  "-1 \<le> pr \<Longrightarrow> pr \<le> t \<Longrightarrow> -1 \<le> a \<Longrightarrow> -1 \<le> quality_after a pr ind \<and> quality_after a pr ind \<le> t"
  by (auto simp: quality_after_def)

lemma advance_turn_wf:
  assumes wf: "pb_wf p" and act: "0 \<le> np_active p"
  shows "case advance_turn now p of Return p' \<Rightarrow> pb_wf p' | Again p' \<Rightarrow> pb_wf p' \<and> 0 \<le> np_active p'"
proof -
  obtain p1 r where p1: "nextUnit p = (p1, r)" by force
  have wf1: "pb_wf p1" and act1: "0 \<le> np_active p1" using nextUnit_wf [OF wf p1] act by simp_all
  show ?thesis
  proof (cases "\<exists>u t. r = Some u \<and> timestamp u = Some t \<and> \<not> now < presentationDeadline p1 t")
    case False
    then show ?thesis using p1 wf1 by (auto simp: advance_turn_def split: option.splits)
  next
    case True
    then obtain u t where r: "r = Some u" "timestamp u = Some t" "\<not> now < presentationDeadline p1 t" by blast
    obtain pr ind where c: "completePrefix p1 u = (pr, ind)" by force
    have pr: "-1 \<le> pr" "pr \<le> np_target p1" using completePrefix_range [OF c] wf1
      by (auto simp: pb_wf_def layers_wf_def)
    define p2 where "p2 = switch_layers pr ind p1"
    let ?a = "quality_after (np_active p1) pr ind"
    have p2: "p2 = p1\<lparr>np_active := ?a, np_valid := map (\<lambda>i. int i \<le> ?a) [0..<length (np_tracks p1)]\<rparr>"
      unfolding p2_def using wf1 pr by (intro switch_layers_rule) (simp_all add: pb_wf_def)
    have l2: "layers_wf p2" unfolding p2 using wf1 pr act1 quality_after_range [of pr "np_target p1" "np_active p1" ind]
      by (intro layers_wf_map) (simp_all add: pb_wf_def)
    have u2: "units_wf p2" using wf1 by (simp add: p2 pb_wf_def units_wf_def)
    have f: "np_simulated p2" "np_stallStarted p2 = None" "0 \<le> np_stallCount p2" "np_started p2" "np_state p2 = Playing"
      "np_lastPresented p2 \<noteq> None" "np_lastPresentedAt p2 \<noteq> None"
      using wf1 act1 by (auto simp: p2 pb_wf_def play_wf_def)
    have turn: "advance_turn now p = (if np_active p2 < 0
        then Return ((enterStall now p2)\<lparr>np_switchState := Waiting_independent\<rparr>) else Again (present u now p2))"
      by (simp add: advance_turn_def p1 r c p2_def Let_def)
    show ?thesis
    proof (cases "np_active p2 < 0")
      case True
      then have "pb_wf (enterStall now p2)"
        using l2 u2 f by (auto simp: enterStall_def pb_wf_def layers_wf_def units_wf_def play_wf_def)
      with turn True show ?thesis by simp
    next
      case False
      with turn present_wf [OF l2 u2 f(1-3)] show ?thesis by (simp add: present_def Let_def)
    qed
  qed
qed

lemma advance_loop_wf: "pb_wf p \<Longrightarrow> 0 \<le> np_active p \<Longrightarrow> pb_wf (advance_loop now p)"
proof (induction now p rule: advance_loop.induct)
  case (1 now p)
  then show ?case using advance_turn_wf [of p now]
    by (cases "advance_turn now p") (simp_all add: advance_loop.simps [of now p])
qed

lemma tryStart_scan_wf:
  assumes "pb_wf p" "np_active p < 0" "np_simulated p"
  shows "pb_wf (tryStart_scan now us p)"
proof (induction us)
  case Nil
  show ?case using assms
    by (auto simp: enterStall_def pb_wf_def layers_wf_def units_wf_def play_wf_def)
next
  case (Cons u us)
  obtain pr ind where c: "completePrefix p u = (pr, ind)" by force
  have pr: "-1 \<le> pr" "pr \<le> np_target p" using completePrefix_range [OF c] assms(1)
    by (auto simp: pb_wf_def layers_wf_def)
  let ?q = "p\<lparr>np_valid := set_range 0 (pr + 1) True (np_valid p), np_active := pr\<rparr>"
  have "set_range 0 (pr + 1) True (np_valid p) = map (\<lambda>i. int i \<le> pr) [0..<length (np_tracks p)]"
    using assms(1,2) by (auto simp: pb_wf_def layers_wf_def set_range_map)
  then have l: "layers_wf ?q" using assms(1) pr by (simp add: pb_wf_def layers_wf_def)
  have "pb_wf (present u now (leaveStall now ?q))"
    using assms(1,3) l by (intro present_wf)
      (auto simp: pb_wf_def layers_wf_def units_wf_def play_wf_def leaveStall_def split: option.splits)
  moreover have "pb_wf (p\<lparr>np_state := Buffering\<rparr>)"
    using assms(1,2) by (auto simp: pb_wf_def layers_wf_def units_wf_def play_wf_def)
  ultimately show ?case using Cons c by simp
qed

lemma advance_wf: "pb_wf p \<Longrightarrow> pb_wf (advance now p)"
  by (simp add: advance_def tryStart_def advance_loop_wf tryStart_scan_wf)

lemma nextAdvanceDeadline_wf: "pb_wf p \<Longrightarrow> pb_wf (fst (nextAdvanceDeadline p))"
  by (auto simp: nextAdvanceDeadline_def dest: nextUnit_wf split: prod.splits option.splits)

lemma writeMetrics_wf: "pb_wf p \<Longrightarrow> pb_wf (fst (writeMetrics p now))"
  by (simp add: writeMetrics_def snapshot_def Let_def)

subsection \<open>Construction and the run loop\<close>

lemma add_tracks_extends:
  assumes "add_tracks c sim i names p = Inr p'" and "length (np_tracks p) = i"
    and "\<forall>n k. map_of (np_trackIndex p) n = Some k \<longrightarrow> k < i"
  shows "\<exists>ts ix. p' = p\<lparr>np_tracks := np_tracks p @ ts, np_trackIndex := ix\<rparr> \<and> map pt_name ts = names \<and>
           (\<forall>n k. map_of ix n = Some k \<longrightarrow> k < i + length names)"
  using assms
proof (induction c sim i names p rule: add_tracks.induct)
  case (1 c sim i p)
  then show ?case by (auto intro!: exI [of _ "[]"] exI [of _ "np_trackIndex p"])
next
  case (2 c sim i name names p)
  then obtain t where t: "GetTrackByName c name = Some t"
    "\<not> (sim \<and> (tr_Packaging t \<noteq> ''loc'' \<or> \<not> has_prefix (to_lower (tr_Codec t)) ''av01''))"
    by (auto split: option.splits if_splits)
  let ?s = "case tr_SpatialID t of None \<Rightarrow> int i | Some s \<Rightarrow> s" and ?b = "case tr_Bitrate t of None \<Rightarrow> 0 | Some b \<Rightarrow> b"
  let ?x = "\<lparr>pt_name = name, pt_spatialID = ?s, pt_width = tr_Width t, pt_height = tr_Height t, pt_bitrate = ?b\<rparr>"
  let ?q = "p\<lparr>np_tracks := np_tracks p @ [?x], np_trackIndex := AList.update name i (np_trackIndex p)\<rparr>"
  have "add_tracks c sim (Suc i) names ?q = Inr p'" using 2(2) t by (simp add: Let_def split: if_splits)
  moreover have "\<forall>n k. map_of (np_trackIndex ?q) n = Some k \<longrightarrow> k < Suc i"
    using 2(4) by (auto simp: update_conv less_SucI split: if_splits)
  ultimately obtain ts ix where "p' = ?q\<lparr>np_tracks := np_tracks ?q @ ts, np_trackIndex := ix\<rparr>" "map pt_name ts = names"
    "\<forall>n k. map_of ix n = Some k \<longrightarrow> k < Suc i + length names"
    using 2(1) [OF t refl refl] 2(3) by auto
  then show ?case by (intro exI [of _ "?x # ts"] exI [of _ ix]) simp
qed

lemma newNativePlayback_wf:
  assumes "newNativePlayback c names tn sim mb lat mp = Inr p"
  shows "pb_wf p \<and> map pt_name (np_tracks p) = names"
proof -
  from assms obtain p0 where p0: "names \<noteq> []" "add_tracks c sim 0 names p0 = Inr p" "np_tracks p0 = []"
    "np_trackIndex p0 = []" "np_target p0 = int (length names) - 1" "np_active p0 = -1"
    "np_valid p0 = replicate (length names) False" "np_pending p0 = []" "np_state p0 = (if sim then Starting else Receiving)"
    "np_started p0 = False" "np_lastPresented p0 = None" "np_lastPresentedAt p0 = None" "np_stallStarted p0 = None"
    "np_stallCount p0 = 0"
    by (auto simp: newNativePlayback_def split: if_splits sum.splits)
  from add_tracks_extends [OF p0(2)] p0(3,4) obtain ts ix where
    p: "p = p0\<lparr>np_tracks := ts, np_trackIndex := ix\<rparr>" "map pt_name ts = names"
    "\<forall>n k. map_of ix n = Some k \<longrightarrow> k < length names" by auto
  have len: "length ts = length names" using p(2) by (metis length_map)
  have "replicate (length names) False = map (\<lambda>i. int i \<le> -1) [0..<length ts]"
    by (rule nth_equalityI) (simp_all add: len)
  then have "pb_wf p" using p0 p len by (auto simp: pb_wf_def layers_wf_def units_wf_def play_wf_def)
  then show ?thesis using p by simp
qed

text \<open>The atomic steps of the receiving goroutines and of \<^verbatim>\<open>run\<close>, at arbitrary times: an object
  arrives, the wake channel or the timer triggers \<^verbatim>\<open>advance\<close>, \<^verbatim>\<open>schedule\<close> asks for the
  next deadline, the ticker writes the metrics.\<close>

inductive pb_step :: "native_playback \<Rightarrow> native_playback \<Rightarrow> bool" where
  arrive: "pb_step p (addObject p n g ob hs sz now)"
| woken: "np_wake p \<Longrightarrow> pb_step p (advance now (p\<lparr>np_wake := False\<rparr>))"
| timer: "pb_step p (advance now p)"
| schedule: "pb_step p (fst (nextAdvanceDeadline p))"
| metrics: "pb_step p (fst (writeMetrics p now))"

inductive pb_reach :: "native_playback \<Rightarrow> bool" where
  init: "newNativePlayback c names tn sim mb lat mp = Inr p \<Longrightarrow> pb_reach p"
| step: "pb_reach p \<Longrightarrow> pb_step p q \<Longrightarrow> pb_reach q"

inductive_cases pb_stepE: "pb_step p q"

lemma pb_step_wf: "pb_step p q \<Longrightarrow> pb_wf p \<Longrightarrow> pb_wf q"
  by (induction rule: pb_step.induct)
    (simp_all add: addObject_wf advance_wf nextAdvanceDeadline_wf writeMetrics_wf)

lemma pb_reach_wf: "pb_reach p \<Longrightarrow> pb_wf p"
  by (induction rule: pb_reach.induct) (auto dest: newNativePlayback_wf pb_step_wf)

section \<open>Properties\<close>

text \<open>C5: Every state of the player that arrivals, wake-ups, timers and metrics can reach is consistent:
  the active layer is within the dependency chain and exactly the layers up to it are valid, at
  most 64 units with distinct keys are pending, a layer is active only in state playing with no
  stall running, and a stalled player has a stall start.\<close>

theorem playback_invariant:
  assumes "pb_reach p"
  shows "-1 \<le> np_active p \<and> np_active p < int (length (np_tracks p)) \<and>
    (\<forall>i < length (np_valid p). np_valid p ! i \<longleftrightarrow> int i \<le> np_active p) \<and>
    length (np_valid p) = length (np_tracks p) \<and>
    length (np_pending p) \<le> 64 \<and> distinct (map un_key (np_pending p)) \<and>
    (0 \<le> np_active p \<longrightarrow> np_state p = Playing \<and> np_stallStarted p = None \<and> np_lastPresented p \<noteq> None) \<and>
    (np_state p = Stalled \<longrightarrow> np_active p = -1 \<and> np_stallStarted p \<noteq> None)"
  using pb_reach_wf [OF assms] by (auto simp: pb_wf_def layers_wf_def units_wf_def play_wf_def maxPendingUnits_def)

text \<open>C6: In a consistent state the bookkeeping with the valid array is the two-line rule: an
  independent unit switches to its complete prefix, up or down, a dependent unit can only lower
  the layer; the prefix consists of layers that are present, not in conflict and agree in time
  and independence.\<close>

theorem switch_layers_refines:
  assumes "pb_reach p" and "completePrefix p u = (pr, ind)"
  shows "np_active (switch_layers pr ind p) = quality_after (np_active p) pr ind \<and>
    layers_wf (switch_layers pr ind p) \<and>
    (\<forall>j. int j \<le> pr \<longrightarrow> (\<exists>b l. map_of (un_layers u) 0 = Some b \<and> map_of (un_layers u) j = Some l \<and>
       pl_timestampUs l = pl_timestampUs b \<and> pl_independent l = ind \<and> j < un_invalidFrom u))"
proof -
  have l: "layers_wf p" using pb_reach_wf [OF assms(1)] by (simp add: pb_wf_def)
  have pr: "-1 \<le> pr" "pr \<le> np_target p" using completePrefix_range [OF assms(2)] l by (auto simp: layers_wf_def)
  have "-1 \<le> np_active p" using l by (simp add: layers_wf_def)
  note q = quality_after_range [OF pr this, of ind]
  show ?thesis using switch_layers_rule [OF l pr] layers_wf_map [OF l] q completePrefix_layers [OF assms(2)]
    by simp
qed

text \<open>The order in which Go iterates over the map of pending units is invisible: units with
  distinct keys sort to the same list, whatever their order in the map.\<close>

theorem sortedUnits_order_independent:
  assumes "distinct (map un_key (np_pending p))" and "mset us = mset (np_pending p)"
  shows "sortedUnits (p\<lparr>np_pending := us\<rparr>) = sortedUnits p \<and> sorted_wrt unit_less (sortedUnits p)"
  using unit_order.sort_slice_perm [OF assms] unit_order.sorted_sort_slice [OF assms(1)]
  by (simp add: sortedUnits_def)

end
