(* ===== verification/Playback_Props.thy ===== *)
theory Playback_Props
  imports Playback_Inv
begin

text \<open>
  Timing of the simulated player: presentations are paced by media time, the deadline that
  \<^verbatim>\<open>run\<close> sleeps for is exactly the instant at which \<^verbatim>\<open>advance\<close> acts, delivery twice is
  harmless; and two concrete runs from \<^verbatim>\<open>newNativePlayback\<close> that show where stall time is
  lost and where an older unit is presented after a newer one.

  Durations are exact where media timestamps are below 2^53 microseconds (the year 2255).
\<close>

section \<open>Helpers\<close>

lemma micros_nat: "unat d < 2 ^ 53 \<Longrightarrow> micros d = 1000 * int (unat d)"
proof -
  assume d: "unat d < 2 ^ 53"
  have u: "unat (d * 1000) = unat d * 1000" using d by (simp add: unat_mult_lt)
  then have "unat (d * 1000) < 2 ^ 63" using d by simp
  then have "int (unat (d * 1000)) < int (2 ^ 63)" by (simp only: of_nat_less_iff)
  then have "uint (d * 1000) < 2 ^ 63" by (simp only: uint_nat of_nat_power of_nat_numeral)
  then have "sint (d * 1000) = uint (d * 1000)"
    unfolding sint_uint by (intro signed_take_bit_int_eq_self) (simp_all add: order_trans [OF _ uint_ge_0])
  then have "sint (d * 1000) = int (unat (d * 1000))" by simp
  then show ?thesis by (simp add: micros_def u)
qed

definition ts_small :: "native_playback \<Rightarrow> bool" where
  "ts_small p \<longleftrightarrow> (\<forall>u \<in> set (np_pending p). \<forall>t. timestamp u = Some t \<longrightarrow> unat t < 2 ^ 53) \<and>
     (\<forall>t. np_lastPresented p = Some t \<longrightarrow> unat t < 2 ^ 53)"

lemma next_scan_newer:
  "snd (next_scan lp us pend) = Some u \<Longrightarrow> \<exists>t. timestamp u = Some t \<and> (\<forall>l. lp = Some l \<longrightarrow> l < t)"
  by (induction lp us pend rule: next_scan.induct) (auto split: option.splits if_splits)

lemma nextUnit_newer:
  assumes "nextUnit p = (p1, Some u)"
  shows "u \<in> set (np_pending p) \<and> (\<exists>t. timestamp u = Some t \<and> (\<forall>l. np_lastPresented p = Some l \<longrightarrow> l < t))"
  using assms next_scan_newer [of "np_lastPresented p" "sortedUnits p" "np_pending p" u]
    next_scan_mem [of "np_lastPresented p" "sortedUnits p" "np_pending p" u]
  by (auto simp: nextUnit_def split: prod.splits)

lemma unat_sub_less: "a < (b :: u64) \<Longrightarrow> unat b < n \<Longrightarrow> 0 < unat (b - a) \<and> unat (b - a) < n"
  by (subst unat_sub_le, simp_all add: word_less_nat_alt)+

lemma micros_pos: "a < b \<Longrightarrow> unat b < 2 ^ 53 \<Longrightarrow> 0 < micros (b - a)"
  using unat_sub_less [of a b "2 ^ 53"] micros_nat [of "b - a"] by (metis int_ops(7) mult_pos_pos of_nat_0_less_iff zero_less_numeral of_nat_numeral)

lemma ts_small_filter: "ts_small p \<Longrightarrow> ts_small (p\<lparr>np_pending := filter P (np_pending p)\<rparr>)"
  by (auto simp: ts_small_def)

text \<open>What a turn that presents has done.\<close>

lemma advance_turn_Again:
  assumes wf: "pb_wf p" and act: "0 \<le> np_active p" and turn: "advance_turn now p = Again p'"
  obtains lp lpAt u t where "np_lastPresented p = Some lp" "np_lastPresentedAt p = Some lpAt"
    "u \<in> set (np_pending p)" "timestamp u = Some t" "lp < t" "lpAt + micros (t - lp) \<le> now"
    "np_lastPresented p' = Some t" "np_lastPresentedAt p' = Some now" "np_started p'"
    "length (np_played p') = Suc (length (np_played p))" "set (np_pending p') \<subseteq> set (np_pending p)"
proof -
  from turn obtain p1 u t pr ind where n: "nextUnit p = (p1, Some u)" and t: "timestamp u = Some t"
    and dl: "\<not> now < presentationDeadline p1 t" and c: "completePrefix p1 u = (pr, ind)"
    and a: "0 \<le> np_active (switch_layers pr ind p1)" and p': "p' = present u now (switch_layers pr ind p1)"
    by (auto simp: advance_turn_def Let_def not_less split: prod.splits option.splits if_splits)
  obtain K where p1: "p1 = p\<lparr>np_pending := filter (\<lambda>u. un_key u \<notin> K) (np_pending p)\<rparr>" using nextUnit_pending [OF n] .
  have wf1: "pb_wf p1" using nextUnit_wf [OF wf n] by simp
  obtain lp lpAt where lp: "np_lastPresented p = Some lp" "np_lastPresentedAt p = Some lpAt" "np_started p"
    using wf act by (auto simp: pb_wf_def play_wf_def)
  have new: "u \<in> set (np_pending p)" "lp < t" using nextUnit_newer [OF n] t lp by auto
  have rule: "switch_layers pr ind p1 = p1\<lparr>np_active := quality_after (np_active p1) pr ind,
      np_valid := map (\<lambda>i. int i \<le> quality_after (np_active p1) pr ind) [0..<length (np_tracks p1)]\<rparr>"
    using wf1 completePrefix_range [OF c] by (intro switch_layers_rule) (auto simp: pb_wf_def layers_wf_def)
  have "0 \<le> pr" using a by (auto simp: rule quality_after_def split: if_splits)
  then obtain b where b: "map_of (un_layers u) 0 = Some b" using completePrefix_layers [OF c, of 0] by auto
  have "unit_ok (length (np_tracks p)) u" using wf new(1) by (simp add: pb_wf_def units_wf_def)
  then have tb: "t = pl_timestampUs b" using timestamp_base [OF _ b] t by (simp add: unit_ok_def)
  have pl: "np_played (switch_layers pr ind p1) = np_played p" by (simp add: switch_layers_def p1 Let_def)
  have "presentationDeadline p1 t = lpAt + micros (t - lp)"
    using lp leD [of t lp] new(2) by (auto simp: presentationDeadline_def p1)
  with dl have "lpAt + micros (t - lp) \<le> now" by simp
  then show thesis
    by (rule that [OF lp(1,2) new(1) t new(2)])
      (use b tb in \<open>auto simp: p' present_def Let_def layer_at_def delete_unit_def pl\<close>, simp add: p1)
qed

lemma advance_turn_Return:
  assumes "advance_turn now p = Return p'" and "pb_wf p" and "0 \<le> np_active p"
  shows "np_played p' = np_played p \<and> np_lastPresented p' = np_lastPresented p \<and>
         np_lastPresentedAt p' = np_lastPresentedAt p"
proof -
  obtain p1 r where n: "nextUnit p = (p1, r)" by force
  obtain K where p1: "p1 = p\<lparr>np_pending := filter (\<lambda>u. un_key u \<notin> K) (np_pending p)\<rparr>" using nextUnit_pending [OF n] .
  show ?thesis using assms(1)
    by (auto simp: advance_turn_def n p1 enterStall_def switch_layers_def Let_def
        split: option.splits prod.splits if_splits)
qed

text \<open>Right after a presentation the loop finds nothing due.\<close>

lemma advance_turn_not_due:
  assumes lp: "np_lastPresented p = Some lp" "np_lastPresentedAt p = Some now" "np_started p"
    and small: "ts_small p"
  shows "\<exists>p'. advance_turn now p = Return p' \<and> p' = fst (nextUnit p)"
proof -
  obtain p1 r where n: "nextUnit p = (p1, r)" by force
  obtain K where p1: "p1 = p\<lparr>np_pending := filter (\<lambda>u. un_key u \<notin> K) (np_pending p)\<rparr>" using nextUnit_pending [OF n] .
  show ?thesis
  proof (cases r)
    case (Some u)
    with nextUnit_newer n lp obtain t where t: "u \<in> set (np_pending p)" "timestamp u = Some t" "lp < t" by metis
    then have "unat t < 2 ^ 53" using small by (auto simp: ts_small_def)
    with t micros_pos have "now < presentationDeadline p1 t" using lp by (auto simp: presentationDeadline_def p1)
    then show ?thesis by (simp add: advance_turn_def n Some t)
  qed (simp add: advance_turn_def n)
qed

lemma advance_loop_cases [consumes 3]:
  assumes wf: "pb_wf p" and act: "0 \<le> np_active p" and small: "ts_small p"
  obtains (idle) p' where "advance_turn now p = Return p'" "advance_loop now p = p'"
  | (one) p1 where "advance_turn now p = Again p1" "advance_loop now p = fst (nextUnit p1)" "ts_small p1"
proof (cases "advance_turn now p")
  case (Return p')
  then show thesis using idle by (simp add: advance_loop.simps)
next
  case (Again p1)
  from advance_turn_Again [OF wf act Again] have s: "ts_small p1"
    and f: "\<exists>t. np_lastPresented p1 = Some t" "np_lastPresentedAt p1 = Some now" "np_started p1"
    using small unfolding ts_small_def by (metis (no_types, lifting) option.inject subsetD)+
  then obtain p' where "advance_turn now p1 = Return p'" "p' = fst (nextUnit p1)"
    using advance_turn_not_due [OF _ f(2,3) s] by blast
  with Again s show thesis by (intro one [of p1]) (simp_all add: advance_loop.simps [of now p] advance_loop.simps [of now p1])
qed

lemma tryStart_deadline:
  assumes "start_scan p us = Some d"
  obtains u pr where "0 \<le> pr" "tryStart_scan now us p = (if now < d then p\<lparr>np_state := Buffering\<rparr>
     else present u now (leaveStall now (p\<lparr>np_valid := set_range 0 (pr + 1) True (np_valid p), np_active := pr\<rparr>)))"
proof -
  have "\<exists>u pr. 0 \<le> pr \<and> tryStart_scan now us p = (if now < d then p\<lparr>np_state := Buffering\<rparr>
     else present u now (leaveStall now (p\<lparr>np_valid := set_range 0 (pr + 1) True (np_valid p), np_active := pr\<rparr>)))"
    using assms
  proof (induction us)
    case (Cons u us)
    obtain pr ind where c: "completePrefix p u = (pr, ind)" by force
    show ?case
    proof (cases "\<not> ind \<or> pr < 0 \<or> bufferFor p u pr < np_minimalBuffer p")
      case False
      then show ?thesis using Cons.prems c by (intro exI [of _ u] exI [of _ pr]) auto
    qed (use Cons c in auto)
  qed simp
  then show thesis using that by blast
qed

lemma tryStart_no_candidate: "start_scan p us = None \<Longrightarrow> tryStart_scan now us p = tryStart_scan now [] p"
  by (induction us) (auto split: prod.splits if_splits)

section \<open>Properties\<close>

text \<open>C7: Playback is paced by media time and moves forward. While a layer is active, one advance call
  presents at most one unit; the unit is newer than the last one and at least as much wall-clock
  time has passed since the last presentation as the media clock moved. The bound says that media
  timestamps are below 2^53 microseconds.\<close>

theorem advance_paced:
  assumes "pb_reach p" and "0 \<le> np_active p" and "ts_small p"
  shows "let q = advance now p in
    (np_played q = np_played p \<and> np_lastPresented q = np_lastPresented p) \<or>
    (\<exists>lp lpAt t. np_lastPresented p = Some lp \<and> np_lastPresentedAt p = Some lpAt \<and>
       np_lastPresented q = Some t \<and> np_lastPresentedAt q = Some now \<and> lp < t \<and>
       lpAt + 1000 * int (unat (t - lp)) \<le> now \<and> length (np_played q) = Suc (length (np_played p)))"
proof -
  have wf: "pb_wf p" and sim: "np_simulated p" using pb_reach_wf [OF assms(1)] assms(2)
    by (auto simp: pb_wf_def play_wf_def)
  then have adv: "advance now p = advance_loop now p" using assms(2) by (simp add: advance_def)
  from wf assms(2,3) show ?thesis
  proof (cases rule: advance_loop_cases [where now = now])
    case (idle p')
    then show ?thesis using advance_turn_Return [OF idle(1) wf assms(2)] by (simp add: adv Let_def)
  next
    case (one p1)
    obtain K where K: "fst (nextUnit p1) = p1\<lparr>np_pending := filter (\<lambda>u. un_key u \<notin> K) (np_pending p1)\<rparr>"
      using nextUnit_pending by (metis surjective_pairing)
    from advance_turn_Again [OF wf assms(2) one(1)] obtain lp lpAt u t where
      f: "np_lastPresented p = Some lp" "np_lastPresentedAt p = Some lpAt" "u \<in> set (np_pending p)"
        "timestamp u = Some t" "lp < t" "lpAt + micros (t - lp) \<le> now" "np_lastPresented p1 = Some t"
        "np_lastPresentedAt p1 = Some now" "length (np_played p1) = Suc (length (np_played p))" by metis
    then have "unat (t - lp) < 2 ^ 53" using assms(3) unat_sub_less by (auto simp: ts_small_def)
    with f(6) have "lpAt + 1000 * int (unat (t - lp)) \<le> now" by (metis micros_nat)
    with f one(2) K show ?thesis by (simp add: adv Let_def)
  qed
qed

text \<open>C8: The deadline the run loop sleeps for is exact. Before it, advance only drops stale units (or
  notes that it is buffering); at or after it, advance presents a unit at that instant or, with a
  layer active, stalls.\<close>

theorem nextAdvanceDeadline_exact:
  assumes "pb_reach p" and "ts_small p" and "nextAdvanceDeadline p = (p1, Some d)"
  shows "(now < d \<longrightarrow> advance now p = (if 0 \<le> np_active p then p1 else p\<lparr>np_state := Buffering\<rparr>)) \<and>
    (d \<le> now \<longrightarrow> (0 \<le> np_active (advance now p) \<and> np_lastPresentedAt (advance now p) = Some now) \<or>
       (0 \<le> np_active p \<and> np_active (advance now p) < 0 \<and> np_state (advance now p) = Stalled))"
proof -
  have wf: "pb_wf p" and sim: "np_simulated p" using pb_reach_wf [OF assms(1)] assms(3)
    by (auto simp: nextAdvanceDeadline_def split: if_splits)
  show ?thesis
  proof (cases "0 \<le> np_active p")
    case True
    then have adv: "advance now p = advance_loop now p" using sim by (simp add: advance_def)
    from assms(3) True sim obtain u t where n: "nextUnit p = (p1, Some u)" "timestamp u = Some t"
      "d = presentationDeadline p1 t" by (auto simp: nextAdvanceDeadline_def split: prod.splits option.splits)
    from wf True assms(2) show ?thesis
    proof (cases rule: advance_loop_cases [where now = now])
      case (idle p')
      from idle(1) n have "(now < d \<longrightarrow> p' = p1) \<and> (d \<le> now \<longrightarrow> np_active p' < 0 \<and> np_state p' = Stalled)"
        by (auto simp: advance_turn_def Let_def enterStall_def split: prod.splits if_splits)
      then show ?thesis using idle(2) adv True by simp
    next
      case (one q)
      have "0 \<le> np_active q" using advance_turn_wf [OF wf True, of now] one(1) by simp
      moreover have "np_lastPresentedAt q = Some now" using advance_turn_Again [OF wf True one(1)] by metis
      moreover obtain K where "fst (nextUnit q) = q\<lparr>np_pending := filter (\<lambda>u. un_key u \<notin> K) (np_pending q)\<rparr>"
        using nextUnit_pending by (metis surjective_pairing)
      moreover have "\<not> now < d" using one(1) n by (auto simp: advance_turn_def)
      ultimately show ?thesis using one(2) by (simp add: adv)
    qed
  next
    case False
    with assms(3) sim have "start_scan p (sortedUnits p) = Some d" by (auto simp: nextAdvanceDeadline_def)
    then obtain u pr where pr: "0 \<le> pr" and ts: "tryStart_scan now (sortedUnits p) p = (if now < d then p\<lparr>np_state := Buffering\<rparr>
       else present u now (leaveStall now (p\<lparr>np_valid := set_range 0 (pr + 1) True (np_valid p), np_active := pr\<rparr>)))"
      using tryStart_deadline [where now = now] by metis
    then show ?thesis using False sim pr
      by (simp add: advance_def tryStart_def ts present_def leaveStall_def Let_def split: option.split)
  qed
qed

lemma add_layer_idem: "add_layer i l (add_layer i l u) = add_layer i l u"
  by (auto simp: add_layer_def split: option.splits)

lemma put_unit_idem: "put_unit v (put_unit v us) = put_unit v us"
  by (induction us) auto

lemma find_put_unit: "find_unit (un_key v) (put_unit v us) = Some v"
  by (induction us) auto

lemma length_put_unit: "length (put_unit v us) \<le> Suc (length us)"
  by (induction us) auto

lemma file_layer_frame:
  "np_tracks (file_layer p k i l) = np_tracks p" "np_trackIndex (file_layer p k i l) = np_trackIndex p"
  "np_simulated (file_layer p k i l) = np_simulated p"
  using trimPending_filter [of "p\<lparr>np_pending := put_unit (add_layer i l (case find_unit k (np_pending p) of
      Some u \<Rightarrow> u | None \<Rightarrow> new_unit p k)) (np_pending p)\<rparr>"]
  by (auto simp: file_layer_def Let_def)

lemma key_filed: "un_key (case find_unit k us of Some u \<Rightarrow> u | None \<Rightarrow> new_unit p k) = k"
  by (auto simp: new_unit_def dest: find_unit_mem split: option.splits)

text \<open>Delivering the same object twice changes nothing but the byte count: the pending units after
  the second delivery are those after the first.\<close>

theorem addObject_twice:
  assumes "length (np_pending p) < maxPendingUnits"
  shows "np_pending (addObject (addObject p n g ob hs sz now) n g ob hs sz later)
         = np_pending (addObject p n g ob hs sz now)"
proof -
  have twice: "np_pending (file_layer q' k i l) = np_pending (file_layer q k i l)"
    if q: "length (np_pending q) < maxPendingUnits" and q': "np_pending q' = np_pending (file_layer q k i l)"
    for q q' k i l
  proof -
    define v where "v = add_layer i l (case find_unit k (np_pending q) of Some u \<Rightarrow> u | None \<Rightarrow> new_unit q k)"
    have k: "un_key v = k" unfolding v_def by (simp add: key_filed)
    have f: "np_pending (file_layer q k i l) = put_unit v (np_pending q)"
      using length_put_unit [of v "np_pending q"] q by (simp add: file_layer_def v_def [symmetric] trimPending_id Let_def)
    have pq: "np_pending q' = put_unit v (np_pending q)" using q' f by simp
    have "find_unit k (np_pending q') = Some v" using find_put_unit [of v] by (simp add: pq k)
    moreover have "add_layer i l v = v" by (simp add: v_def add_layer_idem)
    ultimately have "np_pending (file_layer q' k i l) = put_unit v (np_pending q')"
      using length_put_unit [of v "np_pending q"] q
      by (simp add: file_layer_def pq put_unit_idem trimPending_id Let_def)
    then show ?thesis by (simp add: pq f put_unit_idem)
  qed
  show ?thesis
    by (auto simp: addObject_def Let_def notifyPlayback_def file_layer_frame assms intro!: twice
        split: option.splits prod.splits if_splits)
qed

section \<open>Concrete runs\<close>

text \<open>A base-layer-only LOC AV1 catalog, the player for it (no minimum buffer, one microsecond target
  latency) and the headers of its objects.\<close>

definition ex_cat :: catalog where
  "ex_cat = zero_catalog\<lparr>cat_Tracks := [zero_track\<lparr>tr_Name := ''v'', tr_Packaging := ''loc'',
     tr_Codec := ''av01'', tr_SpatialID := Some 0\<rparr>]\<rparr>"

definition ex_p0 :: native_playback where
  "ex_p0 = (case newNativePlayback ex_cat [''v''] ''v'' True 0 1000 [] of Inr p \<Rightarrow> p)"

definition ex_hdr :: "u64 \<Rightarrow> bool \<Rightarrow> kv list" where
  "ex_hdr ts ind = [kv_varint locPropTimestamp ts, kv_varint locPropFrameMark (pub_locFrameMarking 0 ind)]"

text \<open>After the first unit, with timestamp t, has been presented one microsecond later.\<close>

definition ex_started :: "u64 \<Rightarrow> native_playback" where
  "ex_started t = advance (1000 + 1000 * int (unat t)) (addObject ex_p0 ''v'' 1 0 (ex_hdr t True) 10 0)"

text \<open>A unit that arrives twice with different sizes has no complete prefix.\<close>

definition ex_conflict :: "u64 \<Rightarrow> u64 \<Rightarrow> u64 \<Rightarrow> bool \<Rightarrow> native_playback \<Rightarrow> native_playback" where
  "ex_conflict g ob t ind p = addObject (addObject p ''v'' g ob (ex_hdr t ind) 5 0) ''v'' g ob (ex_hdr t ind) 6 0"

lemma ex_p0_new: "newNativePlayback ex_cat [''v''] ''v'' True 0 1000 [] = Inr ex_p0"
  by code_simp

lemma ex_started_active: "np_active (ex_started 0) = 0" "np_pending (ex_started 0) = []"
  "np_lastPresented (ex_started 0) = Some 0"
  by code_simp+

lemma reach_p0: "pb_reach ex_p0"
  using ex_p0_new by (rule pb_reach.init)

lemma reach_add: "pb_reach p \<Longrightarrow> pb_reach (addObject p n g ob hs sz now)"
  by (rule pb_reach.step [OF _ pb_step.arrive])

lemma reach_advance: "pb_reach p \<Longrightarrow> pb_reach (advance now p)"
  by (rule pb_reach.step [OF _ pb_step.timer])

lemma reach_started: "pb_reach (ex_started t)"
  unfolding ex_started_def by (intro reach_advance reach_add reach_p0)

theorem playback_invariant_witness: "np_active (ex_started 0) = 0 \<and> np_state (ex_started 0) = Playing"
  using playback_invariant [OF reach_started [of 0]] by (simp add: ex_started_active)

theorem advance_paced_witness:
  "\<exists>q. q = advance 2500 (addObject (ex_started 0) ''v'' 1 1 (ex_hdr 1 False) 5 1500) \<and>
     np_lastPresented q = Some 1 \<and> np_lastPresentedAt q = Some 2500"
proof -
  let ?p = "addObject (ex_started 0) ''v'' 1 1 (ex_hdr 1 False) 5 1500"
  have r: "pb_reach ?p" by (intro reach_add reach_started)
  have a: "0 \<le> np_active ?p" by code_simp
  have "np_lastPresented ?p = Some 0" "np_pending ?p = [\<lparr>un_key = \<lparr>uk_group = 1, uk_object = 1\<rparr>,
      un_layers = [(0, \<lparr>pl_timestampUs = 1, pl_independent = False, pl_bytes = 5\<rparr>)], un_invalidFrom = 1\<rparr>]"
    by code_simp+
  then have s: "ts_small ?p" by (auto simp: ts_small_def timestamp_def)
  have "np_lastPresented (advance 2500 ?p) = Some 1" "np_lastPresented ?p = Some 0" by code_simp+
  then show ?thesis using advance_paced [OF r a s, of 2500] by (auto simp: Let_def)
qed

text \<open>Stall time can be lost. In this run of a new player nothing is presented between 2 and 21
  microseconds, but the recorded stall time is 12 microseconds and two stalls are counted: an
  advance in between that finds a start candidate with a future deadline sets the state to
  buffering without closing the stall, and when the candidate is invalidated the next advance
  opens a second stall and overwrites the start of the first.\<close>

theorem stall_time_lost:
  "let p1 = advance 2000 (ex_conflict 1 1 1 False (ex_started 0));
       p2 = advance 5000 (addObject p1 ''v'' 2 0 (ex_hdr 10 True) 5 0);
       p3 = advance 9000 (addObject p2 ''v'' 2 0 (ex_hdr 10 True) 6 0);
       p4 = advance 21000 (addObject p3 ''v'' 3 0 (ex_hdr 20 True) 7 0)
   in np_state p1 = Stalled \<and> np_stallStarted p1 = Some 2000 \<and> np_state p2 = Buffering \<and>
      np_stallStarted p3 = Some 9000 \<and> np_stallCount p4 = 2 \<and> np_stallDuration p4 = 12000 \<and>
      map tb_at (np_played p4) = [1000, 21000]"
  by code_simp

text \<open>A restart after a stall may go back in time: here the unit at 5 microseconds has been
  presented and, after a stall, an older independent unit at 3 microseconds is.\<close>

theorem restart_goes_back:
  "let p1 = advance 7000 (ex_conflict 1 1 6 False (ex_started 5));
       p2 = advance 8000 (addObject p1 ''v'' 0 9 (ex_hdr 3 True) 5 0)
   in np_lastPresented p1 = Some 5 \<and> np_state p1 = Stalled \<and>
      np_state p2 = Playing \<and> np_lastPresented p2 = Some 3"
  by code_simp

theorem addObject_twice_witness:
  "np_pending (addObject (addObject ex_p0 ''v'' 1 0 (ex_hdr 7 True) 10 0) ''v'' 1 0 (ex_hdr 7 True) 10 5)
   = np_pending (addObject ex_p0 ''v'' 1 0 (ex_hdr 7 True) 10 0)"
proof -
  have "np_pending ex_p0 = []" by code_simp
  then show ?thesis by (intro addObject_twice) (simp add: maxPendingUnits_def)
qed

theorem nextAdvanceDeadline_exact_witness:
  "\<exists>p. pb_reach p \<and> np_lastPresentedAt (advance 8000 p) = Some 8000"
proof -
  let ?p = "addObject ex_p0 ''v'' 1 0 (ex_hdr 7 True) 10 0"
  have r: "pb_reach ?p" by (intro reach_add reach_p0)
  have f: "np_pending ?p = [\<lparr>un_key = \<lparr>uk_group = 1, uk_object = 0\<rparr>,
      un_layers = [(0, \<lparr>pl_timestampUs = 7, pl_independent = True, pl_bytes = 10\<rparr>)], un_invalidFrom = 1\<rparr>]"
    "np_lastPresented ?p = None" by code_simp+
  have s: "ts_small ?p" using f by (auto simp: ts_small_def timestamp_def)
  have d: "nextAdvanceDeadline ?p = (?p, Some 8000)" by code_simp
  have "np_active ?p = -1" by code_simp
  with nextAdvanceDeadline_exact [OF r s d, of 8000] r show ?thesis by (intro exI [of _ ?p]) auto
qed

theorem switch_layers_refines_witness:
  "np_active (switch_layers (-1) False (ex_started 0)) = -1"
proof -
  let ?u = "\<lparr>un_key = \<lparr>uk_group = 1, uk_object = 1\<rparr>, un_layers = [], un_invalidFrom = 0\<rparr>"
  have "completePrefix (ex_started 0) ?u = (-1, False)" by (simp add: completePrefix_def)
  from switch_layers_refines [OF reach_started this] show ?thesis
    by (simp add: quality_after_def ex_started_active)
qed

theorem sortedUnits_order_independent_witness:
  "let u = (\<lambda>k t. \<lparr>un_key = \<lparr>uk_group = 1, uk_object = k\<rparr>,
        un_layers = [(0, \<lparr>pl_timestampUs = t, pl_independent = False, pl_bytes = 1\<rparr>)], un_invalidFrom = 1\<rparr>)
   in sortedUnits (ex_p0\<lparr>np_pending := [u 2 5, u 1 9]\<rparr>) = sortedUnits (ex_p0\<lparr>np_pending := [u 1 9, u 2 5]\<rparr>)"
proof -
  let ?u = "\<lambda>k t. \<lparr>un_key = \<lparr>uk_group = 1, uk_object = k\<rparr>,
      un_layers = [(0, \<lparr>pl_timestampUs = t, pl_independent = False, pl_bytes = 1\<rparr>)], un_invalidFrom = 1\<rparr>"
  have "sortedUnits (ex_p0\<lparr>np_pending := [?u 1 9, ?u 2 5]\<rparr>\<lparr>np_pending := [?u 2 5, ?u 1 9]\<rparr>)
        = sortedUnits (ex_p0\<lparr>np_pending := [?u 1 9, ?u 2 5]\<rparr>)"
    using sortedUnits_order_independent [of "ex_p0\<lparr>np_pending := [?u 1 9, ?u 2 5]\<rparr>" "[?u 2 5, ?u 1 9]"] by simp
  then show ?thesis by (simp add: Let_def)
qed

end
