(* ===== verification/Audio_Init.thy ===== *)
theory Audio_Init
  imports Track_Model
begin

text \<open>
  The audio codecs of \<^verbatim>\<open>internal/media.go\<close>: the codec data that the loader derives from an init
  segment for AAC and Opus (whose sample entry is recreated) and for AC-3 and E-AC-3 (whose init
  segment is reused), and \<^verbatim>\<open>GenCMAFInitData\<close>, which encodes the output init segment. The boxes that
  mp4ff reads and builds are the fields of \<open>audio_lib\<close>.
\<close>

record dops_box =
  dops_Version :: u8
  dops_OutputChannelCount :: u8
  dops_PreSkip :: u16
  dops_InputSampleRate :: u32
  dops_OutputGain :: u16
  dops_ChannelMappingFamily :: u8

datatype sample_entry_child = EsdsChild bytes | DopsChild dops_box

record 'i audio_lib =
  au_mp4a :: "'i \<Rightarrow> (u16 \<times> bytes) option"
  au_decodeASC :: "bytes \<Rightarrow> (u8 \<times> u8) res"
  au_opus :: "'i \<Rightarrow> dops_box option option"
  au_ac3 :: "'i \<Rightarrow> (u16 \<times> u16) option"
  au_ec3 :: "'i \<Rightarrow> (u16 \<times> u16) option"
  au_mdhdLanguage :: "'i \<Rightarrow> string"
  au_elng :: "'i \<Rightarrow> string option"
  au_timescale :: "'i \<Rightarrow> u32"
  au_mkInit :: "u32 \<Rightarrow> string \<Rightarrow> string \<Rightarrow> u16 \<Rightarrow> u16 \<Rightarrow> sample_entry_child \<Rightarrow> 'i"

text \<open>The extended language box overrides the language of the media header.\<close>

definition audio_language :: "'i audio_lib \<Rightarrow> 'i \<Rightarrow> string" where
  "audio_language L i = (case au_elng L i of None \<Rightarrow> au_mdhdLanguage L i | Some l \<Rightarrow> l)"

definition initAACData :: "'i audio_lib \<Rightarrow> 'i \<Rightarrow> 'i aac_data res" where
  "initAACData L i = (case au_mp4a L i of
     None \<Rightarrow> Inl (Panic ''nil pointer dereference'')
   | Some (rate, ascBytes) \<Rightarrow> (case au_decodeASC L ascBytes of
       Inl e \<Rightarrow> Inl (Wrapf ''could not decode audio specific config'' e)
     | Inr (objectType, chans) \<Rightarrow>
         let sampleRate = ucast rate :: u32
         in Inr \<lparr>aa_inInit = i,
              aa_outInit = au_mkInit L (au_timescale L i) (audio_language L i) ''mp4a'' (ucast chans)
                             (ucast sampleRate) (EsdsChild ascBytes),
              aa_codec = ''mp4a.40.'' @ dec (unat objectType), aa_sampleRate = sampleRate,
              aa_channelConfig = dec (unat chans)\<rparr>))"

definition initOpusData :: "'i audio_lib \<Rightarrow> 'i \<Rightarrow> 'i opus_data res" where
  "initOpusData L i = (case au_opus L i of
     None \<Rightarrow> Inl (Errorf ''no Opus box found in init segment'')
   | Some None \<Rightarrow> Inl (Errorf ''no dOps box found in Opus sample entry'')
   | Some (Some d) \<Rightarrow>
       Inr \<lparr>op_inInit = i,
         op_outInit = au_mkInit L (au_timescale L i) (audio_language L i) ''Opus''
                        (ucast (dops_OutputChannelCount d)) (ucast (dops_InputSampleRate d)) (DopsChild d),
         op_codec = ''Opus'', op_sampleRate = dops_InputSampleRate d,
         op_channelConfig = dec (unat (dops_OutputChannelCount d))\<rparr>)"

definition initAC3Data :: "'i audio_lib \<Rightarrow> 'i \<Rightarrow> 'i ac3_data res" where
  "initAC3Data L i = (case au_ac3 L i of
     None \<Rightarrow> Inl (Errorf ''no dac3 box found'')
   | Some (rate, chans) \<Rightarrow> Inr \<lparr>ac_inInit = i, ac_outInit = i, ac_codec = ''ac-3'',
       ac_sampleRate = ucast rate, ac_channelConfig = dec (unat chans)\<rparr>)"

definition initEC3Data :: "'i audio_lib \<Rightarrow> 'i \<Rightarrow> 'i ac3_data res" where
  "initEC3Data L i = (case au_ec3 L i of
     None \<Rightarrow> Inl (Errorf ''no dec3 box found'')
   | Some (rate, chans) \<Rightarrow> Inr \<lparr>ac_inInit = i, ac_outInit = i, ac_codec = ''ec-3'',
       ac_sampleRate = ucast rate, ac_channelConfig = dec (unat chans)\<rparr>)"

text \<open>\<^verbatim>\<open>GenCMAFInitData\<close> of every codec: \<open>enc\<close> is mp4ff's \<^verbatim>\<open>InitSegment.EncodeSW\<close>.\<close>

definition GenCMAFInitData :: "('i \<Rightarrow> bytes res) \<Rightarrow> 'i spec_data \<Rightarrow> bytes res" where
  "GenCMAFInitData enc sd = enc (sd_GetInit sd)"

end
