(* ===== verification/Nalu.thy ===== *)
theory Nalu
  imports Track_Model
begin

text \<open>
  NAL units in 4-byte length framing (AVC and HEVC samples): the decoder configurations for LOC
  (\<open>GenLOCVideoConfig\<close>), the subscriber's conversion to Annex B (\<open>LOCVideoWriter_Write\<close>), the
  insertion of a caption SEI before the first coded slice (\<open>SpliceSEIBeforeVCL\<close>) and the
  rewriting of samples in place when a track is loaded (\<open>initHEVCData\<close>, \<open>initAVCData\<close>).

  The loaders keep slices that alias the sample's backing array while the array is being
  overwritten, so they are modelled on an explicit store of byte arrays: \<open>nal_ref\<close> is a slice,
  \<open>read_ref\<close> its current contents. The NAL unit classifiers and the init-segment builders are
  functions of mp4ff and parameters; the locale \<open>nalu_framing\<close> states what is relied on of its
  sample splitter and is interpreted on the splitting loop of this repository.
\<close>

section \<open>Framing\<close>

definition frame1 :: "bytes \<Rightarrow> bytes" where
  "frame1 n = be32_put (of_nat (length n)) @ n"

text \<open>\<^verbatim>\<open>for n { PutUint32(work, len(n)); buf = append(buf, work...); buf = append(buf, n...) }\<close>\<close>

fun frame_nalus :: "bytes list \<Rightarrow> bytes \<Rightarrow> bytes" where
  "frame_nalus [] buf = buf"
| "frame_nalus (n # ns) buf = frame_nalus ns (buf @ be32_put (of_nat (length n)) @ n)"

abbreviation framed :: "bytes list \<Rightarrow> bytes" where
  "framed ns \<equiv> concat (map frame1 ns)"

definition sizes_ok :: "bytes list \<Rightarrow> bool" where
  "sizes_ok ns \<longleftrightarrow> (\<forall>n \<in> set ns. length n < 2 ^ 32)"

lemma frame_nalus_concat: "frame_nalus ns buf = buf @ framed ns"
  by (induction ns arbitrary: buf) (simp_all add: frame1_def)

definition GenLOCVideoConfig_AVC :: "'i avc_data \<Rightarrow> bytes" where
  "GenLOCVideoConfig_AVC d = frame_nalus (av_Ppss d) (frame_nalus (av_Spss d) [])"

definition GenLOCVideoConfig_HEVC :: "'i hevc_data \<Rightarrow> bytes" where
  "GenLOCVideoConfig_HEVC d = frame_nalus (hv_Ppss d) (frame_nalus (hv_Spss d) (frame_nalus (hv_Vpss d) []))"

section \<open>Annex B\<close>

definition annexBStartCode :: bytes where "annexBStartCode = [0, 0, 0, 1]"

text \<open>The writer is a state-passing parameter: the new state and an error, if any.\<close>

function LOCVideoWriter_Write ::
  "('w \<Rightarrow> bytes \<Rightarrow> 'w \<times> go_error option) \<Rightarrow> 'w \<Rightarrow> bytes \<Rightarrow> 'w \<times> go_error option" where
  "LOCVideoWriter_Write wr w dat =
     (if length dat < 4 then (w, None)
      else let naluLen = unat (be32_get (take 4 dat)); rest = drop 4 dat
        in if naluLen > length rest then (w, Some (Errorf ''LOC AVC: NALU length exceeds remaining data''))
        else case wr w annexBStartCode of
          (w1, Some e) \<Rightarrow> (w1, Some e)
        | (w1, None) \<Rightarrow> (case wr w1 (take naluLen rest) of
            (w2, Some e) \<Rightarrow> (w2, Some e)
          | (w2, None) \<Rightarrow> LOCVideoWriter_Write wr w2 (drop naluLen rest)))"
  by auto
termination by (relation "measure (\<lambda>(wr, w, d). length d)") auto

declare LOCVideoWriter_Write.simps [simp del]

text \<open>A writer that collects the bytes, such as a \<^verbatim>\<open>bytes.Buffer\<close>.\<close>

definition buffer_write :: "bytes \<Rightarrow> bytes \<Rightarrow> bytes \<times> go_error option" where
  "buffer_write w b = (w @ b, None)"

section \<open>Splitting\<close>

text \<open>The splitting loop of \<^verbatim>\<open>initHEVCData\<close> and \<^verbatim>\<open>LOCVideoWriter.Write\<close> as a function.\<close>

function split_nalus :: "bytes \<Rightarrow> bytes list res" where
  "split_nalus dat =
     (if length dat < 4 then Inr []
      else let naluLen = unat (be32_get (take 4 dat)); rest = drop 4 dat
        in if naluLen > length rest then Inl (Errorf ''invalid NALU length'')
        else case split_nalus (drop naluLen rest) of Inl e \<Rightarrow> Inl e | Inr ns \<Rightarrow> Inr (take naluLen rest # ns))"
  by auto
termination by (relation "measure length") auto

declare split_nalus.simps [simp del]

lemma unat_of_nat_u32: "n < 2 ^ 32 \<Longrightarrow> unat (of_nat n :: u32) = n"
  by (simp add: unsigned_of_nat take_bit_eq_mod)

lemma split_frame1: "length n < 2 ^ 32 \<Longrightarrow> split_nalus (frame1 n @ bs) =
   (case split_nalus bs of Inl e \<Rightarrow> Inl e | Inr ns \<Rightarrow> Inr (n # ns))"
  by (subst split_nalus.simps) (simp add: frame1_def unat_of_nat_u32 Let_def split: sum.split)

lemma split_framed: "sizes_ok ns \<Longrightarrow> split_nalus (framed ns) = Inr ns"
  by (induction ns) (simp_all add: sizes_ok_def split_frame1 split_nalus.simps [of "[]"])

locale nalu_framing =
  fixes split :: "bytes \<Rightarrow> bytes list res"
  assumes split_frames: "sizes_ok ns \<Longrightarrow> split (framed ns) = Inr ns"

interpretation own_split: nalu_framing split_nalus
  by unfold_locales (rule split_framed)

section \<open>SEI splicing\<close>

datatype codec608 = CodecAVC | CodecHEVC

text \<open>\<open>avcVCL\<close> and \<open>hevcVCL\<close> are mp4ff's \<^verbatim>\<open>IsVideoNaluType(GetNaluType(b))\<close>; \<open>split\<close> is its
  \<^verbatim>\<open>GetNalusFromSample\<close>.\<close>

definition isVCLNalu :: "(u8 \<Rightarrow> bool) \<Rightarrow> (u8 \<Rightarrow> bool) \<Rightarrow> bytes \<Rightarrow> codec608 \<Rightarrow> bool" where
  "isVCLNalu avcVCL hevcVCL nalu codec = (if codec = CodecHEVC then hevcVCL (nalu ! 0) else avcVCL (nalu ! 0))"

fun vcl_index :: "(bytes \<Rightarrow> bool) \<Rightarrow> nat \<Rightarrow> bytes list \<Rightarrow> nat" where
  "vcl_index isVCL i [] = i"
| "vcl_index isVCL i (n # ns) = (if n \<noteq> [] \<and> isVCL n then i else vcl_index isVCL (Suc i) ns)"

definition SpliceSEIBeforeVCL :: "(bytes \<Rightarrow> bytes list res) \<Rightarrow> (u8 \<Rightarrow> bool) \<Rightarrow> (u8 \<Rightarrow> bool) \<Rightarrow>
    bytes \<Rightarrow> bytes \<Rightarrow> codec608 \<Rightarrow> bytes res" where
  "SpliceSEIBeforeVCL split avcVCL hevcVCL sampleData seiNAL codec = (case split sampleData of
     Inl e \<Rightarrow> Inl e
   | Inr nalus \<Rightarrow>
       let insertAt = vcl_index (\<lambda>n. isVCLNalu avcVCL hevcVCL n codec) 0 nalus;
           ordered = take insertAt nalus @ [seiNAL] @ drop insertAt nalus
       in Inr (frame_nalus ordered []))"

lemma vcl_index_takeWhile:
  "vcl_index isVCL i ns = i + length (takeWhile (\<lambda>n. \<not> (n \<noteq> [] \<and> isVCL n)) ns)"
  by (induction ns arbitrary: i) auto

text \<open>The NAL unit sequence with the SEI inserted.\<close>

definition sei_inserted :: "(bytes \<Rightarrow> bool) \<Rightarrow> bytes \<Rightarrow> bytes list \<Rightarrow> bytes list" where
  "sei_inserted isVCL sei ns = takeWhile (\<lambda>n. \<not> (n \<noteq> [] \<and> isVCL n)) ns @ [sei] @
                               dropWhile (\<lambda>n. \<not> (n \<noteq> [] \<and> isVCL n)) ns"

context nalu_framing
begin

lemma splice_framed:
  assumes "sizes_ok ns"
  shows "SpliceSEIBeforeVCL split avcVCL hevcVCL (framed ns) sei codec
         = Inr (framed (sei_inserted (\<lambda>n. isVCLNalu avcVCL hevcVCL n codec) sei ns))"
  by (simp add: SpliceSEIBeforeVCL_def split_frames [OF assms] vcl_index_takeWhile frame_nalus_concat
      sei_inserted_def takeWhile_eq_take [symmetric] dropWhile_eq_drop [symmetric] Let_def)

lemma splice_twice_order:
  assumes "sizes_ok ns" and "length sei < 2 ^ 32"
  shows "(case SpliceSEIBeforeVCL split a h (framed ns) sei codec of Inr out \<Rightarrow> split out | Inl e \<Rightarrow> Inl e)
         = Inr (sei_inserted (\<lambda>n. isVCLNalu a h n codec) sei ns)"
proof -
  have "sizes_ok (sei_inserted (\<lambda>n. isVCLNalu a h n codec) sei ns)"
    using assms by (auto simp: sizes_ok_def sei_inserted_def dest: set_takeWhileD set_dropWhileD)
  then show ?thesis by (simp add: splice_framed [OF assms(1)] split_frames)
qed

end

section \<open>Properties of framing\<close>

lemma annexb_frame1:
  "length n < 2 ^ 32 \<Longrightarrow> LOCVideoWriter_Write buffer_write w (frame1 n @ bs) =
     LOCVideoWriter_Write buffer_write (w @ annexBStartCode @ n) bs"
  by (subst LOCVideoWriter_Write.simps) (simp add: frame1_def unat_of_nat_u32 buffer_write_def Let_def)

lemma annexb_framed:
  "sizes_ok ns \<Longrightarrow> LOCVideoWriter_Write buffer_write w (framed ns) =
     (w @ concat (map (\<lambda>n. annexBStartCode @ n) ns), None)"
proof (induction ns arbitrary: w)
  case Nil
  show ?case by (simp add: LOCVideoWriter_Write.simps)
next
  case (Cons n ns)
  then show ?case by (simp add: sizes_ok_def annexb_frame1)
qed

text \<open>The Annex B file the subscriber writes for a LOC AVC key frame is the parameter sets of the
  configuration followed by the NAL units of the sample, each behind a start code: the length
  framing of the publisher is undone exactly.\<close>

theorem loc_avc_annexb:
  assumes "sizes_ok (av_Spss d)" and "sizes_ok (av_Ppss d)" and "sizes_ok ns"
  shows "LOCVideoWriter_Write buffer_write w (GenLOCVideoConfig_AVC d @ framed ns) =
    (w @ concat (map (\<lambda>n. annexBStartCode @ n) (av_Spss d @ av_Ppss d @ ns)), None)"
proof -
  have "sizes_ok (av_Spss d @ av_Ppss d @ ns)" using assms by (auto simp: sizes_ok_def)
  from annexb_framed [OF this, of w] show ?thesis by (simp add: GenLOCVideoConfig_AVC_def frame_nalus_concat)
qed

theorem loc_avc_annexb_witness:
  "LOCVideoWriter_Write buffer_write []
     (GenLOCVideoConfig_AVC \<lparr>av_inInit = (), av_outInit = (), av_Spss = [[103, 1]], av_Ppss = [[104]],
        av_codec = [], av_width = 0, av_height = 0\<rparr> @ framed [[101, 7]])
   = ([0, 0, 0, 1, 103, 1, 0, 0, 0, 1, 104, 0, 0, 0, 1, 101, 7], None)"
  by (subst loc_avc_annexb) (simp_all add: sizes_ok_def annexBStartCode_def)

text \<open>Splicing a caption SEI keeps every NAL unit and their order, and puts the SEI directly before
  the first coded slice (at the end if there is none); splitting the result gives it back. The
  hypothesis on the splitter is mp4ff's documented behaviour on 4-byte-length-framed samples.\<close>

theorem splice_sei_before_vcl:
  assumes "\<And>ns. sizes_ok ns \<Longrightarrow> split (framed ns) = Inr ns" and "sizes_ok ns" and "length sei < 2 ^ 32"
  shows "\<exists>out. SpliceSEIBeforeVCL split avcVCL hevcVCL (framed ns) sei codec = Inr out \<and>
    split out = Inr (sei_inserted (\<lambda>n. isVCLNalu avcVCL hevcVCL n codec) sei ns)"
proof -
  have "nalu_framing split" using assms(1) by unfold_locales
  then show ?thesis using nalu_framing.splice_framed [OF _ assms(2), of split avcVCL hevcVCL sei codec]
      nalu_framing.splice_twice_order [OF _ assms(2,3), of split avcVCL hevcVCL codec] by simp
qed

theorem splice_sei_before_vcl_witness:
  "\<exists>out. SpliceSEIBeforeVCL split_nalus (\<lambda>b. b = 101) (\<lambda>b. False) (framed [[9], [101, 2]]) [6, 4] CodecAVC = Inr out \<and>
     split_nalus out = Inr [[9], [6, 4], [101, 2]]"
  using splice_sei_before_vcl [of split_nalus "[[9], [101, 2]]" "[6, 4]" "\<lambda>b. b = 101" "\<lambda>b. False" CodecAVC]
  by (simp add: split_framed sizes_ok_def sei_inserted_def isVCLNalu_def)

end
