(* ===== verification/Sample_Rewrite.thy ===== *)
theory Sample_Rewrite
  imports Nalu
begin

text \<open>
  Loading of AVC and HEVC tracks (\<^verbatim>\<open>initAVCData\<close>, \<^verbatim>\<open>initHEVCData\<close> of
  \<^verbatim>\<open>internal/media.go\<close>): parameter sets move from the samples to the track data and the samples
  are rewritten in place, into the array they are read from. The store has the backing array and
  the current length of every sample; parameter sets are slices of these arrays or come from the
  sample entry. Two lemmas matter: the in-place rewriting computes what copying would
  (\<open>hevc_sample_rewritten\<close>), and a kept parameter-set slice does not keep its contents
  (\<open>inband_ps_overwritten\<close>).
\<close>

datatype nal_ref = Box bytes | Slice nat nat nat

record sample_store =
  ss_bufs :: "bytes list"
  ss_lens :: "nat list"
  ss_vps :: "nal_ref list"
  ss_sps :: "nal_ref list"
  ss_pps :: "nal_ref list"

fun read_ref :: "bytes list \<Rightarrow> nal_ref \<Rightarrow> bytes" where
  "read_ref bufs (Box b) = b"
| "read_ref bufs (Slice i off n) = take n (drop off (bufs ! i))"

definition write_at :: "nat \<Rightarrow> bytes \<Rightarrow> bytes \<Rightarrow> bytes" where
  "write_at off bs b = take off b @ bs @ drop (off + length bs) b"

text \<open>\<^verbatim>\<open>samples[i].Data = append(samples[i].Data, bs...)\<close> within the capacity of the array.\<close>

definition append_data :: "nat \<Rightarrow> bytes \<Rightarrow> sample_store \<Rightarrow> sample_store" where
  "append_data i bs st = st\<lparr>ss_bufs := (ss_bufs st)[i := write_at (ss_lens st ! i) bs (ss_bufs st ! i)],
                            ss_lens := (ss_lens st)[i := ss_lens st ! i + length bs]\<rparr>"

definition appendNewNALU :: "bytes list \<Rightarrow> nal_ref list \<Rightarrow> nal_ref \<Rightarrow> nal_ref list" where
  "appendNewNALU bufs nalus nalu =
     (if (\<exists>v \<in> set nalus. read_ref bufs v = read_ref bufs nalu) then nalus else nalus @ [nalu])"

text \<open>What the switch over the NAL unit type does with a unit; the classification of the first byte
  is mp4ff's and a parameter.\<close>

datatype nal_kind = VPS | SPS | PPS | Keep | Drop

definition take_nalu :: "(u8 \<Rightarrow> nal_kind) \<Rightarrow> nat \<Rightarrow> nat \<Rightarrow> nat \<Rightarrow> sample_store \<Rightarrow> sample_store res" where
  "take_nalu kind i off n st =
     (let r = Slice i off n; bufs = ss_bufs st
      in if n = 0 then Inl (Panic ''index out of range'')
         else Inr (case kind (read_ref bufs r ! 0) of
             VPS \<Rightarrow> st\<lparr>ss_vps := appendNewNALU bufs (ss_vps st) r\<rparr>
           | SPS \<Rightarrow> st\<lparr>ss_sps := appendNewNALU bufs (ss_sps st) r\<rparr>
           | PPS \<Rightarrow> st\<lparr>ss_pps := appendNewNALU bufs (ss_pps st) r\<rparr>
           | Drop \<Rightarrow> st
           | Keep \<Rightarrow> (let st1 = append_data i (be32_put (of_nat n)) st
                      in append_data i (read_ref (ss_bufs st1) r) st1)))"

section \<open>HEVC\<close>

text \<open>The inner loop; \<open>tot\<close> is the sample's original length and \<open>r\<close> the position of \<^verbatim>\<open>data\<close>.\<close>

function hevc_loop :: "(u8 \<Rightarrow> nal_kind) \<Rightarrow> nat \<Rightarrow> nat \<Rightarrow> nat \<Rightarrow> sample_store \<Rightarrow> sample_store res" where
  "hevc_loop kind i tot r st =
     (if tot - r < 4 then Inr st
      else let naluLen = unat (be32_get (take 4 (drop r (ss_bufs st ! i))))
        in if naluLen > tot - (r + 4) then Inl (Errorf ''invalid HEVC NALU length'')
        else case take_nalu kind i (r + 4) naluLen st of
          Inl e \<Rightarrow> Inl e
        | Inr st' \<Rightarrow> hevc_loop kind i tot (r + 4 + naluLen) st')"
  by auto
termination by (relation "measure (\<lambda>(kind, i, tot, r, st). tot - r)") auto

declare hevc_loop.simps [simp del]

definition hevc_sample :: "(u8 \<Rightarrow> nal_kind) \<Rightarrow> nat \<Rightarrow> sample_store \<Rightarrow> sample_store res" where
  "hevc_sample kind i st = hevc_loop kind i (ss_lens st ! i) 0 (st\<lparr>ss_lens := (ss_lens st)[i := 0]\<rparr>)"

fun hevc_samples :: "(u8 \<Rightarrow> nal_kind) \<Rightarrow> nat list \<Rightarrow> sample_store \<Rightarrow> sample_store res" where
  "hevc_samples kind [] st = Inr st"
| "hevc_samples kind (i # is) st = (case hevc_sample kind i st of Inl e \<Rightarrow> Inl e | Inr st' \<Rightarrow> hevc_samples kind is st')"

definition open_store :: "full_sample list \<Rightarrow> sample_store" where
  "open_store samples = \<lparr>ss_bufs = map fs_Data samples, ss_lens = map (length \<circ> fs_Data) samples,
     ss_vps = [], ss_sps = [], ss_pps = []\<rparr>"

definition close_store :: "sample_store \<Rightarrow> full_sample list \<Rightarrow> full_sample list" where
  "close_store st samples = map (\<lambda>i. (samples ! i)\<lparr>fs_Data := take (ss_lens st ! i) (ss_bufs st ! i)\<rparr>)
                                [0..<length samples]"

text \<open>mp4ff's part: the hvcC arrays and the time scale of an init segment, the builder of the output
  init segment (\<^verbatim>\<open>CreateEmptyInit\<close>, \<^verbatim>\<open>AddEmptyTrack\<close>, \<^verbatim>\<open>SetHEVCDescriptor\<close>), the SPS parser
  with codec string, width and height.\<close>

record 'i hevc_lib =
  hl_hvcC :: "'i \<Rightarrow> (nal_kind \<times> bytes list) list option"
  hl_timescale :: "'i \<Rightarrow> u32"
  hl_kind :: "u8 \<Rightarrow> nal_kind"
  hl_mkInit :: "u32 \<Rightarrow> bytes list \<Rightarrow> bytes list \<Rightarrow> bytes list \<Rightarrow> 'i res"
  hl_parseSPS :: "bytes \<Rightarrow> (string \<times> u32 \<times> u32) res"

definition boxed :: "nal_kind \<Rightarrow> (nal_kind \<times> bytes list) list \<Rightarrow> nal_ref list" where
  "boxed k arrs = concat (map (\<lambda>(k', ns). if k' = k then map Box ns else []) arrs)"

definition initHEVCData :: "'i hevc_lib \<Rightarrow> 'i \<Rightarrow> full_sample list \<Rightarrow> ('i hevc_data \<times> full_sample list) res" where
  "initHEVCData lib i samples = (case hl_hvcC lib i of
     None \<Rightarrow> Inl (Errorf ''no hvcC box found'')
   | Some arrs \<Rightarrow>
       let st0 = (open_store samples)\<lparr>ss_vps := boxed VPS arrs, ss_sps := boxed SPS arrs, ss_pps := boxed PPS arrs\<rparr>
       in if ss_sps st0 = [] \<or> ss_pps st0 = [] then Inl (Errorf ''missing SPS or PPS in hvcC'')
       else case hevc_samples (hl_kind lib) [0..<length samples] st0 of
         Inl e \<Rightarrow> Inl e
       | Inr st \<Rightarrow>
         let rd = map (read_ref (ss_bufs st)); vs = rd (ss_vps st); ss = rd (ss_sps st); ps = rd (ss_pps st)
         in case hl_mkInit lib (hl_timescale lib i) vs ss ps of
           Inl e \<Rightarrow> Inl (Wrapf ''could not set HEVC descriptor'' e)
         | Inr outI \<Rightarrow> (case hl_parseSPS lib (ss ! 0) of
             Inl e \<Rightarrow> Inl (Wrapf ''could not parse HEVC SPS'' e)
           | Inr (codec, w, h) \<Rightarrow>
               Inr (\<lparr>hv_inInit = i, hv_outInit = outI, hv_Vpss = vs, hv_Spss = ss, hv_Ppss = ps,
                     hv_codec = codec, hv_width = w, hv_height = h\<rparr>, close_store st samples)))"

section \<open>AVC\<close>

text \<open>\<open>al_split\<close> is mp4ff's \<^verbatim>\<open>GetNalusFromSample\<close>, its result as slices (offset, length) of the
  sample.\<close>

record 'i avc_lib =
  al_entry :: "'i \<Rightarrow> string \<times> bytes list \<times> bytes list"
  al_timescale :: "'i \<Rightarrow> u32"
  al_split :: "bytes \<Rightarrow> (nat \<times> nat) list res"
  al_kind :: "u8 \<Rightarrow> nal_kind"
  al_mkInit :: "u32 \<Rightarrow> bytes list \<Rightarrow> bytes list \<Rightarrow> 'i res"
  al_parseSPS :: "bytes \<Rightarrow> (string \<times> u32 \<times> u32) res"

fun avc_nalus :: "(u8 \<Rightarrow> nal_kind) \<Rightarrow> nat \<Rightarrow> (nat \<times> nat) list \<Rightarrow> sample_store \<Rightarrow> sample_store res" where
  "avc_nalus kind i [] st = Inr st"
| "avc_nalus kind i ((off, n) # ss) st = (case take_nalu kind i off n st of
     Inl e \<Rightarrow> Inl e | Inr st' \<Rightarrow> avc_nalus kind i ss st')"

fun avc_samples :: "(bytes \<Rightarrow> (nat \<times> nat) list res) \<Rightarrow> (u8 \<Rightarrow> nal_kind) \<Rightarrow> nat list \<Rightarrow> sample_store \<Rightarrow> sample_store res" where
  "avc_samples splitf kind [] st = Inr st"
| "avc_samples splitf kind (i # is) st =
     (case splitf (take (ss_lens st ! i) (ss_bufs st ! i)) of
        Inl e \<Rightarrow> Inl (Wrapf ''could not get nalus from sample'' e)
      | Inr sls \<Rightarrow> (case avc_nalus kind i sls (st\<lparr>ss_lens := (ss_lens st)[i := 0]\<rparr>) of
          Inl e \<Rightarrow> Inl e | Inr st' \<Rightarrow> avc_samples splitf kind is st'))"

definition initAVCData :: "'i avc_lib \<Rightarrow> 'i \<Rightarrow> full_sample list \<Rightarrow> ('i avc_data \<times> full_sample list) res" where
  "initAVCData lib i samples = (case al_entry lib i of (ty, esps, epps) \<Rightarrow>
     let st0 = (if ty = ''avc1'' then (open_store samples)\<lparr>ss_sps := map Box esps, ss_pps := map Box epps\<rparr>
                else open_store samples)
     in case avc_samples (al_split lib) (al_kind lib) [0..<length samples] st0 of
       Inl e \<Rightarrow> Inl e
     | Inr st \<Rightarrow>
       if length (ss_sps st) \<noteq> 1 \<or> length (ss_pps st) \<noteq> 1 then Inl (Errorf ''not exactly one SPS and PPS nalus found'')
       else let rd = map (read_ref (ss_bufs st)); ss = rd (ss_sps st); ps = rd (ss_pps st)
         in case al_mkInit lib (al_timescale lib i) ss ps of
           Inl e \<Rightarrow> Inl (Wrapf ''could not set AVC descriptor'' e)
         | Inr outI \<Rightarrow> (case al_parseSPS lib (ss ! 0) of
             Inl e \<Rightarrow> Inl (Wrapf ''could not decode SPS'' e)
           | Inr (codec, w, h) \<Rightarrow>
               Inr (\<lparr>av_inInit = i, av_outInit = outI, av_Spss = ss, av_Ppss = ps,
                     av_codec = codec, av_width = w, av_height = h\<rparr>, close_store st samples)))"

section \<open>In-place rewriting is copying\<close>

lemma write_at_props:
  assumes "w + length bs \<le> length b"
  shows "length (write_at w bs b) = length b" and "take w (write_at w bs b) = take w b"
    and "take (w + length bs) (write_at w bs b) = take w b @ bs"
    and "w + length bs \<le> k \<Longrightarrow> drop k (write_at w bs b) = drop k b"
  using assms by (simp_all add: write_at_def)

text \<open>The loop invariant: what is still to be read is unchanged, the write position is not ahead of
  the read position, and what has been written are the kept units.\<close>

definition rewriting :: "nat \<Rightarrow> nat \<Rightarrow> nat \<Rightarrow> bytes list \<Rightarrow> bytes \<Rightarrow> sample_store \<Rightarrow> bool" where
  "rewriting i tot r kept rest st \<longleftrightarrow> i < length (ss_bufs st) \<and> length (ss_lens st) = length (ss_bufs st) \<and>
     length (ss_bufs st ! i) = tot \<and> ss_lens st ! i \<le> r \<and> r \<le> tot \<and>
     take (ss_lens st ! i) (ss_bufs st ! i) = framed kept \<and> drop r (ss_bufs st ! i) = rest"

lemma rewriting_keep:
  assumes inv: "rewriting i tot r kept (frame1 n @ rest) st" and n: "n \<noteq> []" "length n < 2 ^ 32"
    and k: "kind (n ! 0) = Keep"
  obtains st' where "take_nalu kind i (r + 4) (length n) st = Inr st'"
    "rewriting i tot (r + 4 + length n) (kept @ [n]) rest st'"
    "\<And>j. j \<noteq> i \<Longrightarrow> ss_bufs st' ! j = ss_bufs st ! j \<and> ss_lens st' ! j = ss_lens st ! j"
    "length (ss_bufs st') = length (ss_bufs st)"
proof -
  define b where "b = ss_bufs st ! i"
  define w where "w = ss_lens st ! i"
  define hd4 where "hd4 = be32_put (of_nat (length n))"
  define b1 where "b1 = write_at w hd4 b"
  define b2 where "b2 = write_at (w + 4) n b1"
  have i: "i < length (ss_bufs st)" "i < length (ss_lens st)" and wr: "w \<le> r" and lb: "length b = tot"
    and tk: "take w b = framed kept" and dr: "drop r b = frame1 n @ rest"
    using inv by (simp_all add: rewriting_def b_def w_def)
  have rt: "r + 4 + length n + length rest = tot"
    using arg_cong [OF dr, of length] inv lb by (simp add: frame1_def rewriting_def)
  have d4: "drop (r + 4) b = n @ rest"
    using arg_cong [OF dr, of "drop 4"] by (simp add: frame1_def add.commute)
  have h4: "length hd4 = 4" by (simp add: hd4_def)
  have b1: "length b1 = tot" "take (w + 4) b1 = framed kept @ hd4" "drop (r + 4) b1 = n @ rest"
    using write_at_props [of w hd4 b] wr rt lb tk d4 by (simp_all add: b1_def h4)
  have b2: "length b2 = tot" "take (w + 4 + length n) b2 = framed kept @ hd4 @ n"
    "drop (r + 4 + length n) b2 = rest"
    using write_at_props [of "w + 4" n b1] wr rt b1(1,2) arg_cong [OF b1(3), of "drop (length n)"]
    by (simp_all add: b2_def add.commute)
  define st' where "st' = st\<lparr>ss_bufs := (ss_bufs st)[i := b2], ss_lens := (ss_lens st)[i := w + 4 + length n]\<rparr>"
  have "min (length b1 - (r + 4)) (length n) = length n" using b1(1) rt by simp
  then have "take_nalu kind i (r + 4) (length n) st = Inr st'"
    using n k i d4 b1(3) by (simp add: take_nalu_def append_data_def Let_def b_def [symmetric] w_def [symmetric]
        hd4_def [symmetric] h4 b1_def [symmetric] b2_def [symmetric] st'_def)
  moreover have "rewriting i tot (r + 4 + length n) (kept @ [n]) rest st'"
    using b2 i wr rt inv by (simp add: rewriting_def st'_def hd4_def frame1_def)
  ultimately show thesis using that [of st'] by (simp add: st'_def)
qed

lemma rewriting_skip:
  assumes inv: "rewriting i tot r kept (frame1 n @ rest) st" and n: "n \<noteq> []" and k: "kind (n ! 0) \<noteq> Keep"
  obtains st' where "take_nalu kind i (r + 4) (length n) st = Inr st'"
    "rewriting i tot (r + 4 + length n) kept rest st'" "ss_bufs st' = ss_bufs st" "ss_lens st' = ss_lens st"
proof -
  have dr: "drop r (ss_bufs st ! i) = frame1 n @ rest" using inv by (simp add: rewriting_def)
  have d4: "drop (r + 4) (ss_bufs st ! i) = n @ rest" and d: "drop (r + 4 + length n) (ss_bufs st ! i) = rest"
    using arg_cong [OF dr, of "drop 4"] arg_cong [OF dr, of "drop (4 + length n)"]
    by (simp_all add: frame1_def add.commute add.left_commute)
  have rt: "r + 4 + length n \<le> tot"
    using arg_cong [OF dr, of length] inv by (simp add: frame1_def rewriting_def)
  obtain st' where st': "take_nalu kind i (r + 4) (length n) st = Inr st'" using n by (simp add: take_nalu_def Let_def)
  then have f: "ss_bufs st' = ss_bufs st" "ss_lens st' = ss_lens st"
    using n k d4 by (auto simp: take_nalu_def Let_def split: nal_kind.splits)
  moreover have "rewriting i tot (r + 4 + length n) kept rest st'"
    using inv f d rt by (simp add: rewriting_def)
  ultimately show thesis using that st' by blast
qed

lemma hevc_loop_rewrites:
  "rewriting i tot r kept (framed ns @ rest) st \<Longrightarrow> sizes_ok ns \<Longrightarrow> [] \<notin> set ns \<Longrightarrow> length rest < 4 \<Longrightarrow>
   \<exists>st'. hevc_loop kind i tot r st = Inr st' \<and>
     take (ss_lens st' ! i) (ss_bufs st' ! i) = framed (kept @ filter (\<lambda>n. kind (n ! 0) = Keep) ns) \<and>
     (\<forall>j. j \<noteq> i \<longrightarrow> ss_bufs st' ! j = ss_bufs st ! j \<and> ss_lens st' ! j = ss_lens st ! j)"
proof (induction ns arbitrary: r kept st)
  case Nil
  then have "tot - r < 4" by (metis rewriting_def length_drop append_Nil list.map(1) concat.simps(1))
  then show ?case using Nil by (simp add: hevc_loop.simps rewriting_def)
next
  case (Cons n ns)
  let ?rest = "framed ns @ rest"
  have n: "n \<noteq> []" "length n < 2 ^ 32" using Cons.prems by (auto simp: sizes_ok_def)
  have inv: "rewriting i tot r kept (frame1 n @ ?rest) st" using Cons.prems(1) by simp
  have "length (frame1 n @ ?rest) = tot - r" using inv by (metis rewriting_def length_drop)
  then have len: "\<not> tot - r < 4" "\<not> length n > tot - (r + 4)" by (simp_all add: frame1_def)
  have "take 4 (drop r (ss_bufs st ! i)) = be32_put (of_nat (length n))"
    using inv by (simp add: rewriting_def frame1_def)
  then have hd4: "unat (be32_get (take 4 (drop r (ss_bufs st ! i)))) = length n" using unat_of_nat_u32 [OF n(2)] by simp
  have loop: "hevc_loop kind i tot r st = (case take_nalu kind i (r + 4) (length n) st of Inl e \<Rightarrow> Inl e
      | Inr st' \<Rightarrow> hevc_loop kind i tot (r + 4 + length n) st')"
    using len hd4 by (subst hevc_loop.simps) (simp add: Let_def)
  note IH = Cons.IH [OF _ _ _ Cons.prems(4)]
  have ok: "sizes_ok ns" "[] \<notin> set ns" using Cons.prems by (auto simp: sizes_ok_def)
  show ?case
  proof (cases "kind (n ! 0) = Keep")
    case True
    from rewriting_keep [where kind = kind, OF inv n True] obtain st1 where
      st1: "take_nalu kind i (r + 4) (length n) st = Inr st1"
      "rewriting i tot (r + 4 + length n) (kept @ [n]) ?rest st1"
      "\<And>j. j \<noteq> i \<Longrightarrow> ss_bufs st1 ! j = ss_bufs st ! j \<and> ss_lens st1 ! j = ss_lens st ! j" by metis
    from IH [OF st1(2) ok] show ?thesis using True st1(3) unfolding loop st1(1) by simp
  next
    case False
    from rewriting_skip [where kind = kind, OF inv n(1) False] obtain st1 where
      st1: "take_nalu kind i (r + 4) (length n) st = Inr st1" "rewriting i tot (r + 4 + length n) kept ?rest st1"
      "ss_bufs st1 = ss_bufs st" "ss_lens st1 = ss_lens st" by metis
    from IH [OF st1(2) ok] show ?thesis using False unfolding loop st1 by simp
  qed
qed

section \<open>Properties\<close>

text \<open>C9: Although an HEVC sample is rewritten into the array it is read from, the result is that of
  copying: the new sample is the framing of its units that are not parameter sets, in order (a
  rest of fewer than four bytes is cut off), and no other sample changes.\<close>

theorem hevc_sample_rewritten:
  assumes "i < length (ss_bufs st)" and "length (ss_lens st) = length (ss_bufs st)"
    and "ss_bufs st ! i = framed ns @ rest" and "ss_lens st ! i = length (framed ns @ rest)"
    and "sizes_ok ns" and "[] \<notin> set ns" and "length rest < 4"
  shows "\<exists>st'. hevc_sample kind i st = Inr st' \<and>
     take (ss_lens st' ! i) (ss_bufs st' ! i) = framed (filter (\<lambda>n. kind (n ! 0) = Keep) ns) \<and>
     (\<forall>j. j \<noteq> i \<longrightarrow> ss_bufs st' ! j = ss_bufs st ! j \<and> ss_lens st' ! j = ss_lens st ! j)"
proof -
  let ?st = "st\<lparr>ss_lens := (ss_lens st)[i := 0]\<rparr>"
  have "rewriting i (ss_lens st ! i) 0 [] (framed ns @ rest) ?st" using assms(1-4) by (simp add: rewriting_def)
  from hevc_loop_rewrites [OF this assms(5-7), of kind] show ?thesis by (simp add: hevc_sample_def)
qed

theorem hevc_sample_rewritten_witness:
  "\<exists>st'. hevc_sample (\<lambda>b. if b = 66 then SPS else Keep) 0
     (open_store [zero_sample\<lparr>fs_Data := framed [[66, 1, 2], [38, 9]]\<rparr>]) = Inr st' \<and>
     take (ss_lens st' ! 0) (ss_bufs st' ! 0) = framed [[38, 9]]"
  using hevc_sample_rewritten [of 0 "open_store [zero_sample\<lparr>fs_Data := framed [[66, 1, 2], [38, 9]]\<rparr>]"
      "[[66, 1, 2], [38, 9]]" "[]" "\<lambda>b. if b = 66 then SPS else Keep"]
  by (auto simp: open_store_def sizes_ok_def)

text \<open>A parameter set found in a sample is kept as a slice of that sample's array and is overwritten
  by the rewriting: here the SPS 66 1 2 3 is new, and what the track data holds of it after the
  sample has been processed are bytes of the coded slice behind it.\<close>

theorem inband_ps_overwritten:
  "case hevc_sample (\<lambda>b. if b = 66 then SPS else Keep) 0
     (open_store [zero_sample\<lparr>fs_Data := framed [[66, 1, 2, 3], [38, 9, 9, 9]]\<rparr>]) of
     Inl e \<Rightarrow> False
   | Inr st' \<Rightarrow> map (read_ref (ss_bufs st')) (ss_sps st') = [[38, 9, 9, 9]]"
  by code_simp

end
