(* ===== verification/Sample_Clock.thy ===== *)
theory Sample_Clock
  imports Track_Model
begin

text \<open>
  The wall-clock arithmetic of the publisher (\<^verbatim>\<open>internal/moqgroup.go\<close>,
  \<^verbatim>\<open>internal/asset.go\<close>): which samples a MoQ group consists of (\<open>calcMoQGroup\<close>), which
  sample of the looped asset an epoch-anchored sample number stands for (\<open>CalcSample\<close>), the
  loop duration that the asset loader fixes for every track (\<open>setLoopDuration\<close>) and the GOP
  check of AV1 SVC sources (\<open>validateAV1SVCGOP\<close>). All arithmetic is kept at the width the
  source has (uint64 and uint32, wrapping), integer division by zero is a panic; the lemmas relate
  the word arithmetic to naturals where it does not wrap.
\<close>

definition MoqGroupDurMS :: u32 where "MoqGroupDurMS = 1000"

definition div_panic :: "go_error" where "div_panic = Panic ''integer divide by zero''"

section \<open>Operations\<close>

definition calcMoQGroup :: "('i, 'p, 'u) content_track \<Rightarrow> u64 \<Rightarrow> u32 \<Rightarrow> (u64 \<times> u64) res" where
  "calcMoQGroup t nr dur =
     (let startTime = nr * ucast dur * ucast (ct_TimeScale t) div 1000;
          endTime = (nr + 1) * ucast dur * ucast (ct_TimeScale t) div 1000;
          sd = ucast (ct_SampleDur t)
      in if sd = 0 then Inl div_panic
         else Inr (startTime div sd + (if startTime mod sd \<noteq> 0 then 1 else 0),
                   endTime div sd + (if endTime mod sd \<noteq> 0 then 1 else 0)))"

definition CalcLOCGroupRange :: "('i, 'p, 'u) content_track \<Rightarrow> u64 \<Rightarrow> u32 \<Rightarrow> (u64 \<times> u64) res" where
  "CalcLOCGroupRange t nr dur = calcMoQGroup t nr dur"

definition CurrMoQGroupNr :: "('i, 'p, 'u) content_track \<Rightarrow> u64 \<Rightarrow> u32 \<Rightarrow> u64 res" where
  "CurrMoQGroupNr t nowMS dur = (if (ucast dur :: u64) = 0 then Inl div_panic else Inr (nowMS div ucast dur))"

definition CalcSample :: "('i, 'p, 'u) content_track \<Rightarrow> u64 \<Rightarrow> (u64 \<times> u64) res" where
  "CalcSample t nr =
     (let sampleDur = ucast (ct_SampleDur t) :: u64; loopDur = ucast (ct_LoopDur t) :: u64;
          startTime = nr * sampleDur
      in if loopDur = 0 \<or> sampleDur = 0 then Inl div_panic
         else let nrWraps = startTime div loopDur; wrapTime = nrWraps * loopDur;
                  lacking = wrapTime mod sampleDur;
                  wrapTime' = (if lacking > 0 then wrapTime + (sampleDur - lacking) else wrapTime);
                  deltaTime = startTime - wrapTime'
              in Inr (startTime, deltaTime div sampleDur))"

text \<open>\<^verbatim>\<open>setLoopDuration\<close>: the loop is the first track's duration in milliseconds; all products
  are uint32 products.\<close>

definition loop_check :: "nat \<Rightarrow> u32 \<Rightarrow> ('i, 'p, 'u) content_track \<Rightarrow> ('i, 'p, 'u) content_track res" where
  "loop_check gNr loopDurMS t =
     (if 0 < gNr \<and> ct_ContentType t = ''audio''
      then if ct_Duration t * 1000 < loopDurMS * ct_TimeScale t
           then Inl (Errorf ''audio track not compatible with loop duration'')
           else Inr (t\<lparr>ct_LoopDur := loopDurMS * ct_TimeScale t div 1000\<rparr>)
      else if ct_Duration t * 1000 \<noteq> loopDurMS * ct_TimeScale t
           then Inl (Errorf ''track not compatible with loop duration'')
           else Inr (t\<lparr>ct_LoopDur := ct_Duration t\<rparr>))"

fun loop_groups :: "nat \<Rightarrow> u32 \<Rightarrow> ('i, 'p, 'u) track_group list \<Rightarrow> ('i, 'p, 'u) track_group list res" where
  "loop_groups gNr ms [] = Inr []"
| "loop_groups gNr ms (g # gs) = (case map_res (loop_check gNr ms) (tg_Tracks g) of Inl e \<Rightarrow> Inl e
     | Inr ts \<Rightarrow> (case loop_groups (Suc gNr) ms gs of Inl e \<Rightarrow> Inl e
         | Inr gs' \<Rightarrow> Inr (g\<lparr>tg_Tracks := ts\<rparr> # gs')))"

definition setLoopDuration :: "('i, 'p, 'u) asset \<Rightarrow> ('i, 'p, 'u) asset res" where
  "setLoopDuration a = (case as_Groups a of [] \<Rightarrow> Inl (Errorf ''no tracks found'')
     | g # gs \<Rightarrow> (case tg_Tracks g of [] \<Rightarrow> Inl (Panic ''index out of range'')
       | t # ts \<Rightarrow> if ct_TimeScale t = 0 then Inl div_panic
           else let ms = ct_Duration t * 1000 div ct_TimeScale t
                in (case loop_groups 0 ms (g # gs) of Inl e \<Rightarrow> Inl e
                    | Inr gs' \<Rightarrow> Inr (a\<lparr>as_Groups := gs', as_LoopDurMS := ms\<rparr>))))"

text \<open>\<^verbatim>\<open>validateAV1SVCGOP\<close>; \<open>isSync\<close> is mp4ff's \<^verbatim>\<open>Sample.IsSync\<close> on the sample flags.\<close>

definition svc_sample_ok :: "(u32 \<Rightarrow> bool) \<Rightarrow> ('i, 'p, 'u) content_track \<Rightarrow> nat \<Rightarrow> unit res" where
  "svc_sample_ok isSync ct i =
     (let s = ct_Samples ct ! i; expectedSync = (of_nat i mod ct_GopLength ct = (0 :: u32))
      in if isSync (fs_Flags s) \<noteq> expectedSync then Inl (Errorf ''AV1 SVC sample sync flag does not align'')
         else if expectedSync \<and> fs_DecodeTime s mod ucast (ct_TimeScale ct) \<noteq> 0
           then Inl (Errorf ''AV1 SVC sample decode time does not align'')
           else Inr ())"

definition validateAV1SVCGOP :: "(u32 \<Rightarrow> bool) \<Rightarrow> ('i, 'p, 'u) content_track \<Rightarrow> unit res" where
  "validateAV1SVCGOP isSync ct =
     (if ct_TimeScale ct = 0 \<or> ct_SampleDur ct = 0 then Inl (Errorf ''AV1 SVC track has invalid timing'')
      else let gopDur = ucast (ct_GopLength ct) * ucast (ct_SampleDur ct) * 1000 :: u64;
               want = ucast MoqGroupDurMS * ucast (ct_TimeScale ct) :: u64
      in if ct_GopLength ct = 0 \<or> gopDur \<noteq> want then Inl (Errorf ''AV1 SVC GOP duration must be 1000ms'')
      else if ct_Samples ct = [] then Inl (Errorf ''AV1 SVC track has no samples'')
      else case map_res (svc_sample_ok isSync ct) [0..<length (ct_Samples ct)] of
             Inl e \<Rightarrow> Inl e | Inr us \<Rightarrow> Inr ())"

section \<open>Group boundaries on naturals\<close>

text \<open>The first sample at or after the group's start time, without a width.\<close>

definition group_first :: "nat \<Rightarrow> nat \<Rightarrow> nat \<Rightarrow> nat \<Rightarrow> nat" where
  "group_first dur ts sd n = cdiv (n * dur * ts div 1000) sd"

lemma unat_prod3_div:
  fixes a b c :: u64
  assumes "unat a * unat b * unat c < 2 ^ 64"
  shows "unat (a * b * c div 1000) = unat a * unat b * unat c div 1000"
proof (cases "c = 0")
  case True
  then show ?thesis by simp
next
  case False
  then have "unat a * unat b * 1 \<le> unat a * unat b * unat c"
    by (intro mult_le_mono2) (simp add: Suc_le_eq unat_gt_0)
  from le_less_trans [OF this assms] have ab: "unat (a * b) = unat a * unat b"
    by (intro unat_mult_lt) simp
  then have "unat (a * b * c) = unat a * unat b * unat c" using assms by (simp add: unat_mult_lt)
  then show ?thesis by (simp add: unat_div)
qed

lemma ucast_u32_eq_0 [simp]: "(ucast (x :: u32) :: u64) = 0 \<longleftrightarrow> x = 0"
  by (metis unat_eq_zero unat_ucast_32_64)

lemma calcMoQGroup_nat:
  assumes sd: "ct_SampleDur t \<noteq> 0"
    and fits: "(unat nr + 1) * unat dur * unat (ct_TimeScale t) < 2 ^ 64"
    and nr: "unat nr + 1 < 2 ^ 64"
  obtains s e where "calcMoQGroup t nr dur = Inr (s, e)"
    "unat s = group_first (unat dur) (unat (ct_TimeScale t)) (unat (ct_SampleDur t)) (unat nr)"
    "unat e = group_first (unat dur) (unat (ct_TimeScale t)) (unat (ct_SampleDur t)) (unat nr + 1)"
proof -
  let ?ts = "ucast (ct_TimeScale t) :: u64" and ?d = "ucast dur :: u64" and ?sd = "ucast (ct_SampleDur t) :: u64"
  have nr1: "unat (nr + 1) = unat nr + 1" using nr by (simp add: unat_add_lt)
  have "unat nr * unat dur * unat (ct_TimeScale t) \<le> (unat nr + 1) * unat dur * unat (ct_TimeScale t)"
    by (intro mult_le_mono1) simp
  from le_less_trans [OF this fits] have "unat nr * unat ?d * unat ?ts < 2 ^ 64" by simp
  then have s: "unat (nr * ?d * ?ts div 1000) = unat nr * unat dur * unat (ct_TimeScale t) div 1000"
    using unat_prod3_div by fastforce
  have e: "unat ((nr + 1) * ?d * ?ts div 1000) = (unat nr + 1) * unat dur * unat (ct_TimeScale t) div 1000"
    using unat_prod3_div [of "nr + 1" ?d ?ts] fits nr1 by simp
  have sd0: "?sd \<noteq> 0" using sd by simp
  show thesis
    by (rule that [OF _ trans [OF unat_cdiv [OF sd0, of "nr * ?d * ?ts div 1000"]]
          trans [OF unat_cdiv [OF sd0, of "(nr + 1) * ?d * ?ts div 1000"]]])
      (use sd0 in \<open>simp_all add: calcMoQGroup_def Let_def group_first_def s e\<close>)
qed

lemma group_first_mono: "0 < sd \<Longrightarrow> m \<le> n \<Longrightarrow> group_first dur ts sd m \<le> group_first dur ts sd n"
  unfolding group_first_def by (intro cdiv_mono div_le_mono mult_le_mono1)

text \<open>A sample belongs to a group exactly when its start time lies in the group's interval.\<close>

lemma group_member_iff:
  assumes "0 < sd"
  shows "group_first dur ts sd n \<le> k \<and> k < group_first dur ts sd (n + 1) \<longleftrightarrow>
         n * dur * ts div 1000 \<le> k * sd \<and> k * sd < (n + 1) * dur * ts div 1000"
  using cdiv_le_iff [OF assms] unfolding group_first_def by (metis not_less)

section \<open>The looped sample on naturals\<close>

lemma CalcSample_nat:
  assumes sd: "ct_SampleDur t \<noteq> 0" and ld: "ct_LoopDur t \<noteq> 0"
    and fits: "unat nr * unat (ct_SampleDur t) < 2 ^ 64"
  obtains s orig where "CalcSample t nr = Inr (s, orig)"
    "unat s = unat nr * unat (ct_SampleDur t)"
    "unat orig = unat nr - cdiv (unat nr * unat (ct_SampleDur t) div unat (ct_LoopDur t) * unat (ct_LoopDur t))
                                (unat (ct_SampleDur t))"
proof -
  define S L N where "S = unat (ct_SampleDur t)" and "L = unat (ct_LoopDur t)" and "N = unat nr"
  define W where "W = N * S div L * L"
  let ?sd = "ucast (ct_SampleDur t) :: u64" and ?ld = "ucast (ct_LoopDur t) :: u64"
  let ?wrap = "nr * ?sd div ?ld * ?ld"
  have S0: "0 < S" using sd by (simp add: S_def unat_gt_0)
  have st: "unat (nr * ?sd) = N * S" using fits by (simp add: unat_mult_lt S_def N_def)
  have WN: "W \<le> N * S" by (simp add: W_def div_times_less_eq_dividend)
  have NS: "N * S < 2 ^ 64" using fits by (simp add: N_def S_def)
  have wt: "unat ?wrap = W"
    using le_less_trans [OF WN NS] by (simp add: unat_mult_lt unat_div st W_def L_def)
  have lack: "unat (?wrap mod ?sd) = W mod S" by (simp add: unat_mod wt S_def)
  define w' where "w' = (if ?wrap mod ?sd > 0 then ?wrap + (?sd - ?wrap mod ?sd) else ?wrap)"
  have cle: "cdiv W S \<le> N" using cdiv_le_iff [OF S0] WN by simp
  have off: "unat (?sd - ?wrap mod ?sd) = S - W mod S"
    using S0 by (subst unat_sub_le) (simp_all add: lack S_def less_imp_le)
  have w': "unat w' = cdiv W S * S"
  proof (cases "W mod S = 0")
    case True
    then have "?wrap mod ?sd = 0" by (metis lack unat_eq_zero)
    then show ?thesis using True S0 by (simp add: w'_def wt cdiv_mult)
  next
    case False
    then have "?wrap mod ?sd > 0" by (metis lack unat_eq_zero word_neq_0_conv)
    moreover have "W + (S - W mod S) < 2 ^ 64"
      using le_less_trans [OF mult_le_mono1 [OF cle, of S] NS] cdiv_mult [OF S0, of W] False by simp
    ultimately show ?thesis using False S0 by (simp add: w'_def wt off unat_add_lt cdiv_mult)
  qed
  have "unat (nr * ?sd - w') = (N - cdiv W S) * S"
    using cle by (subst unat_sub_le) (simp_all add: w' st diff_mult_distrib)
  then have o: "unat ((nr * ?sd - w') div ?sd) = N - cdiv W S"
    using S0 by (simp add: unat_div S_def)
  have "CalcSample t nr = Inr (nr * ?sd, (nr * ?sd - w') div ?sd)"
    using sd ld by (simp add: CalcSample_def Let_def w'_def)
  then show thesis using that st o unfolding N_def S_def L_def W_def by blast
qed

text \<open>The displacement of a looped sample against the wall-clock loop start.\<close>

lemma loop_displacement:
  fixes N S L :: nat
  assumes S: "0 < S" and L: "0 < L"
  defines "c \<equiv> cdiv (N * S div L * L) S"
  shows "c \<le> N" and "\<exists>d < S. N * S = N * S div L * L + d + (N - c) * S"
    and "(N - c) * S < L"
proof -
  let ?W = "N * S div L * L"
  have W: "?W \<le> N * S" by (simp add: div_times_less_eq_dividend)
  show c: "c \<le> N" unfolding c_def using cdiv_le_iff [OF S] W by simp
  have cS: "?W \<le> c * S" "c * S < ?W + S" "c * S \<le> N * S"
    unfolding c_def using cdiv_mult_ge [OF S] cdiv_mult_less [OF S] c [unfolded c_def] by simp_all
  have "N * S = ?W + (c * S - ?W) + (N - c) * S" and "c * S - ?W < S"
    using cS by (simp_all add: diff_mult_distrib)
  then show "\<exists>d < S. N * S = ?W + d + (N - c) * S" by blast
  have "N * S < ?W + L" using mod_less_divisor [OF L, of "N * S"] div_mult_mod_eq [of "N * S" L] by linarith
  with cS have "N * S - c * S < L" by linarith
  then show "(N - c) * S < L" by (simp add: diff_mult_distrib)
qed

lemma CalcSample_range:
  assumes "ct_SampleDur t \<noteq> 0" "ct_LoopDur t \<noteq> 0" "unat nr * unat (ct_SampleDur t) < 2 ^ 64"
    and "unat (ct_LoopDur t) \<le> length (ct_Samples t) * unat (ct_SampleDur t)"
    and "CalcSample t nr = Inr (s, orig)"
  shows "unat orig < length (ct_Samples t)"
proof -
  have S: "0 < unat (ct_SampleDur t)" and L: "0 < unat (ct_LoopDur t)" using assms by (simp_all add: unat_gt_0)
  obtain s' o' where "CalcSample t nr = Inr (s', o')"
    "unat o' = unat nr - cdiv (unat nr * unat (ct_SampleDur t) div unat (ct_LoopDur t) * unat (ct_LoopDur t))
                                (unat (ct_SampleDur t))"
    using CalcSample_nat [OF assms(1-3)] by metis
  with assms(5) loop_displacement(3) [OF S L, of "unat nr"]
  have "unat orig * unat (ct_SampleDur t) < unat (ct_LoopDur t)" by simp
  with assms(4) have "unat orig * unat (ct_SampleDur t) < length (ct_Samples t) * unat (ct_SampleDur t)"
    by (rule less_le_trans [rotated])
  then show ?thesis using mult_less_cancel2 by blast
qed

lemma loop_periodic:
  assumes S: "0 < S" and P: "0 < P"
  shows "N - cdiv (N * S div (P * S) * (P * S)) S = N mod P"
proof -
  have "N * S div (P * S) = N div P" using S by simp
  then have "cdiv (N * S div (P * S) * (P * S)) S = N div P * P"
    using S cdiv_mult_self [of S "N div P * P"] by (simp add: mult.assoc)
  then show ?thesis by (simp add: minus_div_mult_eq_mod)
qed

lemma CalcSample_cyclic:
  assumes "ct_SampleDur t \<noteq> 0" and "unat nr * unat (ct_SampleDur t) < 2 ^ 64"
    and "unat (ct_LoopDur t) = p * unat (ct_SampleDur t)" and "0 < p"
  obtains s orig where "CalcSample t nr = Inr (s, orig)" "unat orig = unat nr mod p"
proof -
  have S: "0 < unat (ct_SampleDur t)" using assms by (simp add: unat_gt_0)
  then have "ct_LoopDur t \<noteq> 0" using assms by (metis mult_pos_pos unat_eq_zero less_irrefl)
  then show thesis using CalcSample_nat [OF assms(1) _ assms(2)] loop_periodic [OF S assms(4), of "unat nr"] that
    by (metis assms(3))
qed

section \<open>The loop duration fixed by the loader\<close>

lemma loop_groups_mem:
  "loop_groups g ms gs = Inr gs' \<Longrightarrow> t' \<in> set (concat (map tg_Tracks gs')) \<Longrightarrow>
   \<exists>k \<ge> g. \<exists>t \<in> set (concat (map tg_Tracks gs)). loop_check k ms t = Inr t'"
proof (induction gs arbitrary: g gs')
  case Nil
  then show ?case by simp
next
  case (Cons x xs)
  then obtain ts rest where ts: "map_res (loop_check g ms) (tg_Tracks x) = Inr ts"
    and rest: "loop_groups (Suc g) ms xs = Inr rest" and gs': "gs' = x\<lparr>tg_Tracks := ts\<rparr> # rest"
    by (auto split: sum.splits)
  from Cons.prems(2) gs' consider "t' \<in> set ts" | "t' \<in> set (concat (map tg_Tracks rest))" by auto
  then show ?case
  proof cases
    case 1
    with map_res_mem [OF ts] show ?thesis by fastforce
  next
    case 2
    then obtain k t where "Suc g \<le> k" "t \<in> set (concat (map tg_Tracks xs))" "loop_check k ms t = Inr t'"
      using Cons.IH [OF rest] by blast
    then show ?thesis by (intro exI [of _ k]) auto
  qed
qed

text \<open>Timing of a freshly initialised track: \<^verbatim>\<open>InitContentTrack\<close> sets the duration to the number
  of samples times the sample duration; here that, in milliseconds, fits 32 bits.\<close>

definition timing_ok :: "('i, 'p, 'u) content_track \<Rightarrow> bool" where
  "timing_ok t \<longleftrightarrow> ct_SampleDur t \<noteq> 0 \<and> 1000 \<le> unat (ct_TimeScale t) \<and> ct_Samples t \<noteq> [] \<and>
     unat (ct_Duration t) = length (ct_Samples t) * unat (ct_SampleDur t) \<and>
     unat (ct_Duration t) * 1000 < 2 ^ 32"

lemma unat_u32_mult: "unat (a :: u32) * unat b < 2 ^ 32 \<Longrightarrow> unat (a * b) = unat a * unat b"
  by (simp add: unat_mult_lt)

lemma loop_check_ready:
  assumes chk: "loop_check g ms t = Inr t'" and ok: "timing_ok t"
    and fits: "unat ms * unat (ct_TimeScale t) < 2 ^ 32" and ms: "0 < unat ms"
  shows "0 < unat (ct_LoopDur t') \<and> unat (ct_LoopDur t') \<le> unat (ct_Duration t) \<and>
         ct_Samples t' = ct_Samples t \<and> ct_SampleDur t' = ct_SampleDur t"
proof (cases "0 < g \<and> ct_ContentType t = ''audio''")
  case True
  have a: "unat (ct_Duration t * 1000) = unat (ct_Duration t) * 1000"
    and b: "unat (ms * ct_TimeScale t) = unat ms * unat (ct_TimeScale t)"
    using ok fits unat_u32_mult [of "ct_Duration t" 1000] by (simp_all add: timing_ok_def unat_u32_mult)
  from True chk have le: "unat ms * unat (ct_TimeScale t) \<le> unat (ct_Duration t) * 1000"
    and t': "t' = t\<lparr>ct_LoopDur := ms * ct_TimeScale t div 1000\<rparr>"
    by (auto simp: loop_check_def word_less_nat_alt a b split: if_splits)
  have "1 * 1000 \<le> unat ms * unat (ct_TimeScale t)"
    using ms ok by (intro mult_le_mono) (auto simp: timing_ok_def)
  then have "0 < unat ms * unat (ct_TimeScale t) div 1000" by simp
  moreover have "unat ms * unat (ct_TimeScale t) div 1000 \<le> unat (ct_Duration t)"
    using div_le_mono [OF le, of 1000] by simp
  ultimately show ?thesis by (simp add: t' unat_div b)
next
  case False
  then have "t' = t\<lparr>ct_LoopDur := ct_Duration t\<rparr>" using chk by (auto simp: loop_check_def split: if_splits)
  moreover have "0 < unat (ct_Duration t)" using ok by (simp add: timing_ok_def unat_gt_0)
  ultimately show ?thesis by simp
qed

section \<open>GOP-aligned tracks\<close>

text \<open>What a successful \<open>validateAV1SVCGOP\<close> says on naturals.\<close>

lemma validate_gop:
  assumes val: "validateAV1SVCGOP isSync ct = Inr ()"
    and fits: "unat (ct_GopLength ct) * unat (ct_SampleDur ct) * 1000 < 2 ^ 64"
  shows "unat (ct_GopLength ct) * unat (ct_SampleDur ct) = unat (ct_TimeScale ct)"
    and "0 < unat (ct_GopLength ct)" and "0 < unat (ct_SampleDur ct)"
    and "\<And>i. i < length (ct_Samples ct) \<Longrightarrow> i < 2 ^ 32 \<Longrightarrow>
           isSync (fs_Flags (ct_Samples ct ! i)) \<longleftrightarrow> i mod unat (ct_GopLength ct) = 0"
proof -
  let ?g = "ct_GopLength ct" and ?s = "ct_SampleDur ct" and ?t = "ct_TimeScale ct"
  from val have g0: "?g \<noteq> 0" and s0: "?s \<noteq> 0"
    and gd: "ucast ?g * ucast ?s * 1000 = (ucast MoqGroupDurMS * ucast ?t :: u64)"
    and all: "\<exists>us. map_res (svc_sample_ok isSync ct) [0..<length (ct_Samples ct)] = Inr us"
    by (auto simp: validateAV1SVCGOP_def Let_def split: if_splits sum.splits)
  have gs: "unat ?g * unat ?s < 2 ^ 64" using fits by simp
  have "unat (ucast ?g * ucast ?s * 1000 :: u64) = unat ?g * unat ?s * 1000"
    using gs fits by (simp add: unat_mult_lt)
  moreover have "unat (ucast MoqGroupDurMS * ucast ?t :: u64) = 1000 * unat ?t"
  proof -
    have "125 * unat ?t < 2305843009213693952" using unat_lt_2_32 [of ?t] by linarith
    then have "unat (1000 :: u64) * unat (ucast ?t :: u64) < 2 ^ LENGTH(64)" by simp
    from unat_mult_lt [OF this] show ?thesis by (simp add: MoqGroupDurMS_def)
  qed
  ultimately have "unat ?g * unat ?s * 1000 = 1000 * unat ?t" using gd by metis
  then show "unat ?g * unat ?s = unat ?t" by simp
  show "0 < unat ?g" "0 < unat ?s" using g0 s0 by (simp_all add: unat_gt_0)
  fix i assume i: "i < length (ct_Samples ct)" "i < 2 ^ 32"
  from all i obtain u where "svc_sample_ok isSync ct i = Inr u"
    by (metis atLeastLessThan_iff map_res_ex set_upt zero_le)
  then have "isSync (fs_Flags (ct_Samples ct ! i)) \<longleftrightarrow> of_nat i mod ?g = 0"
    by (auto simp: svc_sample_ok_def Let_def split: if_splits)
  moreover have "(of_nat i mod ?g = 0) \<longleftrightarrow> i mod unat ?g = 0"
  proof -
    have "unat (of_nat i mod ?g) = i mod unat ?g" using i by (simp add: unat_mod unsigned_of_nat take_bit_eq_mod)
    then show ?thesis by (metis unat_eq_zero)
  qed
  ultimately show "isSync (fs_Flags (ct_Samples ct ! i)) \<longleftrightarrow> i mod unat ?g = 0" by simp
qed

lemma group_first_gop:
  "0 < sd \<Longrightarrow> group_first 1000 (g * sd) sd n = n * g"
  by (simp add: group_first_def mult.assoc cdiv_mult_self flip: mult.assoc)

lemma validate_gop_dvd:
  assumes "validateAV1SVCGOP isSync ct = Inr ()" and "unat (ct_GopLength ct) dvd length (ct_Samples ct)"
    and "0 < length (ct_Samples ct)" and "length (ct_Samples ct) * unat (ct_SampleDur ct) * 1000 < 2 ^ 32"
  shows "unat (ct_GopLength ct) * unat (ct_SampleDur ct) = unat (ct_TimeScale ct)"
    and "0 < unat (ct_GopLength ct)" and "0 < unat (ct_SampleDur ct)"
    and "\<And>i. i < length (ct_Samples ct) \<Longrightarrow>
           isSync (fs_Flags (ct_Samples ct ! i)) \<longleftrightarrow> i mod unat (ct_GopLength ct) = 0"
proof -
  let ?g = "unat (ct_GopLength ct)" and ?sd = "unat (ct_SampleDur ct)" and ?p = "length (ct_Samples ct)"
  have "?g * ?sd * 1000 \<le> ?p * ?sd * 1000" using assms(2,3) by (intro mult_le_mono1 dvd_imp_le)
  from le_less_trans [OF this assms(4)] have fits: "?g * ?sd * 1000 < 2 ^ 64" by simp
  note v = validate_gop [OF assms(1) fits]
  show "?g * ?sd = unat (ct_TimeScale ct)" "0 < ?g" and sd: "0 < ?sd" by (fact v)+
  fix i assume i: "i < ?p"
  have "?p * 1 * 1 \<le> ?p * ?sd * 1000" using sd by (intro mult_le_mono) auto
  with assms(4) i have "i < 2 ^ 32" by linarith
  with i show "isSync (fs_Flags (ct_Samples ct ! i)) \<longleftrightarrow> i mod ?g = 0" by (rule v(4))
qed

lemma block_start_iff: "n * g \<le> k \<Longrightarrow> k < n * g + g \<Longrightarrow> k mod g = 0 \<longleftrightarrow> k = n * (g :: nat)"
proof -
  assume k: "n * g \<le> k" "k < n * g + g"
  define r where "r = k - n * g"
  have "k = n * g + r" "r < g" using k by (simp_all add: r_def)
  then show ?thesis by simp
qed

lemma fits_factor: "a * b * c < (n :: nat) \<Longrightarrow> 0 < b \<Longrightarrow> 0 < c \<Longrightarrow> a < n"
proof -
  assume "a * b * c < n" "0 < b" "0 < c"
  moreover from this have "a * 1 * 1 \<le> a * b * c" by (intro mult_le_mono) auto
  ultimately show ?thesis by linarith
qed

section \<open>Properties\<close>

text \<open>C1: MoQ groups tile the sample sequence. The range [s, e) of group nr consists of exactly
  the sample numbers whose start time lies in the group's time interval, and the next group starts
  where this one ends: every sample is published in exactly one group. The bound says that the
  group's end time fits 64 bits.\<close>

theorem moq_groups_tile:
  assumes "ct_SampleDur t \<noteq> 0" and "unat nr + 1 < 2 ^ 64"
    and "(unat nr + 1) * unat dur * unat (ct_TimeScale t) < 2 ^ 64"
  shows "\<exists>s e. calcMoQGroup t nr dur = Inr (s, e) \<and> s \<le> e \<and>
    (\<forall>k. s \<le> k \<and> k < e \<longleftrightarrow>
       unat nr * unat dur * unat (ct_TimeScale t) div 1000 \<le> unat k * unat (ct_SampleDur t) \<and>
       unat k * unat (ct_SampleDur t) < (unat nr + 1) * unat dur * unat (ct_TimeScale t) div 1000) \<and>
    (\<exists>e'. calcMoQGroup t (nr + 1) dur = Inr (e, e'))"
proof -
  have sd: "0 < unat (ct_SampleDur t)" using assms(1) by (simp add: unat_gt_0)
  obtain s e where se: "calcMoQGroup t nr dur = Inr (s, e)"
    "unat s = group_first (unat dur) (unat (ct_TimeScale t)) (unat (ct_SampleDur t)) (unat nr)"
    "unat e = group_first (unat dur) (unat (ct_TimeScale t)) (unat (ct_SampleDur t)) (unat nr + 1)"
    using calcMoQGroup_nat [OF assms(1,3,2)] .
  have "s \<le> e" using group_first_mono [OF sd] se by (simp add: word_le_nat_alt)
  moreover have "\<exists>e'. calcMoQGroup t (nr + 1) dur = Inr (e, e')"
    using se(1) assms(1) by (auto simp: calcMoQGroup_def Let_def)
  ultimately show ?thesis
    using se group_member_iff [OF sd, of "unat dur" "unat (ct_TimeScale t)" "unat nr"]
    by (auto simp: word_le_nat_alt word_less_nat_alt)
qed

text \<open>C2: The looped sample. For an epoch-anchored sample number, CalcSample returns the sample's
  start time and an index into the loaded samples that is in range; the start time is the start of
  the current loop, plus a displacement smaller than one sample that does not accumulate over
  loops, plus the index's offset.\<close>

theorem CalcSample_loops:
  assumes "ct_SampleDur t \<noteq> 0" and "ct_LoopDur t \<noteq> 0"
    and "unat nr * unat (ct_SampleDur t) < 2 ^ 64"
    and "unat (ct_LoopDur t) \<le> length (ct_Samples t) * unat (ct_SampleDur t)"
  shows "\<exists>s orig d. CalcSample t nr = Inr (s, orig) \<and>
    unat s = unat nr * unat (ct_SampleDur t) \<and> unat orig < length (ct_Samples t) \<and>
    d < unat (ct_SampleDur t) \<and>
    unat s = unat s div unat (ct_LoopDur t) * unat (ct_LoopDur t) + d + unat orig * unat (ct_SampleDur t)"
proof -
  have S: "0 < unat (ct_SampleDur t)" and L: "0 < unat (ct_LoopDur t)" using assms by (simp_all add: unat_gt_0)
  obtain s orig where so: "CalcSample t nr = Inr (s, orig)" "unat s = unat nr * unat (ct_SampleDur t)"
    "unat orig = unat nr - cdiv (unat nr * unat (ct_SampleDur t) div unat (ct_LoopDur t) * unat (ct_LoopDur t))
                                (unat (ct_SampleDur t))"
    using CalcSample_nat [OF assms(1-3)] .
  from loop_displacement(2) [OF S L, of "unat nr"] obtain d where
    "d < unat (ct_SampleDur t)"
    "unat s = unat s div unat (ct_LoopDur t) * unat (ct_LoopDur t) + d + unat orig * unat (ct_SampleDur t)"
    using so by auto
  with so CalcSample_range [OF assms so(1)] show ?thesis by blast
qed

text \<open>When the loop is a whole number of samples, CalcSample walks the samples cyclically.\<close>

theorem CalcSample_periodic:
  assumes "ct_SampleDur t \<noteq> 0" and "unat nr * unat (ct_SampleDur t) < 2 ^ 64"
    and "unat (ct_LoopDur t) = p * unat (ct_SampleDur t)" and "0 < p"
  shows "\<exists>s orig. CalcSample t nr = Inr (s, orig) \<and> unat orig = unat nr mod p"
  using CalcSample_cyclic [OF assms] by blast

text \<open>What the loader accepts is safe to loop. After a successful setLoopDuration, CalcSample
  succeeds for every track of the asset, whatever the sample number, and the index it returns is in
  range of the track's samples (so createFragment does not index out of range). The hypotheses
  describe freshly initialised tracks whose products fit 32 bits.\<close>

theorem setLoopDuration_safe:
  assumes "setLoopDuration a = Inr a'" and "t' \<in> set (all_tracks a')"
    and "\<forall>t \<in> set (all_tracks a). timing_ok t \<and> unat (as_LoopDurMS a') * unat (ct_TimeScale t) < 2 ^ 32"
    and "0 < as_LoopDurMS a'" and "unat nr * unat (ct_SampleDur t') < 2 ^ 64"
  shows "\<exists>s orig. CalcSample t' nr = Inr (s, orig) \<and> unat orig < length (ct_Samples t')"
proof -
  from assms(1) have "loop_groups 0 (as_LoopDurMS a') (as_Groups a) = Inr (as_Groups a')"
    by (auto simp: setLoopDuration_def Let_def split: list.splits if_splits sum.splits)
  from loop_groups_mem [OF this] assms(2) obtain k t where
    t: "t \<in> set (all_tracks a)" and chk: "loop_check k (as_LoopDurMS a') t = Inr t'"
    unfolding all_tracks_def by blast
  have ok: "timing_ok t" using t assms(3) by blast
  have "0 < unat (as_LoopDurMS a')" using assms(4) by (simp add: word_less_nat_alt)
  with t assms(3) have r: "0 < unat (ct_LoopDur t')" "unat (ct_LoopDur t') \<le> unat (ct_Duration t)"
    "ct_Samples t' = ct_Samples t" "ct_SampleDur t' = ct_SampleDur t"
    using loop_check_ready [OF chk ok] by blast+
  have nz: "ct_SampleDur t' \<noteq> 0" "ct_LoopDur t' \<noteq> 0" using ok r by (auto simp: timing_ok_def)
  have le: "unat (ct_LoopDur t') \<le> length (ct_Samples t') * unat (ct_SampleDur t')"
    using ok r by (simp add: timing_ok_def)
  show ?thesis using CalcSample_nat [OF nz assms(5)] CalcSample_range [OF nz assms(5) le] by metis
qed

text \<open>The millisecond products of setLoopDuration are 32 bits wide: an asset with one 90 kHz video
  track of exactly 60 s is rejected as not compatible with its own loop duration.\<close>

theorem setLoopDuration_rejects_60s:
  "setLoopDuration \<lparr>as_Name = n, as_Groups = [\<lparr>tg_AltGroupID = 1, tg_Tracks =
       [zero_content_track\<lparr>ct_ContentType := ''video'', ct_TimeScale := 90000, ct_Duration := 5400000\<rparr>]\<rparr>],
     as_LoopDurMS = 0, as_SubtitleTracks = [], as_Drm = None, as_Eccp = None\<rparr>
   = Inl (Errorf ''track not compatible with loop duration'')"
  by (simp add: setLoopDuration_def Let_def loop_check_def)

text \<open>C3: Groups of an accepted AV1 SVC source are closed GOPs. When the samples are a whole number of
  GOPs, every one-second group has GopLength samples and, looped, exactly its first one is a sync
  sample.\<close>

theorem svc_groups_are_gops:
  assumes "validateAV1SVCGOP isSync t = Inr ()" and "timing_ok t" and "ct_LoopDur t = ct_Duration t"
    and "unat (ct_GopLength t) dvd length (ct_Samples t)"
    and "(unat nr + 1) * 1000 * unat (ct_TimeScale t) < 2 ^ 64"
  shows "\<exists>s e. calcMoQGroup t nr MoqGroupDurMS = Inr (s, e) \<and> unat e = unat s + unat (ct_GopLength t) \<and>
    (\<forall>k. s \<le> k \<and> k < e \<longrightarrow> (\<exists>st orig. CalcSample t k = Inr (st, orig) \<and>
       unat orig < length (ct_Samples t) \<and> (isSync (fs_Flags (ct_Samples t ! unat orig)) \<longleftrightarrow> k = s)))"
proof -
  let ?g = "unat (ct_GopLength t)" and ?sd = "unat (ct_SampleDur t)" and ?p = "length (ct_Samples t)"
  have sd0: "ct_SampleDur t \<noteq> 0" and dur: "unat (ct_Duration t) = ?p * ?sd" and p0: "0 < ?p"
    and small: "?p * ?sd * 1000 < 2 ^ 32" using assms(2) by (auto simp: timing_ok_def)
  note v = validate_gop_dvd [OF assms(1,4) p0 small]
  have nr1: "unat nr + 1 < 2 ^ 64"
    using fits_factor [OF assms(5)] v(1-3) assms(2) by (simp add: timing_ok_def)
  obtain s e where se: "calcMoQGroup t nr MoqGroupDurMS = Inr (s, e)"
    "unat s = unat nr * ?g" "unat e = (unat nr + 1) * ?g"
    using calcMoQGroup_nat [OF sd0 _ nr1, of MoqGroupDurMS] assms(5) v(1,3) group_first_gop [of ?sd ?g]
    by (auto simp: MoqGroupDurMS_def)
  have "\<exists>st orig. CalcSample t k = Inr (st, orig) \<and> unat orig < ?p \<and>
      (isSync (fs_Flags (ct_Samples t ! unat orig)) \<longleftrightarrow> k = s)" if k: "s \<le> k" "k < e" for k
  proof -
    have kn: "unat nr * ?g \<le> unat k" "unat k < unat nr * ?g + ?g"
      using k se by (simp_all add: word_le_nat_alt word_less_nat_alt)
    have "unat k * ?sd \<le> (unat nr + 1) * ?g * ?sd" using kn by (intro mult_le_mono1) simp
    also have "\<dots> = (unat nr + 1) * unat (ct_TimeScale t)" using v(1) by (metis mult.assoc)
    also have "\<dots> \<le> (unat nr + 1) * 1000 * unat (ct_TimeScale t)" by (intro mult_le_mono1) simp
    finally have fit: "unat k * ?sd < 2 ^ 64" using assms(5) by (rule le_less_trans)
    obtain st orig where so: "CalcSample t k = Inr (st, orig)" "unat orig = unat k mod ?p"
      using CalcSample_cyclic [OF sd0 fit _ p0] assms(3) dur by auto
    have "unat orig < ?p" using so p0 by simp
    moreover have "isSync (fs_Flags (ct_Samples t ! unat orig)) \<longleftrightarrow> unat orig mod ?g = 0"
      using \<open>unat orig < ?p\<close> by (rule v(4))
    moreover have "unat orig mod ?g = unat k mod ?g" using so assms(4) by (simp add: mod_mod_cancel)
    moreover have "unat k mod ?g = 0 \<longleftrightarrow> unat k = unat nr * ?g" using block_start_iff [OF kn] by simp
    ultimately show ?thesis using so se(2) by (metis word_unat_eq_iff)
  qed
  with se show ?thesis by (auto simp: algebra_simps)
qed

text \<open>The whole-number-of-GOPs condition is not checked by validateAV1SVCGOP: this track (two
  samples per GOP, three samples) passes the check, and its group 2 starts at the non-sync
  sample 1.\<close>

theorem svc_partial_gop_misaligned:
  "let t = zero_content_track\<lparr>ct_TimeScale := 2, ct_GopLength := 2, ct_SampleDur := 1, ct_Duration := 3,
         ct_LoopDur := 3, ct_Samples := [zero_sample\<lparr>fs_Flags := 1\<rparr>, zero_sample\<lparr>fs_DecodeTime := 1\<rparr>,
           zero_sample\<lparr>fs_Flags := 1, fs_DecodeTime := 2\<rparr>]\<rparr>
   in validateAV1SVCGOP (\<lambda>f. f = 1) t = Inr () \<and>
      (\<exists>e. calcMoQGroup t 2 MoqGroupDurMS = Inr (4, e)) \<and> CalcSample t 4 = Inr (4, 1)"
  by (simp add: validateAV1SVCGOP_def svc_sample_ok_def calcMoQGroup_def CalcSample_def MoqGroupDurMS_def
      Let_def zero_content_track_def zero_sample_def numeral_3_eq_3 upt_rec)

section \<open>Instances\<close>

text \<open>A 25 Hz video track at 90 kHz: 250 samples, a loop of ten seconds, 25 frames per GOP; and a
  48 kHz AAC track of 10 s and one frame more, whose loop is not a whole number of frames.\<close>

definition ex_video :: "(unit, unit, unit) content_track" where
  "ex_video = zero_content_track\<lparr>ct_Name := ''video_400kbps_avc'', ct_ContentType := ''video'',
     ct_TimeScale := 90000, ct_Duration := 900000, ct_GopLength := 25, ct_SampleDur := 3600,
     ct_LoopDur := 900000, ct_Samples := replicate 250 zero_sample\<rparr>"

definition ex_audio :: "(unit, unit, unit) content_track" where
  "ex_audio = zero_content_track\<lparr>ct_Name := ''audio_monotonic_128kbps_aac'', ct_ContentType := ''audio'',
     ct_TimeScale := 48000, ct_Duration := 480256, ct_SampleDur := 1024,
     ct_LoopDur := 480000, ct_Samples := replicate 469 zero_sample\<rparr>"

theorem moq_groups_tile_witness:
  "\<exists>s e. calcMoQGroup ex_audio 1 1000 = Inr (s, e) \<and> s = 47 \<and> e = 94"
proof -
  have "calcMoQGroup ex_audio 1 1000 = Inr (47, 94)" by (simp add: calcMoQGroup_def ex_audio_def Let_def)
  moreover have "\<exists>s e. calcMoQGroup ex_audio 1 1000 = Inr (s, e) \<and> s \<le> e"
    using moq_groups_tile [of ex_audio 1 1000] by (auto simp: ex_audio_def)
  ultimately show ?thesis by auto
qed

theorem CalcSample_loops_witness:
  "\<exists>s orig. CalcSample ex_audio 470 = Inr (s, orig) \<and> unat s = 481280 \<and> unat orig < 469 \<and> orig = 1"
proof -
  have "CalcSample ex_audio 470 = Inr (481280, 1)" by (simp add: CalcSample_def ex_audio_def Let_def)
  moreover have "\<exists>s orig. CalcSample ex_audio 470 = Inr (s, orig) \<and> unat orig < 469"
    using CalcSample_loops [of ex_audio 470] by (auto simp: ex_audio_def)
  ultimately show ?thesis by auto
qed

theorem CalcSample_periodic_witness: "\<exists>s orig. CalcSample ex_video 777 = Inr (s, orig) \<and> unat orig = 27"
  using CalcSample_periodic [of ex_video 777 250] by (simp add: ex_video_def)

theorem setLoopDuration_safe_witness:
  "\<exists>s orig. CalcSample (ex_video\<lparr>ct_LoopDur := 900000\<rparr>) 260 = Inr (s, orig) \<and> unat orig < 250"
proof -
  define a :: "(unit, unit, unit) asset" where
    "a = \<lparr>as_Name = ''test'', as_Groups = [\<lparr>tg_AltGroupID = 1, tg_Tracks = [ex_video]\<rparr>],
        as_LoopDurMS = 0, as_SubtitleTracks = [], as_Drm = None, as_Eccp = None\<rparr>"
  define t' where "t' = ex_video\<lparr>ct_LoopDur := 900000\<rparr>"
  let ?a' = "a\<lparr>as_Groups := [\<lparr>tg_AltGroupID = 1, tg_Tracks = [t']\<rparr>], as_LoopDurMS := 10000\<rparr>"
  have "setLoopDuration a = Inr ?a'"
    by (simp add: a_def t'_def setLoopDuration_def loop_check_def ex_video_def Let_def)
  moreover have "t' \<in> set (all_tracks ?a')" by (simp add: all_tracks_def)
  moreover have "\<forall>t \<in> set (all_tracks a). timing_ok t \<and> unat (as_LoopDurMS ?a') * unat (ct_TimeScale t) < 2 ^ 32"
    by (simp add: all_tracks_def a_def timing_ok_def ex_video_def)
  ultimately have "\<exists>s orig. CalcSample t' 260 = Inr (s, orig) \<and> unat orig < length (ct_Samples t')"
    by (rule setLoopDuration_safe) (simp_all add: t'_def ex_video_def)
  then show ?thesis by (simp add: t'_def ex_video_def)
qed

theorem svc_groups_are_gops_witness:
  "\<exists>t :: (unit, unit, unit) content_track. \<exists>s e.
     calcMoQGroup t 7 MoqGroupDurMS = Inr (s, e) \<and> unat e = unat s + 2 \<and> length (ct_Samples t) = 4"
proof -
  define t :: "(unit, unit, unit) content_track" where
    "t = zero_content_track\<lparr>ct_TimeScale := 1000, ct_GopLength := 2, ct_SampleDur := 500, ct_Duration := 2000,
       ct_LoopDur := 2000, ct_Samples := [zero_sample\<lparr>fs_Flags := 1\<rparr>, zero_sample,
         zero_sample\<lparr>fs_Flags := 1, fs_DecodeTime := 1000\<rparr>, zero_sample]\<rparr>"
  have "validateAV1SVCGOP (\<lambda>f. f = 1) t = Inr ()"
    by (simp add: t_def validateAV1SVCGOP_def svc_sample_ok_def MoqGroupDurMS_def Let_def zero_sample_def upt_rec)
  then have "\<exists>s e. calcMoQGroup t 7 MoqGroupDurMS = Inr (s, e) \<and> unat e = unat s + unat (ct_GopLength t)"
    using svc_groups_are_gops [of "\<lambda>f. f = 1" t 7] by (auto simp: t_def timing_ok_def)
  then show ?thesis by (intro exI [of _ t]) (auto simp: t_def)
qed

end
