(* ===== verification/Av1_Layers.thy ===== *)
theory Av1_Layers
  imports Sample_Clock
begin

text \<open>
  AV1 tracks (\<^verbatim>\<open>internal/media.go\<close>): splitting the temporal units of a spatially scalable stream
  into one sample sequence per spatial layer (\<open>splitAV1SpatialLayers\<close>), the decision whether LOC
  key frames need the sequence header prepended (\<open>keyframeHasAV1SeqHeader\<close>,
  \<open>GenLOCVideoConfig_AV1\<close>, \<open>GenLOCVideoConfigForSample\<close>) and \<open>initAV1Data\<close>. The OBU parser, the frame
  header decoder and the init-segment builder are mp4ff's, the fields of \<open>av1_lib\<close>.
\<close>

datatype obu_type = OBUSequenceHeader | OBUTemporalDelimiter | OBUFrame | OBUFrameHeader | OBUTileGroup
  | OBURedundantFrameHeader | OBUOther

record obu =
  ob_Type :: obu_type
  ob_ExtensionFlag :: bool
  ob_TemporalID :: u8
  ob_SpatialID :: u8
  ob_Payload :: bytes

record ('i, 'h, 'd) av1_lib =
  al1_SplitOBUs :: "bytes \<Rightarrow> obu list res"
  al1_Encode :: "obu \<Rightarrow> bytes"
  al1_ParseOBUHeader :: "bytes \<Rightarrow> obu_type res"
  al1_IsSync :: "u32 \<Rightarrow> bool"
  al1_NewFrameHeaderDecoder :: "'h \<Rightarrow> 'd res"
  al1_ParseFrameHeader :: "'d \<Rightarrow> u8 \<Rightarrow> u8 \<Rightarrow> bytes \<Rightarrow> 'd \<times> (u32 \<times> u32) res"
  al1_av1C :: "'i \<Rightarrow> bytes option"
  al1_SequenceHeader :: "'i \<Rightarrow> 'h res"
  al1_describe :: "'h \<Rightarrow> u32 \<times> u32 \<times> string"
  al1_timescale :: "'i \<Rightarrow> u32"
  al1_mkInit :: "u32 \<Rightarrow> 'i \<Rightarrow> u16 \<Rightarrow> u16 \<Rightarrow> 'i res"

definition isAV1FrameOBU :: "obu_type \<Rightarrow> bool" where
  "isAV1FrameOBU t \<longleftrightarrow> t = OBUFrame \<or> t = OBUFrameHeader"

definition isAV1LayerOBU :: "obu_type \<Rightarrow> bool" where
  "isAV1LayerOBU t \<longleftrightarrow> t \<in> {OBUFrame, OBUFrameHeader, OBUTileGroup, OBURedundantFrameHeader}"

section \<open>Splitting\<close>

text \<open>The first pass: the highest spatial id of a frame OBU, if any is above 0.\<close>

fun max_spatial_obus :: "obu list \<Rightarrow> bool \<times> u8 \<Rightarrow> bool \<times> u8" where
  "max_spatial_obus [] acc = acc"
| "max_spatial_obus (ob # obs) (spatial, m) = max_spatial_obus obs
     (if isAV1FrameOBU (ob_Type ob) \<and> ob_ExtensionFlag ob \<and> ob_SpatialID ob > 0
      then (True, max m (ob_SpatialID ob)) else (spatial, m))"

fun max_spatial :: "('i, 'h, 'd) av1_lib \<Rightarrow> full_sample list \<Rightarrow> bool \<times> u8 \<Rightarrow> (bool \<times> u8) res" where
  "max_spatial A [] acc = Inr acc"
| "max_spatial A (s # ss) acc = (case al1_SplitOBUs A (fs_Data s) of
     Inl e \<Rightarrow> Inl (Wrapf ''sample'' e) | Inr obus \<Rightarrow> max_spatial A ss (max_spatial_obus obus acc))"

text \<open>The layer an OBU belongs to: sequence headers and temporal delimiters go to layer 0.\<close>

definition obu_layer :: "obu \<Rightarrow> u8" where
  "obu_layer ob = (if ob_ExtensionFlag ob \<and> ob_Type ob \<noteq> OBUSequenceHeader \<and> ob_Type ob \<noteq> OBUTemporalDelimiter
                   then ob_SpatialID ob else 0)"

record 'd split_state =
  sp_dec :: 'd
  sp_layers :: "av1_spatial_layer list"
  sp_seen :: "bool list"
  sp_payloads :: "bytes list"

definition split_obu :: "('i, 'h, 'd) av1_lib \<Rightarrow> obu \<Rightarrow> 'd split_state \<Rightarrow> 'd split_state res" where
  "split_obu A ob st =
     (let k = obu_layer ob; i = unat k;
          st_app = (\<lambda>s. s\<lparr>sp_payloads := (sp_payloads s)[i := sp_payloads s ! i @ al1_Encode A ob]\<rparr>)
      in if length (sp_layers st) \<le> i then Inl (Errorf ''spatial ID exceeds maximum'')
         else if isAV1LayerOBU (ob_Type ob) \<and> ob_TemporalID ob \<noteq> 0 then Inl (Errorf ''temporal ID is unsupported'')
         else if isAV1FrameOBU (ob_Type ob)
           then if sp_seen st ! i then Inl (Errorf ''duplicate frame for spatial ID'')
             else (case al1_ParseFrameHeader A (sp_dec st) (ob_TemporalID ob) k (ob_Payload ob) of
                 (d, Inl e) \<Rightarrow> Inl (Wrapf ''frame header'' e)
               | (d, Inr (w, h)) \<Rightarrow>
                   Inr (st_app (st\<lparr>sp_seen := (sp_seen st)[i := True], sp_dec := d,
                     sp_layers := (sp_layers st)[i := (sp_layers st ! i)
                       \<lparr>sl_Width := max (sl_Width (sp_layers st ! i)) w,
                        sl_Height := max (sl_Height (sp_layers st ! i)) h\<rparr>]\<rparr>)))
           else Inr (st_app st))"

fun split_obus :: "('i, 'h, 'd) av1_lib \<Rightarrow> obu list \<Rightarrow> 'd split_state \<Rightarrow> 'd split_state res" where
  "split_obus A [] st = Inr st"
| "split_obus A (ob # obs) st = (case split_obu A ob st of Inl e \<Rightarrow> Inl e | Inr st' \<Rightarrow> split_obus A obs st')"

definition store_sample :: "nat \<Rightarrow> bytes \<Rightarrow> av1_spatial_layer \<Rightarrow> av1_spatial_layer" where
  "store_sample sampleNr p l = l\<lparr>sl_Samples := (sl_Samples l)[sampleNr := p],
                                 sl_totalSize := sl_totalSize l + of_nat (length p)\<rparr>"

definition split_sample :: "('i, 'h, 'd) av1_lib \<Rightarrow> nat \<Rightarrow> bytes \<Rightarrow> 'd \<times> av1_spatial_layer list \<Rightarrow>
    ('d \<times> av1_spatial_layer list) res" where
  "split_sample A sampleNr dat dl = (case al1_SplitOBUs A dat of
     Inl e \<Rightarrow> Inl (Wrapf ''sample'' e)
   | Inr obus \<Rightarrow> (let n = length (snd dl) in
       case split_obus A obus \<lparr>sp_dec = fst dl, sp_layers = snd dl, sp_seen = replicate n False,
              sp_payloads = replicate n []\<rparr> of
         Inl e \<Rightarrow> Inl e
       | Inr st \<Rightarrow> if \<not> list_all id (sp_seen st) then Inl (Errorf ''missing frame for spatial ID'')
           else Inr (sp_dec st, map2 (store_sample sampleNr) (sp_payloads st) (sp_layers st))))"

fun split_samples :: "('i, 'h, 'd) av1_lib \<Rightarrow> nat \<Rightarrow> full_sample list \<Rightarrow> 'd \<times> av1_spatial_layer list \<Rightarrow>
    ('d \<times> av1_spatial_layer list) res" where
  "split_samples A nr [] dl = Inr dl"
| "split_samples A nr (s # ss) dl = (case split_sample A nr (fs_Data s) dl of
     Inl e \<Rightarrow> Inl e | Inr dl' \<Rightarrow> split_samples A (Suc nr) ss dl')"

definition splitAV1SpatialLayers :: "('i, 'h, 'd) av1_lib \<Rightarrow> full_sample list \<Rightarrow> 'h \<Rightarrow> av1_spatial_layer list res" where
  "splitAV1SpatialLayers A samples sh = (case max_spatial A samples (False, 0) of
     Inl e \<Rightarrow> Inl e
   | Inr (spatial, m) \<Rightarrow> if \<not> spatial then Inr []
       else let layers0 = map (\<lambda>i. \<lparr>sl_SpatialID = of_nat i, sl_Width = 0, sl_Height = 0,
                    sl_Samples = replicate (length samples) [], sl_totalSize = 0\<rparr>) [0..<unat m + 1]
       in case al1_NewFrameHeaderDecoder A sh of
         Inl e \<Rightarrow> Inl e
       | Inr d \<Rightarrow> (case split_samples A 0 samples (d, layers0) of
           Inl e \<Rightarrow> Inl e
         | Inr (d', layers) \<Rightarrow>
             if list_all (\<lambda>l. sl_Width l \<noteq> 0 \<and> sl_Height l \<noteq> 0) layers then Inr layers
             else Inl (Errorf ''spatial ID has no coded dimensions'')))"

section \<open>The track data\<close>

fun keyframeHasAV1SeqHeader :: "('i, 'h, 'd) av1_lib \<Rightarrow> full_sample list \<Rightarrow> bool" where
  "keyframeHasAV1SeqHeader A [] = False"
| "keyframeHasAV1SeqHeader A (s # ss) =
     (if \<not> al1_IsSync A (fs_Flags s) then keyframeHasAV1SeqHeader A ss
      else al1_ParseOBUHeader A (fs_Data s) = Inr OBUSequenceHeader)"

definition initAV1Data :: "('i, 'h, 'd) av1_lib \<Rightarrow> 'i \<Rightarrow> full_sample list \<Rightarrow> 'i av1_data res" where
  "initAV1Data A i samples = (case al1_av1C A i of
     None \<Rightarrow> Inl (Errorf ''no av1C box found'')
   | Some configOBUs \<Rightarrow> (case al1_SequenceHeader A i of
       Inl e \<Rightarrow> Inl (Wrapf ''could not parse AV1 sequence header'' e)
     | Inr sh \<Rightarrow> (case al1_describe A sh of (w, h, codec) \<Rightarrow>
         (case splitAV1SpatialLayers A samples sh of
            Inl e \<Rightarrow> Inl (Wrapf ''could not split AV1 spatial layers'' e)
          | Inr layers \<Rightarrow> (case al1_mkInit A (al1_timescale A i) i (ucast w) (ucast h) of
              Inl e \<Rightarrow> Inl (Wrapf ''could not set AV1 descriptor'' e)
            | Inr outI \<Rightarrow> Inr \<lparr>a1_inInit = i, a1_outInit = outI, a1_codec = codec, a1_width = w, a1_height = h,
                a1_configOBUs = configOBUs, a1_locNeedsConfig = (\<not> keyframeHasAV1SeqHeader A samples),
                a1_spatialLayers = layers\<rparr>)))))"

definition GenLOCVideoConfig_AV1 :: "'i av1_data \<Rightarrow> bytes" where
  "GenLOCVideoConfig_AV1 d = (if \<not> a1_locNeedsConfig d then [] else a1_configOBUs d)"

definition GenLOCVideoConfigForSample :: "('i, 'h, 'd) av1_lib \<Rightarrow> 'i av1_data \<Rightarrow> bytes \<Rightarrow> bytes" where
  "GenLOCVideoConfigForSample A d sample = (case al1_SplitOBUs A sample of
     Inl e \<Rightarrow> a1_configOBUs d
   | Inr obus \<Rightarrow> if (\<exists>ob \<in> set obus. ob_Type ob = OBUSequenceHeader) then [] else a1_configOBUs d)"

section \<open>Each layer gets its OBUs\<close>

text \<open>What the layer with index k gets of a temporal unit.\<close>

definition layer_payload :: "('i, 'h, 'd) av1_lib \<Rightarrow> nat \<Rightarrow> obu list \<Rightarrow> bytes" where
  "layer_payload A k obus = concat (map (al1_Encode A) (filter (\<lambda>ob. unat (obu_layer ob) = k) obus))"

definition layer_ids :: "av1_spatial_layer list \<Rightarrow> u8 list" where
  "layer_ids ls = map sl_SpatialID ls"

text \<open>The invariant of one unit: array lengths, untouched sample lists and the payloads so far.\<close>

definition split_inv :: "('i, 'h, 'd) av1_lib \<Rightarrow> av1_spatial_layer list \<Rightarrow> obu list \<Rightarrow> 'd split_state \<Rightarrow> bool" where
  "split_inv A ls0 obus st \<longleftrightarrow> length (sp_layers st) = length ls0 \<and> length (sp_seen st) = length ls0 \<and>
     sp_payloads st = map (\<lambda>k. layer_payload A k obus) [0..<length ls0] \<and>
     map sl_Samples (sp_layers st) = map sl_Samples ls0 \<and> map sl_SpatialID (sp_layers st) = map sl_SpatialID ls0 \<and>
     map sl_totalSize (sp_layers st) = map sl_totalSize ls0"

lemma map_update_frame: "f x = f (ls ! i) \<Longrightarrow> map f (ls[i := x]) = map f ls"
  by (cases "i < length ls") (simp add: map_update list_update_same_conv, simp add: list_update_beyond)

lemma split_obu_inv:
  assumes "split_obu A ob st = Inr st'" and "split_inv A ls0 obs st"
  shows "split_inv A ls0 (obs @ [ob]) st' \<and> unat (obu_layer ob) < length ls0"
proof -
  let ?i = "unat (obu_layer ob)"
  have i: "?i < length ls0" using assms by (auto simp: split_obu_def Let_def split_inv_def split: if_splits)
  have pay: "(map (\<lambda>k. layer_payload A k obs) [0..<length ls0])[?i := layer_payload A ?i obs @ al1_Encode A ob]
      = map (\<lambda>k. layer_payload A k (obs @ [ob])) [0..<length ls0]"
    using i by (intro nth_equalityI) (auto simp: nth_list_update layer_payload_def)
  show ?thesis using assms i
    by (auto simp: split_obu_def Let_def split_inv_def map_update_frame pay split: if_splits prod.splits sum.splits)
qed

lemma split_obus_inv:
  "split_obus A obs st = Inr st' \<Longrightarrow> split_inv A ls0 prev st \<Longrightarrow>
   split_inv A ls0 (prev @ obs) st' \<and> (\<forall>ob \<in> set obs. unat (obu_layer ob) < length ls0)"
proof (induction obs arbitrary: st prev)
  case (Cons ob obs)
  then obtain st1 where st1: "split_obu A ob st = Inr st1" "split_obus A obs st1 = Inr st'"
    by (auto split: sum.splits)
  from split_obu_inv [OF st1(1) Cons.prems(2)] Cons.IH [OF st1(2)] show ?case by fastforce
qed simp

lemma split_sample_layers:
  assumes "split_sample A nr dat (d, ls) = Inr (d', ls')"
  obtains obus where "al1_SplitOBUs A dat = Inr obus" "\<forall>ob \<in> set obus. unat (obu_layer ob) < length ls"
    "map sl_Samples ls' = map (\<lambda>k. (sl_Samples (ls ! k))[nr := layer_payload A k obus]) [0..<length ls]"
    "map sl_SpatialID ls' = map sl_SpatialID ls"
    "map sl_totalSize ls' = map (\<lambda>k. sl_totalSize (ls ! k) + of_nat (length (layer_payload A k obus))) [0..<length ls]"
proof -
  from assms obtain obus st where o: "al1_SplitOBUs A dat = Inr obus"
    and run: "split_obus A obus \<lparr>sp_dec = d, sp_layers = ls, sp_seen = replicate (length ls) False,
              sp_payloads = replicate (length ls) []\<rparr> = Inr st"
    and ls': "ls' = map2 (store_sample nr) (sp_payloads st) (sp_layers st)"
    by (auto simp: split_sample_def Let_def split: sum.splits if_splits)
  have "split_inv A ls [] \<lparr>sp_dec = d, sp_layers = ls, sp_seen = replicate (length ls) False,
              sp_payloads = replicate (length ls) []\<rparr>"
    by (simp add: split_inv_def layer_payload_def map_replicate_const)
  from split_obus_inv [OF run this] have inv: "split_inv A ls obus st"
    and b: "\<forall>ob \<in> set obus. unat (obu_layer ob) < length ls" by simp_all
  have len: "length (sp_layers st) = length ls" using inv by (simp add: split_inv_def)
  have f: "sl_Samples (sp_layers st ! k) = sl_Samples (ls ! k)" "sl_SpatialID (sp_layers st ! k) = sl_SpatialID (ls ! k)"
    "sl_totalSize (sp_layers st ! k) = sl_totalSize (ls ! k)" if "k < length ls" for k
    using inv that len unfolding split_inv_def by (metis nth_map)+
  show thesis
    by (rule that [OF o b]; rule nth_equalityI)
      (use inv len f in \<open>simp_all add: ls' split_inv_def store_sample_def\<close>)
qed

lemma split_samples_layers:
  assumes "split_samples A nr ss (d, ls) = Inr (d', ls')"
    and "\<forall>l \<in> set ls. length (sl_Samples l) = nr + length ss"
  shows "map sl_SpatialID ls' = map sl_SpatialID ls \<and>
    (\<forall>k < length ls. length (sl_Samples (ls' ! k)) = nr + length ss \<and> take nr (sl_Samples (ls' ! k)) = take nr (sl_Samples (ls ! k)) \<and>
      (\<forall>j < length ss. \<exists>obus. al1_SplitOBUs A (fs_Data (ss ! j)) = Inr obus \<and>
         sl_Samples (ls' ! k) ! (nr + j) = layer_payload A k obus \<and>
         (\<forall>ob \<in> set obus. unat (obu_layer ob) < length ls)))"
  using assms
proof (induction ss arbitrary: nr d ls)
  case (Cons s ss)
  then obtain d1 ls1 where s1: "split_sample A nr (fs_Data s) (d, ls) = Inr (d1, ls1)"
    and rest: "split_samples A (Suc nr) ss (d1, ls1) = Inr (d', ls')" by (auto split: sum.splits)
  obtain obus where o: "al1_SplitOBUs A (fs_Data s) = Inr obus"
    "\<forall>ob \<in> set obus. unat (obu_layer ob) < length ls"
    and m: "map sl_Samples ls1 = map (\<lambda>k. (sl_Samples (ls ! k))[nr := layer_payload A k obus]) [0..<length ls]"
    and ids: "map sl_SpatialID ls1 = map sl_SpatialID ls" by (rule split_sample_layers [OF s1])
  have len: "length ls1 = length ls" using ids by (metis length_map)
  have smp: "sl_Samples (ls1 ! k) = (sl_Samples (ls ! k))[nr := layer_payload A k obus]" if "k < length ls" for k
    using arg_cong [OF m, of "\<lambda>xs. xs ! k"] that len by simp
  have "\<forall>l \<in> set ls1. length (sl_Samples l) = Suc nr + length ss"
    using Cons.prems(2) smp len by (auto simp: in_set_conv_nth [of _ ls1] nth_mem)
  note IH = Cons.IH [OF rest this]
  show ?case
  proof (intro conjI allI impI)
    show "map sl_SpatialID ls' = map sl_SpatialID ls" using IH ids by simp
    fix k assume k: "k < length ls"
    note IHk = conjunct2 [OF IH, rule_format, of k] 
    have lk: "length (sl_Samples (ls ! k)) = nr + Suc (length ss)" using Cons.prems(2) k by simp
    show "length (sl_Samples (ls' ! k)) = nr + length (s # ss)" using IHk k len by simp
    have t: "take (Suc nr) (sl_Samples (ls' ! k)) = take (Suc nr) ((sl_Samples (ls ! k))[nr := layer_payload A k obus])"
      using IHk k len smp by simp
    from arg_cong [OF t, of "take nr"] show "take nr (sl_Samples (ls' ! k)) = take nr (sl_Samples (ls ! k))" by simp
    have at: "sl_Samples (ls' ! k) ! nr = layer_payload A k obus"
      using arg_cong [OF t, of "\<lambda>xs. xs ! nr"] lk by simp
    fix j assume j: "j < length (s # ss)"
    show "\<exists>obus. al1_SplitOBUs A (fs_Data ((s # ss) ! j)) = Inr obus \<and>
        sl_Samples (ls' ! k) ! (nr + j) = layer_payload A k obus \<and> (\<forall>ob \<in> set obus. unat (obu_layer ob) < length ls)"
    proof (cases j)
      case 0
      then show ?thesis using o at by simp
    next
      case (Suc i)
      then show ?thesis using IHk k len j by simp
    qed
  qed
qed simp

section \<open>Properties\<close>

text \<open>C13: No OBU is lost or duplicated by the layer split. For a source that is split into layers, layer k
  has the id k and one entry per source sample; the entry is the concatenation, in stream order, of
  the re-encoded OBUs of that sample that belong to layer k, and every OBU belongs to one of the
  layers.\<close>

theorem spatial_layers_partition:
  assumes "splitAV1SpatialLayers A samples sh = Inr layers" and "layers \<noteq> []"
  shows "(\<forall>k < length layers. unat (sl_SpatialID (layers ! k)) = k \<and>
      length (sl_Samples (layers ! k)) = length samples \<and>
      (\<forall>j < length samples. \<exists>obus. al1_SplitOBUs A (fs_Data (samples ! j)) = Inr obus \<and>
         sl_Samples (layers ! k) ! j = layer_payload A k obus \<and>
         (\<forall>ob \<in> set obus. unat (obu_layer ob) < length layers)))"
proof -
  from assms obtain m d d' where m: "max_spatial A samples (False, 0) = Inr (True, m)"
    and run: "split_samples A 0 samples (d, map (\<lambda>i. \<lparr>sl_SpatialID = of_nat i, sl_Width = 0, sl_Height = 0,
        sl_Samples = replicate (length samples) [], sl_totalSize = 0\<rparr>) [0..<unat m + 1]) = Inr (d', layers)"
    by (auto simp: splitAV1SpatialLayers_def Let_def split: sum.splits if_splits)
  note L = split_samples_layers [OF run, simplified]
  have ids: "map sl_SpatialID layers = map of_nat [0..<Suc (unat m)]" using L by (simp add: comp_def)
  then have len: "length layers = Suc (unat m)" by (metis length_map length_upt minus_nat.diff_0)
  have m8: "unat m < 256" using unsigned_less [of m, where ?'a = nat] by simp
  have "unat (sl_SpatialID (layers ! k)) = k" if "k < length layers" for k
  proof -
    have "sl_SpatialID (layers ! k) = of_nat k"
      using arg_cong [OF ids, of "\<lambda>xs. xs ! k"] that len by (simp del: upt_Suc)
    then show ?thesis using that len m8 by (simp add: unsigned_of_nat take_bit_eq_mod)
  qed
  with L show ?thesis by (simp add: len)
qed

text \<open>A two-layer source with one temporal unit.\<close>

definition ex_av1 :: "(unit, unit, unit) av1_lib" where
  "ex_av1 = \<lparr>al1_SplitOBUs = (\<lambda>b. Inr
       [\<lparr>ob_Type = OBUTemporalDelimiter, ob_ExtensionFlag = False, ob_TemporalID = 0, ob_SpatialID = 0, ob_Payload = [1]\<rparr>,
        \<lparr>ob_Type = OBUFrame, ob_ExtensionFlag = True, ob_TemporalID = 0, ob_SpatialID = 0, ob_Payload = [2]\<rparr>,
        \<lparr>ob_Type = OBUFrame, ob_ExtensionFlag = True, ob_TemporalID = 0, ob_SpatialID = 1, ob_Payload = [3]\<rparr>]),
     al1_Encode = ob_Payload, al1_ParseOBUHeader = (\<lambda>b. Inr OBUFrame), al1_IsSync = (\<lambda>f. True),
     al1_NewFrameHeaderDecoder = Inr, al1_ParseFrameHeader = (\<lambda>d t s p. (d, Inr (640, 360))),
     al1_av1C = (\<lambda>i. Some [9]), al1_SequenceHeader = (\<lambda>i. Inr ()), al1_describe = (\<lambda>h. (640, 360, ''av01'')),
     al1_timescale = (\<lambda>i. 1000), al1_mkInit = (\<lambda>t i w h. Inr i)\<rparr>"

theorem spatial_layers_partition_witness:
  "\<exists>l0 l1. splitAV1SpatialLayers ex_av1 [zero_sample] () = Inr [l0, l1] \<and>
     sl_Samples l0 ! 0 = [1, 2] \<and> sl_Samples l1 ! 0 = [3]"
proof -
  obtain l0 l1 where s: "splitAV1SpatialLayers ex_av1 [zero_sample] () = Inr [l0, l1]"
    by (simp add: splitAV1SpatialLayers_def ex_av1_def isAV1FrameOBU_def isAV1LayerOBU_def split_sample_def
        split_obu_def obu_layer_def store_sample_def Let_def)
  from spatial_layers_partition [OF s] show ?thesis using s
    by (auto simp: ex_av1_def layer_payload_def obu_layer_def less_Suc_eq numeral_2_eq_2)
qed

end
