(* ===== verification/Cc608.thy ===== *)
theory Cc608
  imports Nalu Go_Float
begin

text \<open>
  CTA-608 captions: the generator of \<^verbatim>\<open>internal/cc608/cc608.go\<close> and the per-frame captioner of the
  raw-frame serve paths, \<^verbatim>\<open>internal/pub/caption.go\<close>. go-608 builds the caption frames of a group
  and their SEI units; together with mp4ff's NAL unit functions it is the parameter record
  \<open>go608\<close>. A cue is the list of its lines (row, text, colour), the fields the sources set.
\<close>

datatype pen_color = White | Yellow

record cue_line =
  cl_Row :: int
  cl_Text :: string
  cl_Color :: pen_color

type_synonym unit_cue = "cue_line list"

type_synonym caption_track_gen = "unit_cue generator"

record 'f go608 =
  g6_BuildUnitCues :: "f64 \<Rightarrow> int \<Rightarrow> int \<Rightarrow> int \<Rightarrow> (int \<Rightarrow> int \<Rightarrow> unit_cue) \<Rightarrow> 'f list res"
  g6_FrameSEINALU :: "'f \<Rightarrow> codec608 \<Rightarrow> bytes"
  g6_split :: "bytes \<Rightarrow> bytes list res"
  g6_avcVCL :: "u8 \<Rightarrow> bool"
  g6_hevcVCL :: "u8 \<Rightarrow> bool"

abbreviation splice_sei :: "'f go608 \<Rightarrow> bytes \<Rightarrow> bytes \<Rightarrow> codec608 \<Rightarrow> bytes res" where
  "splice_sei L \<equiv> SpliceSEIBeforeVCL (g6_split L) (g6_avcVCL L) (g6_hevcVCL L)"

section \<open>The generator\<close>

definition targetPeriodMS :: int where "targetPeriodMS = 1000"
definition captionRowTime :: int where "captionRowTime = 13"
definition captionRowGroup :: int where "captionRowGroup = 14"

text \<open>\<^verbatim>\<open>time.UnixMilli(ms).UTC().Clock()\<close>, and Go's quotient, which truncates.\<close>

definition clock_text :: "int \<Rightarrow> string" where
  "clock_text ms = pad0 2 (ms div 3600000 mod 24) @ '':'' @ pad0 2 (ms div 60000 mod 60) @ '':'' @
     pad0 2 (ms div 1000 mod 60) @ ''.'' @ pad0 3 (ms mod 1000)"

definition quot_trunc :: "int \<Rightarrow> int \<Rightarrow> int" where
  "quot_trunc a b = (if (a < 0) = (b < 0) then \<bar>a\<bar> div \<bar>b\<bar> else - (\<bar>a\<bar> div \<bar>b\<bar>))"

definition DefaultContent :: "int \<Rightarrow> int \<Rightarrow> unit_cue" where
  "DefaultContent cueIdx cueStartMS =
     [\<lparr>cl_Row = captionRowTime, cl_Text = clock_text cueStartMS, cl_Color = White\<rparr>,
      \<lparr>cl_Row = captionRowGroup, cl_Text = ''GRP '' @ itoa (quot_trunc cueStartMS 1000), cl_Color = Yellow\<rparr>]"

record cc_config =
  cfg_Enabled :: bool
  cfg_Channel :: int
  cfg_Lang :: string
  cfg_Content :: "(int \<Rightarrow> int \<Rightarrow> unit_cue) option"

definition cc608_New :: "cc_config \<Rightarrow> unit_cue generator" where
  "cc608_New cfg =
     \<lparr>gen_enabled = cfg_Enabled cfg,
      gen_channel = (if cfg_Channel cfg = 0 then 1 else cfg_Channel cfg),
      gen_lang = (if cfg_Lang cfg = [] then ''eng'' else cfg_Lang cfg),
      gen_content = (case cfg_Content cfg of None \<Rightarrow> DefaultContent | Some f \<Rightarrow> f)\<rparr>"

text \<open>A nil \<^verbatim>\<open>*Generator\<close> is None.\<close>

definition gen_Enabled :: "'u generator option \<Rightarrow> bool" where
  "gen_Enabled g = (case g of None \<Rightarrow> False | Some g \<Rightarrow> gen_enabled g)"

definition SEISchedule :: "'f go608 \<Rightarrow> unit_cue generator option \<Rightarrow> int \<Rightarrow> f64 \<Rightarrow> int \<Rightarrow> codec608 \<Rightarrow> bytes list option" where
  "SEISchedule L g groupNr fps nFrames codec =
     (if \<not> gen_Enabled g \<or> nFrames \<le> 0 then None
      else case g6_BuildUnitCues L fps nFrames (go_int64 (groupNr * 1000)) targetPeriodMS (gen_content (the g)) of
        Inl e \<Rightarrow> None
      | Inr frames \<Rightarrow> Some (map (\<lambda>f. g6_FrameSEINALU L f codec) frames))"

definition CodecFor :: "string \<Rightarrow> codec608 option" where
  "CodecFor s = (if has_prefix s ''avc'' then Some CodecAVC
     else if has_prefix s ''hev'' \<or> has_prefix s ''hvc'' then Some CodecHEVC else None)"

section \<open>The captioner of the raw-frame paths\<close>

record video_captioner =
  vc_gen :: "unit_cue generator option"
  vc_codec :: codec608
  vc_fps :: f64
  vc_on :: bool

definition captioner_off :: video_captioner where
  "captioner_off = \<lparr>vc_gen = None, vc_codec = CodecAVC, vc_fps = 0, vc_on = False\<rparr>"

definition frame_rate :: "('i, 'p, 'u) content_track \<Rightarrow> f64" where
  "frame_rate t = f64_div (f64_of_int (int (unat (ct_TimeScale t)))) (f64_of_int (int (unat (ct_SampleDur t))))"

definition newVideoCaptioner :: "('i, 'p, unit_cue) content_track \<Rightarrow> video_captioner res" where
  "newVideoCaptioner ct =
     (if \<not> gen_Enabled (ct_cc608 ct) \<or> ct_ContentType ct \<noteq> ''video'' \<or> ct_SampleDur ct = 0 \<or> ct_TimeScale ct = 0
      then Inr captioner_off
      else case ct_SpecData ct of
        None \<Rightarrow> Inl (Panic ''nil pointer dereference'')
      | Some sd \<Rightarrow> (case CodecFor (sd_Codec sd) of
          None \<Rightarrow> Inr captioner_off
        | Some codec \<Rightarrow> Inr \<lparr>vc_gen = ct_cc608 ct, vc_codec = codec, vc_fps = frame_rate ct, vc_on = True\<rparr>))"

definition schedule :: "'f go608 \<Rightarrow> video_captioner \<Rightarrow> int \<Rightarrow> u64 \<Rightarrow> u64 \<Rightarrow> bytes list option" where
  "schedule L c anchorSec startNr endNr =
     (if \<not> vc_on c \<or> endNr \<le> startNr then None
      else SEISchedule L (vc_gen c) anchorSec (vc_fps c) (sint (endNr - startNr)) (vc_codec c))"

definition spliceFrame :: "'f go608 \<Rightarrow> video_captioner \<Rightarrow> bytes \<Rightarrow> bytes list option \<Rightarrow> u64 \<Rightarrow> u64 \<Rightarrow> bytes" where
  "spliceFrame L c dat sei sampleNr groupStartNr = (case sei of
     None \<Rightarrow> dat
   | Some s \<Rightarrow> let ix = sint (sampleNr - groupStartNr)
       in if ix < 0 \<or> int (length s) \<le> ix \<or> s ! nat ix = [] then dat
          else case splice_sei L dat (s ! nat ix) (vc_codec c) of Inl e \<Rightarrow> dat | Inr d \<Rightarrow> d)"

section \<open>The schedule inside fragments\<close>

record cc_splice =
  cc_GroupStartNr :: u64
  cc_SEI :: "bytes list"
  cc_Codec :: codec608

definition newGroupCCSplice :: "'f go608 \<Rightarrow> ('i, 'p, unit_cue) content_track \<Rightarrow> u64 \<Rightarrow> u64 \<Rightarrow> u64 \<Rightarrow> cc_splice option res" where
  "newGroupCCSplice L t groupNr startNr endNr =
     (if \<not> gen_Enabled (ct_cc608 t) \<or> ct_ContentType t \<noteq> ''video'' \<or> ct_SampleDur t = 0 \<or> endNr \<le> startNr
      then Inr None
      else case ct_SpecData t of
        None \<Rightarrow> Inl (Panic ''nil pointer dereference'')
      | Some sd \<Rightarrow> (case CodecFor (sd_Codec sd) of
          None \<Rightarrow> Inr None
        | Some codec \<Rightarrow> (case SEISchedule L (ct_cc608 t) (sint groupNr) (frame_rate t) (sint (endNr - startNr)) codec of
            None \<Rightarrow> Inr None
          | Some sei \<Rightarrow> Inr (Some \<lparr>cc_GroupStartNr = startNr, cc_SEI = sei, cc_Codec = codec\<rparr>))))"

text \<open>The data of one sample in \<^verbatim>\<open>createFragment\<close>.\<close>

definition spliced_data :: "'f go608 \<Rightarrow> cc_splice option \<Rightarrow> u64 \<Rightarrow> bytes \<Rightarrow> bytes res" where
  "spliced_data L cc sampleNr dat = (case cc of
     None \<Rightarrow> Inr dat
   | Some c \<Rightarrow> let ix = sint (sampleNr - cc_GroupStartNr c)
       in if 0 \<le> ix \<and> ix < int (length (cc_SEI c)) \<and> cc_SEI c ! nat ix \<noteq> []
          then (case splice_sei L dat (cc_SEI c ! nat ix) (cc_Codec c) of
                  Inl e \<Rightarrow> Inl (Wrapf ''cc608: splice SEI for sample'' e) | Inr d \<Rightarrow> Inr d)
          else Inr dat)"

lemma splice_paths:
  assumes "newVideoCaptioner t = Inr c" and "ct_TimeScale t \<noteq> 0"
    and "newGroupCCSplice L t groupNr s e = Inr cc"
  shows "schedule L c (sint groupNr) s e = map_option cc_SEI cc \<and>
    (case cc of None \<Rightarrow> True | Some x \<Rightarrow> cc_GroupStartNr x = s \<and> cc_Codec x = vc_codec c)"
  using assms
  by (auto simp: newVideoCaptioner_def newGroupCCSplice_def schedule_def captioner_off_def
      split: if_splits option.splits)

section \<open>Properties\<close>

text \<open>C10: The two caption paths agree. For a video track with valid timing, the schedule that the raw
  frame paths compute is the one CMAF chunks use, and wherever createFragment splices
  successfully, the raw-frame captioner sends the same bytes.\<close>

theorem caption_paths_agree:
  assumes "newVideoCaptioner t = Inr c" and "ct_TimeScale t \<noteq> 0"
    and "newGroupCCSplice L t groupNr s e = Inr cc" and "spliced_data L cc nr dat = Inr d"
  shows "spliceFrame L c dat (schedule L c (sint groupNr) s e) nr s = d"
proof -
  note p = splice_paths [OF assms(1-3)]
  show ?thesis
  proof (cases cc)
    case None
    then show ?thesis using p assms(4) by (simp add: spliceFrame_def spliced_data_def)
  next
    case (Some x)
    then show ?thesis using p assms(4)
      by (auto simp: spliceFrame_def spliced_data_def Let_def split: if_splits sum.splits)
  qed
qed

text \<open>The default caption is a clock. The cue of group g, which starts at g seconds, is the UTC time
  of day in hours, minutes and seconds with zero milliseconds, and the group number.\<close>

theorem DefaultContent_clock:
  "map cl_Text (DefaultContent i (int g * 1000)) =
     [pad0 2 (int (g div 3600 mod 24)) @ '':'' @ pad0 2 (int (g div 60 mod 60)) @ '':'' @
        pad0 2 (int (g mod 60)) @ ''.000'', ''GRP '' @ dec g]"
proof -
  have "int g * 1000 div 3600000 = int (g div 3600)" "int g * 1000 div 60000 = int (g div 60)"
    by (simp_all add: zdiv_int)
  moreover have "pad0 3 0 = ''000''" by code_simp
  ultimately show ?thesis
    by (simp add: DefaultContent_def clock_text_def quot_trunc_def itoa_def zmod_int)
qed

text \<open>A concrete library and track for the instances.\<close>

definition ex_go608 :: "unit_cue go608" where
  "ex_go608 = \<lparr>g6_BuildUnitCues = (\<lambda>fps n ms per content. Inr (replicate (nat n) (content 0 ms))),
     g6_FrameSEINALU = (\<lambda>f codec. [6, of_nat (length f)]), g6_split = split_nalus,
     g6_avcVCL = (\<lambda>b. b = 101), g6_hevcVCL = (\<lambda>b. b = 38)\<rparr>"

definition ex_captioned :: "(unit, unit, unit_cue) content_track" where
  "ex_captioned = zero_content_track\<lparr>ct_ContentType := ''video'', ct_TimeScale := 2, ct_SampleDur := 1,
     ct_SpecData := Some (AVCData \<lparr>av_inInit = (), av_outInit = (), av_Spss = [], av_Ppss = [],
       av_codec = ''avc1.64001f'', av_width = 0, av_height = 0\<rparr>),
     ct_cc608 := Some (cc608_New \<lparr>cfg_Enabled = True, cfg_Channel = 0, cfg_Lang = [], cfg_Content = None\<rparr>)\<rparr>"

theorem caption_paths_agree_witness:
  "\<exists>c. newVideoCaptioner ex_captioned = Inr c \<and>
     spliceFrame ex_go608 c (framed [[101, 7]]) (schedule ex_go608 c 5 10 12) 11 10 = framed [[6, 2], [101, 7]]"
proof -
  define c where "c = \<lparr>vc_gen = ct_cc608 ex_captioned, vc_codec = CodecAVC, vc_fps = frame_rate ex_captioned, vc_on = True\<rparr>"
  let ?cc = "Some \<lparr>cc_GroupStartNr = 10, cc_SEI = [[6, 2], [6, 2]], cc_Codec = CodecAVC\<rparr>"
  have c: "newVideoCaptioner ex_captioned = Inr c"
    by (simp add: newVideoCaptioner_def ex_captioned_def cc608_New_def gen_Enabled_def CodecFor_def c_def)
  have s: "SEISchedule ex_go608 (ct_cc608 ex_captioned) (sint (5 :: u64)) fps (sint (12 - 10 :: u64)) CodecAVC
      = Some [[6, 2], [6, 2]]" for fps
    by (simp add: SEISchedule_def ex_go608_def ex_captioned_def cc608_New_def gen_Enabled_def DefaultContent_def
        numeral_2_eq_2)
  have cc: "newGroupCCSplice ex_go608 ex_captioned 5 10 12 = Inr ?cc"
    using s [of "frame_rate ex_captioned"]
    by (simp add: newGroupCCSplice_def ex_captioned_def cc608_New_def gen_Enabled_def CodecFor_def)
  have d: "spliced_data ex_go608 ?cc 11 (framed [[101, 7]]) = Inr (framed [[6, 2], [101, 7]])"
    using own_split.splice_framed [of "[[101, 7]]" "\<lambda>b. b = 101" "\<lambda>b. b = 38" "[6, 2]" CodecAVC]
    by (simp add: spliced_data_def ex_go608_def sizes_ok_def sei_inserted_def isVCLNalu_def)
  have "ct_TimeScale ex_captioned \<noteq> 0" by (simp add: ex_captioned_def)
  from caption_paths_agree [OF c this cc d] c show ?thesis by auto
qed

end
