(* ===== verification/Asset_Load.thy ===== *)
theory Asset_Load
  imports Audio_Init Sample_Rewrite Av1_Layers Cc608
begin

text \<open>
  The asset loader of \<^verbatim>\<open>internal/asset.go\<close>: one content track per mp4 file
  (\<open>InitContentTrack\<close>), the scan of a directory (\<open>parseTracks\<close>), the encrypted duplicates
  (\<open>createProtectedTracks\<close>), the switching groups (\<open>generateTrackGroups\<close>) and the whole loader
  (\<open>LoadAssetWithProtection\<close>), which ends in \<open>setLoopDuration\<close>. A decoded file is the record
  \<open>mp4_file\<close> of what the loader reads from mp4ff's \<^verbatim>\<open>File\<close>; a directory entry carries the results
  that opening and decoding it give. The Go map from content type to tracks is a HOL map.
\<close>

record 'i mp4_file =
  mf_IsFragmented :: bool
  mf_nTraks :: nat
  mf_Init :: 'i
  mf_Timescale :: u32
  mf_Language :: string
  mf_SampleDesc :: "string res"
  mf_Fragments :: "full_sample list res list"
  mf_Edts :: "int list list option"

text \<open>The codec libraries the loader dispatches to, and mp4ff's cloning and protection functions.\<close>

record ('i, 'p, 'h, 'd) load_lib =
  ll_avc :: "'i avc_lib"
  ll_hevc :: "'i hevc_lib"
  ll_av1 :: "('i, 'h, 'd) av1_lib"
  ll_audio :: "'i audio_lib"
  ll_IsSync :: "u32 \<Rightarrow> bool"
  ll_EncodeInit :: "'i \<Rightarrow> bytes res"
  ll_DecodeInit :: "bytes \<Rightarrow> 'i option res"
  ll_NewUUID :: "string \<Rightarrow> bytes res"
  ll_InitProtect :: "'i \<Rightarrow> bytes \<Rightarrow> string \<Rightarrow> bytes \<Rightarrow> ('i \<times> 'p) res"

section \<open>One track\<close>

text \<open>\<^verbatim>\<open>path/filepath.Ext\<close> and \<^verbatim>\<open>filepath.Base\<close>, on the reversed path.\<close>

fun ext_rev :: "string \<Rightarrow> string \<Rightarrow> string" where
  "ext_rev acc [] = []"
| "ext_rev acc (c # cs) = (if c = CHR ''/'' then [] else if c = CHR ''.'' then c # acc else ext_rev (c # acc) cs)"

definition path_Ext :: "string \<Rightarrow> string" where
  "path_Ext p = ext_rev [] (rev p)"

definition path_Base :: "string \<Rightarrow> string" where
  "path_Base p = (if p = [] then ''.'' else
     let body = dropWhile (\<lambda>c. c = CHR ''/'') (rev p)
     in if body = [] then ''/'' else rev (takeWhile (\<lambda>c. c \<noteq> CHR ''/'') body))"

definition strip_ext :: "string \<Rightarrow> string" where
  "strip_ext p = take (length p - length (path_Ext p)) p"

fun collect_samples :: "full_sample list res list \<Rightarrow> full_sample list res" where
  "collect_samples [] = Inr []"
| "collect_samples (r # rs) = (case r of
     Inl e \<Rightarrow> Inl (Wrapf ''could not get full samples'' e)
   | Inr fs \<Rightarrow> (case collect_samples rs of Inl e \<Rightarrow> Inl e | Inr gs \<Rightarrow> Inr (fs @ gs)))"

text \<open>The common duration: the first non-zero one; only the last sample may deviate.\<close>

fun sample_dur :: "u32 \<Rightarrow> full_sample list \<Rightarrow> u32 res" where
  "sample_dur d [] = Inr d"
| "sample_dur d (s # ss) = (if d = 0 then sample_dur (fs_Dur s) ss
     else if fs_Dur s \<noteq> d \<and> ss \<noteq> [] then Inl (Errorf ''sample duration is not consistent'')
     else sample_dur d ss)"

text \<open>The edit list of an audio track gives the time by which its samples are shifted.\<close>

definition edit_offset :: "string \<Rightarrow> int list list option \<Rightarrow> u64 res" where
  "edit_offset contentType edts = (if contentType \<noteq> ''audio'' then Inr 0 else (case edts of
     None \<Rightarrow> Inr 0
   | Some [[mediaTime]] \<Rightarrow> Inr (of_int mediaTime)
   | Some [entries] \<Rightarrow> Inl (Errorf ''edts has not exactly than one elst'')
   | Some elsts \<Rightarrow> Inl (Errorf ''edit list has not exactly than one edit'')))"

definition shift_samples :: "u64 \<Rightarrow> full_sample list \<Rightarrow> full_sample list" where
  "shift_samples off ss = (if off > 0
     then map (\<lambda>s. s\<lparr>fs_DecodeTime := fs_DecodeTime s - off\<rparr>) (dropWhile (\<lambda>s. fs_DecodeTime s < off) ss)
     else ss)"

text \<open>The loop over the sync samples; \<open>i\<close> is the index of the head of the list.\<close>

fun gop_scan :: "(u32 \<Rightarrow> bool) \<Rightarrow> nat \<Rightarrow> nat \<Rightarrow> u32 \<Rightarrow> full_sample list \<Rightarrow> u32 res" where
  "gop_scan isSync i lastSync gl [] = Inr gl"
| "gop_scan isSync i lastSync gl (s # ss) =
     (if isSync (fs_Flags s)
      then let gopLen = of_nat (i - lastSync)
        in if gl = 0 then gop_scan isSync (Suc i) i gopLen ss
        else if gl \<noteq> gopLen then Inl (Errorf ''gop length is not consistent'')
        else gop_scan isSync (Suc i) i gl ss
      else gop_scan isSync (Suc i) lastSync gl ss)"

definition gop_length :: "(u32 \<Rightarrow> bool) \<Rightarrow> full_sample list \<Rightarrow> u32 res" where
  "gop_length isSync samples = (case samples of
     [] \<Rightarrow> Inl (Panic ''index out of range'')
   | s # ss \<Rightarrow> if isSync (fs_Flags s) then gop_scan isSync 1 0 0 ss else Inr 0)"

text \<open>The second switch over the sample entry: the codec data and the (rewritten) samples.\<close>

definition init_spec :: "('i, 'p, 'h, 'd) load_lib \<Rightarrow> string \<Rightarrow> 'i \<Rightarrow> full_sample list \<Rightarrow>
    ('i spec_data \<times> full_sample list) res" where
  "init_spec L ty i samples =
     (if ty \<in> {''avc1'', ''avc3''}
      then map_sum id (map_prod AVCData id) (wrap_err ''could not initialize AVC data'' (initAVCData (ll_avc L) i samples))
      else if ty \<in> {''hvc1'', ''hev1''}
      then map_sum id (map_prod HEVCData id) (wrap_err ''could not initialize HEVC data'' (initHEVCData (ll_hevc L) i samples))
      else if ty = ''av01''
      then map_sum id (\<lambda>d. (AV1Data d, samples)) (wrap_err ''could not initialize AV1 data'' (initAV1Data (ll_av1 L) i samples))
      else if ty = ''mp4a''
      then map_sum id (\<lambda>d. (AACData d, samples)) (wrap_err ''could not initialize AAC data'' (initAACData (ll_audio L) i))
      else if ty = ''Opus''
      then map_sum id (\<lambda>d. (OpusData d, samples)) (wrap_err ''could not initialize Opus data'' (initOpusData (ll_audio L) i))
      else if ty = ''ac-3''
      then map_sum id (\<lambda>d. (AC3Data d, samples)) (wrap_err ''could not initialize AC-3 data'' (initAC3Data (ll_audio L) i))
      else if ty = ''ec-3''
      then map_sum id (\<lambda>d. (AC3Data d, samples)) (wrap_err ''could not initialize EC-3 data'' (initEC3Data (ll_audio L) i))
      else Inl (Errorf ''unknown sample description type''))"

definition content_type :: "string \<Rightarrow> string res" where
  "content_type ty = (if ty \<in> {''avc1'', ''avc3'', ''hvc1'', ''hev1'', ''av01''} then Inr ''video''
     else if ty \<in> {''mp4a'', ''Opus'', ''ac-3'', ''ec-3''} then Inr ''audio''
     else Inl (Errorf ''unsupported sample description type''))"

text \<open>Bits per second over the whole track; 0 where the track has no duration (or no time scale).\<close>

definition sample_bitrate :: "u32 \<Rightarrow> u32 \<Rightarrow> full_sample list \<Rightarrow> u32" where
  "sample_bitrate duration timescale samples =
     (let totalBytes = (\<Sum>s \<leftarrow> samples. int (unat (fs_Size s)));
          durationSeconds = f64_div (f64_of_int (int (unat duration))) (f64_of_int (int (unat timescale)))
      in if durationSeconds > 0
         then of_int (f64_trunc (f64_div (f64_of_int (totalBytes * 8)) durationSeconds)) else 0)"

definition svc_check :: "('i, 'p, 'h, 'd) load_lib \<Rightarrow> ('i, 'p, 'u) content_track \<Rightarrow> unit res" where
  "svc_check L ct = (if spatial_layers_of ct = [] then Inr () else validateAV1SVCGOP (ll_IsSync L) ct)"

definition InitContentTrack :: "('i, 'p, 'h, 'd) load_lib \<Rightarrow> 'i mp4_file res \<Rightarrow> string \<Rightarrow> int \<Rightarrow> int \<Rightarrow>
    ('i, 'p, 'u) content_track res" where
  "InitContentTrack L file name audioSampleBatch videoSampleBatch = (case file of
     Inl e \<Rightarrow> Inl (Wrapf ''could not decode file'' e)
   | Inr m \<Rightarrow> if \<not> mf_IsFragmented m then Inl (Errorf ''file is not fragmented'')
     else if mf_nTraks m \<noteq> 1 then Inl (Errorf ''file has not exactly one track'')
     else case mf_SampleDesc m of
       Inl e \<Rightarrow> Inl (Wrapf ''could not get sample description'' e)
     | Inr ty \<Rightarrow> (case content_type ty of
       Inl e \<Rightarrow> Inl e
     | Inr contentType \<Rightarrow> (case collect_samples (mf_Fragments m) of
       Inl e \<Rightarrow> Inl e
     | Inr samples0 \<Rightarrow> (case sample_dur 0 samples0 of
       Inl e \<Rightarrow> Inl e
     | Inr sampleDur \<Rightarrow> (case edit_offset contentType (mf_Edts m) of
       Inl e \<Rightarrow> Inl e
     | Inr timeOffset \<Rightarrow>
       let samples1 = shift_samples timeOffset samples0
       in case gop_length (ll_IsSync L) samples1 of
         Inl e \<Rightarrow> Inl e
       | Inr gopLength \<Rightarrow> (case init_spec L ty (mf_Init m) samples1 of
         Inl e \<Rightarrow> Inl e
       | Inr (sd, samples) \<Rightarrow>
         let duration = of_nat (length samples) * sampleDur;
             ct = zero_content_track\<lparr>ct_Name := strip_ext name, ct_ContentType := contentType,
                    ct_Language := mf_Language m, ct_TimeScale := mf_Timescale m, ct_Duration := duration,
                    ct_GopLength := gopLength, ct_SampleDur := sampleDur,
                    ct_NrSamples := of_nat (length samples),
                    ct_SampleBatch := (if contentType = ''video'' then videoSampleBatch else audioSampleBatch),
                    ct_Samples := samples, ct_SpecData := Some sd\<rparr>
         in case svc_check L ct of
           Inl e \<Rightarrow> Inl e
         | Inr _ \<Rightarrow> Inr (ct\<lparr>ct_SampleBitrate := sample_bitrate duration (mf_Timescale m) samples\<rparr>)))))))"

section \<open>The directory\<close>

record 'i dir_entry =
  de_Name :: string
  de_IsDir :: bool
  de_File :: "'i mp4_file res res"

type_synonym ('i, 'p, 'u) tracks_by_type = "string \<rightharpoonup> ('i, 'p, 'u) content_track list"

definition map_append :: "('k \<rightharpoonup> 'v list) \<Rightarrow> 'k \<Rightarrow> 'v list \<Rightarrow> ('k \<rightharpoonup> 'v list)" where
  "map_append m k vs = m(k \<mapsto> (case m k of None \<Rightarrow> [] | Some xs \<Rightarrow> xs) @ vs)"

fun parse_entries :: "('i, 'p, 'h, 'd) load_lib \<Rightarrow> int \<Rightarrow> int \<Rightarrow> 'i dir_entry list \<Rightarrow>
    ('i, 'p, 'u) tracks_by_type \<Rightarrow> ('i, 'p, 'u) tracks_by_type res" where
  "parse_entries L ab vb [] m = Inr m"
| "parse_entries L ab vb (e # es) m =
     (if de_IsDir e \<or> path_Ext (de_Name e) \<noteq> ''.mp4'' then parse_entries L ab vb es m
      else case de_File e of
        Inl err \<Rightarrow> Inl (Wrapf ''could not open file'' err)
      | Inr file \<Rightarrow> (case InitContentTrack L file (de_Name e) ab vb of
          Inl err \<Rightarrow> Inl (Wrapf ''could not create ContentTrack'' err)
        | Inr ct \<Rightarrow> parse_entries L ab vb es (map_append m (ct_ContentType ct) [ct])))"

definition parseTracks :: "('i, 'p, 'h, 'd) load_lib \<Rightarrow> 'i dir_entry list res \<Rightarrow> int \<Rightarrow> int \<Rightarrow>
    ('i, 'p, 'u) tracks_by_type res" where
  "parseTracks L dir ab vb = (case dir of
     Inl e \<Rightarrow> Inl (Wrapf ''could not read directory'' e)
   | Inr entries \<Rightarrow> parse_entries L ab vb entries Map.empty)"

section \<open>Protection\<close>

definition addProtectionInfoToTrack :: "('i, 'p, 'h, 'd) load_lib \<Rightarrow> drm_info \<Rightarrow> string \<Rightarrow> ProtectionType \<Rightarrow>
    ('i, 'p, 'u) content_track \<Rightarrow> ('i, 'p, 'u) content_track res" where
  "addProtectionInfoToTrack L drm suffix prot ct =
     (case cloneCodecSpecificData (ll_EncodeInit L) (ll_DecodeInit L) (ct_SpecData ct) of
        Inl e \<Rightarrow> Inl e
      | Inr sd \<Rightarrow>
        let iv = ci_iv (di_cenc drm);
            p = ct\<lparr>ct_Name := ct_Name ct @ suffix, ct_Protection := prot, ct_cenc := Some (di_cenc drm),
                   ct_currentIV := (if iv = [] then None else Some iv),
                   ct_contentProtectionRefIDs := map cp_RefID (di_ContentProtections drm)\<rparr>
        in case idx (di_ContentProtections drm) 0 of
          Inl e \<Rightarrow> Inl e
        | Inr cp \<Rightarrow> (case idx (cp_DefaultKIDs cp) 0 of
          Inl e \<Rightarrow> Inl e
        | Inr kidStr \<Rightarrow> (case ll_NewUUID L kidStr of
          Inl e \<Rightarrow> Inl (Wrapf ''unable to parse UUID from string'' e)
        | Inr kid \<Rightarrow> (case ll_InitProtect L (sd_GetInit sd) iv (cp_Scheme cp) kid of
          Inl e \<Rightarrow> Inl (Wrapf ''unable to add protection data to cloned init'' e)
        | Inr (protInit, ipd) \<Rightarrow>
            Inr (p\<lparr>ct_SpecData := Some (sd_set_outInit protInit sd), ct_ipd := Some ipd\<rparr>)))))"

fun protect_types :: "('i, 'p, 'h, 'd) load_lib \<Rightarrow> drm_info \<Rightarrow> string \<Rightarrow> ProtectionType \<Rightarrow> string list \<Rightarrow>
    ('i, 'p, 'u) tracks_by_type \<Rightarrow> ('i, 'p, 'u) tracks_by_type res" where
  "protect_types L drm suffix prot [] m = Inr m"
| "protect_types L drm suffix prot (typ # typs) m = (case m typ of
     None \<Rightarrow> protect_types L drm suffix prot typs m
   | Some orig \<Rightarrow> if orig = [] then protect_types L drm suffix prot typs m
     else case map_res (addProtectionInfoToTrack L drm suffix prot)
                 (filter (\<lambda>ct. ct_Protection ct = ProtectionNone) orig) of
       Inl e \<Rightarrow> Inl e
     | Inr added \<Rightarrow> protect_types L drm suffix prot typs (map_append m typ added))"

definition createProtectedTracks :: "('i, 'p, 'h, 'd) load_lib \<Rightarrow> ('i, 'p, 'u) tracks_by_type \<Rightarrow> drm_info \<Rightarrow>
    string \<Rightarrow> ProtectionType \<Rightarrow> ('i, 'p, 'u) tracks_by_type res" where
  "createProtectedTracks L m drm suffix prot = protect_types L drm suffix prot [''video'', ''audio''] m"

section \<open>Switching groups and the loader\<close>

definition ct_codec :: "('i, 'p, 'u) content_track \<Rightarrow> string" where
  "ct_codec ct = (case ct_SpecData ct of None \<Rightarrow> [] | Some sd \<Rightarrow> sd_Codec sd)"

definition video_less :: "('i, 'p, 'u) content_track \<Rightarrow> ('i, 'p, 'u) content_track \<Rightarrow> bool" where
  "video_less a b = (if ct_codec a \<noteq> ct_codec b then ct_codec a < ct_codec b
                     else ct_SampleBitrate a < ct_SampleBitrate b)"

definition audio_less :: "('i, 'p, 'u) content_track \<Rightarrow> ('i, 'p, 'u) content_track \<Rightarrow> bool" where
  "audio_less a b \<longleftrightarrow> ct_SampleBitrate a < ct_SampleBitrate b"

text \<open>Comparing two tracks calls \<^verbatim>\<open>SpecData.Codec()\<close>, which panics on a nil interface.\<close>

definition video_group :: "u32 \<Rightarrow> ('i, 'p, 'u) content_track list \<Rightarrow> ('i, 'p, 'u) track_group res" where
  "video_group groupID ts =
     (if 1 < length ts \<and> (\<exists>t \<in> set ts. ct_SpecData t = None) then Inl (Panic ''nil pointer dereference'')
      else let sorted_ts = sort_slice video_less ts
        in if (\<exists>t \<in> set sorted_ts. ct_Duration t \<noteq> ct_Duration (hd sorted_ts))
           then Inl (Errorf ''video tracks have different durations'')
           else Inr \<lparr>tg_AltGroupID = groupID, tg_Tracks = sorted_ts\<rparr>)"

definition generateTrackGroups :: "('i, 'p, 'u) tracks_by_type \<Rightarrow> ('i, 'p, 'u) track_group list res" where
  "generateTrackGroups m = (case (case m ''video'' of
       None \<Rightarrow> Inr ([], 1)
     | Some ts \<Rightarrow> (case video_group 1 ts of Inl e \<Rightarrow> Inl e | Inr g \<Rightarrow> Inr ([g], 1 + 1))) of
     Inl e \<Rightarrow> Inl e
   | Inr (groups, groupID) \<Rightarrow> (case m ''audio'' of
       None \<Rightarrow> Inr groups
     | Some ts \<Rightarrow> Inr (groups @ [\<lparr>tg_AltGroupID = groupID, tg_Tracks = sort_slice audio_less ts\<rparr>])))"

definition protect_if :: "('i, 'p, 'h, 'd) load_lib \<Rightarrow> drm_info option \<Rightarrow> string \<Rightarrow> ProtectionType \<Rightarrow> string \<Rightarrow>
    ('i, 'p, 'u) tracks_by_type \<Rightarrow> ('i, 'p, 'u) tracks_by_type res" where
  "protect_if L drm suffix prot msg m = (case drm of
     None \<Rightarrow> Inr m
   | Some d \<Rightarrow> wrap_err msg (createProtectedTracks L m d suffix prot))"

definition LoadAssetWithProtection :: "('i, 'p, 'h, 'd) load_lib \<Rightarrow> string \<Rightarrow> 'i dir_entry list res \<Rightarrow> int \<Rightarrow> int \<Rightarrow>
    drm_info option \<Rightarrow> drm_info option \<Rightarrow> ('i, 'p, 'u) asset res" where
  "LoadAssetWithProtection L dirPath dir ab vb drm eccp =
     (case wrap_err ''failed to parse tracks'' (parseTracks L dir ab vb) of
        Inl e \<Rightarrow> Inl e
      | Inr m0 \<Rightarrow> (case protect_if L drm ''_drm'' ProtectionDRM ''failed to create DRM protected tracks'' m0 of
        Inl e \<Rightarrow> Inl e
      | Inr m1 \<Rightarrow> (case protect_if L eccp ''_eccp'' ProtectionECCP ''failed to create ECCP protected tracks'' m1 of
        Inl e \<Rightarrow> Inl e
      | Inr m2 \<Rightarrow> (case wrap_err ''failed to generate track groups'' (generateTrackGroups m2) of
        Inl e \<Rightarrow> Inl e
      | Inr gs \<Rightarrow> wrap_err ''could not set loop duration''
          (setLoopDuration \<lparr>as_Name = path_Base dirPath, as_Groups = gs, as_LoopDurMS = 0,
             as_SubtitleTracks = [], as_Drm = drm, as_Eccp = eccp\<rparr>)))))"

definition LoadAsset :: "('i, 'p, 'h, 'd) load_lib \<Rightarrow> string \<Rightarrow> 'i dir_entry list res \<Rightarrow> int \<Rightarrow> int \<Rightarrow>
    ('i, 'p, 'u) asset res" where
  "LoadAsset L dirPath dir ab vb = LoadAssetWithProtection L dirPath dir ab vb None None"

section \<open>Captions and subtitles\<close>

definition set_cc608 :: "unit_cue generator option \<Rightarrow> ('i, 'p, unit_cue) content_track \<Rightarrow> ('i, 'p, unit_cue) content_track" where
  "set_cc608 gen ct = (if ct_ContentType ct = ''video'' then ct\<lparr>ct_cc608 := gen\<rparr> else ct)"

definition SetCC608Generator :: "unit_cue generator option \<Rightarrow> ('i, 'p, unit_cue) asset \<Rightarrow> ('i, 'p, unit_cue) asset" where
  "SetCC608Generator gen a =
     a\<lparr>as_Groups := map (\<lambda>g. g\<lparr>tg_Tracks := map (set_cc608 gen) (tg_Tracks g)\<rparr>) (as_Groups a)\<rparr>"

definition SubsTimeTimescale :: u32 where "SubsTimeTimescale = 1000"
definition DefaultCueDurMS :: int where "DefaultCueDurMS = 900"

definition NewSubtitleTrack :: "string \<Rightarrow> SubtitleFormat \<Rightarrow> string \<Rightarrow> subtitle_track res" where
  "NewSubtitleTrack name format lang = Inr \<lparr>st_Name = name, st_Format = format, st_Language = lang,
     st_TimeScale = SubsTimeTimescale, st_CueDurMS = DefaultCueDurMS, st_Region = 0,
     st_SpecData = Some \<lparr>sd_format = format, sd_language = lang\<rparr>\<rparr>"

fun add_subtitles :: "string \<Rightarrow> SubtitleFormat \<Rightarrow> string \<Rightarrow> string list \<Rightarrow> ('i, 'p, 'u) asset \<Rightarrow>
    ('i, 'p, 'u) asset \<times> go_error option" where
  "add_subtitles pre format msg [] a = (a, None)"
| "add_subtitles pre format msg (lang # langs) a = (case NewSubtitleTrack (pre @ lang) format lang of
     Inl e \<Rightarrow> (a, Some (Wrapf msg e))
   | Inr st \<Rightarrow> add_subtitles pre format msg langs (a\<lparr>as_SubtitleTracks := as_SubtitleTracks a @ [st]\<rparr>))"

definition AddSubtitleTracks :: "string list \<Rightarrow> string list \<Rightarrow> ('i, 'p, 'u) asset \<Rightarrow> ('i, 'p, 'u) asset \<times> go_error option" where
  "AddSubtitleTracks wvttLangs stppLangs a =
     (case add_subtitles ''subs_wvtt_'' SubtitleFormatWVTT ''failed to create WVTT subtitle track'' wvttLangs a of
        (a1, Some e) \<Rightarrow> (a1, Some e)
      | (a1, None) \<Rightarrow> add_subtitles ''subs_stpp_'' SubtitleFormatSTPP ''failed to create STPP subtitle track'' stppLangs a1)"

end
