(* ===== verification/Media_Chunks.thy ===== *)
theory Media_Chunks
  imports Cc608 Sample_Clock
begin

text \<open>
  Media objects of the CMAF and LOCMAF packagings (\<^verbatim>\<open>internal/asset.go\<close>,
  \<^verbatim>\<open>internal/moqgroup.go\<close>): the fragment of a range of live samples (\<open>createFragment\<close>), its
  encryption with a chained IV kept on the track (\<open>encryptFragment\<close>), the chunks
  (\<open>GenCMAFChunk\<close>, \<open>GenLocmafChunk\<close>), the objects of a group (\<open>GenMoQGroup\<close>) and their paced
  writing (\<open>WriteMoQGroup\<close>). Boxes, fragments and the LOCMAF coder are mp4ff's and locmaf's: types
  \<open>'f\<close>, \<open>'m\<close>, \<open>'d\<close>, \<open>'s\<close> and the functions of the record \<open>mp4_lib\<close>. Operations that change the
  track return the changed track next to the result, also on errors.
\<close>

datatype ('m, 'd) mp4_box = MoofBox 'm | MdatBox 'd | OtherBox

record ('f, 'm, 'd, 'i, 'p, 's) mp4_lib =
  ml_CreateFragment :: "u32 \<Rightarrow> u32 \<Rightarrow> 'f res"
  ml_AddFullSample :: "'f \<Rightarrow> full_sample \<Rightarrow> 'f"
  ml_finish :: "'f \<Rightarrow> 'f"
  ml_Encode :: "'f \<Rightarrow> bytes res"
  ml_DecodeBox :: "u64 \<Rightarrow> bytes \<Rightarrow> (('m, 'd) mp4_box \<times> bytes) res"
  ml_moofSize :: "'m \<Rightarrow> u64"
  ml_mkFragment :: "'m \<Rightarrow> 'd \<Rightarrow> 'f"
  ml_EncryptFragment :: "'f \<Rightarrow> bytes \<Rightarrow> bytes \<Rightarrow> 'p option \<Rightarrow> ('f \<times> bytes) res"
  ml_NewState :: 's
  ml_EncodeCanonical :: "'f \<Rightarrow> 's \<Rightarrow> 'i \<Rightarrow> 's \<times> bytes res"

definition trackID :: u32 where "trackID = 1"

section \<open>Fragments\<close>

definition live_frame :: "'g go608 \<Rightarrow> ('i, 'p, unit_cue) content_track \<Rightarrow> cc_splice option \<Rightarrow> u64 \<Rightarrow> full_sample res" where
  "live_frame C t cc sampleNr = (case CalcSample t sampleNr of
     Inl e \<Rightarrow> Inl e
   | Inr (startTime, origNr) \<Rightarrow> (case idx (ct_Samples t) (unat origNr) of
       Inl e \<Rightarrow> Inl e
     | Inr orig \<Rightarrow> (case spliced_data C cc sampleNr (fs_Data orig) of
         Inl e \<Rightarrow> Inl e
       | Inr dat \<Rightarrow> Inr \<lparr>fs_Flags = fs_Flags orig, fs_Dur = fs_Dur orig, fs_Size = of_nat (length dat),
                         fs_DecodeTime = startTime, fs_Data = dat\<rparr>)))"

text \<open>\<^verbatim>\<open>for sampleNr := startNr; sampleNr < endNr; sampleNr++\<close>\<close>

function add_frames :: "('f, 'm, 'd, 'i, 'p, 's) mp4_lib \<Rightarrow> 'g go608 \<Rightarrow> ('i, 'p, unit_cue) content_track \<Rightarrow>
    cc_splice option \<Rightarrow> u64 \<Rightarrow> u64 \<Rightarrow> 'f \<Rightarrow> 'f res" where
  "add_frames M C t cc nr endNr f =
     (if nr < endNr then (case live_frame C t cc nr of
          Inl e \<Rightarrow> Inl e
        | Inr fs \<Rightarrow> add_frames M C t cc (nr + 1) endNr (ml_AddFullSample M f fs))
      else Inr f)"
  by auto

termination
  by (relation "measure (\<lambda>(M, C, t, cc, nr, e, f). unat (e - nr))") (auto intro: word_loop_measure)

declare add_frames.simps [simp del]

definition createFragment :: "('f, 'm, 'd, 'i, 'p, 's) mp4_lib \<Rightarrow> 'g go608 \<Rightarrow> ('i, 'p, unit_cue) content_track \<Rightarrow>
    u32 \<Rightarrow> u64 \<Rightarrow> u64 \<Rightarrow> cc_splice option \<Rightarrow> 'f res" where
  "createFragment M C t chunkNr startNr endNr cc = (case ml_CreateFragment M chunkNr trackID of
     Inl e \<Rightarrow> Inl e
   | Inr f \<Rightarrow> (case add_frames M C t cc startNr endNr f of Inl e \<Rightarrow> Inl e | Inr f' \<Rightarrow> Inr (ml_finish M f')))"

section \<open>Encryption\<close>

text \<open>The two boxes of an encoded fragment, used by encryption and decryption.\<close>

definition decode_fragment :: "('f, 'm, 'd, 'i, 'p, 's) mp4_lib \<Rightarrow> bytes \<Rightarrow> 'f res" where
  "decode_fragment M bs = (case ml_DecodeBox M 0 bs of
     Inl e \<Rightarrow> Inl (Wrapf ''unable to decode moof'' e)
   | Inr (MoofBox moof, rest) \<Rightarrow> (case ml_DecodeBox M (ml_moofSize M moof) rest of
       Inl e \<Rightarrow> Inl (Wrapf ''unable to decode mdat'' e)
     | Inr (MdatBox mdat, rest') \<Rightarrow> Inr (ml_mkFragment M moof mdat)
     | Inr (_, rest') \<Rightarrow> Inl (Errorf ''expected mdat box''))
   | Inr (_, rest) \<Rightarrow> Inl (Errorf ''expected moof box''))"

definition encryptFragment :: "('f, 'm, 'd, 'i, 'p, 's) mp4_lib \<Rightarrow> ('i, 'p, unit_cue) content_track \<Rightarrow> bytes \<Rightarrow>
    ('i, 'p, unit_cue) content_track \<times> 'f res" where
  "encryptFragment M t bs = (case decode_fragment M bs of
     Inl e \<Rightarrow> (t, Inl e)
   | Inr frag \<Rightarrow> (case ct_cenc t of
       None \<Rightarrow> (t, Inl (Panic ''nil pointer dereference''))
     | Some ci \<Rightarrow>
       let iv = (case ct_currentIV t of None \<Rightarrow> ci_iv ci | Some v \<Rightarrow> v); t1 = t\<lparr>ct_currentIV := Some iv\<rparr>
       in case ml_EncryptFragment M frag (ci_key ci) iv (ct_ipd t) of
         Inl e \<Rightarrow> (t1, Inl (Wrapf ''unable to encrypt fragment'' e))
       | Inr (enc, nextIV) \<Rightarrow> (t1\<lparr>ct_currentIV := Some nextIV\<rparr>, Inr enc)))"

section \<open>Chunks\<close>

definition GenCMAFChunk :: "('f, 'm, 'd, 'i, 'p, 's) mp4_lib \<Rightarrow> 'g go608 \<Rightarrow> ('i, 'p, unit_cue) content_track \<Rightarrow>
    u32 \<Rightarrow> u64 \<Rightarrow> u64 \<Rightarrow> cc_splice option \<Rightarrow> ('i, 'p, unit_cue) content_track \<times> bytes res" where
  "GenCMAFChunk M C t chunkNr startNr endNr cc = (case createFragment M C t chunkNr startNr endNr cc of
     Inl e \<Rightarrow> (t, Inl (Wrapf ''unable to create fragment'' e))
   | Inr f \<Rightarrow> (case ml_Encode M f of
       Inl e \<Rightarrow> (t, Inl e)
     | Inr bs \<Rightarrow> if ct_contentProtectionRefIDs t = [] then (t, Inr bs)
         else case encryptFragment M t bs of
           (t1, Inl e) \<Rightarrow> (t1, Inl e)
         | (t1, Inr enc) \<Rightarrow> (t1, (case ml_Encode M enc of
             Inl e \<Rightarrow> Inl (Wrapf ''unable to encode encrypted fragment'' e) | Inr bs' \<Rightarrow> Inr bs'))))"

definition GenLocmafChunk :: "('f, 'm, 'd, 'i, 'p, 's) mp4_lib \<Rightarrow> 'g go608 \<Rightarrow> ('i, 'p, unit_cue) content_track \<Rightarrow>
    u32 \<Rightarrow> u64 \<Rightarrow> u64 \<Rightarrow> 's \<Rightarrow> cc_splice option \<Rightarrow> ('i, 'p, unit_cue) content_track \<times> 's \<times> bytes res" where
  "GenLocmafChunk M C t chunkNr startNr endNr lst cc = (case createFragment M C t chunkNr startNr endNr cc of
     Inl e \<Rightarrow> (t, lst, Inl (Wrapf ''unable to create fragment'' e))
   | Inr f \<Rightarrow> (case ml_Encode M f of
       Inl e \<Rightarrow> (t, lst, Inl e)
     | Inr bs \<Rightarrow> (case (if ct_contentProtectionRefIDs t = [] then (t, Inr f) else encryptFragment M t bs) of
         (t1, Inl e) \<Rightarrow> (t1, lst, Inl e)
       | (t1, Inr f') \<Rightarrow> (case ct_SpecData t of
           None \<Rightarrow> (t1, lst, Inl (Panic ''nil pointer dereference''))
         | Some sd \<Rightarrow> (case ml_EncodeCanonical M f' lst (sd_GetInit sd) of
             (lst', Inl e) \<Rightarrow> (t1, lst', Inl (Wrapf ''unable to encode LOCMAF object'' e))
           | (lst', Inr obj) \<Rightarrow> (t1, lst', Inr obj))))))"

section \<open>Groups\<close>

record moq_group =
  mg_id :: u32
  mg_startTime :: u64
  mg_endTime :: u64
  mg_startNr :: u64
  mg_endNr :: u64
  mg_MoQObjects :: "bytes list"

text \<open>One turn of the object loop: at most one object for the samples from i to the end of the batch.\<close>

definition gen_object :: "('f, 'm, 'd, 'i, 'p, 's) mp4_lib \<Rightarrow> 'g go608 \<Rightarrow> cc_splice option \<Rightarrow> u64 \<Rightarrow> string \<Rightarrow>
    u64 \<Rightarrow> u64 \<Rightarrow> ('i, 'p, unit_cue) content_track \<Rightarrow> 's \<Rightarrow> ('i, 'p, unit_cue) content_track \<times> 's \<times> bytes list res" where
  "gen_object M C cc groupNr packaging i endSample t lst =
     (if packaging = ''cmaf'' then (case GenCMAFChunk M C t (ucast groupNr) i endSample cc of
          (t1, Inl e) \<Rightarrow> (t1, lst, Inl (Wrapf ''failed to generate CMAF chunk'' e))
        | (t1, Inr chunk) \<Rightarrow> (t1, lst, Inr [chunk]))
      else if packaging = ''locmaf'' then (case GenLocmafChunk M C t (ucast groupNr) i endSample lst cc of
          (t1, lst1, Inl e) \<Rightarrow> (t1, lst1, Inl (Wrapf ''failed to generate locmaf chunk'' e))
        | (t1, lst1, Inr chunk) \<Rightarrow> (t1, lst1, Inr [chunk]))
      else (t, lst, Inr []))"

definition group_step :: "('f, 'm, 'd, 'i, 'p, 's) mp4_lib \<Rightarrow> 'g go608 \<Rightarrow> cc_splice option \<Rightarrow> u64 \<Rightarrow> string \<Rightarrow>
    u64 \<Rightarrow> u64 \<Rightarrow> ('i, 'p, unit_cue) content_track \<times> 's \<Rightarrow> (('i, 'p, unit_cue) content_track \<times> 's) \<times> bytes list res" where
  "group_step M C cc groupNr packaging i e st =
     (case gen_object M C cc groupNr packaging i e (fst st) (snd st) of (t1, lst1, r) \<Rightarrow> ((t1, lst1), r))"

text \<open>The loop over the batches. A batch size of zero does not end, so the loop has fuel; None is not
  having returned yet.\<close>

fun group_loop :: "nat \<Rightarrow> (u64 \<Rightarrow> u64 \<Rightarrow> 't \<Rightarrow> 't \<times> bytes list res) \<Rightarrow> u64 \<Rightarrow> u64 \<Rightarrow> u64 \<Rightarrow> bytes list \<Rightarrow> 't \<Rightarrow>
    ('t \<times> bytes list res) option" where
  "group_loop 0 gen batch endNr i objs st = None"
| "group_loop (Suc k) gen batch endNr i objs st =
     (if i < endNr then (case gen i (min (i + batch) endNr) st of
          (st1, Inl e) \<Rightarrow> Some (st1, Inl e)
        | (st1, Inr os) \<Rightarrow> group_loop k gen batch endNr (i + batch) (objs @ os) st1)
      else Some (st, Inr objs))"

definition GenMoQGroup :: "nat \<Rightarrow> ('f, 'm, 'd, 'i, 'p, 's) mp4_lib \<Rightarrow> 'g go608 \<Rightarrow> ('i, 'p, unit_cue) content_track \<Rightarrow>
    u64 \<Rightarrow> int \<Rightarrow> u32 \<Rightarrow> string \<Rightarrow> (('i, 'p, unit_cue) content_track \<times> moq_group res) option" where
  "GenMoQGroup fuel M C t groupNr sampleBatch constantDurMS packaging = (case calcMoQGroup t groupNr constantDurMS of
     Inl e \<Rightarrow> Some (t, Inl e)
   | Inr (startNr, endNr) \<Rightarrow> (case newGroupCCSplice C t groupNr startNr endNr of
       Inl e \<Rightarrow> Some (t, Inl e)
     | Inr cc \<Rightarrow>
       (case group_loop fuel (group_step M C cc groupNr packaging)
              (of_int sampleBatch) endNr startNr [] (t, ml_NewState M) of
          None \<Rightarrow> None
        | Some ((t1, lst1), Inl e) \<Rightarrow> Some (t1, Inl e)
        | Some ((t1, lst1), Inr objs) \<Rightarrow>
            Some (t1, Inr \<lparr>mg_id = ucast groupNr, mg_startTime = startNr * ucast (ct_SampleDur t),
              mg_endTime = endNr * ucast (ct_SampleDur t), mg_startNr = startNr, mg_endNr = endNr,
              mg_MoQObjects = objs\<rparr>))))"

section \<open>Writing\<close>

text \<open>What the environment decides for object nr: whether the context is already done, the clock, and
  whether it is done during the wait.\<close>

record write_env =
  we_err :: "nat \<Rightarrow> go_error option"
  we_now :: "nat \<Rightarrow> int"
  we_done :: "nat \<Rightarrow> go_error option"

definition object_due :: "('i, 'p, 'u) content_track \<Rightarrow> u64 \<Rightarrow> nat \<Rightarrow> int" where
  "object_due t startTime nr =
     (let factorMS = f64_div (f64_of_int 1000) (f64_of_int (int (unat (ct_TimeScale t))));
          objTime = startTime + of_nat (nr + 1) * ucast (ct_SampleDur t) * of_int (ct_SampleBatch t)
      in f64_trunc (f64_mul (f64_of_int (uint objTime)) factorMS))"

fun write_loop :: "write_env \<Rightarrow> (nat \<Rightarrow> int) \<Rightarrow> ('w \<Rightarrow> nat \<Rightarrow> bytes \<Rightarrow> 'w \<times> go_error option) \<Rightarrow> nat \<Rightarrow> bytes list \<Rightarrow> 'w \<Rightarrow>
    'w \<times> go_error option" where
  "write_loop env due cb nr [] w = (w, None)"
| "write_loop env due cb nr (ob # obs) w = (case we_err env nr of
     Some e \<Rightarrow> (w, Some e)
   | None \<Rightarrow> (case (if due nr - we_now env nr \<le> 0 then None else we_done env nr) of
       Some e \<Rightarrow> (w, Some e)
     | None \<Rightarrow> (case cb w nr ob of
         (w1, Some e) \<Rightarrow> (w1, Some e)
       | (w1, None) \<Rightarrow> write_loop env due cb (Suc nr) obs w1)))"

definition WriteMoQGroup :: "write_env \<Rightarrow> ('i, 'p, 'u) content_track \<Rightarrow> moq_group \<Rightarrow>
    ('w \<Rightarrow> nat \<Rightarrow> bytes \<Rightarrow> 'w \<times> go_error option) \<Rightarrow> 'w \<Rightarrow> 'w \<times> go_error option" where
  "WriteMoQGroup env t moq cb w = write_loop env (object_due t (mg_startTime moq)) cb 0 (mg_MoQObjects moq) w"

section \<open>Live samples\<close>

text \<open>The live sample with number n, without a width: the looped source sample at its live time.\<close>

definition live_sample :: "('i, 'p, 'u) content_track \<Rightarrow> nat \<Rightarrow> full_sample" where
  "live_sample t n =
     (let S = unat (ct_SampleDur t); L = unat (ct_LoopDur t); orig = ct_Samples t ! (n - cdiv (n * S div L * L) S)
      in orig\<lparr>fs_Size := of_nat (length (fs_Data orig)), fs_DecodeTime := of_nat (n * S)\<rparr>)"

definition loop_ready :: "('i, 'p, 'u) content_track \<Rightarrow> bool" where
  "loop_ready t \<longleftrightarrow> ct_SampleDur t \<noteq> 0 \<and> ct_LoopDur t \<noteq> 0 \<and>
     unat (ct_LoopDur t) \<le> length (ct_Samples t) * unat (ct_SampleDur t)"

lemma live_frame_plain:
  assumes "loop_ready t" and "unat nr * unat (ct_SampleDur t) < 2 ^ 64"
  shows "live_frame C t None nr = Inr (live_sample t (unat nr))"
proof -
  obtain st orig where so: "CalcSample t nr = Inr (st, orig)" "unat st = unat nr * unat (ct_SampleDur t)"
    "unat orig = unat nr - cdiv (unat nr * unat (ct_SampleDur t) div unat (ct_LoopDur t) * unat (ct_LoopDur t))
                                (unat (ct_SampleDur t))"
    using CalcSample_nat [of t nr] assms by (auto simp: loop_ready_def)
  moreover have "unat orig < length (ct_Samples t)"
    using CalcSample_range [of t nr st orig] assms so(1) by (auto simp: loop_ready_def)
  moreover have "st = of_nat (unat nr * unat (ct_SampleDur t))" using so(2) by (metis of_nat_unat ucast_id)
  ultimately show ?thesis by (simp add: live_frame_def idx_def spliced_data_def live_sample_def Let_def)
qed

lemma add_frames_plain:
  "loop_ready t \<Longrightarrow> s \<le> e \<Longrightarrow> unat e * unat (ct_SampleDur t) < 2 ^ 64 \<Longrightarrow>
   add_frames M C t None s e f = Inr (foldl (ml_AddFullSample M) f (map (live_sample t) [unat s..<unat e]))"
proof (induction M C t "None :: cc_splice option" s e f rule: add_frames.induct)
  case (1 M C t nr e f)
  show ?case
  proof (cases "nr < e")
    case True
    then have lt: "unat nr < unat e" by (simp add: word_less_nat_alt)
    have nr1: "unat (nr + 1) = unat nr + 1" using unat_next [OF True] by simp
    have "unat nr * unat (ct_SampleDur t) \<le> unat e * unat (ct_SampleDur t)" using lt by (intro mult_le_mono1) simp
    from le_less_trans [OF this "1.prems"(3)] have fr: "live_frame C t None nr = Inr (live_sample t (unat nr))"
      using "1.prems"(1) by (intro live_frame_plain)
    have "nr + 1 \<le> e" using nr1 lt by (simp add: word_le_nat_alt)
    from "1.hyps" [OF True fr "1.prems"(1) this "1.prems"(3)] show ?thesis
      using True fr nr1 lt by (subst add_frames.simps) (simp add: upt_conv_Cons)
  next
    case False
    with "1.prems"(2) have "unat e \<le> unat nr" by (simp add: word_less_nat_alt)
    with False show ?thesis by (subst add_frames.simps) simp
  qed
qed

section \<open>Batches\<close>

text \<open>The batches of the object loop, without a width.\<close>

function chunk_ranges :: "nat \<Rightarrow> nat \<Rightarrow> nat \<Rightarrow> (nat \<times> nat) list" where
  "chunk_ranges b s e = (if s < e \<and> 0 < b then (s, min (s + b) e) # chunk_ranges b (s + b) e else [])"
  by auto
termination by (relation "measure (\<lambda>(b, s, e). e - s)") auto

declare chunk_ranges.simps [simp del]

lemma chunk_ranges_cover: "0 < b \<Longrightarrow> concat (map (\<lambda>(x, y). [x..<y]) (chunk_ranges b s e)) = [s..<e]"
proof (induction b s e rule: chunk_ranges.induct)
  case (1 b s e)
  show ?case
  proof (cases "s < e")
    case True
    then have "[s..<min (s + b) e] @ [s + b..<e] = [s..<e]"
      using upt_add_eq_append [of s "s + b" "e - (s + b)"] by (cases "s + b \<le> e") (simp_all add: min_def)
    then show ?thesis using 1 True by (simp add: chunk_ranges.simps [of b s e])
  next
    case False
    then show ?thesis by (simp add: chunk_ranges.simps [of b s e])
  qed
qed

text \<open>The loop as a fold over the batches.\<close>

fun run_batches :: "(u64 \<Rightarrow> u64 \<Rightarrow> 't \<Rightarrow> 't \<times> bytes list res) \<Rightarrow> (nat \<times> nat) list \<Rightarrow> bytes list \<Rightarrow> 't \<Rightarrow> 't \<times> bytes list res" where
  "run_batches gen [] objs st = (st, Inr objs)"
| "run_batches gen ((x, y) # rs) objs st = (case gen (of_nat x) (of_nat y) st of
     (st1, Inl e) \<Rightarrow> (st1, Inl e)
   | (st1, Inr os) \<Rightarrow> run_batches gen rs (objs @ os) st1)"

lemma group_loop_batches:
  assumes "0 < b" and "unat e + unat b < 2 ^ 64"
  shows "unat e - unat i < fuel \<Longrightarrow> unat i \<le> unat e + unat b \<Longrightarrow>
    group_loop fuel gen b e i objs st = Some (run_batches gen (chunk_ranges (unat b) (unat i) (unat e)) objs st)"
proof (induction fuel arbitrary: i objs st)
  case (Suc k)
  have b0: "0 < unat b" using assms(1) by (simp add: word_less_nat_alt)
  show ?case
  proof (cases "i < e")
    case True
    then have lt: "unat i < unat e" by (simp add: word_less_nat_alt)
    have ib: "unat (i + b) = unat i + unat b" using lt assms(2) by (intro unat_add_lt) simp
    have m: "min (i + b) e = of_nat (min (unat i + unat b) (unat e))"
      using ib by (auto simp: min_def word_le_nat_alt)
    have IH: "group_loop k gen b e (i + b) objs' st' =
        Some (run_batches gen (chunk_ranges (unat b) (unat i + unat b) (unat e)) objs' st')" for objs' st'
      using Suc.IH [of "i + b" objs' st'] Suc.prems(1) b0 lt ib by simp
    show ?thesis using True lt b0 m IH
      by (simp add: chunk_ranges.simps [of "unat b" "unat i" "unat e"] split: prod.split sum.split)
  next
    case False
    then have "\<not> unat i < unat e" by (simp add: word_less_nat_alt)
    with False show ?thesis by (simp add: chunk_ranges.simps)
  qed
qed simp

section \<open>Properties\<close>

text \<open>A fragment holds exactly the live samples of its range: for each sample number the looped source
  sample, its size and its live decode time, in order; no index is out of range. The caption
  schedule is off here.\<close>

theorem createFragment_live:
  assumes "loop_ready t" and "startNr \<le> endNr" and "unat endNr * unat (ct_SampleDur t) < 2 ^ 64"
  shows "createFragment M C t chunkNr startNr endNr None = (case ml_CreateFragment M chunkNr trackID of
     Inl e \<Rightarrow> Inl e
   | Inr f \<Rightarrow> Inr (ml_finish M (foldl (ml_AddFullSample M) f (map (live_sample t) [unat startNr..<unat endNr]))))"
  by (simp add: createFragment_def add_frames_plain [OF assms] split: sum.split)

text \<open>What one successful turn of an unprotected CMAF group produces.\<close>

lemma gen_object_cmaf:
  assumes "ct_contentProtectionRefIDs t = []" and "gen_object M C cc g ''cmaf'' i e t lst = (t1, lst1, Inr os)"
  shows "t1 = t \<and> lst1 = lst \<and> (\<exists>f ob. createFragment M C t (ucast g) i e cc = Inr f \<and> ml_Encode M f = Inr ob \<and> os = [ob])"
  using assms by (auto simp: gen_object_def GenCMAFChunk_def split: sum.splits)

lemma run_batches_cmaf:
  assumes "ct_contentProtectionRefIDs t = []"
  shows "run_batches (group_step M C cc g ''cmaf'') rs objs (t, lst) = ((t1, lst1), Inr objs') \<Longrightarrow>
    \<exists>new. objs' = objs @ new \<and> t1 = t \<and> list_all2 (\<lambda>(x, y) ob. \<exists>f.
      createFragment M C t (ucast g) (of_nat x) (of_nat y) cc = Inr f \<and> ml_Encode M f = Inr ob) rs new"
proof (induction rs arbitrary: objs lst)
  case (Cons r rs)
  obtain x y where r: "r = (x, y)" by force
  from Cons.prems obtain t2 l2 os where go: "gen_object M C cc g ''cmaf'' (of_nat x) (of_nat y) t lst = (t2, l2, Inr os)"
    and rest: "run_batches (group_step M C cc g ''cmaf'') rs (objs @ os) (t2, l2) = ((t1, lst1), Inr objs')"
    by (auto simp: r group_step_def [of _ _ _ _ _ "of_nat x"] split: prod.splits sum.splits)
  from gen_object_cmaf [OF assms(1) go] obtain f ob where
    f: "createFragment M C t (ucast g) (of_nat x) (of_nat y) cc = Inr f" "ml_Encode M f = Inr ob" "os = [ob]" "t2 = t"
    by auto
  with Cons.IH rest show ?case by (fastforce simp: r)
qed simp








text \<open>Objects are written in order, from object 0 on and without gaps; all of them if neither the
  context ends nor the writer fails.\<close>

theorem WriteMoQGroup_prefix:
  "\<exists>n err. WriteMoQGroup env t moq (\<lambda>w nr ob. (w @ [(nr, ob)], None)) [] = (zip [0..<n] (take n (mg_MoQObjects moq)), err) \<and>
     n \<le> length (mg_MoQObjects moq) \<and> (err = None \<longleftrightarrow> n = length (mg_MoQObjects moq))"
proof -
  have "\<exists>n err. write_loop env due (\<lambda>w nr ob. (w @ [(nr, ob)], None)) k obs w
       = (w @ zip [k..<k + n] (take n obs), err) \<and> n \<le> length obs \<and> (err = None \<longleftrightarrow> n = length obs)" for due k obs w
  proof (induction obs arbitrary: k w)
    case (Cons ob obs)
    let ?stop = "if due k - we_now env k \<le> 0 then None else we_done env k"
    show ?case
    proof (cases "we_err env k = None \<and> ?stop = None")
      case True
      from Cons.IH [of "Suc k" "w @ [(k, ob)]"] obtain n err where
        "write_loop env due (\<lambda>w nr ob. (w @ [(nr, ob)], None)) (Suc k) obs (w @ [(k, ob)])
           = ((w @ [(k, ob)]) @ zip [Suc k..<Suc k + n] (take n obs), err)" "n \<le> length obs" "err = None \<longleftrightarrow> n = length obs"
        by blast
      with True show ?thesis by (intro exI [of _ "Suc n"] exI [of _ err]) (simp add: upt_conv_Cons del: upt_Suc)
    next
      case False
      then consider e where "we_err env k = Some e" | e where "we_err env k = None" "?stop = Some e" by auto
      then show ?thesis by cases (auto intro!: exI [of _ 0] split: if_splits)
    qed
  qed simp
  from this [of "object_due t (mg_startTime moq)" 0 "mg_MoQObjects moq" "[]"] show ?thesis
    by (simp add: WriteMoQGroup_def)
qed

text \<open>C11: A group is complete and does not hang. With a positive batch size GenMoQGroup returns for any
  fuel above the number of samples, and the objects of an unprotected CMAF group are the encodings
  of the fragments of consecutive sample ranges, which together are exactly the group's samples,
  each once and in order.\<close>

theorem GenMoQGroup_complete:
  assumes "calcMoQGroup t g dur = Inr (s, e)" and "newGroupCCSplice C t g s e = Inr cc"
    and "0 < batch" and "unat e + nat batch < 2 ^ 64" and "s \<le> e" and "unat e - unat s < fuel"
    and "ct_contentProtectionRefIDs t = []"
  shows "\<exists>t' r. GenMoQGroup fuel M C t g batch dur ''cmaf'' = Some (t', r) \<and>
    (\<forall>mq. r = Inr mq \<longrightarrow> (\<exists>rs. concat (map (\<lambda>(x, y). [x..<y]) rs) = [unat s..<unat e] \<and>
       list_all2 (\<lambda>(x, y) ob. \<exists>f. createFragment M C t (ucast g) (of_nat x) (of_nat y) cc = Inr f \<and>
         ml_Encode M f = Inr ob) rs (mg_MoQObjects mq)))"
proof -
  let ?b = "of_int batch :: u64"
  have ub: "unat ?b = nat batch"
  proof -
    have "?b = of_nat (nat batch)" using assms(3) by simp
    moreover have "nat batch < 2 ^ 64" using assms(4) by simp
    ultimately show ?thesis by (simp only: unsigned_of_nat take_bit_eq_mod) simp
  qed
  then have b0: "0 < ?b" using assms(3) by (simp add: word_less_nat_alt)
  have fits: "unat e + unat ?b < 2 ^ 64" using assms(4) ub by simp
  have si: "unat s \<le> unat e + unat ?b" using assms(5) by (simp add: word_le_nat_alt)
  let ?gen = "group_step M C cc g ''cmaf''"
  obtain t1 lst1 r where run: "run_batches ?gen (chunk_ranges (unat ?b) (unat s) (unat e)) [] (t, ml_NewState M) = ((t1, lst1), r)"
    by (metis surj_pair)
  have loop: "group_loop fuel ?gen ?b e s [] (t, ml_NewState M) = Some ((t1, lst1), r)"
    using group_loop_batches [OF b0 fits assms(6) si, of ?gen] run by simp
  have cov: "concat (map (\<lambda>(x, y). [x..<y]) (chunk_ranges (unat ?b) (unat s) (unat e))) = [unat s..<unat e]"
    using assms(3) ub by (intro chunk_ranges_cover) simp
  show ?thesis
  proof (cases r)
    case (Inl er)
    then show ?thesis using assms(1,2) loop by (simp add: GenMoQGroup_def)
  next
    case (Inr objs)
    from run_batches_cmaf [OF assms(7), of M C cc g _ "[]"] run Inr
    have "list_all2 (\<lambda>(x, y) ob. \<exists>f. createFragment M C t (ucast g) (of_nat x) (of_nat y) cc = Inr f \<and>
        ml_Encode M f = Inr ob) (chunk_ranges (unat ?b) (unat s) (unat e)) objs"
      by fastforce
    with cov show ?thesis using assms(1,2) loop Inr by (auto simp: GenMoQGroup_def)
  qed
qed

section \<open>Instances\<close>

text \<open>A toy box library (a fragment is the list of its samples, encryption advances the IV's only byte)
  and a track of three one-byte samples, one sample per second.\<close>

definition ex_mp4 :: "(full_sample list, unit, bytes, unit, unit, unit) mp4_lib" where
  "ex_mp4 = \<lparr>ml_CreateFragment = (\<lambda>n i. Inr []), ml_AddFullSample = (\<lambda>f s. f @ [s]), ml_finish = (\<lambda>f. f),
     ml_Encode = (\<lambda>f. Inr (concat (map fs_Data f))),
     ml_DecodeBox = (\<lambda>pos bs. Inr (if pos = 0 then MoofBox () else MdatBox bs, bs)), ml_moofSize = (\<lambda>m. 1),
     ml_mkFragment = (\<lambda>m d. [zero_sample\<lparr>fs_Data := d\<rparr>]),
     ml_EncryptFragment = (\<lambda>f key iv ipd. Inr (f, iv @ [0])),
     ml_NewState = (), ml_EncodeCanonical = (\<lambda>f s i. (s, Inr []))\<rparr>"

definition ex_clear :: "(unit, unit, unit_cue) content_track" where
  "ex_clear = zero_content_track\<lparr>ct_ContentType := ''audio'', ct_TimeScale := 2, ct_SampleDur := 1, ct_LoopDur := 3,
     ct_Samples := map (\<lambda>b. zero_sample\<lparr>fs_Data := [b]\<rparr>) [7, 8, 9]\<rparr>"


theorem createFragment_live_witness:
  "createFragment ex_mp4 ex_go608 ex_clear 0 2 4 None = Inr (map (live_sample ex_clear) [2, 3])"
proof -
  have "loop_ready ex_clear" by (simp add: loop_ready_def ex_clear_def)
  from createFragment_live [OF this, of 2 4 ex_mp4 ex_go608 0] show ?thesis
    by (simp add: ex_clear_def ex_mp4_def upt_rec)
qed

theorem GenMoQGroup_complete_witness:
  "\<exists>t' r. GenMoQGroup 5 ex_mp4 ex_go608 ex_clear 1 1 1000 ''cmaf'' = Some (t', r)"
proof -
  have "calcMoQGroup ex_clear 1 1000 = Inr (2, 4)" by (simp add: calcMoQGroup_def ex_clear_def Let_def)
  moreover have "newGroupCCSplice ex_go608 ex_clear 1 2 4 = Inr None"
    by (simp add: newGroupCCSplice_def ex_clear_def)
  moreover have "ct_contentProtectionRefIDs ex_clear = []" by (simp add: ex_clear_def zero_content_track_def)
  ultimately show ?thesis
    using GenMoQGroup_complete [of ex_clear 1 1000 2 4 ex_go608 None 1 5 ex_mp4] by auto
qed


end
