(* ===== verification/Asset_Props.thy ===== *)
theory Asset_Props
  imports Asset_Load Media_Chunks "HOL-Library.Product_Lexorder"
begin

text \<open>
  What the loader of \<open>Asset_Load\<close> guarantees of the tracks and groups it returns: the fields of one
  content track, the regularity of its sync samples, the protected variants of the clear tracks and
  the structure of the loaded asset.
\<close>

section \<open>One track\<close>












text \<open>The codec initialisers replace sample data only.\<close>

definition same_timing :: "full_sample list \<Rightarrow> full_sample list \<Rightarrow> bool" where
  "same_timing ss ss' \<longleftrightarrow> length ss' = length ss \<and> (\<forall>i < length ss. fs_Flags (ss' ! i) = fs_Flags (ss ! i) \<and>
     fs_Dur (ss' ! i) = fs_Dur (ss ! i) \<and> fs_DecodeTime (ss' ! i) = fs_DecodeTime (ss ! i))"

lemma same_timing_refl [simp]: "same_timing ss ss"
  by (simp add: same_timing_def)

lemma same_timing_close [simp]: "same_timing ss (close_store st ss)"
  by (simp add: same_timing_def close_store_def)

lemma initAVCData_timing: "initAVCData lib i ss = Inr (d, ss') \<Longrightarrow> same_timing ss ss'"
  by (auto simp: initAVCData_def Let_def split: sum.splits if_splits prod.splits)

lemma initHEVCData_timing: "initHEVCData lib i ss = Inr (d, ss') \<Longrightarrow> same_timing ss ss'"
  by (auto simp: initHEVCData_def Let_def split: sum.splits if_splits prod.splits option.splits)

lemma init_spec_timing: "init_spec L ty i ss = Inr (sd, ss') \<Longrightarrow> same_timing ss ss'"
  by (auto simp: init_spec_def wrap_err_def split: if_splits sum.splits
      dest: initAVCData_timing initHEVCData_timing)

lemma InitContentTrack_steps:
  assumes "InitContentTrack L file name ab vb = Inr ct"
  obtains m ty samples0 off samples1 sd where "file = Inr m" and "mf_SampleDesc m = Inr ty"
    and "content_type ty = Inr (ct_ContentType ct)" and "collect_samples (mf_Fragments m) = Inr samples0"
    and "sample_dur 0 samples0 = Inr (ct_SampleDur ct)"
    and "edit_offset (ct_ContentType ct) (mf_Edts m) = Inr off" and "samples1 = shift_samples off samples0"
    and "gop_length (ll_IsSync L) samples1 = Inr (ct_GopLength ct)"
    and "init_spec L ty (mf_Init m) samples1 = Inr (sd, ct_Samples ct)" and "ct_SpecData ct = Some sd"
    and "ct_Name ct = strip_ext name" and "ct_NrSamples ct = of_nat (length (ct_Samples ct))"
    and "ct_Duration ct = of_nat (length (ct_Samples ct)) * ct_SampleDur ct"
    and "ct_Protection ct = ProtectionNone" and "ct_cenc ct = None" and "ct_ipd ct = None"
    and "ct_contentProtectionRefIDs ct = []" and "ct_currentIV ct = None" and "ct_cc608 ct = None"
  using assms
  by (auto simp: InitContentTrack_def Let_def zero_content_track_def split: sum.splits if_splits prod.splits)




section \<open>The tracks of the asset\<close>

text \<open>What holds of every track of a content type while the asset is being built: codec data and samples
  are there, and the protection fields agree with the kind of protection.\<close>

definition protected_by :: "drm_info option \<Rightarrow> ('i, 'p, 'u) content_track \<Rightarrow> bool" where
  "protected_by drm ct \<longleftrightarrow> (\<exists>d. drm = Some d \<and> ct_cenc ct = Some (di_cenc d) \<and> ct_ipd ct \<noteq> None \<and>
     ct_contentProtectionRefIDs ct = map cp_RefID (di_ContentProtections d) \<and> di_ContentProtections d \<noteq> [])"

definition track_ok :: "drm_info option \<Rightarrow> drm_info option \<Rightarrow> string \<Rightarrow> ('i, 'p, 'u) content_track \<Rightarrow> bool" where
  "track_ok drm eccp typ ct \<longleftrightarrow> ct_ContentType ct = typ \<and> ct_SpecData ct \<noteq> None \<and> ct_Samples ct \<noteq> [] \<and>
     ct_Duration ct = of_nat (length (ct_Samples ct)) * ct_SampleDur ct \<and>
     (case ct_Protection ct of
        ProtectionNone \<Rightarrow> ct_cenc ct = None \<and> ct_contentProtectionRefIDs ct = []
      | ProtectionDRM \<Rightarrow> protected_by drm ct
      | ProtectionECCP \<Rightarrow> protected_by eccp ct)"

definition map_ok :: "drm_info option \<Rightarrow> drm_info option \<Rightarrow> ('i, 'p, 'u) tracks_by_type \<Rightarrow> bool" where
  "map_ok drm eccp m \<longleftrightarrow> (\<forall>typ ts. m typ = Some ts \<longrightarrow> ts \<noteq> [] \<and> (\<forall>ct \<in> set ts. track_ok drm eccp typ ct))"

lemma InitContentTrack_ok:
  "InitContentTrack L file name ab vb = Inr ct \<Longrightarrow> track_ok drm eccp (ct_ContentType ct) ct"
proof (erule InitContentTrack_steps)
  fix m :: "'a mp4_file" and ty :: string and samples0 samples1 :: "full_sample list" and off :: u64
    and sd :: "'a spec_data"
  assume "gop_length (ll_IsSync L) samples1 = Inr (ct_GopLength ct)"
    and "init_spec L ty (mf_Init m) samples1 = Inr (sd, ct_Samples ct)"
  then have "ct_Samples ct \<noteq> []"
    by (auto dest!: init_spec_timing simp: same_timing_def gop_length_def split: list.splits)
  moreover assume "ct_SpecData ct = Some sd" "ct_Protection ct = ProtectionNone" "ct_cenc ct = None"
    "ct_contentProtectionRefIDs ct = []" "ct_Duration ct = of_nat (length (ct_Samples ct)) * ct_SampleDur ct"
  ultimately show ?thesis by (simp add: track_ok_def)
qed

lemma map_append_ok:
  "map_ok drm eccp m \<Longrightarrow> vs \<noteq> [] \<or> m typ \<noteq> None \<Longrightarrow> (\<forall>ct \<in> set vs. track_ok drm eccp typ ct) \<Longrightarrow>
   map_ok drm eccp (map_append m typ vs)"
  by (auto simp: map_ok_def map_append_def split: option.splits if_splits)

lemma map_append_track:
  "InitContentTrack L file name ab vb = Inr ct \<Longrightarrow> map_ok drm eccp m \<Longrightarrow>
   map_ok drm eccp (map_append m (ct_ContentType ct) [ct])"
  by (rule map_append_ok) (auto dest: InitContentTrack_ok)

lemma parse_entries_ok:
  "parse_entries L ab vb es m = Inr m' \<Longrightarrow> map_ok drm eccp m \<Longrightarrow> map_ok drm eccp m'"
proof (induction es arbitrary: m)
  case Nil
  then show ?case by simp
next
  case (Cons e es)
  from Cons.prems(1) show ?case
    by (auto split: if_splits sum.splits intro: Cons.IH Cons.prems(2) map_append_track)
qed

lemma addProtection_fields:
  assumes "addProtectionInfoToTrack L d suffix prot ct = Inr p"
  shows "ct_Name p = ct_Name ct @ suffix" "ct_Protection p = prot" "ct_ContentType p = ct_ContentType ct"
    "ct_Samples p = ct_Samples ct" "ct_SpecData p \<noteq> None" "protected_by (Some d) p"
    "ct_Duration p = ct_Duration ct" "ct_SampleDur p = ct_SampleDur ct"
  using assms
  by (auto simp: addProtectionInfoToTrack_def Let_def idx_def protected_by_def split: sum.splits if_splits)

lemma addProtection_ok:
  assumes "addProtectionInfoToTrack L d suffix prot ct = Inr p" and "track_ok drm eccp typ ct"
    and "prot = ProtectionDRM \<and> drm = Some d \<or> prot = ProtectionECCP \<and> eccp = Some d"
  shows "track_ok drm eccp typ p"
  using addProtection_fields [OF assms(1)] assms(2,3) by (auto simp: track_ok_def)

lemma protect_types_ok:
  assumes "protect_types L d suffix prot typs m = Inr m'" and "map_ok drm eccp m"
    and "prot = ProtectionDRM \<and> drm = Some d \<or> prot = ProtectionECCP \<and> eccp = Some d"
  shows "map_ok drm eccp m'"
  using assms
proof (induction typs arbitrary: m)
  case Nil
  then show ?case by simp
next
  case (Cons ty typs)
  show ?case
  proof (cases "m ty")
    case None
    with Cons show ?thesis by simp
  next
    case (Some orig)
    with Cons.prems(2) have "orig \<noteq> []" by (auto simp: map_ok_def)
    with Cons.prems(1) Some obtain added where
      added: "map_res (addProtectionInfoToTrack L d suffix prot) (filter (\<lambda>ct. ct_Protection ct = ProtectionNone) orig) = Inr added"
      and rec: "protect_types L d suffix prot typs (map_append m ty added) = Inr m'"
      by (auto split: sum.splits)
    have "track_ok drm eccp ty p" if "p \<in> set added" for p
      using map_res_mem [OF added that] Cons.prems(2,3) Some addProtection_ok
      by (fastforce simp: map_ok_def)
    with Cons.prems(2) Some have "map_ok drm eccp (map_append m ty added)" by (auto intro: map_append_ok)
    with Cons.IH [OF rec] Cons.prems(3) show ?thesis by blast
  qed
qed

section \<open>Protected variants\<close>

lemma protect_types_step:
  assumes "protect_types L d suffix prot typs m = Inr m'" and "distinct typs"
  shows "(t \<notin> set typs \<longrightarrow> m' t = m t) \<and> (t \<in> set typs \<longrightarrow> (case m t of None \<Rightarrow> m' t = None
    | Some ts \<Rightarrow> \<exists>added. m' t = Some (ts @ added) \<and>
        map_res (addProtectionInfoToTrack L d suffix prot) (filter (\<lambda>ct. ct_Protection ct = ProtectionNone) ts) = Inr added))"
  using assms
proof (induction typs arbitrary: m)
  case Nil
  then show ?case by simp
next
  case (Cons u us)
  then show ?case
    by (force simp: map_append_def split: option.splits if_splits sum.splits)
qed

text \<open>The names of the tracks with a given protection, as a multiset.\<close>

definition names_of :: "ProtectionType \<Rightarrow> ('i, 'p, 'u) content_track list \<Rightarrow> string multiset" where
  "names_of prot ts = mset (map ct_Name (filter (\<lambda>ct. ct_Protection ct = prot) ts))"

lemma names_of_Nil [simp]: "names_of p [] = {#}"
  by (simp add: names_of_def)

lemma names_of_append [simp]: "names_of p (xs @ ys) = names_of p xs + names_of p ys"
  by (simp add: names_of_def)

lemma map_res_map:
  "map_res f xs = Inr ys \<Longrightarrow> (\<And>x y. f x = Inr y \<Longrightarrow> g y = h x) \<Longrightarrow> map g ys = map h xs"
  by (induction xs arbitrary: ys) (auto split: sum.splits)

lemma names_of_added:
  assumes "map_res (addProtectionInfoToTrack L d suffix prot) (filter (\<lambda>ct. ct_Protection ct = ProtectionNone) ts) = Inr added"
  shows "names_of p added = (if p = prot then image_mset (\<lambda>n. n @ suffix) (names_of ProtectionNone ts) else {#})"
proof -
  have n: "map ct_Name added = map (\<lambda>ct. ct_Name ct @ suffix) (filter (\<lambda>ct. ct_Protection ct = ProtectionNone) ts)"
    using assms by (rule map_res_map) (simp add: addProtection_fields)
  have "\<forall>ct \<in> set added. ct_Protection ct = prot" using assms by (auto dest!: map_res_mem addProtection_fields(2))
  then have "filter (\<lambda>ct. ct_Protection ct = p) added = (if p = prot then added else [])"
    by (auto simp: filter_empty_conv intro!: filter_True)
  then show ?thesis unfolding names_of_def by (simp add: n multiset.map_comp comp_def flip: mset_map)
qed

definition tracks_in :: "('i, 'p, 'u) tracks_by_type \<Rightarrow> ('i, 'p, 'u) content_track list" where
  "tracks_in m = (case m ''video'' of None \<Rightarrow> [] | Some ts \<Rightarrow> ts) @ (case m ''audio'' of None \<Rightarrow> [] | Some ts \<Rightarrow> ts)"

lemma createProtected_names:
  assumes "createProtectedTracks L m d suffix prot = Inr m'" and "prot \<noteq> ProtectionNone"
  shows "names_of p (tracks_in m') = names_of p (tracks_in m) +
     (if p = prot then image_mset (\<lambda>n. n @ suffix) (names_of ProtectionNone (tracks_in m)) else {#})"
proof -
  note step = protect_types_step [OF assms(1) [unfolded createProtectedTracks_def], simplified]
  from step [of "''video''"] step [of "''audio''"] show ?thesis
    by (auto simp: tracks_in_def names_of_added split: option.splits)
qed

lemma protect_if_names:
  assumes "protect_if L drm suffix prot msg m = Inr m'" and "prot \<noteq> ProtectionNone"
  shows "names_of p (tracks_in m') = names_of p (tracks_in m) +
     (if p = prot \<and> drm \<noteq> None then image_mset (\<lambda>n. n @ suffix) (names_of ProtectionNone (tracks_in m)) else {#})"
proof (cases drm)
  case None
  with assms(1) show ?thesis by (simp add: protect_if_def)
next
  case (Some d)
  with assms(1) have "createProtectedTracks L m d suffix prot = Inr m'"
    by (simp add: protect_if_def wrap_err_def split: sum.splits)
  from createProtected_names [OF this assms(2), of p] Some show ?thesis by simp
qed

section \<open>Sorting by a rank\<close>

text \<open>The comparison functions of \<open>generateTrackGroups\<close> compare a rank; equal ranks (a track and its
  protected variants) may come in any order.\<close>

locale ranked_order =
  fixes lt :: "'a \<Rightarrow> 'a \<Rightarrow> bool" and rank :: "'a \<Rightarrow> 'k :: linorder"
  assumes lt_rank: "lt a b \<longleftrightarrow> rank a < rank b"
begin

lemma ranks_insert_by: "sorted (map rank xs) \<Longrightarrow> sorted (map rank (insert_by lt x xs))"
proof (induction xs)
  case Nil
  then show ?case by simp
next
  case (Cons y ys)
  have ins: "set (insert_by lt x ys) = insert x (set ys)"
    by (metis mset_insert_by set_mset_add_mset_insert set_mset_mset)
  show ?case using Cons lt_rank [of y x] by (cases "lt y x") (auto simp: ins)
qed

lemma sorted_ranks: "sorted (map rank (sort_slice lt xs))"
  by (induction xs) (auto intro: ranks_insert_by)

end

sublocale ranked_order \<subseteq> keyed_order lt rank
  by unfold_locales (auto simp: lt_rank)

definition video_rank :: "('i, 'p, 'u) content_track \<Rightarrow> string \<times> u32" where
  "video_rank ct = (ct_codec ct, ct_SampleBitrate ct)"

interpretation video_order: ranked_order video_less video_rank
  by unfold_locales (auto simp: video_less_def video_rank_def less_prod_def)

interpretation audio_order: ranked_order audio_less ct_SampleBitrate
  by unfold_locales (simp add: audio_less_def)

section \<open>The loaded asset\<close>

text \<open>\<open>setLoopDuration\<close> sets the loop durations and nothing else of the tracks.\<close>

definition looped :: "('i, 'p, 'u) content_track \<Rightarrow> ('i, 'p, 'u) content_track \<Rightarrow> bool" where
  "looped t t' \<longleftrightarrow> t' = t\<lparr>ct_LoopDur := ct_LoopDur t'\<rparr>"

lemma loop_groups_looped:
  "loop_groups n ms gs = Inr gs' \<Longrightarrow> list_all2 (\<lambda>g g'. tg_AltGroupID g' = tg_AltGroupID g \<and>
     list_all2 looped (tg_Tracks g) (tg_Tracks g')) gs gs'"
proof (induction gs arbitrary: n gs')
  case Nil
  then show ?case by simp
next
  case (Cons g gs)
  then obtain ts gs1 where ts: "map_res (loop_check n ms) (tg_Tracks g) = Inr ts"
    and rec: "loop_groups (Suc n) ms gs = Inr gs1" and gs': "gs' = g\<lparr>tg_Tracks := ts\<rparr> # gs1"
    by (auto split: sum.splits)
  have "list_all2 looped (tg_Tracks g) ts"
    using map_res_Inr [OF ts]
    by (rule list_all2_mono) (auto simp: loop_check_def looped_def split: if_splits)
  with Cons.IH [OF rec] gs' show ?case by simp
qed

lemma looped_map:
  assumes "list_all2 looped ts ts'" and "\<And>t d. f (t\<lparr>ct_LoopDur := d\<rparr>) = f t"
  shows "map f ts' = map f ts"
  using assms(1)
proof (induction rule: list_all2_induct)
  case Nil
  then show ?case by simp
next
  case (Cons t ts t' ts')
  then have "f t' = f t" unfolding looped_def using assms(2) by metis
  with Cons show ?case by simp
qed

lemma looped_list_all:
  assumes "list_all2 looped ts ts'" and "\<And>t d. P (t\<lparr>ct_LoopDur := d\<rparr>) = P t"
  shows "list_all P ts' = list_all P ts"
proof -
  have "list_all id (map P ts') = list_all id (map P ts)" using looped_map [OF assms] by metis
  then show ?thesis by (simp add: list.pred_map)
qed

lemma looped_fields [simp]:
  "track_ok drm eccp typ (t\<lparr>ct_LoopDur := d\<rparr>) = track_ok drm eccp typ t"
  "video_rank (t\<lparr>ct_LoopDur := d\<rparr>) = video_rank t"
  by (simp_all add: track_ok_def protected_by_def video_rank_def ct_codec_def split: ProtectionType.split)

text \<open>A group of a loaded asset, given by its tracks: an empty list is no group.\<close>

definition group_of :: "u32 \<Rightarrow> ('i, 'p, 'u) content_track list \<Rightarrow> ('i, 'p, 'u) track_group list" where
  "group_of n ts = (if ts = [] then [] else [\<lparr>tg_AltGroupID = n, tg_Tracks = ts\<rparr>])"

definition same_duration :: "('i, 'p, 'u) content_track list \<Rightarrow> bool" where
  "same_duration ts \<longleftrightarrow> (\<forall>t \<in> set ts. ct_Duration t = ct_Duration (hd ts))"

lemma generateTrackGroups_result:
  assumes "generateTrackGroups m = Inr gs" and "map_ok drm eccp m"
  obtains vs aus where "gs = group_of 1 vs @ group_of (if vs = [] then 1 else 2) aus"
    and "mset (vs @ aus) = mset (tracks_in m)" and "sorted (map video_rank vs)"
    and "sorted (map ct_SampleBitrate aus)" and "same_duration vs"
    and "list_all (track_ok drm eccp ''video'') vs" and "list_all (track_ok drm eccp ''audio'') aus"
proof
  define vs where "vs = (case m ''video'' of None \<Rightarrow> [] | Some ts \<Rightarrow> sort_slice video_less ts)"
  define aus where "aus = (case m ''audio'' of None \<Rightarrow> [] | Some ts \<Rightarrow> sort_slice audio_less ts)"
  have ne: "ts \<noteq> []" if "m t = Some ts" for t ts using that assms(2) by (auto simp: map_ok_def)
  have ne_sort: "sort_slice lt ts \<noteq> []" if "m t = Some ts" for t ts and lt :: "('a, 'b, 'c) content_track \<Rightarrow> _"
    using ne [OF that] by (metis length_0_conv length_sort_slice)
  show "gs = group_of 1 vs @ group_of (if vs = [] then 1 else 2) aus"
    using assms(1) ne_sort
    by (auto simp: generateTrackGroups_def video_group_def Let_def vs_def aus_def group_of_def
        split: option.splits if_splits)
  show "mset (vs @ aus) = mset (tracks_in m)"
    by (simp add: vs_def aus_def tracks_in_def split: option.split)
  show "same_duration vs"
    using assms(1) by (auto simp: generateTrackGroups_def video_group_def Let_def vs_def same_duration_def
        split: option.splits if_splits)
  show "sorted (map video_rank vs)" "sorted (map ct_SampleBitrate aus)"
    by (simp_all add: vs_def aus_def video_order.sorted_ranks audio_order.sorted_ranks split: option.split)
  show "list_all (track_ok drm eccp ''video'') vs"
    using assms(2) by (cases "m ''video''") (auto simp: vs_def map_ok_def list_all_iff)
  show "list_all (track_ok drm eccp ''audio'') aus"
    using assms(2) by (cases "m ''audio''") (auto simp: aus_def map_ok_def list_all_iff)
qed

lemma protect_if_ok:
  assumes "protect_if L d suffix prot msg m = Inr m'" and "map_ok drm eccp m"
    and "prot = ProtectionDRM \<and> d = drm \<or> prot = ProtectionECCP \<and> d = eccp"
  shows "map_ok drm eccp m'"
  using assms by (auto simp: protect_if_def wrap_err_def createProtectedTracks_def
      simp del: protect_types.simps split: option.splits sum.splits elim!: protect_types_ok)

text \<open>The stages of a successful load.\<close>

lemma LoadAsset_steps:
  assumes "LoadAssetWithProtection L dirPath dir ab vb drm eccp = Inr a"
  obtains es m0 m1 m2 gs where "parse_entries L ab vb es Map.empty = Inr m0"
    and "protect_if L drm ''_drm'' ProtectionDRM ''failed to create DRM protected tracks'' m0 = Inr m1"
    and "protect_if L eccp ''_eccp'' ProtectionECCP ''failed to create ECCP protected tracks'' m1 = Inr m2"
    and "generateTrackGroups m2 = Inr gs" and "gs \<noteq> []"
    and "loop_groups 0 (as_LoopDurMS a) gs = Inr (as_Groups a)"
    and "as_Drm a = drm" and "as_Eccp a = eccp" and "as_SubtitleTracks a = []"
  using assms
  by (auto simp: LoadAssetWithProtection_def parseTracks_def wrap_err_def setLoopDuration_def Let_def
      split: sum.splits list.splits if_splits)

lemma group_of_looped1:
  assumes "list_all2 (\<lambda>g g'. tg_AltGroupID g' = tg_AltGroupID g \<and> list_all2 looped (tg_Tracks g) (tg_Tracks g'))
     (group_of n ts) gs'"
  shows "\<exists>ts'. gs' = group_of n ts' \<and> list_all2 looped ts ts'"
proof (cases "ts = []")
  case True
  with assms show ?thesis by (intro exI [of _ "[]"]) (simp add: group_of_def)
next
  case False
  with assms obtain g' where g': "gs' = [g']" "tg_AltGroupID g' = n" "list_all2 looped ts (tg_Tracks g')"
    by (auto simp: group_of_def list_all2_Cons1)
  moreover have "tg_Tracks g' \<noteq> []" using g'(3) False by auto
  ultimately show ?thesis by (intro exI [of _ "tg_Tracks g'"]) (simp add: group_of_def)
qed

lemma group_of_looped:
  assumes "list_all2 (\<lambda>g g'. tg_AltGroupID g' = tg_AltGroupID g \<and> list_all2 looped (tg_Tracks g) (tg_Tracks g'))
     (group_of n vs @ group_of k aus) gs'"
  obtains vs' aus' where "gs' = group_of n vs' @ group_of k aus'" and "list_all2 looped vs vs'"
    and "list_all2 looped aus aus'"
  using assms by (auto simp: list_all2_append1 dest!: group_of_looped1)

lemma names_of_looped:
  assumes "list_all2 looped ts ts'" shows "names_of p ts' = names_of p ts"
proof -
  have "map (\<lambda>t. (ct_Name t, ct_Protection t)) ts' = map (\<lambda>t. (ct_Name t, ct_Protection t)) ts"
    using assms by (rule looped_map) simp
  moreover have "names_of p xs = mset (map fst (filter (\<lambda>x. snd x = p) (map (\<lambda>t. (ct_Name t, ct_Protection t)) xs)))"
    for xs :: "('a, 'b, 'c) content_track list" by (simp add: names_of_def filter_map comp_def)
  ultimately show ?thesis by metis
qed

lemma names_of_mset: "mset xs = mset ys \<Longrightarrow> names_of p xs = names_of p ys"
  by (metis mset_filter mset_map names_of_def)

lemma all_tracks_group_of: "as_Groups a = group_of n vs @ group_of k aus \<Longrightarrow> all_tracks a = vs @ aus"
  by (auto simp: all_tracks_def group_of_def)

lemma map_ok_tracks_in: "map_ok drm eccp m \<Longrightarrow> ct \<in> set (tracks_in m) \<Longrightarrow> \<exists>ty. track_ok drm eccp ty ct"
  by (cases "m ''video''"; cases "m ''audio''") (auto simp: map_ok_def tracks_in_def)

lemma clear_names: "map_ok None None m \<Longrightarrow> q \<noteq> ProtectionNone \<Longrightarrow> names_of q (tracks_in m) = {#}"
  by (cases q) (auto simp: names_of_def filter_empty_conv track_ok_def protected_by_def dest!: map_ok_tracks_in)

text \<open>The tracks of a loaded asset are those of the directory with their protected variants, sorted and
  with loop durations.\<close>

lemma loaded_tracks:
  assumes "LoadAssetWithProtection L dirPath dir ab vb drm eccp = Inr a"
  obtains m0 m1 m2 vs aus vs' aus' where "map_ok None None m0"
    and "protect_if L drm ''_drm'' ProtectionDRM ''failed to create DRM protected tracks'' m0 = Inr m1"
    and "protect_if L eccp ''_eccp'' ProtectionECCP ''failed to create ECCP protected tracks'' m1 = Inr m2"
    and "mset (vs @ aus) = mset (tracks_in m2)" and "sorted (map video_rank vs)"
    and "sorted (map ct_SampleBitrate aus)" and "same_duration vs" and "vs @ aus \<noteq> []"
    and "list_all (track_ok drm eccp ''video'') vs" and "list_all (track_ok drm eccp ''audio'') aus"
    and "as_Groups a = group_of 1 vs' @ group_of (if vs = [] then 1 else 2) aus'"
    and "list_all2 looped vs vs'" and "list_all2 looped aus aus'"
proof -
  obtain es m0 m1 m2 gs where p: "parse_entries L ab vb es Map.empty = Inr m0"
    and p1: "protect_if L drm ''_drm'' ProtectionDRM ''failed to create DRM protected tracks'' m0 = Inr m1"
    and p2: "protect_if L eccp ''_eccp'' ProtectionECCP ''failed to create ECCP protected tracks'' m1 = Inr m2"
    and g: "generateTrackGroups m2 = Inr gs" "gs \<noteq> []" and l: "loop_groups 0 (as_LoopDurMS a) gs = Inr (as_Groups a)"
    using LoadAsset_steps [OF assms] by metis
  have m0: "map_ok d e m0" for d e using p by (rule parse_entries_ok) (simp add: map_ok_def)
  with protect_if_ok [OF p1] protect_if_ok [OF p2] have "map_ok drm eccp m2" by blast
  from generateTrackGroups_result [OF g(1) this] obtain vs aus where
    gs: "gs = group_of 1 vs @ group_of (if vs = [] then 1 else 2) aus" and r: "mset (vs @ aus) = mset (tracks_in m2)"
    "sorted (map video_rank vs)" "sorted (map ct_SampleBitrate aus)" "same_duration vs"
    "list_all (track_ok drm eccp ''video'') vs" "list_all (track_ok drm eccp ''audio'') aus" .
  have ne: "vs @ aus \<noteq> []" using gs g(2) by (auto simp: group_of_def)
  from loop_groups_looped [OF l] gs obtain vs' aus' where
    "as_Groups a = group_of 1 vs' @ group_of (if vs = [] then 1 else 2) aus'"
    "list_all2 looped vs vs'" "list_all2 looped aus aus'" by (auto elim: group_of_looped)
  with that [OF m0 p1 p2 r(1-4) ne r(5,6)] show ?thesis by blast
qed

lemma loaded_track_ok:
  assumes "LoadAssetWithProtection L dirPath dir ab vb drm eccp = Inr a" and "t \<in> set (all_tracks a)"
  shows "\<exists>ty. track_ok drm eccp ty t"
proof -
  obtain vs aus vs' aus' n where ok: "list_all (track_ok drm eccp ''video'') vs" "list_all (track_ok drm eccp ''audio'') aus"
    and gs: "as_Groups a = group_of 1 vs' @ group_of n aus'" and l: "list_all2 looped vs vs'" "list_all2 looped aus aus'"
    by (rule loaded_tracks [OF assms(1)]) (rule that; assumption)
  have "list_all (track_ok drm eccp ''video'') vs'" "list_all (track_ok drm eccp ''audio'') aus'"
    using ok by (simp_all add: looped_list_all [OF l(1)] looped_list_all [OF l(2)])
  with all_tracks_group_of [OF gs] assms(2) show ?thesis by (auto simp: list_all_iff)
qed

section \<open>Properties\<close>


text \<open>C15: The structure of a loaded asset. Its groups are a video group followed by an audio group (at
  least one of them), numbered from 1; video tracks are ordered by codec and bitrate and have equal
  durations, audio tracks are ordered by bitrate; and in every track codec data and samples are set
  and the encryption data are present exactly as its kind of protection says.\<close>

theorem LoadAsset_structure:
  assumes "LoadAssetWithProtection L dirPath dir ab vb drm eccp = Inr a"
  shows "\<exists>vs aus. as_Groups a = group_of 1 vs @ group_of (if vs = [] then 1 else 2) aus \<and> vs @ aus \<noteq> [] \<and>
    sorted (map video_rank vs) \<and> sorted (map ct_SampleBitrate aus) \<and> same_duration vs \<and>
    list_all (track_ok drm eccp ''video'') vs \<and> list_all (track_ok drm eccp ''audio'') aus"
proof -
  obtain vs aus vs' aus' where srt: "sorted (map video_rank vs)" "sorted (map ct_SampleBitrate aus)" "same_duration vs"
    and ne: "vs @ aus \<noteq> []"
    and ok: "list_all (track_ok drm eccp ''video'') vs" "list_all (track_ok drm eccp ''audio'') aus"
    and gs': "as_Groups a = group_of 1 vs' @ group_of (if vs = [] then 1 else 2) aus'"
    and lv: "list_all2 looped vs vs'" and la: "list_all2 looped aus aus'"
    by (rule loaded_tracks [OF assms]) (rule that; assumption)
  have e: "vs' = [] \<longleftrightarrow> vs = []" "vs' @ aus' \<noteq> []"
    using lv la ne by auto
  have keys: "map video_rank vs' = map video_rank vs" "map ct_SampleBitrate aus' = map ct_SampleBitrate aus"
    and dur: "map ct_Duration vs' = map ct_Duration vs"
    using lv la by (simp_all add: looped_map)
  have "same_duration vs'"
    using srt(3) dur e(1) unfolding same_duration_def
    by (metis (no_types, lifting) hd_map image_iff list.set_map)
  moreover have "list_all (track_ok drm eccp ''video'') vs'" "list_all (track_ok drm eccp ''audio'') aus'"
    using ok by (simp_all add: looped_list_all [OF lv] looped_list_all [OF la])
  ultimately show ?thesis
    using gs' e srt keys by (intro exI [of _ vs'] exI [of _ aus'] conjI) simp_all
qed

text \<open>Every clear track has exactly one variant per configured protection and there are no others:
  in a loaded asset the names of the DRM (ECCP) tracks are the names of the clear tracks with the
  suffix \<open>_drm\<close> (\<open>_eccp\<close>), each as often as it occurs; without a configuration there are none. In
  particular the second round never protects what the first round added.\<close>

theorem LoadAsset_variants:
  assumes "LoadAssetWithProtection L dirPath dir ab vb drm eccp = Inr a"
  shows "names_of ProtectionDRM (all_tracks a) = (if drm = None then {#} else
           image_mset (\<lambda>n. n @ ''_drm'') (names_of ProtectionNone (all_tracks a))) \<and>
         names_of ProtectionECCP (all_tracks a) = (if eccp = None then {#} else
           image_mset (\<lambda>n. n @ ''_eccp'') (names_of ProtectionNone (all_tracks a)))"
proof -
  obtain m0 m1 m2 vs aus vs' aus' n where m0: "map_ok None None m0"
    and p1: "protect_if L drm ''_drm'' ProtectionDRM ''failed to create DRM protected tracks'' m0 = Inr m1"
    and p2: "protect_if L eccp ''_eccp'' ProtectionECCP ''failed to create ECCP protected tracks'' m1 = Inr m2"
    and ms: "mset (vs @ aus) = mset (tracks_in m2)" and gs': "as_Groups a = group_of 1 vs' @ group_of n aus'"
    and lv: "list_all2 looped vs vs'" and la: "list_all2 looped aus aus'"
    by (rule loaded_tracks [OF assms]) (rule that; assumption)
  have all: "names_of q (all_tracks a) = names_of q (tracks_in m2)" for q
    using all_tracks_group_of [OF gs'] names_of_looped [OF lv] names_of_looped [OF la] names_of_mset [OF ms] by simp
  show ?thesis using protect_if_names [OF p1] protect_if_names [OF p2] clear_names [OF m0] by (simp add: all)
qed

text \<open>A DRM or ECCP track of a loaded asset is never published in the clear: every chunk that
  GenCMAFChunk produces for it is the encoding of a fragment that mp4ff encrypted with the configured
  content key.\<close>

theorem protected_never_clear:
  assumes "LoadAssetWithProtection L dirPath dir ab vb drm eccp = Inr a" and "t \<in> set (all_tracks a)"
    and "ct_Protection t \<noteq> ProtectionNone" and "GenCMAFChunk M C t chunkNr startNr endNr cc = (t', Inr bs)"
  shows "\<exists>d frag iv enc nextIV. d \<in> set_option drm \<union> set_option eccp \<and>
    ml_EncryptFragment M frag (ci_key (di_cenc d)) iv (ct_ipd t) = Inr (enc, nextIV) \<and> ml_Encode M enc = Inr bs"
proof -
  obtain ty where "track_ok drm eccp ty t" using loaded_track_ok [OF assms(1,2)] by blast
  with assms(3) have "protected_by drm t \<or> protected_by eccp t"
    by (cases "ct_Protection t") (auto simp: track_ok_def)
  then obtain d where d: "d \<in> set_option drm \<union> set_option eccp" "ct_cenc t = Some (di_cenc d)"
    "ct_contentProtectionRefIDs t \<noteq> []" unfolding protected_by_def by force
  from assms(4) d(2,3) have "\<exists>frag iv enc nextIV.
    ml_EncryptFragment M frag (ci_key (di_cenc d)) iv (ct_ipd t) = Inr (enc, nextIV) \<and> ml_Encode M enc = Inr bs"
    by (auto simp: GenCMAFChunk_def encryptFragment_def Let_def split: sum.splits prod.splits option.splits)
  with d(1) show ?thesis by blast
qed

text \<open>An audio file whose edit list starts with an empty edit (media time -1) crashes the loader: the
  media time is converted to an unsigned offset beyond every decode time, so all samples are dropped
  and the access to the first one panics, whatever the samples are.\<close>

theorem empty_edit_panics:
  assumes "mf_IsFragmented m" and "mf_nTraks m = 1" and "mf_SampleDesc m = Inr ty" and "content_type ty = Inr ''audio''"
    and "collect_samples (mf_Fragments m) = Inr ss" and "sample_dur 0 ss = Inr d" and "mf_Edts m = Some [[-1]]"
    and "\<forall>s \<in> set ss. fs_DecodeTime s < -1"
  shows "InitContentTrack L (Inr m) name ab vb = Inl (Panic ''index out of range'')"
proof -
  have "(0 :: u64) < -1" by (simp add: word_gt_0)
  then have "shift_samples (-1) ss = []" using assms(8) by (simp add: shift_samples_def dropWhile_eq_Nil_conv)
  then show ?thesis using assms by (simp add: InitContentTrack_def edit_offset_def gop_length_def Let_def)
qed

section \<open>Instances\<close>

text \<open>A directory with an AVC video file of two 1 s GOPs, an Opus file and a text file, and a library that
  builds init segments of type \<open>unit\<close>.\<close>

definition ex_load :: "(unit, unit, unit, unit) load_lib" where
  "ex_load = \<lparr>ll_avc = \<lparr>al_entry = (\<lambda>i. (''avc1'', [[103]], [[104]])), al_timescale = (\<lambda>i. 1000),
       al_split = (\<lambda>b. Inr []), al_kind = (\<lambda>b. Keep), al_mkInit = (\<lambda>t s p. Inr ()),
       al_parseSPS = (\<lambda>b. Inr (''avc1.64001e'', 640, 360))\<rparr>,
     ll_hevc = \<lparr>hl_hvcC = (\<lambda>i. None), hl_timescale = (\<lambda>i. 1000), hl_kind = (\<lambda>b. Keep),
       hl_mkInit = (\<lambda>t v s p. Inr ()), hl_parseSPS = (\<lambda>b. Inr (''hvc1'', 640, 360))\<rparr>,
     ll_av1 = ex_av1,
     ll_audio = \<lparr>au_mp4a = (\<lambda>i. None), au_decodeASC = (\<lambda>b. Inr (2, 2)),
       au_opus = (\<lambda>i. Some (Some \<lparr>dops_Version = 0, dops_OutputChannelCount = 2, dops_PreSkip = 312,
          dops_InputSampleRate = 48000, dops_OutputGain = 0, dops_ChannelMappingFamily = 0\<rparr>)),
       au_ac3 = (\<lambda>i. None), au_ec3 = (\<lambda>i. None), au_mdhdLanguage = (\<lambda>i. ''eng''), au_elng = (\<lambda>i. None),
       au_timescale = (\<lambda>i. 1000), au_mkInit = (\<lambda>t l n c r b. ())\<rparr>,
     ll_IsSync = (\<lambda>f. f = 0), ll_EncodeInit = (\<lambda>i. Inr []), ll_DecodeInit = (\<lambda>b. Inr (Some ())),
     ll_NewUUID = (\<lambda>s. Inr []), ll_InitProtect = (\<lambda>i iv sch kid. Inr ((), ()))\<rparr>"

definition ex_sample :: "u32 \<Rightarrow> u32 \<Rightarrow> u64 \<Rightarrow> full_sample" where
  "ex_sample flags dur time = \<lparr>fs_Flags = flags, fs_Dur = dur, fs_Size = 100, fs_DecodeTime = time, fs_Data = []\<rparr>"

definition ex_mp4_file :: "string \<Rightarrow> int list list option \<Rightarrow> unit mp4_file" where
  "ex_mp4_file ty edts = \<lparr>mf_IsFragmented = True, mf_nTraks = 1, mf_Init = (), mf_Timescale = 1000, mf_Language = ''eng'',
     mf_SampleDesc = Inr ty, mf_Fragments = [Inr [ex_sample 0 500 0, ex_sample 1 500 500],
       Inr [ex_sample 0 500 1000, ex_sample 1 500 1500]], mf_Edts = edts\<rparr>"

definition ex_dir :: "unit dir_entry list" where
  "ex_dir = [\<lparr>de_Name = ''README.txt'', de_IsDir = False, de_File = Inl (Errorf ''not opened'')\<rparr>,
     \<lparr>de_Name = ''audio.mp4'', de_IsDir = False, de_File = Inr (Inr (ex_mp4_file ''Opus'' None))\<rparr>,
     \<lparr>de_Name = ''video.mp4'', de_IsDir = False, de_File = Inr (Inr (ex_mp4_file ''avc1'' None))\<rparr>]"

definition ex_drm :: drm_info where
  "ex_drm = \<lparr>di_ContentProtections = [\<lparr>cp_RefID = ''1'', cp_DefaultKIDs = [''kid''], cp_Scheme = ''cenc'', cp_DRMSystem = None\<rparr>],
     di_cenc = \<lparr>ci_key = [1, 2, 3], ci_iv = [7]\<rparr>\<rparr>"

definition ex_asset :: "(unit, unit, unit_cue) asset res" where
  "ex_asset = LoadAssetWithProtection ex_load ''content/test'' (Inr ex_dir) 2 1 (Some ex_drm) None"


lemmas load_defs = InitContentTrack_def init_spec_def content_type_def edit_offset_def shift_samples_def
  gop_length_def initAVCData_def open_store_def close_store_def initOpusData_def wrap_err_def svc_check_def
  spatial_layers_of_def path_Ext_def strip_ext_def Let_def

lemmas ex_load_defs = ex_load_def ex_mp4_file_def ex_sample_def ex_dir_def ex_drm_def zero_content_track_def



lemmas ex_asset_defs = ex_asset_def LoadAssetWithProtection_def parseTracks_def map_append_def protect_if_def
  createProtectedTracks_def addProtectionInfoToTrack_def cloneCodecSpecificData_def sd_Clone_def
  cloneInitSegment_def idx_def generateTrackGroups_def video_group_def video_less_def audio_less_def
  ct_codec_def setLoopDuration_def loop_check_def all_tracks_def load_defs ex_load_defs

lemma ex_asset_loads:
  "case ex_asset of Inl e \<Rightarrow> False | Inr a \<Rightarrow> map ct_Name (all_tracks a) = [''video'', ''video_drm'', ''audio'', ''audio_drm'']"
  by (simp add: ex_asset_defs upt_rec)

lemma ex_asset_protected:
  "case ex_asset of Inl e \<Rightarrow> False | Inr a \<Rightarrow> ct_Protection (all_tracks a ! 1) = ProtectionDRM \<and> 1 < length (all_tracks a) \<and>
     \<not> isl (snd (GenCMAFChunk ex_mp4 ex_go608 (all_tracks a ! 1) 0 0 1 None))"
  by (simp add: ex_asset_defs upt_rec GenCMAFChunk_def createFragment_def add_frames.simps live_frame_def
      CalcSample_def spliced_data_def encryptFragment_def decode_fragment_def ex_mp4_def zero_sample_def)

theorem protected_never_clear_witness:
  "\<exists>a frag iv enc nextIV bs. ex_asset = Inr a \<and>
     ml_EncryptFragment ex_mp4 frag (ci_key (di_cenc ex_drm)) iv (ct_ipd (all_tracks a ! 1)) = Inr (enc, nextIV) \<and>
     ml_Encode ex_mp4 enc = Inr bs"
proof -
  obtain a where a: "ex_asset = Inr a" "ct_Protection (all_tracks a ! 1) \<noteq> ProtectionNone"
      "1 < length (all_tracks a)" "\<not> isl (snd (GenCMAFChunk ex_mp4 ex_go608 (all_tracks a ! 1) 0 0 1 None))"
    using ex_asset_protected by (auto split: sum.splits)
  then obtain t' bs where g: "GenCMAFChunk ex_mp4 ex_go608 (all_tracks a ! 1) 0 0 1 None = (t', Inr bs)"
    by (metis prod.collapse sum.collapse(2))
  from protected_never_clear [OF a(1) [unfolded ex_asset_def] nth_mem [OF a(3)] a(2) g] a(1) show ?thesis by fastforce
qed

theorem LoadAsset_structure_witness:
  "\<exists>a vs aus. ex_asset = Inr a \<and> as_Groups a = group_of 1 vs @ group_of (if vs = [] then 1 else 2) aus \<and> same_duration vs"
proof -
  obtain a where a: "ex_asset = Inr a" using ex_asset_loads by (auto split: sum.splits)
  from LoadAsset_structure [OF a [unfolded ex_asset_def]] a show ?thesis by blast
qed

theorem LoadAsset_variants_witness:
  "\<exists>a. ex_asset = Inr a \<and> names_of ProtectionECCP (all_tracks a) = {#} \<and>
     names_of ProtectionDRM (all_tracks a) = image_mset (\<lambda>n. n @ ''_drm'') (names_of ProtectionNone (all_tracks a))"
proof -
  obtain a where a: "ex_asset = Inr a" using ex_asset_loads by (auto split: sum.splits)
  from LoadAsset_variants [OF a [unfolded ex_asset_def]] a show ?thesis by (intro exI [of _ a] conjI) simp_all
qed

theorem empty_edit_panics_witness:
  "InitContentTrack ex_load (Inr (ex_mp4_file ''Opus'' (Some [[-1]]))) ''audio.mp4'' 2 1
     = (Inl (Panic ''index out of range'') :: (unit, unit, unit_cue) content_track res)"
  by (rule empty_edit_panics [where ty = "''Opus''" and d = 500 and ss = "[ex_sample 0 500 0, ex_sample 1 500 500,
      ex_sample 0 500 1000, ex_sample 1 500 1500]"])
    (simp_all add: ex_mp4_file_def ex_sample_def content_type_def word_gt_0)

end
