(* ===== verification/Go_Base64.thy ===== *)
theory Go_Base64
  imports Mlm_Prelude
begin

text \<open>
  \<^verbatim>\<open>encoding/base64\<close>'s \<^verbatim>\<open>StdEncoding\<close>, which carries init segments in the catalog: the
  publisher encodes, the subscriber decodes. Decoding skips line breaks and wants complete groups of
  four characters with padding only at the end.
\<close>

definition b64_alphabet :: string where
  "b64_alphabet = ''ABCDEFGHIJKLMNOPQRSTUVWXYZabcdefghijklmnopqrstuvwxyz0123456789+/''"

definition b64_char :: "nat \<Rightarrow> char" where
  "b64_char n = b64_alphabet ! n"

fun index_of :: "'a \<Rightarrow> 'a list \<Rightarrow> nat option" where
  "index_of x [] = None"
| "index_of x (y # ys) = (if x = y then Some 0 else map_option Suc (index_of x ys))"

definition b64_value :: "char \<Rightarrow> nat option" where
  "b64_value c = index_of c b64_alphabet"

definition b64_quad :: "nat \<Rightarrow> string" where
  "b64_quad n = [b64_char (n div 262144), b64_char (n div 4096 mod 64), b64_char (n div 64 mod 64), b64_char (n mod 64)]"

definition b64_join :: "u8 \<Rightarrow> u8 \<Rightarrow> u8 \<Rightarrow> nat" where
  "b64_join a b c = unat a * 65536 + unat b * 256 + unat c"

fun base64_encode :: "bytes \<Rightarrow> string" where
  "base64_encode [] = []"
| "base64_encode [a] = take 2 (b64_quad (b64_join a 0 0)) @ ''==''"
| "base64_encode [a, b] = take 3 (b64_quad (b64_join a b 0)) @ ''=''"
| "base64_encode (a # b # c # bs) = b64_quad (b64_join a b c) @ base64_encode bs"

text \<open>Three bytes from four sextets, of which the last ones may be missing.\<close>

definition b64_bytes :: "nat \<Rightarrow> nat \<Rightarrow> nat \<Rightarrow> nat \<Rightarrow> bytes" where
  "b64_bytes w x y z = (let n = w * 262144 + x * 4096 + y * 64 + z
     in [of_nat (n div 65536), of_nat (n div 256 mod 256), of_nat (n mod 256)])"

fun b64_decode_quads :: "string \<Rightarrow> bytes res" where
  "b64_decode_quads [] = Inr []"
| "b64_decode_quads (p # q # r # s # cs) =
     (case (b64_value p, b64_value q, b64_value r, b64_value s) of
        (Some w, Some x, Some y, Some z) \<Rightarrow>
          (case b64_decode_quads cs of Inl e \<Rightarrow> Inl e | Inr bs \<Rightarrow> Inr (b64_bytes w x y z @ bs))
      | (Some w, Some x, Some y, None) \<Rightarrow>
          if s = CHR ''='' \<and> cs = [] then Inr (take 2 (b64_bytes w x y 0)) else Inl (Errorf ''illegal base64 data'')
      | (Some w, Some x, None, _) \<Rightarrow>
          if r = CHR ''='' \<and> s = CHR ''='' \<and> cs = [] then Inr (take 1 (b64_bytes w x 0 0))
          else Inl (Errorf ''illegal base64 data'')
      | _ \<Rightarrow> Inl (Errorf ''illegal base64 data''))"
| "b64_decode_quads _ = Inl (Errorf ''illegal base64 data'')"

definition base64_decode :: "string \<Rightarrow> bytes res" where
  "base64_decode s = b64_decode_quads (filter (\<lambda>c. c \<noteq> CHR 0x0A \<and> c \<noteq> CHR 0x0D) s)"

section \<open>Round trip\<close>

lemma index_of_nth: "distinct xs \<Longrightarrow> n < length xs \<Longrightarrow> index_of (xs ! n) xs = Some n"
proof (induction xs arbitrary: n)
  case Nil
  then show ?case by simp
next
  case (Cons y ys)
  then show ?case by (cases n) auto
qed

lemma b64_value_char [simp]: "n < 64 \<Longrightarrow> b64_value (b64_char n) = Some n"
proof -
  have "distinct b64_alphabet" "length b64_alphabet = 64" by (simp_all add: b64_alphabet_def)
  then show "n < 64 \<Longrightarrow> b64_value (b64_char n) = Some n" by (simp add: b64_value_def b64_char_def index_of_nth)
qed

lemma b64_value_pad [simp]: "b64_value (CHR ''='') = None"
  by (simp add: b64_value_def b64_alphabet_def)

lemma u8_bound [simp]: "unat (a :: u8) < 256"
  using unsigned_less [of a, where ?'a = nat] by simp

lemma b64_join_parts:
  fixes a b c :: u8
  shows "b64_join a b c div 65536 = unat a" "b64_join a b c div 256 mod 256 = unat b"
    "b64_join a b c mod 256 = unat c" "b64_join a b c div 262144 < 64"
proof -
  have eq: "b64_join a b c = unat c + 256 * (unat b + 256 * unat a)" by (simp add: b64_join_def)
  have d: "b64_join a b c div 256 = unat b + 256 * unat a" unfolding eq by (subst div_mult_self2) simp_all
  show "b64_join a b c mod 256 = unat c" unfolding eq by (subst mod_mult_self2) simp
  show "b64_join a b c div 256 mod 256 = unat b" unfolding d by (subst mod_mult_self2) simp
  have "b64_join a b c div (256 * 256) = unat a" unfolding div_mult2_eq d by (subst div_mult_self2) simp_all
  then show q: "b64_join a b c div 65536 = unat a" by simp
  have "b64_join a b c div (65536 * 4) = unat a div 4" unfolding div_mult2_eq q by simp
  moreover have "unat a div 4 < 64" using u8_bound [of a] by linarith
  ultimately show "b64_join a b c div 262144 < 64" by simp
qed

lemma radix64: "x * 64 + c = y \<Longrightarrow> y * 64 + b = z \<Longrightarrow> z * 64 + a = n \<Longrightarrow> x * 262144 + c * 4096 + b * 64 + a = (n :: nat)"
  by simp

lemma b64_digits: "n div 262144 * 262144 + n div 4096 mod 64 * 4096 + n div 64 mod 64 * 64 + n mod 64 = (n :: nat)"
proof (rule radix64)
  show "n div 262144 * 64 + n div 4096 mod 64 = n div 4096"
    using div_mult_mod_eq [of "n div 4096" 64] by (simp flip: div_mult2_eq)
  show "n div 4096 * 64 + n div 64 mod 64 = n div 64"
    using div_mult_mod_eq [of "n div 64" 64] by (simp flip: div_mult2_eq)
  show "n div 64 * 64 + n mod 64 = n" by (rule div_mult_mod_eq)
qed

lemma b64_bytes_join [simp]:
  "b64_bytes (b64_join a b c div 262144) (b64_join a b c div 4096 mod 64) (b64_join a b c div 64 mod 64)
     (b64_join a b c mod 64) = [a, b, c]"
  unfolding b64_bytes_def b64_digits Let_def by (simp add: b64_join_parts of_nat_unat ucast_id)

lemma b64_join_low: "b64_join a 0 0 div 64 mod 64 = 0" "b64_join a 0 0 mod 64 = 0" "b64_join a b 0 mod 64 = 0"
  unfolding b64_join_def by simp_all

lemma b64_newline [simp]: "n < 64 \<Longrightarrow> b64_char n \<noteq> CHR 0x0A" "n < 64 \<Longrightarrow> b64_char n \<noteq> CHR 0x0D"
proof -
  have "set b64_alphabet \<inter> {CHR 0x0A, CHR 0x0D} = {}" and "length b64_alphabet = 64" by (simp_all add: b64_alphabet_def)
  then show "n < 64 \<Longrightarrow> b64_char n \<noteq> CHR 0x0A" "n < 64 \<Longrightarrow> b64_char n \<noteq> CHR 0x0D"
    unfolding b64_char_def by (metis Int_iff insertI1 insertI2 emptyE nth_mem)+
qed

lemma encode_no_newline: "filter (\<lambda>c. c \<noteq> CHR 0x0A \<and> c \<noteq> CHR 0x0D) (base64_encode bs) = base64_encode bs"
  by (induction bs rule: base64_encode.induct) (simp_all add: b64_quad_def b64_join_parts)

lemma decode_quads_encode: "b64_decode_quads (base64_encode bs) = Inr bs"
proof (induction bs rule: base64_encode.induct)
  case (2 a)
  show ?case using b64_bytes_join [of a 0 0] by (simp add: b64_quad_def b64_join_parts b64_join_low)
next
  case (3 a b)
  show ?case using b64_bytes_join [of a b 0] by (simp add: b64_quad_def b64_join_parts b64_join_low)
next
  case (4 a b c bs)
  then show ?case by (simp add: b64_quad_def b64_join_parts)
qed simp

lemma base64_roundtrip [simp]: "base64_decode (base64_encode bs) = Inr bs"
  by (simp add: base64_decode_def encode_no_newline decode_quads_encode)

end
