(* ===== verification/Catalog_Gen.thy ===== *)
theory Catalog_Gen
  imports Asset_Props Go_Base64
begin

text \<open>
  Catalog generation (\<^verbatim>\<open>internal/asset.go\<close>): the unified CMSF catalog that advertises every
  rendition as a CMAF and a LOCMAF track with shared init data (\<open>GenCMAFCatalogEntry\<close>), the LOC catalog
  with one track per spatial layer of SVC sources (\<open>GenLOCCatalogEntry\<close>, \<open>genLOCSVCTracks\<close>), and the
  wire bitrates that are measured on representative chunks. A Go float64 is a rational here; a track
  with sample duration 0 has Go frame rate \<open>+Inf\<close>, which has no counterpart, so the theorems that
  mention frame rates ask for a positive sample duration.
\<close>

definition cmafObjectOverheadBytes :: int where "cmafObjectOverheadBytes = 8"
definition locObjectOverheadBytes :: int where "locObjectOverheadBytes = cmafObjectOverheadBytes + 9"
definition locFrameMarkingOverheadBytes :: int where "locFrameMarkingOverheadBytes = 5"
definition LocmafTrackSuffix :: string where "LocmafTrackSuffix = ''_locmaf''"

definition cta608CC1Eng :: "accessibility list" where
  "cta608CC1Eng = [\<lparr>acc_Scheme = ''urn:scte:dash:cc:cea-608:2015'', acc_Value = ''CC1=eng''\<rparr>]"

text \<open>The third-party part: mp4ff's fragments and init segments, the init segments mp4ff builds for the
  two subtitle formats, the version string of the locmaf package, go-608 and the AV1 parser.\<close>

record ('f, 'm, 'd, 'i, 'p, 's, 'g, 'h, 'k) gen_lib =
  gl_mp4 :: "('f, 'm, 'd, 'i, 'p, 's) mp4_lib"
  gl_608 :: "'g go608"
  gl_av1 :: "('i, 'h, 'k) av1_lib"
  gl_EncodeInit :: "'i \<Rightarrow> bytes res"
  gl_wvttInit :: "string \<Rightarrow> u32 \<Rightarrow> 'i"
  gl_stppInit :: "string \<Rightarrow> u32 \<Rightarrow> 'i"
  gl_locmafVersion :: string

section \<open>Bitrates\<close>

definition f64_sub :: "f64 \<Rightarrow> f64 \<Rightarrow> f64" where "f64_sub x y = f64_round (x - y)"

definition f64_of_u32 :: "u32 \<Rightarrow> f64" where "f64_of_u32 w = f64_of_int (int (unat w))"

definition measure_batch :: "('i, 'p, 'u) content_track \<Rightarrow> nat" where
  "measure_batch ct = (let batch = (if ct_SampleBatch ct \<le> 0 then 1 else nat (ct_SampleBatch ct))
     in if batch > length (ct_Samples ct) then length (ct_Samples ct) else batch)"

text \<open>Measuring a chunk of a protected track advances the IV of the copy that is measured.\<close>

definition calcCmafBitrate :: "('f, 'm, 'd, 'i, 'p, 's) mp4_lib \<Rightarrow> 'g go608 \<Rightarrow> ('i, 'p, unit_cue) content_track \<Rightarrow>
    ('i, 'p, unit_cue) content_track \<times> int res" where
  "calcCmafBitrate M C ct = (let batch = measure_batch ct in
     if batch = 0 \<or> ct_SampleDur ct = 0 \<or> ct_TimeScale ct = 0 then (ct, Inr (int (unat (ct_SampleBitrate ct))))
     else case GenCMAFChunk M C ct 0 0 (of_nat batch) None of
       (ct1, Inl e) \<Rightarrow> (ct1, Inl (Wrapf ''measure CMAF chunk'' e))
     | (ct1, Inr chunk) \<Rightarrow>
         let rawBytes = (\<Sum>s \<leftarrow> take batch (ct_Samples ct). int (length (fs_Data s)));
             overheadBytes = int (length chunk) - rawBytes + cmafObjectOverheadBytes;
             objectRate = f64_div (f64_div (f64_of_u32 (ct_TimeScale ct)) (f64_of_u32 (ct_SampleDur ct)))
                                  (f64_of_int (int batch))
         in (ct1, Inr (f64_trunc (f64_add (f64_of_u32 (ct_SampleBitrate ct))
                        (f64_mul (f64_mul 8 (f64_of_int overheadBytes)) objectRate)))))"

definition locmaf_rate :: "('i, 'p, 'u) content_track \<Rightarrow> nat \<Rightarrow> int \<Rightarrow> int \<Rightarrow> int" where
  "locmaf_rate ct batch fullOverhead deltaOverhead =
     (let objectsPerSec = f64_div (f64_div (f64_of_u32 (ct_TimeScale ct)) (f64_of_u32 (ct_SampleDur ct)))
                                  (f64_of_int (int batch));
          fulls0 = f64_div 1000 (f64_of_u32 MoqGroupDurMS);
          deltas0 = f64_sub objectsPerSec fulls0;
          (fullsPerSec, deltasPerSec) = (if deltas0 < 0 then (objectsPerSec, 0) else (fulls0, deltas0));
          extraBytesPerSec = f64_add (f64_mul (f64_of_int fullOverhead) fullsPerSec)
                                     (f64_mul (f64_of_int deltaOverhead) deltasPerSec)
      in f64_trunc (f64_add (f64_of_u32 (ct_SampleBitrate ct)) (f64_mul 8 extraBytesPerSec)))"

text \<open>The second chunk is measured over the samples \<open>batch..2*batch-1\<close>; the sum over their data indexes
  the slice directly.\<close>

definition calcLocmafBitrate :: "('f, 'm, 'd, 'i, 'p, 's) mp4_lib \<Rightarrow> 'g go608 \<Rightarrow> ('i, 'p, unit_cue) content_track \<Rightarrow>
    ('i, 'p, unit_cue) content_track \<times> int res" where
  "calcLocmafBitrate M C ct = (let batch = measure_batch ct in
     if batch = 0 \<or> ct_SampleDur ct = 0 \<or> ct_TimeScale ct = 0 then (ct, Inr (int (unat (ct_SampleBitrate ct))))
     else case GenLocmafChunk M C ct 0 0 (of_nat batch) (ml_NewState M) None of
       (ct1, st1, Inl e) \<Rightarrow> (ct1, Inl (Wrapf ''measure LOCMAF full chunk'' e))
     | (ct1, st1, Inr fullChunk) \<Rightarrow>
         (case GenLocmafChunk M C ct1 1 (of_nat batch) (2 * of_nat batch) st1 None of
            (ct2, st2, Inl e) \<Rightarrow> (ct2, Inl (Wrapf ''measure LOCMAF delta chunk'' e))
          | (ct2, st2, Inr deltaChunk) \<Rightarrow>
              if 2 * batch > length (ct_Samples ct) then (ct2, Inl (Panic ''index out of range''))
              else let rawFull = (\<Sum>s \<leftarrow> take batch (ct_Samples ct). int (length (fs_Data s)));
                       rawDelta = (\<Sum>s \<leftarrow> take batch (drop batch (ct_Samples ct)). int (length (fs_Data s)))
                in (ct2, Inr (locmaf_rate ct batch (int (length fullChunk) - rawFull + cmafObjectOverheadBytes)
                                (int (length deltaChunk) - rawDelta + cmafObjectOverheadBytes)))))"

definition loc_config_bytes :: "'i spec_data option \<Rightarrow> int" where
  "loc_config_bytes sdo = (case sdo of
     Some (AVCData d) \<Rightarrow> int (length (GenLOCVideoConfig_AVC d))
   | Some (HEVCData d) \<Rightarrow> int (length (GenLOCVideoConfig_HEVC d))
   | Some (AV1Data d) \<Rightarrow> int (length (GenLOCVideoConfig_AV1 d))
   | _ \<Rightarrow> 0)"

definition calcLOCBitrate :: "('i, 'p, 'u) content_track \<Rightarrow> int" where
  "calcLOCBitrate ct = (if ct_SampleDur ct = 0 \<or> ct_TimeScale ct = 0 then int (unat (ct_SampleBitrate ct))
     else let objectRate = f64_div (f64_of_u32 (ct_TimeScale ct)) (f64_of_u32 (ct_SampleDur ct));
              extra0 = f64_mul (f64_of_int locObjectOverheadBytes) objectRate;
              psBytes = loc_config_bytes (ct_SpecData ct);
              extra = (if ct_GopLength ct > 0 \<and> psBytes > 0
                       then f64_add extra0 (f64_mul (f64_of_int psBytes) (f64_div objectRate (f64_of_u32 (ct_GopLength ct))))
                       else extra0)
          in f64_trunc (f64_add (f64_of_u32 (ct_SampleBitrate ct)) (f64_mul 8 extra)))"

definition config_bytes :: "('i, 'h, 'k) av1_lib \<Rightarrow> ('i, 'p, 'u) content_track \<Rightarrow> 'i av1_data \<Rightarrow> av1_spatial_layer \<Rightarrow> int" where
  "config_bytes A ct ad layer = (\<Sum>i \<leftarrow> filter (\<lambda>i. al1_IsSync A (fs_Flags (ct_Samples ct ! i))) [0..<length (ct_Samples ct)].
     int (length (GenLOCVideoConfigForSample A ad (sl_Samples layer ! i))))"

definition calcAV1SpatialLOCBitrate :: "('i, 'h, 'k) av1_lib \<Rightarrow> ('i, 'p, 'u) content_track \<Rightarrow> 'i av1_data \<Rightarrow>
    av1_spatial_layer \<Rightarrow> int" where
  "calcAV1SpatialLOCBitrate A ct ad layer =
     (if ct_Duration ct = 0 \<or> ct_TimeScale ct = 0 \<or> ct_SampleDur ct = 0 then 0
      else let durationSeconds = f64_div (f64_of_u32 (ct_Duration ct)) (f64_of_u32 (ct_TimeScale ct));
               rawBitrate = f64_div (f64_mul 8 (f64_of_int (int (unat (sl_totalSize layer))))) durationSeconds;
               objectRate = f64_div (f64_of_u32 (ct_TimeScale ct)) (f64_of_u32 (ct_SampleDur ct));
               extra0 = f64_mul (f64_of_int (locObjectOverheadBytes + locFrameMarkingOverheadBytes)) objectRate;
               configBytes = (if sl_SpatialID layer = 0 then config_bytes A ct ad layer else 0);
               extra = (if configBytes > 0 then f64_add extra0 (f64_div (f64_of_int configBytes) durationSeconds) else extra0)
           in f64_trunc (f64_add rawBitrate (f64_mul 8 extra)))"

section \<open>Describing a track\<close>

definition int_of_u32 :: "u32 \<Rightarrow> int" where "int_of_u32 w = int (unat w)"

definition nonzero :: "u32 \<Rightarrow> int option" where
  "nonzero w = (if w \<noteq> 0 then Some (int_of_u32 w) else None)"

definition spec_size :: "'i spec_data \<Rightarrow> u32 \<times> u32" where
  "spec_size sd = (case sd of AVCData d \<Rightarrow> (av_width d, av_height d) | HEVCData d \<Rightarrow> (hv_width d, hv_height d)
     | AV1Data d \<Rightarrow> (a1_width d, a1_height d) | _ \<Rightarrow> (0, 0))"

definition spec_audio :: "'i spec_data \<Rightarrow> u32 \<times> string" where
  "spec_audio sd = (case sd of AACData d \<Rightarrow> (aa_sampleRate d, aa_channelConfig d)
     | OpusData d \<Rightarrow> (op_sampleRate d, op_channelConfig d) | AC3Data d \<Rightarrow> (ac_sampleRate d, ac_channelConfig d)
     | _ \<Rightarrow> (0, []))"

text \<open>The switch over the content type that both catalogs share; captions are advertised when a
  generator is enabled and the codec can carry them.\<close>

definition captions_advertised :: "('i, 'p, unit_cue) content_track \<Rightarrow> 'i spec_data \<Rightarrow> bool" where
  "captions_advertised ct sd \<longleftrightarrow> CodecFor (sd_Codec sd) \<noteq> None \<and> gen_Enabled (ct_cc608 ct)"

definition describe_media :: "('i, 'p, unit_cue) content_track \<Rightarrow> 'i spec_data \<Rightarrow> track \<Rightarrow> track" where
  "describe_media ct sd t =
     (if ct_ContentType ct = ''video''
      then t\<lparr>tr_Role := ''video'', tr_Framerate := Some (frame_rate ct),
             tr_Accessibility := (if captions_advertised ct sd then cta608CC1Eng else tr_Accessibility t),
             tr_Width := nonzero (fst (spec_size sd)), tr_Height := nonzero (snd (spec_size sd))\<rparr>
      else if ct_ContentType ct = ''audio''
      then t\<lparr>tr_Role := ''audio'', tr_SampleRate := nonzero (fst (spec_audio sd)),
             tr_ChannelConfig := snd (spec_audio sd)\<rparr>
      else t)"

section \<open>The CMSF catalog\<close>

definition init_entry :: "string \<Rightarrow> bytes \<Rightarrow> init_data" where
  "init_entry name bs = \<lparr>id_ID = ''init-'' @ name, id_Type = ''inline'', id_Data = base64_encode bs\<rparr>"

definition cmaf_base :: "string \<Rightarrow> u32 \<Rightarrow> ('i, 'p, unit_cue) content_track \<Rightarrow> 'i spec_data \<Rightarrow> string \<Rightarrow> track" where
  "cmaf_base namespace altGroup ct sd initRef =
     (let base = describe_media ct sd (zero_track\<lparr>tr_Namespace := namespace, tr_IsLive := True, tr_RenderGroup := Some 1,
            tr_AltGroup := Some (int_of_u32 altGroup), tr_InitRef := initRef, tr_Codec := sd_Codec sd,
            tr_Timescale := Some (int_of_u32 (ct_TimeScale ct)), tr_Language := ct_Language ct\<rparr>)
      in if ct_contentProtectionRefIDs ct \<noteq> []
         then base\<lparr>tr_ContentProtectionRefIDs := ct_contentProtectionRefIDs ct\<rparr> else base)"

definition cmaf_entry :: "('f, 'm, 'd, 'i, 'p, 's, 'g, 'h, 'k) gen_lib \<Rightarrow> string \<Rightarrow> u32 \<Rightarrow>
    ('i, 'p, unit_cue) content_track \<Rightarrow> (track list \<times> init_data list) res" where
  "cmaf_entry G namespace altGroup ct = (case (case ct_SpecData ct of
       None \<Rightarrow> Inr ([], [])
     | Some sd \<Rightarrow> (case GenCMAFInitData (gl_EncodeInit G) sd of
         Inl e \<Rightarrow> Inl (Wrapf ''could not generate init data for track'' e)
       | Inr bs \<Rightarrow> Inr (''init-'' @ ct_Name ct, [init_entry (ct_Name ct) bs]))) of
     Inl e \<Rightarrow> Inl e
   | Inr (initRef, inits) \<Rightarrow> (case calcCmafBitrate (gl_mp4 G) (gl_608 G) ct of
       (ct1, Inl e) \<Rightarrow> Inl (Wrapf ''could not calculate CMAF bitrate'' e)
     | (ct1, Inr cmafBitrate) \<Rightarrow> (case calcLocmafBitrate (gl_mp4 G) (gl_608 G) ct1 of
       (ct2, Inl e) \<Rightarrow> Inl (Wrapf ''could not calculate LOCMAF bitrate'' e)
     | (ct2, Inr locmafBitrate) \<Rightarrow> (case ct_SpecData ct of
       None \<Rightarrow> Inl (Panic ''nil pointer dereference'')
     | Some sd \<Rightarrow>
         let base = cmaf_base namespace altGroup ct sd initRef
         in Inr ([base\<lparr>tr_Name := ct_Name ct, tr_Packaging := ''cmaf'', tr_Bitrate := Some cmafBitrate\<rparr>,
                  base\<lparr>tr_Name := ct_Name ct @ LocmafTrackSuffix, tr_Packaging := ''locmaf'',
                       tr_LocmafVersion := gl_locmafVersion G, tr_Bitrate := Some locmafBitrate\<rparr>], inits)))))"

fun collect_entries :: "('a \<Rightarrow> (track list \<times> init_data list) res) \<Rightarrow> 'a list \<Rightarrow> (track list \<times> init_data list) res" where
  "collect_entries f [] = Inr ([], [])"
| "collect_entries f (x # xs) = (case f x of Inl e \<Rightarrow> Inl e
     | Inr (ts, ids) \<Rightarrow> (case collect_entries f xs of Inl e \<Rightarrow> Inl e
         | Inr (ts', ids') \<Rightarrow> Inr (ts @ ts', ids @ ids')))"

definition selected :: "ProtectionType \<Rightarrow> ('i, 'p, 'u) asset \<Rightarrow> (u32 \<times> ('i, 'p, 'u) content_track) list" where
  "selected prot a = concat (map (\<lambda>g. map (Pair (tg_AltGroupID g)) (filter (\<lambda>ct. ct_Protection ct = prot) (tg_Tracks g)))
                       (as_Groups a))"

text \<open>Subtitle tracks: \<^verbatim>\<open>SubtitleData.GenCMAFInitData\<close> and \<^verbatim>\<open>Codec\<close>.\<close>

definition subtitle_init :: "('f, 'm, 'd, 'i, 'p, 's, 'g, 'h, 'k) gen_lib \<Rightarrow> subtitle_data \<Rightarrow> bytes res" where
  "subtitle_init G d = (case sd_format d of
     SubtitleFormatWVTT \<Rightarrow> wrap_err ''failed to encode init segment'' (gl_EncodeInit G (gl_wvttInit G (sd_language d) SubsTimeTimescale))
   | SubtitleFormatSTPP \<Rightarrow> wrap_err ''failed to encode init segment'' (gl_EncodeInit G (gl_stppInit G (sd_language d) SubsTimeTimescale))
   | SubtitleFormatOther f \<Rightarrow> Inl (Errorf ''unknown subtitle format''))"

definition subtitle_codec :: "subtitle_data \<Rightarrow> string" where
  "subtitle_codec d = (case sd_format d of SubtitleFormatWVTT \<Rightarrow> ''wvtt'' | SubtitleFormatSTPP \<Rightarrow> ''stpp.ttml.im1t''
     | SubtitleFormatOther f \<Rightarrow> f)"

definition subtitle_entry :: "('f, 'm, 'd, 'i, 'p, 's, 'g, 'h, 'k) gen_lib \<Rightarrow> string \<Rightarrow> nat \<Rightarrow> subtitle_track \<Rightarrow>
    (track list \<times> init_data list) res" where
  "subtitle_entry G namespace nGroups st = (case st_SpecData st of
     None \<Rightarrow> Inl (Panic ''nil pointer dereference'')
   | Some d \<Rightarrow> (case subtitle_init G d of
       Inl e \<Rightarrow> Inl (Wrapf ''could not generate init data for subtitle track'' e)
     | Inr bs \<Rightarrow>
         let altGroup = int nGroups + (if st_Format st = SubtitleFormatSTPP then 2 else 1)
         in Inr ([zero_track\<lparr>tr_Name := st_Name st, tr_Namespace := namespace, tr_Packaging := ''cmaf'', tr_IsLive := True,
              tr_Role := ''subtitle'', tr_RenderGroup := Some 1, tr_AltGroup := Some altGroup,
              tr_InitRef := ''init-'' @ st_Name st, tr_Codec := subtitle_codec d,
              tr_Timescale := Some (int_of_u32 (st_TimeScale st)), tr_Language := st_Language st\<rparr>],
             [init_entry (st_Name st) bs])))"

definition GenCMAFCatalogEntry :: "('f, 'm, 'd, 'i, 'p, 's, 'g, 'h, 'k) gen_lib \<Rightarrow> ('i, 'p, unit_cue) asset \<Rightarrow> string \<Rightarrow>
    ProtectionType \<Rightarrow> int \<Rightarrow> catalog res" where
  "GenCMAFCatalogEntry G a namespace prot generatedAtMS =
     (case collect_entries (\<lambda>(alt, ct). cmaf_entry G namespace alt ct) (selected prot a) of
        Inl e \<Rightarrow> Inl e
      | Inr (mediaTracks, mediaInits) \<Rightarrow>
        (case collect_entries (subtitle_entry G namespace (length (as_Groups a))) (as_SubtitleTracks a) of
           Inl e \<Rightarrow> Inl e
         | Inr (subTracks, subInits) \<Rightarrow>
           Inr (zero_catalog\<lparr>cat_Version := ''draft-01'', cat_GeneratedAt := Some generatedAtMS,
             cat_Tracks := mediaTracks @ subTracks, cat_InitDataList := mediaInits @ subInits,
             cat_ContentProtections := (case prot of ProtectionNone \<Rightarrow> []
               | ProtectionDRM \<Rightarrow> (case as_Drm a of None \<Rightarrow> [] | Some d \<Rightarrow> di_ContentProtections d)
               | ProtectionECCP \<Rightarrow> (case as_Eccp a of None \<Rightarrow> [] | Some d \<Rightarrow> di_ContentProtections d))\<rparr>)))"

section \<open>The LOC catalog\<close>

definition svc_track :: "('i, 'h, 'k) av1_lib \<Rightarrow> ('i, 'p, 'u) content_track \<Rightarrow> 'i av1_data \<Rightarrow> nat \<Rightarrow> av1_spatial_layer \<Rightarrow> track" where
  "svc_track A ct ad i layer =
     zero_track\<lparr>tr_Name := layer_name (ct_Name ct) (unat (sl_SpatialID layer)), tr_Packaging := ''loc'', tr_IsLive := True,
       tr_Role := ''video'', tr_RenderGroup := Some 1, tr_SpatialID := Some (int (unat (sl_SpatialID layer))),
       tr_Codec := a1_codec ad, tr_Framerate := Some (frame_rate ct),
       tr_Bitrate := Some (calcAV1SpatialLOCBitrate A ct ad layer), tr_Width := Some (int_of_u32 (sl_Width layer)),
       tr_Height := Some (int_of_u32 (sl_Height layer)), tr_Language := ct_Language ct,
       tr_Dependencies := (if i > 0 then [layer_name (ct_Name ct) (unat (sl_SpatialID layer - 1))] else [])\<rparr>"

definition genLOCSVCTracks :: "('i, 'h, 'k) av1_lib \<Rightarrow> ('i, 'p, 'u) content_track \<Rightarrow> 'i av1_data \<Rightarrow> track list" where
  "genLOCSVCTracks A ct ad = map (\<lambda>(i, layer). svc_track A ct ad i layer) (enumerate 0 (a1_spatialLayers ad))"

text \<open>The codec string of a LOC track: parameter sets travel in the payload. \<^verbatim>\<open>codec[4:]\<close> panics on
  a shorter string.\<close>

definition loc_codec :: "'i spec_data \<Rightarrow> string res" where
  "loc_codec sd = (case sd of
     AVCData d \<Rightarrow> if length (av_codec d) < 4 then Inl (Panic ''slice bounds out of range'') else Inr (''avc3'' @ drop 4 (av_codec d))
   | HEVCData d \<Rightarrow> if length (hv_codec d) < 4 then Inl (Panic ''slice bounds out of range'') else Inr (''hev1'' @ drop 4 (hv_codec d))
   | OpusData d \<Rightarrow> Inr ''opus''
   | _ \<Rightarrow> Inr (sd_Codec sd))"

definition loc_entry :: "('i, 'h, 'k) av1_lib \<Rightarrow> u32 \<Rightarrow> ('i, 'p, unit_cue) content_track \<Rightarrow> track list res" where
  "loc_entry A altGroup ct = (case ct_SpecData ct of
     None \<Rightarrow> Inr []
   | Some sd \<Rightarrow> (case sd of AC3Data d \<Rightarrow> Inr [] | _ \<Rightarrow>
       if spatial_layers_of ct \<noteq> []
       then Inr (case sd of AV1Data ad \<Rightarrow> genLOCSVCTracks A ct ad | _ \<Rightarrow> [])
       else case loc_codec sd of
         Inl e \<Rightarrow> Inl e
       | Inr codec \<Rightarrow> Inr [describe_media ct sd (zero_track\<lparr>tr_Name := ct_Name ct, tr_Packaging := ''loc'', tr_IsLive := True,
           tr_RenderGroup := Some 1, tr_AltGroup := Some (int_of_u32 altGroup), tr_Codec := codec,
           tr_Bitrate := Some (calcLOCBitrate ct), tr_Language := ct_Language ct\<rparr>)]))"

definition GenLOCCatalogEntry :: "('i, 'h, 'k) av1_lib \<Rightarrow> ('i, 'p, unit_cue) asset \<Rightarrow> int \<Rightarrow> catalog res" where
  "GenLOCCatalogEntry A a generatedAtMS =
     (case map_res (\<lambda>(alt, ct). loc_entry A alt ct) (selected ProtectionNone a) of
        Inl e \<Rightarrow> Inl e
      | Inr tss \<Rightarrow> Inr (zero_catalog\<lparr>cat_Version := ''draft-01'', cat_GeneratedAt := Some generatedAtMS,
          cat_Tracks := concat tss\<rparr>))"

end
