(* ===== verification/Subtitles.thy ===== *)
theory Subtitles
  imports Media_Chunks Asset_Load
begin

text \<open>
  Generated subtitle tracks (\<^verbatim>\<open>internal/subtitle.go\<close>): the cue intervals of a segment
  (\<open>calcCueItvls\<close>), the texts and times of the cues, and the one-object MoQ group of a subtitle track
  in its two formats (\<open>GenSubtitleGroup\<close>). Box encoding (\<open>vttc\<close>, the media segment) and the execution
  of the TTML template are parameters, the fields of \<open>sub_lib\<close>. Times are Go's 64 bit \<^verbatim>\<open>int\<close>,
  modelled as integers: milliseconds since the epoch, far from the end of the range. The interval loop
  runs on fuel; \<open>calcCueItvls_enough_fuel\<close> shows how much is enough.
\<close>

record cue_itvl =
  cv_startMS :: int
  cv_endMS :: int
  cv_utcS :: int

text \<open>\<^verbatim>\<open>int(math.Ceil(float64(cueDur) * 0.001))\<close>\<close>

definition cue_full_s :: "int \<Rightarrow> int" where
  "cue_full_s cueDur = \<lceil>f64_mul (f64_of_int cueDur) (f64_round (1 / 1000))\<rceil>"

definition cue_at :: "int \<Rightarrow> int \<Rightarrow> int \<Rightarrow> int \<Rightarrow> int \<Rightarrow> cue_itvl" where
  "cue_at utcStart utcEndMS diff cueDur utcS =
     \<lparr>cv_startMS = max (utcS * 1000) utcStart + diff, cv_endMS = min (utcS * 1000 + cueDur) utcEndMS + diff, cv_utcS = utcS\<rparr>"

fun cue_loop :: "nat \<Rightarrow> int \<Rightarrow> int \<Rightarrow> int \<Rightarrow> int \<Rightarrow> int \<Rightarrow> int \<Rightarrow> int \<Rightarrow> cue_itvl list option" where
  "cue_loop 0 utcStart utcEndMS diff cueDur step bnd utcS = None"
| "cue_loop (Suc k) utcStart utcEndMS diff cueDur step bnd utcS =
     (if utcS \<le> bnd then
        if utcS * 1000 = utcEndMS then Some []
        else (case cue_loop k utcStart utcEndMS diff cueDur step bnd (utcS + step) of
                None \<Rightarrow> None
              | Some cs \<Rightarrow> Some (cue_at utcStart utcEndMS diff cueDur utcS # cs))
      else Some [])"

definition calcCueItvls :: "nat \<Rightarrow> int \<Rightarrow> int \<Rightarrow> int \<Rightarrow> int \<Rightarrow> cue_itvl list res option" where
  "calcCueItvls fuel segStart segDur utcStart cueDur =
     (let cueFullMS = cue_full_s cueDur * 1000
      in if cueFullMS = 0 then Some (Inl div_panic)
         else map_option Inr (cue_loop fuel utcStart (utcStart + segDur) (segStart - utcStart) cueDur (cue_full_s cueDur)
                (quot_trunc (utcStart + segDur) cueFullMS) (quot_trunc utcStart cueFullMS)))"

section \<open>Texts\<close>

text \<open>The civil date of a day number since 1970-01-01, and \<^verbatim>\<open>t.UTC().Format(time.RFC3339)\<close>.\<close>

definition civil_of_days :: "int \<Rightarrow> int \<times> int \<times> int" where
  "civil_of_days days =
     (let z = days + 719468; era = z div 146097; doe = z mod 146097;
          yoe = (doe - doe div 1460 + doe div 36524 - doe div 146096) div 365;
          doy = doe - (365 * yoe + yoe div 4 - yoe div 100); mp = (5 * doy + 2) div 153;
          d = doy - (153 * mp + 2) div 5 + 1; m = (if mp < 10 then mp + 3 else mp - 9)
      in ((if m \<le> 2 then yoe + era * 400 + 1 else yoe + era * 400), m, d))"

definition rfc3339 :: "int \<Rightarrow> string" where
  "rfc3339 ms = (let s = ms div 1000; (y, m, d) = civil_of_days (s div 86400); t = s mod 86400
     in pad0 4 y @ ''-'' @ pad0 2 m @ ''-'' @ pad0 2 d @ ''T'' @ pad0 2 (t div 3600) @ '':'' @ pad0 2 (t div 60 mod 60)
        @ '':'' @ pad0 2 (t mod 60) @ ''Z'')"

definition makeStppMessage :: "string \<Rightarrow> int \<Rightarrow> int \<Rightarrow> string" where
  "makeStppMessage lang utcMS groupNr = rfc3339 utcMS @ ''<br/>'' @ lang @ '' # '' @ itoa groupNr"

text \<open>Go's remainder has the sign of the dividend.\<close>

definition rem_trunc :: "int \<Rightarrow> int \<Rightarrow> int" where
  "rem_trunc a b = a - quot_trunc a b * b"

definition msToTTMLTime :: "int \<Rightarrow> string" where
  "msToTTMLTime ms =
     (let hours = quot_trunc ms 3600000; ms1 = rem_trunc ms 3600000; minutes = quot_trunc ms1 60000;
          ms2 = rem_trunc ms1 60000; seconds = quot_trunc ms2 1000; ms3 = rem_trunc ms2 1000
      in pad0 2 hours @ '':'' @ pad0 2 minutes @ '':'' @ pad0 2 seconds @ ''.'' @ pad0 3 ms3)"

section \<open>Media data\<close>

record stpp_cue =
  sc_Id :: string
  sc_Begin :: string
  sc_End :: string
  sc_Msg :: string

record stpp_data =
  sp_Lang :: string
  sp_Region :: int
  sp_Cues :: "stpp_cue list"

text \<open>\<open>vttc\<close> encodes a cue box from its optional settings and text (None: encoding failed);
  \<open>render\<close> executes the TTML template; the segment of one fragment is encoded by \<open>segment\<close>;
  \<open>SyncSampleFlags\<close> is mp4ff's constant.\<close>

record 'f sub_lib =
  sl_CreateFragment :: "u32 \<Rightarrow> u32 \<Rightarrow> 'f res"
  sl_AddFullSample :: "'f \<Rightarrow> full_sample \<Rightarrow> 'f"
  sl_segment :: "'f \<Rightarrow> bytes res"
  sl_vttc :: "string option \<Rightarrow> string \<Rightarrow> bytes option"
  sl_render :: "stpp_data \<Rightarrow> bytes res"
  sl_SyncSampleFlags :: u32

definition sub_fullSample :: "u32 \<Rightarrow> int \<Rightarrow> int \<Rightarrow> bytes \<Rightarrow> full_sample" where
  "sub_fullSample flags start end dat = \<lparr>fs_Flags = flags, fs_Dur = of_int (end - start), fs_Size = of_nat (length dat),
     fs_DecodeTime = of_int start, fs_Data = dat\<rparr>"

definition makeWvttCuePayload :: "'f sub_lib \<Rightarrow> string \<Rightarrow> int \<Rightarrow> int \<Rightarrow> int \<Rightarrow> bytes res" where
  "makeWvttCuePayload S lang region utcMS groupNr =
     (case sl_vttc S (if region = 1 then Some ''line:2'' else None)
             (rfc3339 utcMS @ [CHR 0x0A] @ lang @ '' # '' @ itoa groupNr) of
        None \<Rightarrow> Inl (Panic ''cannot write vttc'') | Some b \<Rightarrow> Inr b)"

definition vtte :: bytes where "vtte = [0, 0, 0, 8, 0x76, 0x74, 0x74, 0x65]"

text \<open>The samples of a WVTT segment: an empty cue fills every gap.\<close>

fun wvtt_samples :: "'f sub_lib \<Rightarrow> string \<Rightarrow> int \<Rightarrow> u32 \<Rightarrow> cue_itvl list \<Rightarrow> int \<Rightarrow> (full_sample list \<times> int) res" where
  "wvtt_samples S lang region nr [] currEnd = Inr ([], currEnd)"
| "wvtt_samples S lang region nr (ci # cues) currEnd =
     (case makeWvttCuePayload S lang region (cv_utcS ci * 1000) (int (unat nr)) of
        Inl e \<Rightarrow> Inl e
      | Inr pl \<Rightarrow> (case wvtt_samples S lang region nr cues (cv_endMS ci) of
          Inl e \<Rightarrow> Inl e
        | Inr (ss, last_end) \<Rightarrow>
            Inr ((if cv_startMS ci > currEnd then [sub_fullSample (sl_SyncSampleFlags S) currEnd (cv_startMS ci) vtte] else []) @
                 sub_fullSample (sl_SyncSampleFlags S) (cv_startMS ci) (cv_endMS ci) pl # ss, last_end)))"

definition wvtt_segment :: "'f sub_lib \<Rightarrow> string \<Rightarrow> int \<Rightarrow> u32 \<Rightarrow> int \<Rightarrow> int \<Rightarrow> cue_itvl list \<Rightarrow> full_sample list res" where
  "wvtt_segment S lang region nr base dur cues = (case wvtt_samples S lang region nr cues base of
     Inl e \<Rightarrow> Inl e
   | Inr (ss, currEnd) \<Rightarrow> Inr (ss @ (if currEnd < base + dur
        then [sub_fullSample (sl_SyncSampleFlags S) currEnd (base + dur) vtte] else [])))"

definition createSubtitlesWvttMediaData :: "nat \<Rightarrow> 'f sub_lib \<Rightarrow> u32 \<Rightarrow> u64 \<Rightarrow> u32 \<Rightarrow> string \<Rightarrow> u64 \<Rightarrow> int \<Rightarrow> int \<Rightarrow>
    bytes res option" where
  "createSubtitlesWvttMediaData fuel S nr base dur lang utcTimeMS cueDurMS region = (case sl_CreateFragment S nr 1 of
     Inl e \<Rightarrow> Some (Inl e)
   | Inr frag \<Rightarrow> (case calcCueItvls fuel (sint base) (int (unat dur)) (sint utcTimeMS) cueDurMS of
       None \<Rightarrow> None
     | Some (Inl e) \<Rightarrow> Some (Inl e)
     | Some (Inr cues) \<Rightarrow> Some (case wvtt_segment S lang region nr (sint base) (int (unat dur)) cues of
         Inl e \<Rightarrow> Inl e
       | Inr ss \<Rightarrow> sl_segment S (foldl (sl_AddFullSample S) frag ss))))"

definition stpp_cues :: "string \<Rightarrow> u32 \<Rightarrow> cue_itvl list \<Rightarrow> stpp_cue list" where
  "stpp_cues lang nr cues = map (\<lambda>(i, ci). \<lparr>sc_Id = dec (unat nr) @ ''-'' @ dec i, sc_Begin = msToTTMLTime (cv_startMS ci),
     sc_End = msToTTMLTime (cv_endMS ci), sc_Msg = makeStppMessage lang (cv_utcS ci * 1000) (int (unat nr))\<rparr>) (enumerate 0 cues)"

definition createSubtitlesStppMediaData :: "nat \<Rightarrow> 'f sub_lib \<Rightarrow> u32 \<Rightarrow> u64 \<Rightarrow> u32 \<Rightarrow> string \<Rightarrow> u64 \<Rightarrow> int \<Rightarrow> int \<Rightarrow>
    bytes res option" where
  "createSubtitlesStppMediaData fuel S nr base dur lang utcTimeMS cueDurMS region = (case sl_CreateFragment S nr 1 of
     Inl e \<Rightarrow> Some (Inl e)
   | Inr frag \<Rightarrow> (case calcCueItvls fuel (sint base) (int (unat dur)) (sint utcTimeMS) cueDurMS of
       None \<Rightarrow> None
     | Some (Inl e) \<Rightarrow> Some (Inl e)
     | Some (Inr cues) \<Rightarrow> Some (case sl_render S \<lparr>sp_Lang = lang, sp_Region = region, sp_Cues = stpp_cues lang nr cues\<rparr> of
         Inl e \<Rightarrow> Inl (Wrapf ''execute stpp template'' e)
       | Inr dat \<Rightarrow> sl_segment S (sl_AddFullSample S frag \<lparr>fs_Flags = sl_SyncSampleFlags S, fs_Dur = dur,
           fs_Size = of_nat (length dat), fs_DecodeTime = base, fs_Data = dat\<rparr>))))"

definition GenSubtitleGroup :: "nat \<Rightarrow> 'f sub_lib \<Rightarrow> subtitle_track \<Rightarrow> u64 \<Rightarrow> u32 \<Rightarrow> moq_group res option" where
  "GenSubtitleGroup fuel S st groupNr groupDurMS =
     (let base = groupNr * ucast groupDurMS; dur = groupDurMS;
          mk = (\<lambda>r. case r of Inl e \<Rightarrow> Inl e
            | Inr dat \<Rightarrow> Inr \<lparr>mg_id = ucast groupNr, mg_startTime = base, mg_endTime = base + ucast dur, mg_startNr = groupNr,
                mg_endNr = groupNr + 1, mg_MoQObjects = [dat]\<rparr>)
      in case st_Format st of
           SubtitleFormatWVTT \<Rightarrow> map_option mk (createSubtitlesWvttMediaData fuel S (ucast groupNr) base dur
              (st_Language st) base (st_CueDurMS st) (st_Region st))
         | SubtitleFormatSTPP \<Rightarrow> map_option mk (createSubtitlesStppMediaData fuel S (ucast groupNr) base dur
              (st_Language st) base (st_CueDurMS st) (st_Region st))
         | SubtitleFormatOther f \<Rightarrow> Some (Inl (Errorf ''unknown subtitle format'')))"

definition CurrSubtitleGroupNr :: "u64 \<Rightarrow> u32 \<Rightarrow> u64 res" where
  "CurrSubtitleGroupNr nowMS groupDurMS =
     (if (ucast groupDurMS :: u64) = 0 then Inl div_panic else Inr (nowMS div ucast groupDurMS))"

section \<open>Cues of a segment\<close>

text \<open>Cues lie in order between two times and do not overlap.\<close>

fun cues_ok :: "int \<Rightarrow> int \<Rightarrow> cue_itvl list \<Rightarrow> bool" where
  "cues_ok lo hi [] = (lo \<le> hi)"
| "cues_ok lo hi (c # cs) = (lo \<le> cv_startMS c \<and> cv_startMS c < cv_endMS c \<and> cv_endMS c \<le> hi \<and> cues_ok (cv_endMS c) hi cs)"

lemma cue_loop_ok:
  assumes "cue_loop k U E diff cueDur 1 (E div 1000) u = Some cs" and "0 < cueDur" "cueDur \<le> 1000"
    and "U \<le> u * 1000" and "lo \<le> u * 1000 + diff" and "lo \<le> E + diff"
  shows "cues_ok lo (E + diff) cs"
  using assms
proof (induction k arbitrary: u cs lo)
  case 0
  then show ?case by simp
next
  case (Suc k)
  show ?case
  proof (cases "u \<le> E div 1000 \<and> u * 1000 \<noteq> E")
    case True
    then have "u * 1000 \<le> E div 1000 * 1000" by simp
    also have "E div 1000 * 1000 \<le> E" using div_mult_mod_eq [of E 1000] pos_mod_sign [of 1000 E] by linarith
    finally have lt: "u * 1000 < E" using True by simp
    from Suc.prems(1) True obtain cs' where rec: "cue_loop k U E diff cueDur 1 (E div 1000) (u + 1) = Some cs'"
      and cs: "cs = cue_at U E diff cueDur u # cs'" by (auto split: option.splits)
    have "cues_ok (cv_endMS (cue_at U E diff cueDur u)) (E + diff) cs'"
      using Suc.IH [OF rec Suc.prems(2,3)] Suc.prems(3,4) by (auto simp: cue_at_def)
    then show ?thesis using lt Suc.prems cs by (auto simp: cue_at_def)
  next
    case False
    with Suc.prems show ?thesis by (auto split: if_splits)
  qed
qed

lemma cue_loop_enough_fuel:
  "nat (bnd - u + 1) < k \<Longrightarrow> \<exists>cs. cue_loop k U E diff cueDur 1 bnd u = Some cs"
proof (induction k arbitrary: u)
  case 0
  then show ?case by simp
next
  case (Suc k)
  show ?case
  proof (cases "u \<le> bnd")
    case True
    with Suc.prems have "nat (bnd - (u + 1) + 1) < k" by linarith
    with Suc.IH [of "u + 1"] show ?thesis by auto
  next
    case False
    then show ?thesis by simp
  qed
qed

text \<open>A segment of a whole number of seconds' start: the cues are in order inside the segment, and the fuel
  of one more turn than seconds is enough.\<close>

lemma calcCueItvls_ok:
  assumes "cue_full_s cueDur = 1" "0 < cueDur" "cueDur \<le> 1000" and "0 \<le> U" "U mod 1000 = 0" "0 \<le> segDur"
    and "nat (segDur div 1000 + 1) < fuel"
  shows "\<exists>cs. calcCueItvls fuel segStart segDur U cueDur = Some (Inr cs) \<and> cues_ok segStart (segStart + segDur) cs"
proof -
  have q: "quot_trunc U 1000 = U div 1000" "quot_trunc (U + segDur) 1000 = (U + segDur) div 1000"
    using assms(4,6) by (simp_all add: quot_trunc_def)
  obtain c where c: "U = 1000 * c" using assms(5) by (auto simp: mod_eq_0_iff_dvd)
  have "(U + segDur) div 1000 - U div 1000 = segDur div 1000" by (simp add: c)
  with assms(7) obtain cs where cs: "cue_loop fuel U (U + segDur) (segStart - U) cueDur 1 ((U + segDur) div 1000) (U div 1000) = Some cs"
    using cue_loop_enough_fuel [of "(U + segDur) div 1000" "U div 1000" fuel U "U + segDur"] by (simp, blast)
  have "U div 1000 * 1000 = U" by (simp add: c)
  with cue_loop_ok [OF cs assms(2,3), of segStart] assms(6) have "cues_ok segStart (segStart + segDur) cs"
    by (simp add: algebra_simps)
  then show ?thesis using cs assms(1) q by (simp add: calcCueItvls_def Let_def)
qed

section \<open>Samples of a WVTT segment\<close>

text \<open>Samples that follow each other without gap or overlap from one time to another.\<close>

fun tiles :: "int \<Rightarrow> int \<Rightarrow> full_sample list \<Rightarrow> bool" where
  "tiles a b [] = (a = b)"
| "tiles a b (s # ss) = (fs_DecodeTime s = of_int a \<and> fs_Dur s \<noteq> 0 \<and> tiles (a + int (unat (fs_Dur s))) b ss)"

lemma tiles_append: "tiles a m xs \<Longrightarrow> tiles m b ys \<Longrightarrow> tiles a b (xs @ ys)"
  by (induction xs arbitrary: a) auto

lemma tiles_fullSample:
  assumes "a < b" and "b - a < 2 ^ 32"
  shows "tiles a b [sub_fullSample fl a b d]"
proof -
  define d where "d = b - a"
  have "uint (of_int d :: u32) = d"
    using assms by (simp add: d_def [symmetric] uint_word_of_int) (simp add: d_def)
  then have u: "int (unat (of_int d :: u32)) = d" by simp
  then have "(of_int d :: u32) \<noteq> 0" using assms(1) by (auto simp: d_def)
  with u show ?thesis by (simp add: sub_fullSample_def d_def [symmetric] del: of_int_diff) (simp add: d_def)
qed

lemma wvtt_samples_tile:
  assumes "wvtt_samples S lang region nr cs lo = Inr (ss, e)" and "cues_ok lo hi cs" and "hi - lo < 2 ^ 32"
  shows "tiles lo e ss \<and> lo \<le> e \<and> e \<le> hi"
  using assms
proof (induction cs arbitrary: lo ss)
  case Nil
  then show ?case by simp
next
  case (Cons c cs)
  let ?g = "if cv_startMS c > lo then [sub_fullSample (sl_SyncSampleFlags S) lo (cv_startMS c) vtte] else []"
  from Cons.prems(1) obtain pl ss' where
    rec: "wvtt_samples S lang region nr cs (cv_endMS c) = Inr (ss', e)"
    and ss: "ss = ?g @ sub_fullSample (sl_SyncSampleFlags S) (cv_startMS c) (cv_endMS c) pl # ss'"
    by (auto split: sum.splits prod.splits)
  have b: "lo \<le> cv_startMS c" "cv_startMS c < cv_endMS c" "cv_endMS c \<le> hi" "cues_ok (cv_endMS c) hi cs"
    using Cons.prems(2) by auto
  have "tiles lo (cv_startMS c) ?g"
  proof (cases "cv_startMS c > lo")
    case True
    with tiles_fullSample [OF this] b Cons.prems(3) show ?thesis by simp
  qed (use b in simp)
  moreover have "tiles (cv_startMS c) (cv_endMS c) [sub_fullSample (sl_SyncSampleFlags S) (cv_startMS c) (cv_endMS c) pl]"
    using b Cons.prems(3) by (intro tiles_fullSample) auto
  moreover have "tiles (cv_endMS c) e ss' \<and> cv_endMS c \<le> e \<and> e \<le> hi"
    using Cons.IH [OF rec b(4)] b Cons.prems(3) by auto
  moreover have "ss = (?g @ [sub_fullSample (sl_SyncSampleFlags S) (cv_startMS c) (cv_endMS c) pl]) @ ss'" using ss by simp
  ultimately have "tiles lo e ss" using tiles_append by blast
  moreover have "lo \<le> e" "e \<le> hi" using \<open>tiles (cv_endMS c) e ss' \<and> cv_endMS c \<le> e \<and> e \<le> hi\<close> b(1,2) by linarith+
  ultimately show ?case by simp
qed

lemma wvtt_segment_tile:
  assumes "wvtt_segment S lang region nr lo d cs = Inr ss" and "cues_ok lo (lo + d) cs" and "d < 2 ^ 32"
  shows "tiles lo (lo + d) ss"
proof -
  obtain ss' e where r: "wvtt_samples S lang region nr cs lo = Inr (ss', e)"
    and ss: "ss = ss' @ (if e < lo + d then [sub_fullSample (sl_SyncSampleFlags S) e (lo + d) vtte] else [])"
    using assms(1) by (auto simp: wvtt_segment_def split: sum.splits prod.splits)
  from wvtt_samples_tile [OF r assms(2)] assms(3) have t: "tiles lo e ss'" "lo \<le> e" "e \<le> lo + d" by auto
  show ?thesis
  proof (cases "e < lo + d")
    case True
    have "tiles e (lo + d) [sub_fullSample (sl_SyncSampleFlags S) e (lo + d) vtte]"
      using True t(2) assms(3) by (intro tiles_fullSample) auto
    with t(1) True ss show ?thesis by (auto intro: tiles_append)
  next
    case False
    with t ss show ?thesis by simp
  qed
qed

section \<open>Properties\<close>

lemma cue_full_default: "cue_full_s 900 = 1"
  by code_simp

lemma group_time:
  fixes g :: u64
  assumes "(unat g + 1) * 1000 < 2 ^ 63"
  shows "sint (g * 1000) = int (unat g) * 1000"
proof -
  have "unat g * unat (1000 :: u64) < 2 ^ 64" using assms by simp
  then have "unat (g * 1000) = unat g * 1000" using unat_mult_lt [of g 1000] by simp
  moreover have "unat g * 1000 < 2 ^ 63" using assms by simp
  ultimately show ?thesis by (simp add: sint_nat)
qed

text \<open>C19: The groups of a WVTT subtitle track leave no hole in the timeline. For a track made by
  NewSubtitleTrack, generating the group of any second returns (fuel 4 is enough), and a generated
  group has one object: the segment of a fragment whose samples, cues and empty cues, follow each other
  without gap or overlap from the start of the second to its end.\<close>

theorem subtitle_group_tiles:
  assumes "NewSubtitleTrack name SubtitleFormatWVTT lang = Inr st" and "(unat g + 1) * 1000 < 2 ^ 63" and "4 \<le> fuel"
  shows "\<exists>r. GenSubtitleGroup fuel S st g 1000 = Some r \<and> (\<forall>mg. r = Inr mg \<longrightarrow>
    (\<exists>frag ss dat. sl_CreateFragment S (ucast g) 1 = Inr frag \<and> mg_MoQObjects mg = [dat] \<and>
       sl_segment S (foldl (sl_AddFullSample S) frag ss) = Inr dat \<and>
       tiles (int (unat g) * 1000) (int (unat g) * 1000 + 1000) ss))"
proof -
  have st: "st_Format st = SubtitleFormatWVTT" "st_CueDurMS st = 900"
    using assms(1) by (auto simp: NewSubtitleTrack_def DefaultCueDurMS_def)
  let ?b = "int (unat g) * 1000"
  have t: "sint (g * 1000) = ?b" using group_time [OF assms(2)] .
  obtain cs where cs: "calcCueItvls fuel ?b 1000 ?b 900 = Some (Inr cs)" and ok: "cues_ok ?b (?b + 1000) cs"
    using calcCueItvls_ok [OF cue_full_default, of ?b 1000 fuel ?b] assms(3) by auto
  have u: "int (unat (1000 :: u32)) = 1000" by simp
  show ?thesis
  proof (cases "sl_CreateFragment S (ucast g) 1")
    case (Inl e)
    then show ?thesis using st by (simp add: GenSubtitleGroup_def createSubtitlesWvttMediaData_def Let_def)
  next
    case (Inr frag)
    show ?thesis
    proof (cases "wvtt_segment S (st_Language st) (st_Region st) (ucast g) ?b 1000 cs")
      case (Inl e)
      then show ?thesis using st cs Inr t u by (simp add: GenSubtitleGroup_def createSubtitlesWvttMediaData_def Let_def)
    next
      case r: (Inr ss)
      from wvtt_segment_tile [OF r ok] have "tiles ?b (?b + 1000) ss" by simp
      then show ?thesis using st cs Inr t u r
        by (auto simp: GenSubtitleGroup_def createSubtitlesWvttMediaData_def Let_def split: sum.splits)
    qed
  qed
qed

text \<open>The interval computation is wrong for cues longer than one second: the loop counts in units of
  the cue duration but uses the count as seconds. For a 1500 ms cue and the segment at second 5 it
  returns an interval that ends before it starts.\<close>

theorem long_cues_inverted:
  "calcCueItvls 4 5000 1000 5000 1500 = Some (Inr [\<lparr>cv_startMS = 5000, cv_endMS = 3500, cv_utcS = 2\<rparr>])"
  by code_simp

text \<open>A library whose fragments are sample lists.\<close>

definition ex_subs :: "full_sample list sub_lib" where
  "ex_subs = \<lparr>sl_CreateFragment = (\<lambda>n i. Inr []), sl_AddFullSample = (\<lambda>f s. f @ [s]),
     sl_segment = (\<lambda>f. Inr (concat (map fs_Data f))), sl_vttc = (\<lambda>st t. Some [1]), sl_render = (\<lambda>d. Inr []), sl_SyncSampleFlags = 0\<rparr>"

theorem subtitle_group_tiles_witness:
  "\<exists>st r. NewSubtitleTrack ''subs_wvtt_en'' SubtitleFormatWVTT ''en'' = Inr st \<and> GenSubtitleGroup 4 ex_subs st 1700000000 1000 = Some r"
proof -
  obtain st where st: "NewSubtitleTrack ''subs_wvtt_en'' SubtitleFormatWVTT ''en'' = Inr st" by (simp add: NewSubtitleTrack_def)
  from subtitle_group_tiles [OF st, of 1700000000 4 ex_subs] st show ?thesis by auto
qed

end
