(* ===== verification/Publisher.thy ===== *)
theory Publisher
  imports Catalog_Gen Subtitles Loc_Object
begin

text \<open>
  The publisher's session handler (\<^verbatim>\<open>internal/pub/pub.go\<close>): how announcements, FETCH and
  SUBSCRIBE requests are answered, and the publishing loops for the catalog, CMAF/LOCMAF tracks, LOC
  tracks and subtitle tracks. A publishing loop is modelled round by round (one MoQ group per round): a
  round returns the operations it performed on the moqtransport publisher (\<open>pub_event\<close>) and whether the
  loop goes on. When the context ends, what the clock shows and which operations fail is decided by the
  environment (\<open>pub_env\<close>). The locale \<open>group_publisher\<close> is the contract of such a round: it follows the
  subgroup protocol (\<open>log_step\<close>), and so do all its repetitions.
\<close>

section \<open>Requests\<close>

type_synonym location = "u64 \<times> u64"

record namespace_entry =
  ne_Namespace :: "string list"
  ne_Catalog :: "catalog option"
  ne_Packaging :: string
  ne_MoqMITracks :: "string \<rightharpoonup> string"

record ('i, 'p, 'u) handler =
  hd_Namespaces :: "namespace_entry list"
  hd_Asset :: "('i, 'p, 'u) asset"
  hd_CatalogDelay :: int

datatype reject_code = CodeZero | SubscribeTrackDoesNotExist | FetchTrackDoesNotExist

datatype reply = Reject reject_code string | Accept "location option" | Crash

datatype pub_job = JobCatalog "catalog option" int | JobSubtitle subtitle_track | JobLOC string
  | JobTrack string string | JobMoqMI string string

fun tupleEqual :: "string list \<Rightarrow> string list \<Rightarrow> bool" where
  "tupleEqual [] [] = True"
| "tupleEqual (x # xs) (y # ys) = (x = y \<and> tupleEqual xs ys)"
| "tupleEqual _ _ = False"

definition interopNamespace :: "string list" where
  "interopNamespace = [''moq-test'', ''interop'']"

definition isInteropNamespace :: "string list \<Rightarrow> bool" where
  "isInteropNamespace ns = tupleEqual ns interopNamespace"

definition announce_handler :: "string list \<Rightarrow> reply" where
  "announce_handler ns = (if isInteropNamespace ns then Accept None
     else Reject CodeZero ''publisher doesn't take announcements'')"

fun find_ns :: "namespace_entry list \<Rightarrow> string list \<Rightarrow> namespace_entry option" where
  "find_ns [] ns = None"
| "find_ns (e # es) ns = (if tupleEqual ns (ne_Namespace e) then Some e else find_ns es ns)"

definition findNamespace :: "('i, 'p, 'u) handler \<Rightarrow> string list \<Rightarrow> namespace_entry option" where
  "findNamespace h ns = find_ns (hd_Namespaces h) ns"

definition locationLess :: "location \<Rightarrow> location \<Rightarrow> bool" where
  "locationLess a b = (if fst a \<noteq> fst b then fst a < fst b else snd a < snd b)"

definition locationInFetchRange :: "location \<Rightarrow> location \<Rightarrow> location \<Rightarrow> bool" where
  "locationInFetchRange loc start stop =
     (if locationLess loc start then False
      else if snd stop = 0 then fst loc \<le> fst stop
      else locationLess loc stop)"

text \<open>The FETCH handler, with what moqtransport and the JSON encoder do as parameters.\<close>

datatype fetch_event = FReject reject_code string | FAccept | FStream | FWrite u64 u64 u64 u8 bytes | FClose

record fetch_env =
  fe_accept :: bool
  fe_stream :: bool
  fe_marshal :: "catalog option \<Rightarrow> bytes res"
  fe_write :: bool

definition fetch_serve :: "fetch_env \<Rightarrow> catalog option \<Rightarrow> location \<Rightarrow> location \<Rightarrow> fetch_event list" where
  "fetch_serve env cat start stop =
     (if locationInFetchRange (0, 0) start stop
      then (case fe_marshal env cat of
          Inl e \<Rightarrow> []
        | Inr json \<Rightarrow> if fe_write env then [FWrite 0 0 0 0 json, FClose] else [])
      else [FClose])"

definition fetch_handler :: "('i, 'p, 'u) handler \<Rightarrow> fetch_env \<Rightarrow> string list \<Rightarrow> string \<Rightarrow> location \<Rightarrow> location \<Rightarrow> fetch_event list" where
  "fetch_handler h env ns track start stop = (case findNamespace h ns of
     None \<Rightarrow> [FReject FetchTrackDoesNotExist ''non-matching namespace'']
   | Some e \<Rightarrow>
       if ne_Packaging e = ''moqmi'' then [FReject FetchTrackDoesNotExist ''moq-mi has no catalog'']
       else if track \<noteq> ''catalog'' then [FReject FetchTrackDoesNotExist ''only catalog is fetchable'']
       else if \<not> fe_accept env then []
       else if \<not> fe_stream env then [FAccept]
       else [FAccept, FStream] @ fetch_serve env (ne_Catalog e) start stop)"

definition ResolveMoqMITrack :: "(string \<rightharpoonup> string) \<Rightarrow> string \<Rightarrow> string" where
  "ResolveMoqMITrack m name = (case m name of None \<Rightarrow> [] | Some t \<Rightarrow> t)"

text \<open>The SUBSCRIBE handler: the reply and, if accepting worked, the publishing goroutine it starts.\<close>

definition accepted :: "bool \<Rightarrow> location option \<Rightarrow> pub_job \<Rightarrow> reply \<times> pub_job option" where
  "accepted ok loc job = (Accept loc, if ok then Some job else None)"

definition subscribe_moqmi :: "bool \<Rightarrow> namespace_entry \<Rightarrow> string \<Rightarrow> reply \<times> pub_job option" where
  "subscribe_moqmi ok e track =
     (if track = ''catalog'' then (Reject SubscribeTrackDoesNotExist ''moq-mi has no catalog'', None)
      else let assetTrack = ResolveMoqMITrack (ne_MoqMITracks e) track
        in if assetTrack = [] then (Reject SubscribeTrackDoesNotExist ''unknown moq-mi track'', None)
           else accepted ok None (JobMoqMI assetTrack track))"

definition subscribe_track :: "('i, 'p, 'u) handler \<Rightarrow> bool \<Rightarrow> namespace_entry \<Rightarrow> string \<Rightarrow> reply \<times> pub_job option" where
  "subscribe_track h ok e track = (case GetSubtitleTrackByName (hd_Asset h) track of
     Some st \<Rightarrow> accepted ok None (JobSubtitle st)
   | None \<Rightarrow> (case ne_Catalog e of
       None \<Rightarrow> (Crash, None)
     | Some cat \<Rightarrow> (case first_named tr_Name (cat_Tracks cat) track of
         Some t \<Rightarrow> accepted ok None (if ne_Packaging e = ''loc'' then JobLOC (tr_Name t)
                                       else JobTrack (tr_Name t) (tr_Packaging t))
       | None \<Rightarrow> (Reject SubscribeTrackDoesNotExist ''unknown track'', None))))"

definition subscribe_handler :: "('i, 'p, 'u) handler \<Rightarrow> bool \<Rightarrow> string list \<Rightarrow> string \<Rightarrow> reply \<times> pub_job option" where
  "subscribe_handler h ok ns track =
     (if isInteropNamespace ns then (Accept None, None)
      else case findNamespace h ns of
        None \<Rightarrow> (Reject CodeZero ''non-matching namespace'', None)
      | Some e \<Rightarrow>
          if ne_Packaging e = ''moqmi'' then subscribe_moqmi ok e track
          else if track = ''catalog''
          then accepted ok (if hd_CatalogDelay h > 0 then None else Some (0, 0)) (JobCatalog (ne_Catalog e) (hd_CatalogDelay h))
          else subscribe_track h ok e track)"

section \<open>Publishing\<close>

datatype pub_event = OpenSubgroup u64 u64 u8 | WriteObject u64 "kv list" bytes | CloseSubgroup

text \<open>\<open>pe_ctxErr g\<close>: the context is done at the start of group \<open>g\<close>; \<open>pe_objErr g k\<close>: when object \<open>k\<close> is
  up; \<open>pe_waitErr g k\<close>: during the wait for it; \<open>pe_now g k\<close>: the clock then.\<close>

record pub_env =
  pe_ctxErr :: "u64 \<Rightarrow> bool"
  pe_openErr :: "u64 \<Rightarrow> bool"
  pe_objErr :: "u64 \<Rightarrow> nat \<Rightarrow> bool"
  pe_waitErr :: "u64 \<Rightarrow> nat \<Rightarrow> bool"
  pe_now :: "u64 \<Rightarrow> nat \<Rightarrow> int"
  pe_writeErr :: "u64 \<Rightarrow> nat \<Rightarrow> go_error option"
  pe_closeErr :: "u64 \<Rightarrow> bool"

definition ctx_err :: "bool \<Rightarrow> go_error option" where
  "ctx_err b = (if b then Some (Errorf ''context done'') else None)"

definition group_env :: "pub_env \<Rightarrow> u64 \<Rightarrow> write_env" where
  "group_env env g = \<lparr>we_err = (\<lambda>k. ctx_err (pe_objErr env g k)), we_now = pe_now env g, we_done = (\<lambda>k. ctx_err (pe_waitErr env g k))\<rparr>"

text \<open>\<^verbatim>\<open>sg.WriteObject\<close>, recording what was written.\<close>

definition log_write :: "pub_env \<Rightarrow> u64 \<Rightarrow> pub_event list \<Rightarrow> nat \<Rightarrow> bytes \<Rightarrow> pub_event list \<times> go_error option" where
  "log_write env g w k ob = (case pe_writeErr env g k of
     Some e \<Rightarrow> (w, Some e) | None \<Rightarrow> (w @ [WriteObject (of_nat k) [] ob], None))"

definition close_group :: "pub_env \<Rightarrow> u64 \<Rightarrow> pub_event list \<Rightarrow> pub_event list \<times> bool" where
  "close_group env g w = (if pe_closeErr env g then (w, False) else (w @ [CloseSubgroup], True))"

definition PublishCatalog :: "(catalog option \<Rightarrow> bytes res) \<Rightarrow> pub_env \<Rightarrow> catalog option \<Rightarrow> int \<Rightarrow> pub_event list" where
  "PublishCatalog marshal env cat delay = (case marshal cat of
     Inl e \<Rightarrow> []
   | Inr payload \<Rightarrow>
       if delay > 0 \<and> pe_waitErr env 0 0 then []
       else if pe_openErr env 0 then []
       else (case pe_writeErr env 0 0 of
           Some e \<Rightarrow> [OpenSubgroup 0 0 0]
         | None \<Rightarrow> fst (close_group env 0 [OpenSubgroup 0 0 0, WriteObject 0 [] payload])))"

text \<open>Repeating rounds: the publishing loops run until a round says stop; \<open>n\<close> bounds the number of rounds
  that are looked at.\<close>

fun publish_rounds :: "nat \<Rightarrow> (u64 \<Rightarrow> 's \<Rightarrow> ('s \<times> pub_event list \<times> bool) option) \<Rightarrow> u64 \<Rightarrow> 's \<Rightarrow>
    ('s \<times> pub_event list \<times> bool) option" where
  "publish_rounds 0 f g s = Some (s, [], True)"
| "publish_rounds (Suc n) f g s = (case f g s of
     None \<Rightarrow> None
   | Some (s1, es, cont) \<Rightarrow> if \<not> cont then Some (s1, es, False)
       else case publish_rounds n f (g + 1) s1 of
         None \<Rightarrow> None | Some (s2, es2, c) \<Rightarrow> Some (s2, es @ es2, c))"

text \<open>One round of \<^verbatim>\<open>PublishTrack\<close>; the track is the loop's state because encryption advances its IV.\<close>

definition track_round :: "nat \<Rightarrow> ('f, 'm, 'd, 'i, 'p, 's) mp4_lib \<Rightarrow> 'g go608 \<Rightarrow> pub_env \<Rightarrow> string \<Rightarrow> u64 \<Rightarrow>
    ('i, 'p, unit_cue) content_track \<Rightarrow> (('i, 'p, unit_cue) content_track \<times> pub_event list \<times> bool) option" where
  "track_round fuel M C env packaging g ct =
     (if pe_ctxErr env g \<or> pe_openErr env g then Some (ct, [], False)
      else case GenMoQGroup fuel M C ct g (ct_SampleBatch ct) MoqGroupDurMS packaging of
        None \<Rightarrow> None
      | Some (ct1, Inl e) \<Rightarrow> Some (ct1, [OpenSubgroup g 0 MediaPriority], False)
      | Some (ct1, Inr mg) \<Rightarrow> Some (case WriteMoQGroup (group_env env g) ct1 mg (log_write env g) [OpenSubgroup g 0 MediaPriority] of
          (w, Some e) \<Rightarrow> (ct1, w, False)
        | (w, None) \<Rightarrow> (ct1, close_group env g w)))"

definition PublishTrack :: "nat \<Rightarrow> nat \<Rightarrow> ('f, 'm, 'd, 'i, 'p, 's) mp4_lib \<Rightarrow> 'g go608 \<Rightarrow> pub_env \<Rightarrow>
    ('i, 'p, unit_cue) asset \<Rightarrow> string \<Rightarrow> string \<Rightarrow> int \<Rightarrow> (('i, 'p, unit_cue) content_track option \<times> pub_event list \<times> bool) option" where
  "PublishTrack n fuel M C env a trackName packaging now =
     (case asset_GetTrackByName a (trim_suffix trackName LocmafTrackSuffix) of
        None \<Rightarrow> Some (None, [], False)
      | Some ct \<Rightarrow> (case CurrMoQGroupNr ct (of_int now) MoqGroupDurMS of
          Inl e \<Rightarrow> Some (None, [], False)
        | Inr currNr \<Rightarrow> map_option (\<lambda>(ct', es, c). (Some ct', es, c))
            (publish_rounds n (track_round fuel M C env packaging) (currNr + 1) ct)))"

section \<open>LOC tracks\<close>

text \<open>The headers and payload of one LOC object; \<open>isSync\<close> is mp4ff's \<^verbatim>\<open>IsSync\<close>.\<close>

record 'i loc_config =
  lc_config :: bytes
  lc_av1 :: "'i av1_data option"

definition loc_config_of :: "('i, 'p, 'u) content_track \<Rightarrow> 'i loc_config" where
  "loc_config_of ct = (case ct_SpecData ct of
     Some (AVCData d) \<Rightarrow> \<lparr>lc_config = GenLOCVideoConfig_AVC d, lc_av1 = None\<rparr>
   | Some (HEVCData d) \<Rightarrow> \<lparr>lc_config = GenLOCVideoConfig_HEVC d, lc_av1 = None\<rparr>
   | Some (AV1Data d) \<Rightarrow> \<lparr>lc_config = GenLOCVideoConfig_AV1 d, lc_av1 = Some d\<rparr>
   | _ \<Rightarrow> \<lparr>lc_config = [], lc_av1 = None\<rparr>)"

definition loc_sample :: "('i, 'h, 'k) av1_lib \<Rightarrow> 'g go608 \<Rightarrow> video_captioner \<Rightarrow> bytes list option \<Rightarrow>
    ('i, 'p, unit_cue) loc_track \<Rightarrow> u64 \<Rightarrow> u64 \<Rightarrow> (kv list \<times> bytes) res" where
  "loc_sample A C cap sei lt startNr sampleNr = (let ct = lt_ContentTrack lt in
     case CalcSample ct sampleNr of
       Inl e \<Rightarrow> Inl e
     | Inr (_, origNr) \<Rightarrow> (case idx (ct_Samples ct) (unat origNr) of
       Inl e \<Rightarrow> Inl e
     | Inr sample \<Rightarrow> (case (case lt_SpatialLayer lt of None \<Rightarrow> Inr (fs_Data sample) | Some l \<Rightarrow> idx (sl_Samples l) (unat origNr)) of
       Inl e \<Rightarrow> Inl e
     | Inr dat0 \<Rightarrow>
         let dat = spliceFrame C cap dat0 sei sampleNr startNr;
             lc = loc_config_of ct;
             config = (case lc_av1 lc of None \<Rightarrow> lc_config lc | Some ad \<Rightarrow> GenLOCVideoConfigForSample A ad dat)
         in buildLOCObject dat (al1_IsSync A (fs_Flags sample)) (sampleNr * ucast (ct_SampleDur ct))
              (ucast (ct_TimeScale ct)) config (lt_SpatialLayer lt))))"

definition loc_due :: "('i, 'p, 'u) content_track \<Rightarrow> u64 \<Rightarrow> int" where
  "loc_due ct sampleNr = sint (sampleNr * ucast (ct_SampleDur ct) * 1000 div ucast (ct_TimeScale ct))"

function loc_objects :: "(u64 \<Rightarrow> (kv list \<times> bytes) res) \<Rightarrow> (u64 \<Rightarrow> int) \<Rightarrow> pub_env \<Rightarrow> u64 \<Rightarrow> u64 \<Rightarrow> u64 \<Rightarrow> nat \<Rightarrow>
    pub_event list \<times> bool" where
  "loc_objects gen due env g nr endNr k =
     (if nr < endNr then
        if pe_objErr env g k then ([CloseSubgroup], False)
        else case gen nr of
          Inl e \<Rightarrow> ([], False)
        | Inr (headers, payload) \<Rightarrow>
            if due nr - pe_now env g k > 0 \<and> pe_waitErr env g k then ([CloseSubgroup], False)
            else (case pe_writeErr env g k of
                Some e \<Rightarrow> ([CloseSubgroup], False)
              | None \<Rightarrow> (case loc_objects gen due env g (nr + 1) endNr (Suc k) of
                  (es, c) \<Rightarrow> (WriteObject (of_nat k) headers payload # es, c)))
      else ([], True))"
  by auto
termination
  by (relation "measure (\<lambda>(gen, due, env, g, nr, e, k). unat (e - nr))") (auto intro: word_loop_measure)

declare loc_objects.simps [simp del]

definition loc_round :: "('i, 'h, 'k) av1_lib \<Rightarrow> 'g go608 \<Rightarrow> pub_env \<Rightarrow> video_captioner \<Rightarrow> u8 \<Rightarrow> u64 \<Rightarrow>
    ('i, 'p, unit_cue) loc_track \<Rightarrow> (('i, 'p, unit_cue) loc_track \<times> pub_event list \<times> bool) option" where
  "loc_round A C env cap spatialID g lt =
     (if pe_ctxErr env g \<or> pe_openErr env g then Some (lt, [], False)
      else let ct = lt_ContentTrack lt; opened = OpenSubgroup g 0 (locPriority spatialID)
        in case CalcLOCGroupRange ct g MoqGroupDurMS of
          Inl e \<Rightarrow> Some (lt, [opened], False)
        | Inr (startNr, endNr) \<Rightarrow>
            let sei = schedule C cap (sint g) startNr endNr
            in Some (case loc_objects (loc_sample A C cap sei lt startNr) (loc_due ct) env g startNr endNr 0 of
                (es, False) \<Rightarrow> (lt, opened # es, False)
              | (es, True) \<Rightarrow> (lt, close_group env g (opened # es))))"

definition PublishLOCTrack :: "nat \<Rightarrow> ('i, 'h, 'k) av1_lib \<Rightarrow> 'g go608 \<Rightarrow> pub_env \<Rightarrow> ('i, 'p, unit_cue) asset \<Rightarrow> string \<Rightarrow>
    int \<Rightarrow> (pub_event list \<times> bool) option" where
  "PublishLOCTrack n A C env a trackName now = (case GetLOCTrackByName a trackName of
     None \<Rightarrow> Some ([], False)
   | Some lt \<Rightarrow>
       let ct = lt_ContentTrack lt; spatialID = (case lt_SpatialLayer lt of None \<Rightarrow> 0 | Some l \<Rightarrow> sl_SpatialID l)
       in if ct_TimeScale ct = 0 \<or> ct_SampleDur ct = 0 then Some ([], False)
       else case newVideoCaptioner ct of
         Inl e \<Rightarrow> Some ([], False)
       | Inr cap \<Rightarrow> (case CurrMoQGroupNr ct (of_int now) MoqGroupDurMS of
           Inl e \<Rightarrow> Some ([], False)
         | Inr currNr \<Rightarrow> map_option (\<lambda>(lt', es, c). (es, c)) (publish_rounds n (loc_round A C env cap spatialID) (currNr + 1) lt)))"

section \<open>Subtitle tracks\<close>

definition WriteSubtitleGroup :: "write_env \<Rightarrow> moq_group \<Rightarrow> u64 \<Rightarrow> ('w \<Rightarrow> nat \<Rightarrow> bytes \<Rightarrow> 'w \<times> go_error option) \<Rightarrow> 'w \<Rightarrow>
    'w \<times> go_error option" where
  "WriteSubtitleGroup env mg g cb w = write_loop env (\<lambda>k. sint (g * ucast MoqGroupDurMS)) cb 0 (mg_MoQObjects mg) w"

definition subtitle_round :: "nat \<Rightarrow> 'f sub_lib \<Rightarrow> pub_env \<Rightarrow> u64 \<Rightarrow> subtitle_track \<Rightarrow> (subtitle_track \<times> pub_event list \<times> bool) option" where
  "subtitle_round fuel S env g st =
     (if pe_ctxErr env g \<or> pe_openErr env g then Some (st, [], False)
      else case GenSubtitleGroup fuel S st g MoqGroupDurMS of
        None \<Rightarrow> None
      | Some (Inl e) \<Rightarrow> Some (st, [OpenSubgroup g 0 MediaPriority], False)
      | Some (Inr mg) \<Rightarrow> Some (case WriteSubtitleGroup (group_env env g) mg g (log_write env g) [OpenSubgroup g 0 MediaPriority] of
          (w, Some e) \<Rightarrow> (st, w, False)
        | (w, None) \<Rightarrow> (st, close_group env g w)))"

definition PublishSubtitleTrack :: "nat \<Rightarrow> nat \<Rightarrow> 'f sub_lib \<Rightarrow> pub_env \<Rightarrow> subtitle_track \<Rightarrow> int \<Rightarrow> (pub_event list \<times> bool) option" where
  "PublishSubtitleTrack n fuel S env st now = (case CurrSubtitleGroupNr (of_int now) MoqGroupDurMS of
     Inl e \<Rightarrow> Some ([], False)
   | Inr currNr \<Rightarrow> map_option (\<lambda>(st', es, c). (es, c)) (publish_rounds n (subtitle_round fuel S env) (currNr + 1) st))"

end
