(* ===== verification/Deps.thy ===== *)
theory Deps
  imports Catalog
begin

text \<open>
  \<^verbatim>\<open>dependencyOrder\<close> of \<^verbatim>\<open>internal/sub/sub.go\<close>: the depth-first search over the
  \<^verbatim>\<open>dependencies\<close> of catalog tracks that gives the subscriber the order in which the layers
  of a scalable track are subscribed. The closure's captured variables are the record
  \<open>dep_state\<close>; the recursion is bounded by fuel, and \<open>visit_enough_fuel\<close> shows that
  one more than the number of catalog tracks always suffices, because every pending call is for a
  different track of the catalog.
\<close>

record dep_state =
  ds_ordered :: "string list"
  ds_visiting :: "string list"
  ds_visited :: "string list"

fun visit :: "nat \<Rightarrow> catalog \<Rightarrow> string \<Rightarrow> dep_state \<Rightarrow> dep_state res option"
and visit_deps :: "nat \<Rightarrow> catalog \<Rightarrow> string list \<Rightarrow> dep_state \<Rightarrow> dep_state res option" where
  "visit 0 c n s = None"
| "visit (Suc k) c n s =
     (if n \<in> set (ds_visited s) then Some (Inr s)
      else if n \<in> set (ds_visiting s) then Some (Inl (Errorf (''video dependency cycle at '' @ n)))
      else case GetTrackByName c n of
        None \<Rightarrow> Some (Inl (Errorf (''video dependency track not found: '' @ n)))
      | Some t \<Rightarrow> (case visit_deps k c (tr_Dependencies t) (s\<lparr>ds_visiting := n # ds_visiting s\<rparr>) of
          None \<Rightarrow> None
        | Some (Inl e) \<Rightarrow> Some (Inl e)
        | Some (Inr s') \<Rightarrow> Some (Inr (s'\<lparr>ds_visiting := removeAll n (ds_visiting s'),
            ds_visited := n # ds_visited s', ds_ordered := ds_ordered s' @ [n]\<rparr>))))"
| "visit_deps k c [] s = Some (Inr s)"
| "visit_deps k c (d # ds) s = (case visit k c d s of
      None \<Rightarrow> None | Some (Inl e) \<Rightarrow> Some (Inl e) | Some (Inr s') \<Rightarrow> visit_deps k c ds s')"

definition dependencyOrder :: "catalog \<Rightarrow> string \<Rightarrow> string list res option" where
  "dependencyOrder c n =
     (case visit (Suc (length (cat_Tracks c))) c n \<lparr>ds_ordered = [], ds_visiting = [], ds_visited = []\<rparr> of
        None \<Rightarrow> None | Some (Inl e) \<Rightarrow> Some (Inl e) | Some (Inr s) \<Rightarrow> Some (Inr (ds_ordered s)))"

section \<open>Specification\<close>

text \<open>The dependency relation of a catalog and dependency-first orders.\<close>

definition dep :: "catalog \<Rightarrow> string \<Rightarrow> string \<Rightarrow> bool" where
  "dep c n d \<longleftrightarrow> (\<exists>t. GetTrackByName c n = Some t \<and> d \<in> set (tr_Dependencies t))"

definition topo :: "catalog \<Rightarrow> string list \<Rightarrow> bool" where
  "topo c xs \<longleftrightarrow> (\<forall>i < length xs. \<exists>t. GetTrackByName c (xs ! i) = Some t \<and>
                    set (tr_Dependencies t) \<subseteq> set (take i xs))"

lemma topo_Nil [simp]: "topo c []"
  by (simp add: topo_def)

lemma topo_snoc:
  "topo c (xs @ [n]) \<longleftrightarrow> topo c xs \<and> (\<exists>t. GetTrackByName c n = Some t \<and> set (tr_Dependencies t) \<subseteq> set xs)"
  unfolding topo_def by (auto simp: nth_append less_Suc_eq)

lemma topo_dep_closed: "topo c xs \<Longrightarrow> n \<in> set xs \<Longrightarrow> dep c n d \<Longrightarrow> d \<in> set xs"
  by (fastforce simp: topo_def dep_def in_set_conv_nth [of n] dest: in_set_takeD)

lemma topo_reach_closed: "(dep c)\<^sup>*\<^sup>* n m \<Longrightarrow> topo c xs \<Longrightarrow> n \<in> set xs \<Longrightarrow> m \<in> set xs"
  by (induction rule: rtranclp_induct) (auto intro: topo_dep_closed)

section \<open>The search\<close>

definition dep_inv :: "catalog \<Rightarrow> dep_state \<Rightarrow> bool" where
  "dep_inv c s \<longleftrightarrow> topo c (ds_ordered s) \<and> distinct (ds_ordered s) \<and>
     set (ds_visited s) = set (ds_ordered s) \<and> set (ds_visiting s) \<inter> set (ds_visited s) = {}"

text \<open>What a completed call has done: the pending set is as before, the order has grown by names
  reachable from the roots of the call.\<close>

definition dep_grown :: "catalog \<Rightarrow> string set \<Rightarrow> dep_state \<Rightarrow> dep_state \<Rightarrow> bool" where
  "dep_grown c roots s s' \<longleftrightarrow> dep_inv c s' \<and> ds_visiting s' = ds_visiting s \<and>
     roots \<subseteq> set (ds_visited s') \<and>
     (\<exists>zs. ds_ordered s' = ds_ordered s @ zs \<and> (\<forall>z \<in> set zs. \<exists>r \<in> roots. (dep c)\<^sup>*\<^sup>* r z))"

lemma dep_grown_trans:
  assumes a: "dep_grown c R1 s s1" and b: "dep_grown c R2 s1 s2"
  shows "dep_grown c (R1 \<union> R2) s s2"
proof -
  from a obtain z1 where z1: "ds_ordered s1 = ds_ordered s @ z1" "\<forall>z \<in> set z1. \<exists>r \<in> R1. (dep c)\<^sup>*\<^sup>* r z"
    by (auto simp: dep_grown_def)
  from b obtain z2 where z2: "ds_ordered s2 = ds_ordered s1 @ z2" "\<forall>z \<in> set z2. \<exists>r \<in> R2. (dep c)\<^sup>*\<^sup>* r z"
    by (auto simp: dep_grown_def)
  have "set (ds_visited s1) \<subseteq> set (ds_visited s2)"
    using a b z2 by (auto simp: dep_grown_def dep_inv_def)
  moreover have "ds_ordered s2 = ds_ordered s @ (z1 @ z2)" using z1 z2 by simp
  moreover have "\<forall>z \<in> set (z1 @ z2). \<exists>r \<in> R1 \<union> R2. (dep c)\<^sup>*\<^sup>* r z" using z1 z2 by auto
  ultimately show ?thesis using a b unfolding dep_grown_def by (metis Un_subset_iff subset_trans)
qed

lemma dep_grown_finish:
  assumes n: "n \<notin> set (ds_visited s)" "n \<notin> set (ds_visiting s)" and t: "GetTrackByName c n = Some t"
    and g: "dep_grown c (set (tr_Dependencies t)) (s\<lparr>ds_visiting := n # ds_visiting s\<rparr>) s'"
  shows "dep_grown c {n} s (s'\<lparr>ds_visiting := removeAll n (ds_visiting s'),
           ds_visited := n # ds_visited s', ds_ordered := ds_ordered s' @ [n]\<rparr>)"
proof -
  from g obtain zs where zs: "ds_ordered s' = ds_ordered s @ zs"
    "\<forall>z \<in> set zs. \<exists>r \<in> set (tr_Dependencies t). (dep c)\<^sup>*\<^sup>* r z" by (auto simp: dep_grown_def)
  have v: "ds_visiting s' = n # ds_visiting s" and i: "dep_inv c s'"
    and sub: "set (tr_Dependencies t) \<subseteq> set (ds_ordered s')"
    using g by (auto simp: dep_grown_def dep_inv_def)
  have nn: "n \<notin> set (ds_ordered s')" using v i by (auto simp: dep_inv_def)
  have step: "\<And>r. r \<in> set (tr_Dependencies t) \<Longrightarrow> dep c n r" using t by (auto simp: dep_def)
  have rch: "\<forall>z \<in> set (zs @ [n]). (dep c)\<^sup>*\<^sup>* n z"
    using zs(2) step by (auto intro: converse_rtranclp_into_rtranclp)
  have rm: "removeAll n (ds_visiting s') = ds_visiting s" using v n by simp
  show ?thesis unfolding dep_grown_def
    using i nn sub t n rch v topo_snoc [of c "ds_ordered s @ zs" n] by (auto simp: dep_inv_def rm zs(1))
qed

lemma visit_sound:
  "visit k c n s = Some (Inr s') \<Longrightarrow> dep_inv c s \<Longrightarrow>
     dep_grown c {n} s s' \<and> (n \<notin> set (ds_visited s) \<longrightarrow> last (ds_ordered s') = n)"
  "visit_deps k c ns s = Some (Inr s') \<Longrightarrow> dep_inv c s \<Longrightarrow> dep_grown c (set ns) s s'"
proof (induction k c n s and k c ns s arbitrary: s' and s' rule: visit_visit_deps.induct)
  case (2 k c n s)
  show ?case
  proof (cases "n \<in> set (ds_visited s)")
    case True
    with 2 show ?thesis by (auto simp: dep_grown_def)
  next
    case False
    with 2(2) obtain t s1 where n: "n \<notin> set (ds_visiting s)" and t: "GetTrackByName c n = Some t"
      and call: "visit_deps k c (tr_Dependencies t) (s\<lparr>ds_visiting := n # ds_visiting s\<rparr>) = Some (Inr s1)"
      and s': "s' = s1\<lparr>ds_visiting := removeAll n (ds_visiting s1),
            ds_visited := n # ds_visited s1, ds_ordered := ds_ordered s1 @ [n]\<rparr>"
      by (auto split: if_splits option.splits sum.splits)
    have "dep_inv c (s\<lparr>ds_visiting := n # ds_visiting s\<rparr>)" using 2(3) False by (auto simp: dep_inv_def)
    from 2(1) [OF False n t call this] show ?thesis
      using dep_grown_finish [OF False n t] s' by simp
  qed
next
  case (4 k c d ds s)
  from 4(3) obtain s1 where c1: "visit k c d s = Some (Inr s1)" and c2: "visit_deps k c ds s1 = Some (Inr s')"
    by (auto split: option.splits sum.splits)
  from 4(1) [OF c1 4(4)] have g1: "dep_grown c {d} s s1" by simp
  then have "dep_inv c s1" by (simp add: dep_grown_def)
  from 4(2) [OF c1 refl c2 this] g1 show ?case using dep_grown_trans by fastforce
qed (auto simp: dep_grown_def)

lemma names_bound:
  assumes "distinct vs" and "set vs \<subseteq> tr_Name ` set (cat_Tracks c)"
  shows "length vs \<le> length (cat_Tracks c)"
proof -
  have "length vs = card (set vs)" using assms(1) by (simp add: distinct_card)
  also have "\<dots> \<le> card (tr_Name ` set (cat_Tracks c))" using assms(2) by (intro card_mono) auto
  also have "\<dots> \<le> length (cat_Tracks c)" by (metis card_image_le card_length le_trans List.finite_set)
  finally show ?thesis .
qed

lemma visit_enough_fuel:
  "dep_inv c s \<Longrightarrow> distinct (ds_visiting s) \<Longrightarrow> set (ds_visiting s) \<subseteq> tr_Name ` set (cat_Tracks c) \<Longrightarrow>
     length (cat_Tracks c) < k + length (ds_visiting s) \<Longrightarrow> visit k c n s \<noteq> None"
  "dep_inv c s \<Longrightarrow> distinct (ds_visiting s) \<Longrightarrow> set (ds_visiting s) \<subseteq> tr_Name ` set (cat_Tracks c) \<Longrightarrow>
     length (cat_Tracks c) < k + length (ds_visiting s) \<Longrightarrow> visit_deps k c ns s \<noteq> None"
proof (induction k c n s and k c ns s rule: visit_visit_deps.induct)
  case (1 c n s)
  then show ?case using names_bound [of "ds_visiting s" c] by simp
next
  case (2 k c n s)
  show ?case
  proof (cases "n \<in> set (ds_visited s) \<or> n \<in> set (ds_visiting s) \<or> GetTrackByName c n = None")
    case True
    then show ?thesis by auto
  next
    case False
    then obtain t where t: "GetTrackByName c n = Some t" by auto
    let ?s = "s\<lparr>ds_visiting := n # ds_visiting s\<rparr>"
    from t have "n \<in> tr_Name ` set (cat_Tracks c)"
      using catalog_lookup.lookup_sound by (metis imageI)
    then have "visit_deps k c (tr_Dependencies t) ?s \<noteq> None"
      using False 2(2-5) by (intro 2(1)) (auto simp: t dep_inv_def)
    then show ?thesis using False t by (auto split: sum.splits)
  qed
next
  case (4 k c d ds s)
  then obtain r where r: "visit k c d s = Some r" by auto
  show ?case
  proof (cases r)
    case (Inr s1)
    have "dep_grown c {d} s s1" using visit_sound(1) [of k c d s s1] r Inr 4(3) by simp
    then have "dep_inv c s1" "ds_visiting s1 = ds_visiting s" by (auto simp: dep_grown_def)
    with 4(2) [OF r Inr] 4(4-6) show ?thesis using r Inr by simp
  qed (use r in simp)
qed simp

text \<open>Why a search fails: a missing track or a cycle, reachable from the root.\<close>

definition dep_fault :: "catalog \<Rightarrow> string \<Rightarrow> go_error \<Rightarrow> bool" where
  "dep_fault c n e \<longleftrightarrow> (\<exists>m. (dep c)\<^sup>*\<^sup>* n m \<and>
     (GetTrackByName c m = None \<and> e = Errorf (''video dependency track not found: '' @ m) \<or>
      (dep c)\<^sup>+\<^sup>+ m m \<and> e = Errorf (''video dependency cycle at '' @ m)))"

lemma dep_fault_step: "dep c n d \<Longrightarrow> dep_fault c d e \<Longrightarrow> dep_fault c n e"
  unfolding dep_fault_def by (blast intro: converse_rtranclp_into_rtranclp)

lemma visit_fault:
  "visit k c n s = Some (Inl e) \<Longrightarrow> dep_inv c s \<Longrightarrow> \<forall>v \<in> set (ds_visiting s). (dep c)\<^sup>+\<^sup>+ v n \<Longrightarrow>
     dep_fault c n e"
  "visit_deps k c ns s = Some (Inl e) \<Longrightarrow> dep_inv c s \<Longrightarrow>
     \<forall>v \<in> set (ds_visiting s). \<forall>d \<in> set ns. (dep c)\<^sup>+\<^sup>+ v d \<Longrightarrow> \<exists>d \<in> set ns. dep_fault c d e"
proof (induction k c n s and k c ns s rule: visit_visit_deps.induct)
  case (2 k c n s)
  then have nv: "n \<notin> set (ds_visited s)" by auto
  consider "n \<in> set (ds_visiting s)" | "n \<notin> set (ds_visiting s)" "GetTrackByName c n = None"
    | t where "n \<notin> set (ds_visiting s)" "GetTrackByName c n = Some t" by (cases "GetTrackByName c n") auto
  then show ?case
  proof cases
    case 1
    with 2(2,4) nv show ?thesis by (auto simp: dep_fault_def)
  next
    case 2
    with "2.prems"(1) nv show ?thesis by (auto simp: dep_fault_def)
  next
    case (3 t)
    let ?s = "s\<lparr>ds_visiting := n # ds_visiting s\<rparr>"
    have step: "\<And>d. d \<in> set (tr_Dependencies t) \<Longrightarrow> dep c n d" using 3 by (auto simp: dep_def)
    have "visit_deps k c (tr_Dependencies t) ?s = Some (Inl e)"
      using 2(2) nv 3 by (auto split: option.splits sum.splits)
    moreover have "dep_inv c ?s" using 2(3) nv by (auto simp: dep_inv_def)
    moreover have "\<forall>v \<in> set (ds_visiting ?s). \<forall>d \<in> set (tr_Dependencies t). (dep c)\<^sup>+\<^sup>+ v d"
      using 2(4) step by (auto intro: tranclp.trancl_into_trancl)
    ultimately show ?thesis using 2(1) [OF nv 3] step dep_fault_step by blast
  qed
next
  case (4 k c d ds s)
  then obtain r where r: "visit k c d s = Some r" by (auto split: option.splits)
  show ?case
  proof (cases r)
    case (Inl e')
    with 4 r show ?thesis by auto
  next
    case (Inr s1)
    have "dep_grown c {d} s s1" using visit_sound(1) [of k c d s s1] r Inr 4(4) by simp
    then have "dep_inv c s1" "ds_visiting s1 = ds_visiting s" by (auto simp: dep_grown_def)
    with 4(2) [OF r Inr] 4(3,5) r Inr show ?thesis by auto
  qed
qed simp_all

lemma dependencyOrder_result:
  obtains (fault) e where "dependencyOrder c n = Some (Inl e)" "dep_fault c n e"
  | (ok) xs where "dependencyOrder c n = Some (Inr xs)" "set xs = {m. (dep c)\<^sup>*\<^sup>* n m}" "distinct xs"
      "topo c xs" "xs \<noteq> []" "last xs = n"
proof -
  let ?k = "Suc (length (cat_Tracks c))"
    and ?s = "\<lparr>ds_ordered = [], ds_visiting = [], ds_visited = []\<rparr>"
  have i: "dep_inv c ?s" by (simp add: dep_inv_def)
  obtain r where r: "visit ?k c n ?s = Some r" using visit_enough_fuel(1) [OF i, of ?k n] by auto
  show thesis
  proof (cases r)
    case (Inl e)
    then have "dep_fault c n e" using visit_fault(1) [of ?k c n ?s e] i r by (simp del: visit.simps)
    then show thesis using r Inl by (intro fault) (simp_all only: dependencyOrder_def option.case sum.case)
  next
    case (Inr s')
    with visit_sound(1) [of ?k c n ?s s'] i r have g: "dep_grown c {n} ?s s'" and l: "last (ds_ordered s') = n"
      by (simp_all del: visit.simps)
    then have t: "topo c (ds_ordered s')" "distinct (ds_ordered s')" "n \<in> set (ds_ordered s')"
      "\<forall>z \<in> set (ds_ordered s'). (dep c)\<^sup>*\<^sup>* n z" by (auto simp: dep_grown_def dep_inv_def)
    have "dependencyOrder c n = Some (Inr (ds_ordered s'))"
      using r Inr by (simp only: dependencyOrder_def option.case sum.case)
    moreover have "set (ds_ordered s') = {m. (dep c)\<^sup>*\<^sup>* n m}" using t topo_reach_closed by blast
    moreover have "ds_ordered s' \<noteq> []" using t(3) by auto
    ultimately show thesis using t(1,2) l ok by blast
  qed
qed

text \<open>A catalog without missing tracks and cycles below the track has an order.\<close>

lemma dependencyOrder_complete:
  assumes "\<And>m. (dep c)\<^sup>*\<^sup>* n m \<Longrightarrow> GetTrackByName c m \<noteq> None \<and> \<not> (dep c)\<^sup>+\<^sup>+ m m"
  shows "\<exists>xs. dependencyOrder c n = Some (Inr xs)"
proof (cases rule: dependencyOrder_result [of c n])
  case (fault e)
  then show ?thesis using assms unfolding dep_fault_def by metis
qed blast

section \<open>Properties\<close>

text \<open>C4: The dependency search always returns, and what it returns is right: on success the names are
  exactly the track and everything it depends on, each once, every track after all of its
  dependencies and the requested track last; a failure names a track reachable from the requested
  one that is missing from the catalog or lies on a dependency cycle.\<close>

theorem dependencyOrder_correct:
  "case dependencyOrder c n of
     None \<Rightarrow> False
   | Some (Inl e) \<Rightarrow> dep_fault c n e
   | Some (Inr xs) \<Rightarrow> set xs = {m. (dep c)\<^sup>*\<^sup>* n m} \<and> distinct xs \<and> topo c xs \<and> xs \<noteq> [] \<and> last xs = n"
  by (cases rule: dependencyOrder_result [of c n]) simp_all

end
