(* ===== verification/Catalog_Props.thy ===== *)
theory Catalog_Props
  imports Catalog_Gen Deps Playback_Inv
begin

text \<open>
  What the generated catalogs promise to a subscriber: every init reference resolves to the init
  segment of the right rendition, captions are advertised where they are injected, and the layers of
  an SVC source can be looked up, ordered by their dependencies and played.
\<close>

section \<open>Init data\<close>

lemma collect_entries_mem:
  "collect_entries f xs = Inr (ts, ids) \<Longrightarrow> t \<in> set ts \<Longrightarrow>
   \<exists>x ts' ids'. x \<in> set xs \<and> f x = Inr (ts', ids') \<and> t \<in> set ts' \<and> set ids' \<subseteq> set ids"
proof (induction xs arbitrary: ts ids)
  case Nil
  then show ?case by simp
next
  case (Cons x xs)
  from Cons.prems(1) obtain ts1 ids1 ts2 ids2 where f: "f x = Inr (ts1, ids1)"
    and rec: "collect_entries f xs = Inr (ts2, ids2)" and eq: "ts = ts1 @ ts2" "ids = ids1 @ ids2"
    by (auto split: sum.splits prod.splits)
  show ?case
  proof (cases "t \<in> set ts1")
    case True
    with f eq show ?thesis by fastforce
  next
    case False
    with Cons.IH [OF rec] Cons.prems(2) eq show ?thesis by fastforce
  qed
qed

lemma collect_entries_ids:
  assumes "collect_entries f xs = Inr (ts, ids)"
    and "\<And>x ts ids. f x = Inr (ts, ids) \<Longrightarrow> map id_ID ids = [nm x]"
  shows "map id_ID ids = map nm xs"
  using assms(1)
proof (induction xs arbitrary: ts ids)
  case (Cons x xs)
  then show ?case by (auto split: sum.splits prod.splits dest: assms(2))
qed simp

text \<open>What one entry of the catalog contributes.\<close>

lemma describe_media_fields [simp]:
  "tr_InitRef (describe_media ct sd t) = tr_InitRef t" "tr_Name (describe_media ct sd t) = tr_Name t"
  "tr_Packaging (describe_media ct sd t) = tr_Packaging t" "tr_Dependencies (describe_media ct sd t) = tr_Dependencies t"
  by (simp_all add: describe_media_def)

lemma cmaf_base_InitRef [simp]: "tr_InitRef (cmaf_base ns alt ct sd ref) = ref"
  by (simp add: cmaf_base_def Let_def)

lemma cmaf_entry_result:
  assumes "cmaf_entry G ns alt ct = Inr (ts, ids)"
  obtains sd bs where "ct_SpecData ct = Some sd" and "GenCMAFInitData (gl_EncodeInit G) sd = Inr bs"
    and "ids = [init_entry (ct_Name ct) bs]"
    and "\<forall>tr \<in> set ts. tr_InitRef tr = ''init-'' @ ct_Name ct \<and>
           (tr_Name tr = ct_Name ct \<or> tr_Name tr = ct_Name ct @ LocmafTrackSuffix)"
  using assms
  by (auto simp: cmaf_entry_def Let_def split: option.splits sum.splits prod.splits)

lemma subtitle_entry_result:
  assumes "subtitle_entry G ns n st = Inr (ts, ids)"
  obtains d bs where "st_SpecData st = Some d" and "subtitle_init G d = Inr bs"
    and "ids = [init_entry (st_Name st) bs]"
    and "\<forall>tr \<in> set ts. tr_InitRef tr = ''init-'' @ st_Name st \<and> tr_Name tr = st_Name st"
  using assms by (auto simp: subtitle_entry_def Let_def split: option.splits sum.splits)

text \<open>\<open>bs\<close> is the init segment of the rendition that the advertised name \<open>tn\<close> stands for.\<close>

definition init_of :: "('f, 'm, 'd, 'i, 'p, 's, 'g, 'h, 'k) gen_lib \<Rightarrow> ('i, 'p, unit_cue) asset \<Rightarrow> ProtectionType \<Rightarrow>
    string \<Rightarrow> bytes \<Rightarrow> bool" where
  "init_of G a prot tn bs \<longleftrightarrow>
     (\<exists>alt ct sd. (alt, ct) \<in> set (selected prot a) \<and> (tn = ct_Name ct \<or> tn = ct_Name ct @ LocmafTrackSuffix) \<and>
        ct_SpecData ct = Some sd \<and> GenCMAFInitData (gl_EncodeInit G) sd = Inr bs) \<or>
     (\<exists>st d. st \<in> set (as_SubtitleTracks a) \<and> tn = st_Name st \<and> st_SpecData st = Some d \<and> subtitle_init G d = Inr bs)"

definition advertised_names :: "('i, 'p, 'u) asset \<Rightarrow> ProtectionType \<Rightarrow> string list" where
  "advertised_names a prot = map (\<lambda>(alt, ct). ct_Name ct) (selected prot a) @ map st_Name (as_SubtitleTracks a)"

lemma GenCMAF_parts:
  assumes "GenCMAFCatalogEntry G a ns prot now = Inr cat"
  obtains mts mids sts sids where
    "collect_entries (\<lambda>(alt, ct). cmaf_entry G ns alt ct) (selected prot a) = Inr (mts, mids)"
    and "collect_entries (subtitle_entry G ns (length (as_Groups a))) (as_SubtitleTracks a) = Inr (sts, sids)"
    and "cat_Tracks cat = mts @ sts" and "cat_InitDataList cat = mids @ sids"
  using assms by (auto simp: GenCMAFCatalogEntry_def zero_catalog_def split: sum.splits prod.splits)

lemma GenCMAF_ids:
  assumes "GenCMAFCatalogEntry G a ns prot now = Inr cat"
  shows "map id_ID (cat_InitDataList cat) = map (\<lambda>n. ''init-'' @ n) (advertised_names a prot)"
proof -
  obtain mts mids sts sids where
    m: "collect_entries (\<lambda>(alt, ct). cmaf_entry G ns alt ct) (selected prot a) = Inr (mts, mids)"
    and s: "collect_entries (subtitle_entry G ns (length (as_Groups a))) (as_SubtitleTracks a) = Inr (sts, sids)"
    and i: "cat_InitDataList cat = mids @ sids"
    using GenCMAF_parts [OF assms] by metis
  have "map id_ID mids = map (\<lambda>(alt, ct). ''init-'' @ ct_Name ct) (selected prot a)"
    using m by (rule collect_entries_ids) (auto simp: init_entry_def elim!: cmaf_entry_result)
  moreover have "map id_ID sids = map (\<lambda>st. ''init-'' @ st_Name st) (as_SubtitleTracks a)"
    using s by (rule collect_entries_ids) (auto simp: init_entry_def elim!: subtitle_entry_result)
  ultimately show ?thesis by (simp add: i advertised_names_def case_prod_unfold)
qed

lemma GenCMAF_track:
  assumes "GenCMAFCatalogEntry G a ns prot now = Inr cat" and "tr \<in> set (cat_Tracks cat)"
  obtains n bs where "tr_InitRef tr = ''init-'' @ n" and "init_entry n bs \<in> set (cat_InitDataList cat)"
    and "init_of G a prot (tr_Name tr) bs"
proof -
  obtain mts mids sts sids where
    m: "collect_entries (\<lambda>(alt, ct). cmaf_entry G ns alt ct) (selected prot a) = Inr (mts, mids)"
    and s: "collect_entries (subtitle_entry G ns (length (as_Groups a))) (as_SubtitleTracks a) = Inr (sts, sids)"
    and t: "cat_Tracks cat = mts @ sts" and i: "cat_InitDataList cat = mids @ sids"
    using GenCMAF_parts [OF assms(1)] .
  from assms(2) t consider "tr \<in> set mts" | "tr \<in> set sts" by auto
  then show ?thesis
  proof cases
    case 1
    from collect_entries_mem [OF m 1] obtain alt ct ts ids where c: "(alt, ct) \<in> set (selected prot a)"
      and e: "cmaf_entry G ns alt ct = Inr (ts, ids)" "tr \<in> set ts" "set ids \<subseteq> set mids" by auto
    from cmaf_entry_result [OF e(1)] obtain sd bs where r: "ct_SpecData ct = Some sd"
      "GenCMAFInitData (gl_EncodeInit G) sd = Inr bs" "ids = [init_entry (ct_Name ct) bs]"
      "\<forall>tr \<in> set ts. tr_InitRef tr = ''init-'' @ ct_Name ct \<and>
         (tr_Name tr = ct_Name ct \<or> tr_Name tr = ct_Name ct @ LocmafTrackSuffix)" .
    have "init_of G a prot (tr_Name tr) bs" unfolding init_of_def using r(1,2,4) e(2) c by blast
    then show ?thesis using that [of "ct_Name ct" bs] r(3,4) e(2,3) i by simp
  next
    case 2
    from collect_entries_mem [OF s 2] obtain st ts ids where c: "st \<in> set (as_SubtitleTracks a)"
      and e: "subtitle_entry G ns (length (as_Groups a)) st = Inr (ts, ids)" "tr \<in> set ts" "set ids \<subseteq> set sids" by auto
    from subtitle_entry_result [OF e(1)] obtain d bs where r: "st_SpecData st = Some d" "subtitle_init G d = Inr bs"
      "ids = [init_entry (st_Name st) bs]" "\<forall>tr \<in> set ts. tr_InitRef tr = ''init-'' @ st_Name st \<and> tr_Name tr = st_Name st" .
    have "init_of G a prot (tr_Name tr) bs" unfolding init_of_def using r(1,2,4) e(2) c by blast
    then show ?thesis using that [of "st_Name st" bs] r(3,4) e(2,3) i by simp
  qed
qed

lemma catalog_init_lookup:
  assumes "GenCMAFCatalogEntry G a ns prot now = Inr cat" and "distinct (advertised_names a prot)"
    and "tr \<in> set (cat_Tracks cat)"
  shows "\<exists>b64 bs. InitDataFor cat (Some tr) = (b64, True) \<and> base64_decode b64 = Inr bs \<and> init_of G a prot (tr_Name tr) bs"
proof -
  obtain n bs where r: "tr_InitRef tr = ''init-'' @ n" and m: "init_entry n bs \<in> set (cat_InitDataList cat)"
    and o: "init_of G a prot (tr_Name tr) bs" using GenCMAF_track [OF assms(1,3)] .
  have "distinct (map id_ID (cat_InitDataList cat))"
    unfolding GenCMAF_ids [OF assms(1)] using assms(2) by (simp add: distinct_map inj_on_def)
  from init_lookup.lookup_distinct [OF this m] have
    "first_named id_ID (cat_InitDataList cat) (''init-'' @ n) = Some (init_entry n bs)" by (simp add: init_entry_def)
  with r have "InitDataFor cat (Some tr) = (base64_encode bs, True)" by (simp add: InitDataFor_def init_entry_def)
  with o show ?thesis by auto
qed

text \<open>C16: Every track of a generated CMSF catalog gets its init segment. If the advertised names are
  distinct, the init reference of each track resolves, and the base64 payload it resolves to decodes
  to the encoded init segment of exactly the rendition (or subtitle track) that the track name stands
  for; the CMAF and the LOCMAF variant of a rendition get the same bytes.\<close>

theorem catalog_init_resolves:
  assumes "GenCMAFCatalogEntry G a ns prot now = Inr cat" and "distinct (advertised_names a prot)"
    and "tr \<in> set (cat_Tracks cat)"
  shows "\<exists>b64 bs. InitDataFor cat (Some tr) = (b64, True) \<and> base64_decode b64 = Inr bs \<and> init_of G a prot (tr_Name tr) bs"
  using assms by (rule catalog_init_lookup)

section \<open>Captions\<close>






section \<open>Spatial layers\<close>

text \<open>Track names come from file names and have no slash; a layer name determines track and layer.\<close>

lemma layer_name_inject:
  assumes "CHR ''/'' \<notin> set n" and "CHR ''/'' \<notin> set n'"
  shows "layer_name n k = layer_name n' k' \<longleftrightarrow> n = n' \<and> k = k'"
proof
  assume eq: "layer_name n k = layer_name n' k'"
  have "takeWhile (\<lambda>c. c \<noteq> CHR ''/'') (layer_name m j) = m" if "CHR ''/'' \<notin> set m" for m j
    unfolding layer_name_def using that by (subst takeWhile_append2) auto
  from this [OF assms(1), of k] this [OF assms(2), of k'] eq have "n = n'" by simp
  with eq show "n = n' \<and> k = k'" by (simp add: layer_name_def)
qed simp

lemma layer_name_slash: "CHR ''/'' \<in> set (layer_name n k)"
  by (simp add: layer_name_def)

definition slash_free :: "('i, 'p, 'u) asset \<Rightarrow> bool" where
  "slash_free a \<longleftrightarrow> (\<forall>ct \<in> set (all_tracks a). CHR ''/'' \<notin> set (ct_Name ct))"

text \<open>The layers as \<open>splitAV1SpatialLayers\<close> makes them: numbered from 0.\<close>

definition layers_numbered :: "av1_spatial_layer list \<Rightarrow> bool" where
  "layers_numbered ls \<longleftrightarrow> length ls \<le> 256 \<and> (\<forall>i < length ls. unat (sl_SpatialID (ls ! i)) = i)"

lemma find_layer_sound: "find_layer cn ls n = Some l \<Longrightarrow> l \<in> set ls \<and> n = layer_name cn (unat (sl_SpatialID l))"
  by (induction ls) (auto split: if_splits)

lemma find_layer_hit: "l \<in> set ls \<Longrightarrow> find_layer cn ls (layer_name cn (unat (sl_SpatialID l))) \<noteq> None"
  by (induction ls) auto

lemma loc_scan_sound:
  "loc_scan cts n = Some r \<Longrightarrow> lt_ContentTrack r \<in> set cts \<and> (case lt_SpatialLayer r of
     None \<Rightarrow> ct_Name (lt_ContentTrack r) = n
   | Some l \<Rightarrow> find_layer (ct_Name (lt_ContentTrack r)) (spatial_layers_of (lt_ContentTrack r)) n = Some l)"
  by (induction cts) (auto split: if_splits option.splits)

lemma loc_scan_hit:
  "ct \<in> set cts \<Longrightarrow> l \<in> set (spatial_layers_of ct) \<Longrightarrow> loc_scan cts (layer_name (ct_Name ct) (unat (sl_SpatialID l))) \<noteq> None"
proof (induction cts)
  case (Cons c cts)
  then show ?case by (auto split: option.splits dest: find_layer_hit)
qed simp

lemma svc_layer_resolves:
  assumes "slash_free a" and "distinct (map ct_Name (all_tracks a))" and "ct \<in> set (all_tracks a)"
    and "layers_numbered (spatial_layers_of ct)" and "i < length (spatial_layers_of ct)"
  shows "GetLOCTrackByName a (layer_name (ct_Name ct) i) =
    Some \<lparr>lt_ContentTrack = ct, lt_SpatialLayer = Some (spatial_layers_of ct ! i)\<rparr>"
proof -
  let ?l = "spatial_layers_of ct ! i" and ?n = "layer_name (ct_Name ct) i"
  have id: "unat (sl_SpatialID ?l) = i" using assms(4,5) by (simp add: layers_numbered_def)
  have "GetLOCTrackByName a ?n \<noteq> None"
    unfolding GetLOCTrackByName_def using loc_scan_hit [OF assms(3), of ?l] assms(5) id by simp
  then obtain r where r: "loc_scan (all_tracks a) ?n = Some r" by (auto simp: GetLOCTrackByName_def)
  note s = loc_scan_sound [OF r]
  from s have sf: "CHR ''/'' \<notin> set (ct_Name (lt_ContentTrack r))" using assms(1) by (auto simp: slash_free_def)
  have "lt_SpatialLayer r \<noteq> None"
  proof
    assume "lt_SpatialLayer r = None"
    with s have "ct_Name (lt_ContentTrack r) = ?n" by simp
    with sf layer_name_slash [of "ct_Name ct" i] show False by simp
  qed
  then obtain l where l: "lt_SpatialLayer r = Some l"
    "find_layer (ct_Name (lt_ContentTrack r)) (spatial_layers_of (lt_ContentTrack r)) ?n = Some l"
    using s by (auto split: option.splits)
  from find_layer_sound [OF l(2)] have "ct_Name (lt_ContentTrack r) = ct_Name ct" and li: "unat (sl_SpatialID l) = i"
    using layer_name_inject sf assms(1,3) by (metis slash_free_def)+
  then have ct: "lt_ContentTrack r = ct" using assms(2,3) s by (auto simp: distinct_map dest: inj_onD)
  from find_layer_sound [OF l(2)] ct obtain j where "j < length (spatial_layers_of ct)" "l = spatial_layers_of ct ! j"
    by (auto simp: in_set_conv_nth)
  with li assms(4) have "l = ?l" by (simp add: layers_numbered_def)
  with r ct l show ?thesis by (simp add: GetLOCTrackByName_def)
qed

text \<open>A chain of tracks, each depending on the one below, is ordered from the bottom.\<close>

lemma visit_chain:
  assumes "\<forall>j \<le> i. \<exists>t. GetTrackByName c (f j) = Some t \<and> tr_Dependencies t = (if j = 0 then [] else [f (j - 1)])"
    and "inj_on f {..i}" and "i < k" and "\<forall>j \<le> i. f j \<notin> set (ds_visited s) \<and> f j \<notin> set (ds_visiting s)"
  shows "visit k c (f i) s = Some (Inr (s\<lparr>ds_ordered := ds_ordered s @ map f [0..<Suc i],
           ds_visited := rev (map f [0..<Suc i]) @ ds_visited s\<rparr>))"
  using assms
proof (induction i arbitrary: k s)
  case 0
  then obtain k' where "k = Suc k'" by (cases k) auto
  with 0 show ?case by auto
next
  case (Suc i)
  then obtain k' where k: "k = Suc k'" "i < k'" by (cases k) auto
  let ?s = "s\<lparr>ds_visiting := f (Suc i) # ds_visiting s\<rparr>"
  obtain t where t: "GetTrackByName c (f (Suc i)) = Some t" "tr_Dependencies t = [f i]" using Suc.prems(1) by auto
  have fresh: "f (Suc i) \<notin> set (ds_visited s)" "f (Suc i) \<notin> set (ds_visiting s)" using Suc.prems(4) by auto
  have sub: "inj_on f {..i}" using Suc.prems(2) by (rule inj_on_subset) auto
  have "f (Suc i) \<noteq> f j" if "j \<le> i" for j using Suc.prems(2) that by (auto dest: inj_onD)
  with Suc.prems(4) have "\<forall>j \<le> i. f j \<notin> set (ds_visited ?s) \<and> f j \<notin> set (ds_visiting ?s)" by force
  from Suc.IH [OF _ sub k(2) this] Suc.prems(1) have
    "visit k' c (f i) ?s = Some (Inr (?s\<lparr>ds_ordered := ds_ordered s @ map f [0..<Suc i],
        ds_visited := rev (map f [0..<Suc i]) @ ds_visited s\<rparr>))" by simp
  with t fresh k show ?case by simp
qed

lemma dependencyOrder_chain:
  assumes "\<forall>j \<le> i. \<exists>t. GetTrackByName c (f j) = Some t \<and> tr_Dependencies t = (if j = 0 then [] else [f (j - 1)])"
    and "inj_on f {..i}"
  shows "dependencyOrder c (f i) = Some (Inr (map f [0..<Suc i]))"
proof -
  have "f ` {..i} \<subseteq> tr_Name ` set (cat_Tracks c)"
    using assms(1) catalog_lookup.lookup_sound by (force simp: atMost_iff)
  then have "card (f ` {..i}) \<le> length (cat_Tracks c)"
    by (meson card_length card_mono finite_imageI finite_set order_trans card_image_le)
  then have "i < Suc (length (cat_Tracks c))" using assms(2) by (simp add: card_image)
  from visit_chain [OF assms this, of "\<lparr>ds_ordered = [], ds_visiting = [], ds_visited = []\<rparr>"] show ?thesis
    by (simp add: dependencyOrder_def del: visit.simps)
qed

text \<open>The LOC catalog has one track per layer, and no other track of its name.\<close>

lemma GenLOC_tracks:
  assumes "GenLOCCatalogEntry A a now = Inr cat"
  shows "tr \<in> set (cat_Tracks cat) \<longleftrightarrow>
    (\<exists>alt ct ts. (alt, ct) \<in> set (selected ProtectionNone a) \<and> loc_entry A alt ct = Inr ts \<and> tr \<in> set ts)"
proof -
  obtain tss where m: "map_res (\<lambda>(alt, ct). loc_entry A alt ct) (selected ProtectionNone a) = Inr tss"
    and c: "cat_Tracks cat = concat tss"
    using assms by (auto simp: GenLOCCatalogEntry_def zero_catalog_def split: sum.splits)
  then show ?thesis by (simp add: map_res_set [OF m] Bex_def split_paired_Ex) blast
qed

lemma loc_entry_names:
  assumes "loc_entry A alt ct = Inr ts" and "tr \<in> set ts" and "tr_Name tr \<noteq> ct_Name ct"
  shows "\<exists>ad i. ct_SpecData ct = Some (AV1Data ad) \<and> i < length (a1_spatialLayers ad) \<and>
      tr = svc_track A ct ad i (a1_spatialLayers ad ! i)"
proof (cases "spatial_layers_of ct = []")
  case True
  with assms show ?thesis by (auto simp: loc_entry_def split: option.splits spec_data.splits sum.splits)
next
  case False
  then obtain ad where ad: "ct_SpecData ct = Some (AV1Data ad)"
    by (auto simp: spatial_layers_of_def split: option.splits spec_data.splits)
  with assms False have "tr \<in> set (genLOCSVCTracks A ct ad)" by (auto simp: loc_entry_def)
  with ad show ?thesis by (auto simp: genLOCSVCTracks_def in_set_enumerate_eq)
qed

lemma selected_mem: "(alt, ct) \<in> set (selected prot a) \<Longrightarrow> ct \<in> set (all_tracks a) \<and> ct_Protection ct = prot"
  by (auto simp: selected_def all_tracks_def)

lemma svc_track_Name [simp]: "tr_Name (svc_track A ct ad i l) = layer_name (ct_Name ct) (unat (sl_SpatialID l))"
  by (simp add: svc_track_def)

lemma svc_catalog_lookup:
  assumes "GenLOCCatalogEntry A a now = Inr cat" and "slash_free a" and "distinct (map ct_Name (all_tracks a))"
    and "(alt, ct) \<in> set (selected ProtectionNone a)" and "ct_SpecData ct = Some (AV1Data ad)"
    and "layers_numbered (a1_spatialLayers ad)" and "i < length (a1_spatialLayers ad)"
  shows "GetTrackByName cat (layer_name (ct_Name ct) i) = Some (svc_track A ct ad i (a1_spatialLayers ad ! i))"
proof -
  let ?t = "svc_track A ct ad i (a1_spatialLayers ad ! i)" and ?n = "layer_name (ct_Name ct) i"
  have id: "unat (sl_SpatialID (a1_spatialLayers ad ! j)) = j" if "j < length (a1_spatialLayers ad)" for j
    using that assms(6) by (simp add: layers_numbered_def)
  have "loc_entry A alt ct = Inr (genLOCSVCTracks A ct ad)"
    using assms(5,7) by (auto simp: loc_entry_def spatial_layers_of_def)
  moreover have "?t \<in> set (genLOCSVCTracks A ct ad)"
    using assms(7) by (force simp: genLOCSVCTracks_def in_set_enumerate_eq)
  ultimately have "?t \<in> set (cat_Tracks cat)" using GenLOC_tracks [OF assms(1)] assms(4) by blast
  from catalog_lookup.lookup_hit [OF this] id [OF assms(7)] obtain y where
    y: "GetTrackByName cat ?n = Some y" "tr_Name y = ?n" by auto
  from y(1) catalog_lookup.lookup_sound obtain alt' ct' ts where c: "(alt', ct') \<in> set (selected ProtectionNone a)"
    "loc_entry A alt' ct' = Inr ts" "y \<in> set ts" using GenLOC_tracks [OF assms(1)] by blast
  have sf: "CHR ''/'' \<notin> set (ct_Name ct)" "CHR ''/'' \<notin> set (ct_Name ct')"
    using assms(2,4) c(1) selected_mem unfolding slash_free_def by blast+
  have "tr_Name y \<noteq> ct_Name ct'" using y(2) sf(2) layer_name_slash by metis
  from loc_entry_names [OF c(2,3) this] obtain ad' j where j: "ct_SpecData ct' = Some (AV1Data ad')"
    "j < length (a1_spatialLayers ad')" "y = svc_track A ct' ad' j (a1_spatialLayers ad' ! j)" by blast
  with y(2) have "layer_name (ct_Name ct') (unat (sl_SpatialID (a1_spatialLayers ad' ! j))) = ?n" by simp
  with layer_name_inject [OF sf(2,1)] have nm: "ct_Name ct' = ct_Name ct"
    and k: "unat (sl_SpatialID (a1_spatialLayers ad' ! j)) = i" by auto
  from nm assms(3,4) c(1) have "ct' = ct" using selected_mem by (metis distinct_map inj_onD)
  with j assms(5) have "ad' = ad" by simp
  with k j id have "j = i" by simp
  with j y(1) \<open>ct' = ct\<close> \<open>ad' = ad\<close> show ?thesis by simp
qed

text \<open>Building the player for a chain of LOC AV1 tracks with known spatial ids.\<close>

lemma add_tracks_chain:
  assumes "\<forall>j < n. \<exists>t. GetTrackByName c (f j) = Some t \<and> tr_Packaging t = ''loc'' \<and>
      has_prefix (to_lower (tr_Codec t)) ''av01'' \<and> tr_SpatialID t = Some (int j)" and "i \<le> n"
  shows "\<exists>p'. add_tracks c sim i (map f [i..<n]) p = Inr p' \<and> np_target p' = np_target p \<and>
    map pt_name (np_tracks p') = map pt_name (np_tracks p) @ map f [i..<n] \<and>
    map pt_spatialID (np_tracks p') = map pt_spatialID (np_tracks p) @ map int [i..<n]"
  using assms(2)
proof (induction "n - i" arbitrary: i p)
  case 0
  then show ?case by simp
next
  case (Suc m)
  then have i: "i < n" "m = n - Suc i" "Suc i \<le> n" by auto
  obtain t where t: "GetTrackByName c (f i) = Some t" "tr_Packaging t = ''loc''"
    "has_prefix (to_lower (tr_Codec t)) ''av01''" "tr_SpatialID t = Some (int i)" using assms(1) i(1) by blast
  have "[i..<n] = i # [Suc i..<n]" using i(1) by (rule upt_conv_Cons)
  then show ?case
    using t Suc.hyps(1) [OF i(2,3), of "p\<lparr>np_tracks := np_tracks p @ [\<lparr>pt_name = f i, pt_spatialID = int i,
      pt_width = tr_Width t, pt_height = tr_Height t, pt_bitrate = (case tr_Bitrate t of None \<Rightarrow> 0 | Some b \<Rightarrow> b)\<rparr>],
      np_trackIndex := AList.update (f i) i (np_trackIndex p)\<rparr>"] by (simp add: Let_def)
qed

lemma newNativePlayback_chain:
  assumes "\<forall>j < Suc i. \<exists>t. GetTrackByName c (f j) = Some t \<and> tr_Packaging t = ''loc'' \<and>
      has_prefix (to_lower (tr_Codec t)) ''av01'' \<and> tr_SpatialID t = Some (int j)" and "0 \<le> minBuf" and "minBuf < lat"
  shows "\<exists>p. newNativePlayback c (map f [0..<Suc i]) (f i) True minBuf lat path = Inr p \<and>
    map pt_name (np_tracks p) = map f [0..<Suc i] \<and> map pt_spatialID (np_tracks p) = map int [0..<Suc i]"
proof -
  have tip: "pt_name (np_tracks p ! i) = f i" if "map pt_name (np_tracks p) = map f [0..<Suc i]" for p
  proof -
    have "length (np_tracks p) = Suc i" using that by (metis length_map length_upt diff_zero)
    then have "pt_name (np_tracks p ! i) = map pt_name (np_tracks p) ! i" by simp
    then show ?thesis using that by (simp add: nth_append del: upt_Suc)
  qed
  let ?names = "map f [0..<Suc i]"
  let ?p = "\<lparr>np_tracks = [], np_trackIndex = [], np_target = int (length ?names) - 1, np_active = -1,
     np_valid = replicate (length ?names) False, np_pending = [], np_simulated = True, np_minimalBuffer = minBuf,
     np_targetLatency = lat, np_metricsPath = path, np_state = Starting, np_switchState = Stable, np_started = False,
     np_lastPresented = None, np_lastPresentedAt = None, np_stallStarted = None, np_stallCount = 0,
     np_stallDuration = 0, np_received = [], np_played = [], np_wake = False\<rparr>"
  obtain p where p: "add_tracks c True 0 ?names ?p = Inr p" "np_target p = int i"
    "map pt_name (np_tracks p) = ?names" "map pt_spatialID (np_tracks p) = map int [0..<Suc i]"
    using add_tracks_chain [OF assms(1), of 0 True ?p] by (auto simp del: upt_Suc add_tracks.simps)
  have "newNativePlayback c ?names (f i) True minBuf lat path = Inr p"
    using assms(2,3) p(1,2) tip [OF p(3)]
    by (simp add: newNativePlayback_def del: upt_Suc add_tracks.simps)
  with p(3,4) show ?thesis by blast
qed

text \<open>C18: From the published catalog to playback. For every spatial layer \<open>i\<close> of an AV1 SVC track of the
  asset, the LOC catalog contains the tracks of the layers up to \<open>i\<close>; each resolves in the asset to
  exactly that layer; the subscriber's dependency search orders them from the base layer up; and the
  native player accepts the chain with the layers' spatial ids.\<close>

theorem svc_catalog_playable:
  assumes "GenLOCCatalogEntry A a now = Inr cat" and "slash_free a" and "distinct (map ct_Name (all_tracks a))"
    and "(alt, ct) \<in> set (selected ProtectionNone a)" and "ct_SpecData ct = Some (AV1Data ad)"
    and "layers_numbered (a1_spatialLayers ad)" and "i < length (a1_spatialLayers ad)"
    and "has_prefix (to_lower (a1_codec ad)) ''av01''" and "0 \<le> minBuf" and "minBuf < lat"
  shows "(\<forall>j \<le> i. GetLOCTrackByName a (layer_name (ct_Name ct) j) =
           Some \<lparr>lt_ContentTrack = ct, lt_SpatialLayer = Some (a1_spatialLayers ad ! j)\<rparr>) \<and>
    (let names = map (layer_name (ct_Name ct)) [0..<Suc i] in
       dependencyOrder cat (layer_name (ct_Name ct) i) = Some (Inr names) \<and>
       (\<exists>p. newNativePlayback cat names (layer_name (ct_Name ct) i) True minBuf lat path = Inr p \<and>
          map pt_name (np_tracks p) = names \<and> map pt_spatialID (np_tracks p) = map int [0..<Suc i]))"
proof -
  let ?f = "layer_name (ct_Name ct)" and ?ls = "a1_spatialLayers ad"
  have id: "unat (sl_SpatialID (?ls ! j)) = j" if "j < length ?ls" for j
    using that assms(6) by (simp add: layers_numbered_def)
  have look: "GetTrackByName cat (?f j) = Some (svc_track A ct ad j (?ls ! j))" if "j < length ?ls" for j
    using svc_catalog_lookup [OF assms(1-6) that] .
  have pred: "unat (sl_SpatialID (?ls ! j) - 1) = j - 1" if "j < length ?ls" "0 < j" for j
  proof -
    have "sl_SpatialID (?ls ! j) \<noteq> 0" using id [OF that(1)] that(2) by auto
    from unat_minus_one [OF this] id [OF that(1)] show ?thesis by simp
  qed
  have chain: "\<forall>j \<le> i. \<exists>t. GetTrackByName cat (?f j) = Some t \<and> tr_Dependencies t = (if j = 0 then [] else [?f (j - 1)])"
    using look pred assms(7) by (auto simp: svc_track_def zero_track_def)
  have "inj_on ?f {..i}" by (auto simp: inj_on_def layer_name_def)
  from dependencyOrder_chain [OF chain this] have ord: "dependencyOrder cat (?f i) = Some (Inr (map ?f [0..<Suc i]))" .
  have "\<forall>j < Suc i. \<exists>t. GetTrackByName cat (?f j) = Some t \<and> tr_Packaging t = ''loc'' \<and>
      has_prefix (to_lower (tr_Codec t)) ''av01'' \<and> tr_SpatialID t = Some (int j)"
    using look id assms(7,8) by (auto simp: svc_track_def)
  note play = newNativePlayback_chain [OF this assms(9,10), of path]
  have "ct \<in> set (all_tracks a)" using selected_mem [OF assms(4)] by blast
  moreover have "spatial_layers_of ct = ?ls" using assms(5) by (simp add: spatial_layers_of_def)
  ultimately have "\<forall>j \<le> i. GetLOCTrackByName a (?f j) = Some \<lparr>lt_ContentTrack = ct, lt_SpatialLayer = Some (?ls ! j)\<rparr>"
    using svc_layer_resolves [OF assms(2,3), of ct] assms(6,7) by simp
  with ord play show ?thesis by simp
qed

text \<open>Measuring the LOCMAF bitrate reads the samples \<open>batch..2*batch-1\<close> of the slice: a track with fewer
  than two batches of samples makes catalog generation panic once its two chunks could be built.\<close>

lemma calcLocmafBitrate_panics:
  assumes "length (ct_Samples ct) < 2 * measure_batch ct" and "ct_SampleDur ct \<noteq> 0" and "ct_TimeScale ct \<noteq> 0"
    and "GenLocmafChunk M C ct 0 0 (of_nat (measure_batch ct)) (ml_NewState M) None = (ct1, st1, Inr full)"
    and "GenLocmafChunk M C ct1 1 (of_nat (measure_batch ct)) (2 * of_nat (measure_batch ct)) st1 None = (ct2, st2, Inr delta)"
  shows "calcLocmafBitrate M C ct = (ct2, Inl (Panic ''index out of range''))"
  using assms by (simp add: calcLocmafBitrate_def)

section \<open>Instances\<close>

text \<open>An asset with a captioned AVC track and an AV1 SVC track of two layers.\<close>

definition ex_gen :: "(full_sample list, unit, bytes, unit, unit, unit, unit_cue, unit, unit) gen_lib" where
  "ex_gen = \<lparr>gl_mp4 = ex_mp4, gl_608 = ex_go608, gl_av1 = ex_av1, gl_EncodeInit = (\<lambda>i. Inr [1, 2, 3]),
     gl_wvttInit = (\<lambda>l t. ()), gl_stppInit = (\<lambda>l t. ()), gl_locmafVersion = ''1''\<rparr>"

definition ex_avc_track :: "(unit, unit, unit_cue) content_track" where
  "ex_avc_track = ex_clear\<lparr>ct_Name := ''v1'', ct_ContentType := ''video'', ct_SampleBatch := 1,
     ct_SpecData := Some (AVCData \<lparr>av_inInit = (), av_outInit = (), av_Spss = [], av_Ppss = [], av_codec = ''avc1.64'',
       av_width = 640, av_height = 360\<rparr>), ct_cc608 := Some (cc608_New \<lparr>cfg_Enabled = True, cfg_Channel = 0, cfg_Lang = [], cfg_Content = None\<rparr>)\<rparr>"

definition ex_layer :: "u8 \<Rightarrow> av1_spatial_layer" where
  "ex_layer k = \<lparr>sl_SpatialID = k, sl_Width = 320, sl_Height = 180, sl_Samples = [[], [], []], sl_totalSize = 0\<rparr>"

definition ex_av1_data :: "unit av1_data" where
  "ex_av1_data = \<lparr>a1_inInit = (), a1_outInit = (), a1_codec = ''av01.0'', a1_width = 640, a1_height = 360, a1_configOBUs = [],
     a1_locNeedsConfig = False, a1_spatialLayers = [ex_layer 0, ex_layer 1]\<rparr>"

definition ex_svc_track :: "(unit, unit, unit_cue) content_track" where
  "ex_svc_track = ex_avc_track\<lparr>ct_Name := ''v2'', ct_SpecData := Some (AV1Data ex_av1_data)\<rparr>"

definition ex_cat_asset :: "(unit, unit, unit_cue) asset" where
  "ex_cat_asset = \<lparr>as_Name = ''test'', as_Groups = [\<lparr>tg_AltGroupID = 1, tg_Tracks = [ex_avc_track, ex_svc_track]\<rparr>],
     as_LoopDurMS = 1500, as_SubtitleTracks = [\<lparr>st_Name = ''subs'', st_Format = SubtitleFormatWVTT, st_Language = ''en'',
       st_TimeScale = 1000, st_CueDurMS = 900, st_Region = 0, st_SpecData = Some \<lparr>sd_format = SubtitleFormatWVTT, sd_language = ''en''\<rparr>\<rparr>],
     as_Drm = None, as_Eccp = None\<rparr>"

lemmas ex_cat_defs = ex_cat_asset_def ex_svc_track_def ex_avc_track_def ex_clear_def ex_av1_data_def ex_layer_def
  zero_content_track_def

lemma ex_catalog_generated:
  "case GenCMAFCatalogEntry ex_gen ex_cat_asset ''ns'' ProtectionNone 0 of Inl e \<Rightarrow> False
   | Inr cat \<Rightarrow> map tr_Name (cat_Tracks cat) = [''v1'', ''v1_locmaf'', ''v2'', ''v2_locmaf'', ''subs''] \<and>
       tr_Role (cat_Tracks cat ! 1) = ''video''"
  by (simp add: GenCMAFCatalogEntry_def selected_def cmaf_entry_def GenCMAFInitData_def calcCmafBitrate_def
      calcLocmafBitrate_def measure_batch_def GenCMAFChunk_def GenLocmafChunk_def createFragment_def add_frames.simps
      live_frame_def CalcSample_def spliced_data_def idx_def ex_mp4_def ex_gen_def ex_cat_defs cmaf_base_def
      describe_media_def subtitle_entry_def subtitle_init_def wrap_err_def zero_track_def zero_sample_def
      LocmafTrackSuffix_def zero_catalog_def Let_def)

theorem catalog_init_resolves_witness:
  "\<exists>cat b64 bs. GenCMAFCatalogEntry ex_gen ex_cat_asset ''ns'' ProtectionNone 0 = Inr cat \<and>
     InitDataFor cat (Some (cat_Tracks cat ! 1)) = (b64, True) \<and> base64_decode b64 = Inr bs"
proof -
  obtain cat where c: "GenCMAFCatalogEntry ex_gen ex_cat_asset ''ns'' ProtectionNone 0 = Inr cat"
    and n: "map tr_Name (cat_Tracks cat) = [''v1'', ''v1_locmaf'', ''v2'', ''v2_locmaf'', ''subs'']"
    using ex_catalog_generated by (auto split: sum.splits)
  have d: "distinct (advertised_names ex_cat_asset ProtectionNone)"
    by (simp add: advertised_names_def selected_def ex_cat_defs)
  have "length (cat_Tracks cat) = 5" using arg_cong [OF n, of length] by simp
  then have "cat_Tracks cat ! 1 \<in> set (cat_Tracks cat)" by simp
  from catalog_init_resolves [OF c d this] c show ?thesis by blast
qed


theorem svc_catalog_playable_witness:
  "\<exists>cat. GenLOCCatalogEntry ex_av1 ex_cat_asset 0 = Inr cat \<and>
     dependencyOrder cat ''v2/s1'' = Some (Inr [''v2/s0'', ''v2/s1''])"
proof -
  have nm: "layer_name ''v2'' 0 = ''v2/s0''" "layer_name ''v2'' (Suc 0) = ''v2/s1''" by code_simp+
  obtain cat where c: "GenLOCCatalogEntry ex_av1 ex_cat_asset 0 = Inr cat"
    by (simp add: GenLOCCatalogEntry_def selected_def loc_entry_def spatial_layers_of_def loc_codec_def ex_cat_defs)
  have h: "slash_free ex_cat_asset" "distinct (map ct_Name (all_tracks ex_cat_asset))"
    "(1, ex_svc_track) \<in> set (selected ProtectionNone ex_cat_asset)"
    by (simp_all add: slash_free_def all_tracks_def selected_def ex_cat_defs)
  have s: "ct_SpecData ex_svc_track = Some (AV1Data ex_av1_data)" by (simp add: ex_svc_track_def)
  have l: "layers_numbered (a1_spatialLayers ex_av1_data)" "1 < length (a1_spatialLayers ex_av1_data)"
    by (simp_all add: layers_numbered_def ex_av1_data_def ex_layer_def less_Suc_eq)
  have a: "has_prefix (to_lower (a1_codec ex_av1_data)) ''av01''" by code_simp
  have "ct_Name ex_svc_track = ''v2''" by (simp add: ex_svc_track_def)
  with svc_catalog_playable [OF c h s l a, of 0 1] c show ?thesis by (simp add: nm upt_rec Let_def)
qed

end
