(* ===== verification/Publish_Props.thy ===== *)
theory Publish_Props
  imports Publisher Catalog_Props
begin

text \<open>
  What the publisher promises. The subgroup protocol is an automaton over the recorded operations
  (\<open>log_step\<close>): groups are opened one after the other with consecutive numbers and a fixed priority,
  objects are numbered from 0 without gaps, nothing is written outside a group. The locale
  \<open>group_publisher\<close> is the contract of one round of a publishing loop; what follows for the whole loop is
  proved once in it and obtained for the three loops by interpretation.
\<close>

section \<open>The subgroup protocol\<close>

datatype log_phase = Between u64 | InGroup u64 nat

fun log_step :: "u8 \<Rightarrow> log_phase \<Rightarrow> pub_event \<Rightarrow> log_phase option" where
  "log_step prio (Between g) (OpenSubgroup g' sg p) = (if g' = g \<and> sg = 0 \<and> p = prio then Some (InGroup g 0) else None)"
| "log_step prio (InGroup g k) (WriteObject i hs ob) = (if i = of_nat k then Some (InGroup g (Suc k)) else None)"
| "log_step prio (InGroup g k) CloseSubgroup = Some (Between (g + 1))"
| "log_step prio _ _ = None"

fun log_run :: "u8 \<Rightarrow> log_phase \<Rightarrow> pub_event list \<Rightarrow> log_phase option" where
  "log_run prio ph [] = Some ph"
| "log_run prio ph (e # es) = (case log_step prio ph e of None \<Rightarrow> None | Some ph' \<Rightarrow> log_run prio ph' es)"

fun obj_log :: "nat \<Rightarrow> (kv list \<times> bytes) list \<Rightarrow> pub_event list" where
  "obj_log k [] = []"
| "obj_log k ((hs, ob) # obs) = WriteObject (of_nat k) hs ob # obj_log (Suc k) obs"

text \<open>The log of a group that was published completely.\<close>

definition group_log :: "u8 \<Rightarrow> u64 \<Rightarrow> (kv list \<times> bytes) list \<Rightarrow> pub_event list" where
  "group_log prio g obs = OpenSubgroup g 0 prio # obj_log 0 obs @ [CloseSubgroup]"

fun groups_log :: "u8 \<Rightarrow> u64 \<Rightarrow> (kv list \<times> bytes) list list \<Rightarrow> pub_event list" where
  "groups_log prio g [] = []"
| "groups_log prio g (obs # rest) = group_log prio g obs @ groups_log prio (g + 1) rest"

lemma log_run_append:
  "log_run prio ph (es @ fs) = (case log_run prio ph es of None \<Rightarrow> None | Some ph' \<Rightarrow> log_run prio ph' fs)"
  by (induction es arbitrary: ph) (auto split: option.splits)

lemma log_run_obj_log [simp]: "log_run prio (InGroup g k) (obj_log k obs) = Some (InGroup g (k + length obs))"
  by (induction k obs rule: obj_log.induct) auto

lemma log_run_group_log [simp]: "log_run prio (Between g) (group_log prio g obs) = Some (Between (g + 1))"
  by (simp add: group_log_def log_run_append)

text \<open>A round that stops has opened its group at most and written a first part of its objects; the group
  may or may not have been closed.\<close>

definition stopped_log :: "u8 \<Rightarrow> u64 \<Rightarrow> pub_event list \<Rightarrow> bool" where
  "stopped_log prio g es \<longleftrightarrow> es = [] \<or> (\<exists>obs cl. es = OpenSubgroup g 0 prio # obj_log 0 obs @ cl \<and> (cl = [] \<or> cl = [CloseSubgroup]))"

lemma stopped_log_accepted: "stopped_log prio g es \<Longrightarrow> log_run prio (Between g) es \<noteq> None"
  by (auto simp: stopped_log_def log_run_append)

section \<open>The contract of a publishing loop\<close>

text \<open>A sequence of groups, the first with number \<open>g\<close>, each of which holds its objects.\<close>

inductive published :: "(u64 \<Rightarrow> 's \<Rightarrow> 's \<Rightarrow> (kv list \<times> bytes) list \<Rightarrow> bool) \<Rightarrow> u64 \<Rightarrow> 's \<Rightarrow> (kv list \<times> bytes) list list \<Rightarrow> 's \<Rightarrow> bool"
  for objects where
  none: "published objects g s [] s"
| group: "objects g s s1 obs \<Longrightarrow> published objects (g + 1) s1 rest s2 \<Longrightarrow> published objects g s (obs # rest) s2"

inductive_cases published_ConsE: "published objects g s (obs # rest) s2"

text \<open>\<open>objects g s s'\<close> are the objects of group \<open>g\<close> when the loop's state goes from \<open>s\<close> to \<open>s'\<close>.\<close>

locale group_publisher =
  fixes round :: "u64 \<Rightarrow> 's \<Rightarrow> ('s \<times> pub_event list \<times> bool) option"
    and prio :: u8
    and objects :: "u64 \<Rightarrow> 's \<Rightarrow> 's \<Rightarrow> (kv list \<times> bytes) list \<Rightarrow> bool"
  assumes round_complete: "round g s = Some (s', es, True) \<Longrightarrow> \<exists>obs. es = group_log prio g obs \<and> objects g s s' obs"
    and round_stopped: "round g s = Some (s', es, False) \<Longrightarrow> stopped_log prio g es"
begin

lemma rounds_log:
  assumes "publish_rounds n round g s = Some (s', es, c)"
  shows "\<exists>gs tail s1. es = groups_log prio g gs @ tail \<and> published objects g s gs s1 \<and>
    (if c then length gs = n \<and> tail = [] \<and> s1 = s' else length gs < n \<and> stopped_log prio (g + of_nat (length gs)) tail)"
  using assms
proof (induction n arbitrary: g s es)
  case 0
  then show ?case by (auto intro!: exI [of _ "[]"] published.none)
next
  case (Suc n)
  then obtain s1 fs d where r: "round g s = Some (s1, fs, d)" by (auto split: option.splits prod.splits)
  show ?case
  proof (cases d)
    case False
    with Suc.prems r round_stopped [of g s s1 fs] show ?thesis
      by (intro exI [of _ "[]"] exI [of _ es] exI [of _ s]) (auto intro: published.none)
  next
    case True
    with r have "round g s = Some (s1, fs, True)" by simp
    from round_complete [OF this] obtain obs where o: "fs = group_log prio g obs" "objects g s s1 obs" by blast
    from Suc.prems r True obtain es2 where p: "publish_rounds n round (g + 1) s1 = Some (s', es2, c)" "es = fs @ es2"
      by (auto split: option.splits prod.splits)
    from Suc.IH [OF p(1)] obtain gs tail s2 where
      i: "es2 = groups_log prio (g + 1) gs @ tail" "published objects (g + 1) s1 gs s2"
      "if c then length gs = n \<and> tail = [] \<and> s2 = s' else length gs < n \<and> stopped_log prio (g + 1 + of_nat (length gs)) tail"
      by blast
    from o i p published.group show ?thesis
      by (intro exI [of _ "obs # gs"] exI [of _ tail] exI [of _ s2]) (auto simp: add.assoc)
  qed
qed

lemma groups_log_accepted: "log_run prio (Between g) (groups_log prio g gs) = Some (Between (g + of_nat (length gs)))"
  by (induction gs arbitrary: g) (auto simp: log_run_append add.assoc)

text \<open>The whole log follows the protocol.\<close>

lemma rounds_accepted:
  assumes "publish_rounds n round g s = Some (s', es, c)"
  shows "\<exists>ph. log_run prio (Between g) es = Some ph \<and> (c \<longrightarrow> ph = Between (g + of_nat n))"
proof -
  from rounds_log [OF assms] obtain gs tail s1 where e: "es = groups_log prio g gs @ tail"
    and t: "if c then length gs = n \<and> tail = [] \<and> s1 = s' else length gs < n \<and> stopped_log prio (g + of_nat (length gs)) tail"
    by blast
  show ?thesis using e t stopped_log_accepted [of prio "g + of_nat (length gs)" tail]
    by (cases c) (auto simp: log_run_append groups_log_accepted)
qed

lemma rounds_running:
  assumes "publish_rounds n round g s = Some (s', es, True)"
  shows "\<exists>gs. length gs = n \<and> es = groups_log prio g gs \<and> published objects g s gs s'"
  using rounds_log [OF assms] by auto

text \<open>A loop whose rounds leave the state alone.\<close>

lemma published_same:
  assumes "\<And>g s s' obs. objects g s s' obs \<Longrightarrow> s' = s" and "published objects g s gs s'"
  shows "s' = s"
  using assms(2) by induction (auto dest: assms(1))

end

section \<open>Three publishing loops\<close>

lemma write_loop_log:
  assumes "write_loop env due (log_write penv g) k obs w = (w', err)"
  shows "\<exists>m \<le> length obs. w' = w @ obj_log k (map (Pair []) (take m obs)) \<and> (err = None \<longrightarrow> m = length obs)"
  using assms
proof (induction obs arbitrary: k w)
  case (Cons ob obs)
  show ?case
  proof (cases "w' = w \<and> err \<noteq> None")
    case False
    with Cons.prems have "write_loop env due (log_write penv g) (Suc k) obs (w @ [WriteObject (of_nat k) [] ob]) = (w', err)"
      by (auto simp: log_write_def [of penv g w] split: option.splits if_splits prod.splits)
    from Cons.IH [OF this] obtain m where "m \<le> length obs"
      "w' = (w @ [WriteObject (of_nat k) [] ob]) @ obj_log (Suc k) (map (Pair []) (take m obs))" "err = None \<longrightarrow> m = length obs"
      by blast
    then show ?thesis by (intro exI [of _ "Suc m"]) simp
  qed (auto intro!: exI [of _ 0])
qed auto

lemma close_group_cases:
  assumes "close_group env g w = (es, c)"
  shows "if c then es = w @ [CloseSubgroup] else es = w"
  using assms by (auto simp: close_group_def split: if_splits)

text \<open>Writing the objects of a group and closing it: the shape of the CMAF and the subtitle round.\<close>

definition write_group :: "pub_env \<Rightarrow> u64 \<Rightarrow> 's \<Rightarrow> pub_event list \<times> go_error option \<Rightarrow> 's \<times> pub_event list \<times> bool" where
  "write_group env g s r = (case r of (w, Some e) \<Rightarrow> (s, w, False) | (w, None) \<Rightarrow> (s, close_group env g w))"

lemma write_group_log:
  assumes "write_group env g s (write_loop wenv due (log_write env g) 0 obs [OpenSubgroup g 0 prio]) = (s', es, c)"
  shows "s' = s \<and> (if c then es = group_log prio g (map (Pair []) obs) else stopped_log prio g es)"
proof -
  obtain w err where w: "write_loop wenv due (log_write env g) 0 obs [OpenSubgroup g 0 prio] = (w, err)" by fastforce
  from write_loop_log [OF this] obtain m where m: "m \<le> length obs"
    "w = OpenSubgroup g 0 prio # obj_log 0 (map (Pair []) (take m obs))" "err = None \<longrightarrow> m = length obs" by auto
  show ?thesis
  proof (cases err)
    case None
    then have "close_group env g w = (es, c)" "s' = s" using assms w by (auto simp: write_group_def)
    then show ?thesis using close_group_cases [of env g w es c] m None
      by (cases c) (auto simp: group_log_def stopped_log_def)
  next
    case (Some e)
    then show ?thesis using assms w m by (auto simp: write_group_def stopped_log_def)
  qed
qed

definition track_objects :: "nat \<Rightarrow> ('f, 'm, 'd, 'i, 'p, 's) mp4_lib \<Rightarrow> 'g go608 \<Rightarrow> string \<Rightarrow> u64 \<Rightarrow> ('i, 'p, unit_cue) content_track \<Rightarrow>
    ('i, 'p, unit_cue) content_track \<Rightarrow> (kv list \<times> bytes) list \<Rightarrow> bool" where
  "track_objects fuel M C packaging g ct ct' obs \<longleftrightarrow>
     (\<exists>mg. GenMoQGroup fuel M C ct g (ct_SampleBatch ct) MoqGroupDurMS packaging = Some (ct', Inr mg) \<and>
        obs = map (Pair []) (mg_MoQObjects mg))"

lemma track_round_write:
  "track_round fuel M C env packaging g ct =
     (if pe_ctxErr env g \<or> pe_openErr env g then Some (ct, [], False)
      else case GenMoQGroup fuel M C ct g (ct_SampleBatch ct) MoqGroupDurMS packaging of
        None \<Rightarrow> None
      | Some (ct1, Inl e) \<Rightarrow> Some (ct1, [OpenSubgroup g 0 MediaPriority], False)
      | Some (ct1, Inr mg) \<Rightarrow> Some (write_group env g ct1 (write_loop (group_env env g) (object_due ct1 (mg_startTime mg))
          (log_write env g) 0 (mg_MoQObjects mg) [OpenSubgroup g 0 MediaPriority])))"
  by (simp add: track_round_def write_group_def WriteMoQGroup_def split: option.splits sum.splits prod.splits)

interpretation cmaf_publisher: group_publisher "track_round fuel M C env packaging" MediaPriority "track_objects fuel M C packaging"
  for fuel M C env packaging
proof
  fix g ct ct' es
  assume "track_round fuel M C env packaging g ct = Some (ct', es, True)"
  then obtain ct1 mg where g: "GenMoQGroup fuel M C ct g (ct_SampleBatch ct) MoqGroupDurMS packaging = Some (ct1, Inr mg)"
    and w: "write_group env g ct1 (write_loop (group_env env g) (object_due ct1 (mg_startTime mg))
          (log_write env g) 0 (mg_MoQObjects mg) [OpenSubgroup g 0 MediaPriority]) = (ct', es, True)"
    by (auto simp: track_round_write split: if_splits option.splits prod.splits sum.splits)
  from write_group_log [OF w] g show "\<exists>obs. es = group_log MediaPriority g obs \<and> track_objects fuel M C packaging g ct ct' obs"
    by (auto simp: track_objects_def)
next
  fix g ct ct' es
  assume a: "track_round fuel M C env packaging g ct = Some (ct', es, False)"
  have o: "stopped_log MediaPriority g []" "stopped_log MediaPriority g [OpenSubgroup g 0 MediaPriority]"
    by (auto simp: stopped_log_def intro: exI [of _ "[]"])
  from a show "stopped_log MediaPriority g es"
    by (auto simp: track_round_write o split: if_splits option.splits prod.splits sum.splits dest!: write_group_log)
qed

definition subtitle_objects :: "nat \<Rightarrow> 'f sub_lib \<Rightarrow> u64 \<Rightarrow> subtitle_track \<Rightarrow> subtitle_track \<Rightarrow> (kv list \<times> bytes) list \<Rightarrow> bool" where
  "subtitle_objects fuel S g st st' obs \<longleftrightarrow> st' = st \<and>
     (\<exists>mg. GenSubtitleGroup fuel S st g MoqGroupDurMS = Some (Inr mg) \<and> obs = map (Pair []) (mg_MoQObjects mg))"

lemma subtitle_round_write:
  "subtitle_round fuel S env g st =
     (if pe_ctxErr env g \<or> pe_openErr env g then Some (st, [], False)
      else case GenSubtitleGroup fuel S st g MoqGroupDurMS of
        None \<Rightarrow> None
      | Some (Inl e) \<Rightarrow> Some (st, [OpenSubgroup g 0 MediaPriority], False)
      | Some (Inr mg) \<Rightarrow> Some (write_group env g st (write_loop (group_env env g) (\<lambda>k. sint (g * ucast MoqGroupDurMS))
          (log_write env g) 0 (mg_MoQObjects mg) [OpenSubgroup g 0 MediaPriority])))"
  by (simp add: subtitle_round_def write_group_def WriteSubtitleGroup_def split: option.splits sum.splits prod.splits)

interpretation subtitle_publisher: group_publisher "subtitle_round fuel S env" MediaPriority "subtitle_objects fuel S"
  for fuel S env
proof
  fix g st st' es
  assume "subtitle_round fuel S env g st = Some (st', es, True)"
  then obtain mg where g: "GenSubtitleGroup fuel S st g MoqGroupDurMS = Some (Inr mg)"
    and w: "write_group env g st (write_loop (group_env env g) (\<lambda>k. sint (g * ucast MoqGroupDurMS))
          (log_write env g) 0 (mg_MoQObjects mg) [OpenSubgroup g 0 MediaPriority]) = (st', es, True)"
    by (auto simp: subtitle_round_write split: if_splits option.splits sum.splits)
  from write_group_log [OF w] g show "\<exists>obs. es = group_log MediaPriority g obs \<and> subtitle_objects fuel S g st st' obs"
    by (auto simp: subtitle_objects_def)
next
  fix g st st' es
  assume a: "subtitle_round fuel S env g st = Some (st', es, False)"
  have o: "stopped_log MediaPriority g []" "stopped_log MediaPriority g [OpenSubgroup g 0 MediaPriority]"
    by (auto simp: stopped_log_def intro: exI [of _ "[]"])
  from a show "stopped_log MediaPriority g es"
    by (auto simp: subtitle_round_write o split: if_splits option.splits sum.splits dest!: write_group_log)
qed

text \<open>The LOC loop numbers samples and objects side by side.\<close>

lemma loc_objects_log:
  assumes "loc_objects gen due env g nr e k = (es, c)"
  shows "\<exists>obs cl. es = obj_log k obs @ cl \<and> map Inr obs = map (\<lambda>i. gen (nr + of_nat i)) [0..<length obs] \<and>
    (if c then cl = [] \<and> length obs = unat e - unat nr else cl = [] \<or> cl = [CloseSubgroup])"
  using assms
proof (induction gen due env g nr e k arbitrary: es rule: loc_objects.induct)
  case (1 gen due env g nr e k)
  show ?case
  proof (cases "nr < e \<and> \<not> pe_objErr env g k \<and> (\<exists>ob. gen nr = Inr ob) \<and> \<not> (due nr - pe_now env g k > 0 \<and> pe_waitErr env g k) \<and>
      pe_writeErr env g k = None")
    case True
    then obtain hs ob where ob: "gen nr = Inr (hs, ob)" by auto
    obtain fs d where r: "loc_objects gen due env g (nr + 1) e (Suc k) = (fs, d)" by fastforce
    have es: "es = WriteObject (of_nat k) hs ob # fs" "c = d"
      using "1.prems" True ob r by (auto simp: loc_objects.simps [of _ _ _ _ nr])
    have "loc_objects gen due env g (nr + 1) e (Suc k) = (fs, c)" using r es by simp
    from "1.IH" [OF _ _ ob _ _ _ this] True obtain obs cl where
      i: "fs = obj_log (Suc k) obs @ cl" "map Inr obs = map (\<lambda>i. gen (nr + 1 + of_nat i)) [0..<length obs]"
      "if c then cl = [] \<and> length obs = unat e - unat (nr + 1) else cl = [] \<or> cl = [CloseSubgroup]" by auto
    have u: "unat (nr + 1) = Suc (unat nr)" using True unat_next [of nr e] by simp
    have "unat nr < unat e" using True by (simp add: word_less_nat_alt)
    with u i(3) have n: "if c then cl = [] \<and> Suc (length obs) = unat e - unat nr else cl = [] \<or> cl = [CloseSubgroup]"
      by (auto split: if_splits)
    have "map Inr ((hs, ob) # obs) = map (\<lambda>i. gen (nr + of_nat i)) [0..<Suc (length obs)]"
      using i(2) ob by (simp add: map_upt_Suc algebra_simps del: upt_Suc)
    with es i(1) n show ?thesis by (intro exI [of _ "(hs, ob) # obs"] exI [of _ cl]) (auto split: if_splits simp del: upt_Suc)
  next
    case False
    then have "es = [] \<and> (c \<longrightarrow> \<not> nr < e) \<or> es = [CloseSubgroup] \<and> \<not> c"
      using "1.prems" by (auto simp: loc_objects.simps [of _ _ _ _ nr] split: if_splits sum.splits option.splits prod.splits)
    then show ?thesis by (intro exI [of _ "[]"] exI [of _ es]) (auto simp: word_less_nat_alt)
  qed
qed

definition loc_group_objects :: "('i, 'h, 'k) av1_lib \<Rightarrow> 'g go608 \<Rightarrow> video_captioner \<Rightarrow> u64 \<Rightarrow> ('i, 'p, unit_cue) loc_track \<Rightarrow>
    ('i, 'p, unit_cue) loc_track \<Rightarrow> (kv list \<times> bytes) list \<Rightarrow> bool" where
  "loc_group_objects A C cap g lt lt' obs \<longleftrightarrow> lt' = lt \<and>
     (\<exists>s e. CalcLOCGroupRange (lt_ContentTrack lt) g MoqGroupDurMS = Inr (s, e) \<and>
        map Inr obs = map (\<lambda>i. loc_sample A C cap (schedule C cap (sint g) s e) lt s (s + of_nat i)) [0..<unat e - unat s])"

lemma loc_round_cases:
  assumes "loc_round A C env cap sid g lt = Some (lt', es, c)"
  shows "lt' = lt \<and> (if c then \<exists>obs. es = group_log (locPriority sid) g obs \<and> loc_group_objects A C cap g lt lt obs
    else stopped_log (locPriority sid) g es)"
proof -
  let ?op = "OpenSubgroup g 0 (locPriority sid)" and ?ct = "lt_ContentTrack lt"
  have o: "stopped_log (locPriority sid) g []" "stopped_log (locPriority sid) g [?op]"
    by (auto simp: stopped_log_def intro: exI [of _ "[]"])
  show ?thesis
  proof (cases "pe_ctxErr env g \<or> pe_openErr env g \<or> (\<exists>e. CalcLOCGroupRange ?ct g MoqGroupDurMS = Inl e)")
    case True
    then show ?thesis using assms o by (auto simp: loc_round_def Let_def split: if_splits)
  next
    case False
    then obtain s e where r: "CalcLOCGroupRange ?ct g MoqGroupDurMS = Inr (s, e)"
      by (cases "CalcLOCGroupRange ?ct g MoqGroupDurMS") auto
    let ?gen = "loc_sample A C cap (schedule C cap (sint g) s e) lt s"
    obtain fs d where l: "loc_objects ?gen (loc_due ?ct) env g s e 0 = (fs, d)" by fastforce
    from loc_objects_log [OF l] obtain obs cl where f: "fs = obj_log 0 obs @ cl"
      "map Inr obs = map (\<lambda>i. ?gen (s + of_nat i)) [0..<length obs]"
      "if d then cl = [] \<and> length obs = unat e - unat s else cl = [] \<or> cl = [CloseSubgroup]" by blast
    have a: "(lt', es, c) = (if d then (lt, close_group env g (?op # fs)) else (lt, ?op # fs, False))"
      using assms False r l by (auto simp: loc_round_def Let_def)
    show ?thesis
    proof (cases c)
      case True
      with a have "d" "lt' = lt" "close_group env g (?op # fs) = (es, True)" by (auto split: if_splits)
      with f close_group_cases [of env g "?op # fs" es True] r show ?thesis using True
        by (auto simp: group_log_def loc_group_objects_def)
    next
      case False
      with a f close_group_cases [of env g "?op # fs" es False] show ?thesis
        by (auto simp: stopped_log_def split: if_splits)
    qed
  qed
qed

interpretation loc_publisher: group_publisher "loc_round A C env cap sid" "locPriority sid" "loc_group_objects A C cap"
  for A C env cap sid
  using loc_round_cases [of A C env cap sid] by unfold_locales fastforce+

section \<open>What is published\<close>

text \<open>C20: A CMAF or LOCMAF track is published group by group. Whatever the environment does, the operations
  of \<open>PublishTrack\<close> follow the subgroup protocol from the group after the current one on; and if the loop
  is still running after \<open>n\<close> rounds, they are exactly \<open>n\<close> complete groups with consecutive numbers whose
  objects are those \<open>GenMoQGroup\<close> built, each from the track as the group before left it.\<close>

theorem PublishTrack_protocol:
  assumes "asset_GetTrackByName a (trim_suffix name LocmafTrackSuffix) = Some ct"
    and "CurrMoQGroupNr ct (of_int now) MoqGroupDurMS = Inr cur"
    and "PublishTrack n fuel M C env a name packaging now = Some (cto, es, running)"
  shows "log_run MediaPriority (Between (cur + 1)) es \<noteq> None \<and>
    (running \<longrightarrow> (\<exists>gs ct'. cto = Some ct' \<and> length gs = n \<and> es = groups_log MediaPriority (cur + 1) gs \<and>
       published (track_objects fuel M C packaging) (cur + 1) ct gs ct'))"
proof -
  from assms obtain ct' where r: "publish_rounds n (track_round fuel M C env packaging) (cur + 1) ct = Some (ct', es, running)"
    and c: "cto = Some ct'" by (auto simp: PublishTrack_def)
  show ?thesis using cmaf_publisher.rounds_accepted [OF r] cmaf_publisher.rounds_running [of n] r c by fastforce
qed

text \<open>A LOC track is published group by group: the operations follow the subgroup protocol with the
  priority of the track's spatial layer, and while the loop runs every group holds one object per sample
  of the group, in order, with the headers and payload of that sample.\<close>

theorem PublishLOCTrack_protocol:
  assumes "GetLOCTrackByName a name = Some lt" and "newVideoCaptioner (lt_ContentTrack lt) = Inr cap"
    and "CurrMoQGroupNr (lt_ContentTrack lt) (of_int now) MoqGroupDurMS = Inr cur"
    and "PublishLOCTrack n A C env a name now = Some (es, running)"
    and "ct_TimeScale (lt_ContentTrack lt) \<noteq> 0" and "ct_SampleDur (lt_ContentTrack lt) \<noteq> 0"
  shows "let prio = locPriority (case lt_SpatialLayer lt of None \<Rightarrow> 0 | Some l \<Rightarrow> sl_SpatialID l) in
    log_run prio (Between (cur + 1)) es \<noteq> None \<and>
    (running \<longrightarrow> (\<exists>gs. length gs = n \<and> es = groups_log prio (cur + 1) gs \<and>
       published (loc_group_objects A C cap) (cur + 1) lt gs lt))"
proof -
  let ?sid = "case lt_SpatialLayer lt of None \<Rightarrow> 0 | Some l \<Rightarrow> sl_SpatialID l"
  from assms obtain lt' where r: "publish_rounds n (loc_round A C env cap ?sid) (cur + 1) lt = Some (lt', es, running)"
    by (auto simp: PublishLOCTrack_def Let_def)
  have "published (loc_group_objects A C cap) (cur + 1) lt gs lt' \<Longrightarrow> lt' = lt" for gs
    by (erule loc_publisher.published_same [rotated]) (simp add: loc_group_objects_def)
  then show ?thesis using loc_publisher.rounds_accepted [OF r] loc_publisher.rounds_running [of n] r
    by (fastforce simp: Let_def)
qed

text \<open>A subtitle track is published group by group, with the subgroup protocol and one group per
  second from the group after the current one.\<close>

theorem PublishSubtitleTrack_protocol:
  assumes "CurrSubtitleGroupNr (of_int now) MoqGroupDurMS = Inr cur"
    and "PublishSubtitleTrack n fuel S env st now = Some (es, running)"
  shows "log_run MediaPriority (Between (cur + 1)) es \<noteq> None \<and>
    (running \<longrightarrow> (\<exists>gs. length gs = n \<and> es = groups_log MediaPriority (cur + 1) gs \<and>
       published (subtitle_objects fuel S) (cur + 1) st gs st))"
proof -
  from assms obtain st' where r: "publish_rounds n (subtitle_round fuel S env) (cur + 1) st = Some (st', es, running)"
    by (auto simp: PublishSubtitleTrack_def)
  have "published (subtitle_objects fuel S) (cur + 1) st gs st' \<Longrightarrow> st' = st" for gs
    by (erule subtitle_publisher.published_same [rotated]) (simp add: subtitle_objects_def)
  then show ?thesis using subtitle_publisher.rounds_accepted [OF r] subtitle_publisher.rounds_running [of n] r by fastforce
qed

section \<open>Requests\<close>

text \<open>A FETCH is served with the catalog exactly when it starts at the beginning of the track: for a
  catalog track that is accepted and whose stream opens, the catalog object \<open>{0,0}\<close> is written iff the
  start location is \<open>{0,0}\<close>, whatever the end location; otherwise the response is empty and closed.\<close>

theorem fetch_serves_catalog:
  assumes "findNamespace h ns = Some e" and "ne_Packaging e \<noteq> ''moqmi''"
    and "fe_accept env" and "fe_stream env" and "fe_write env" and "fe_marshal env (ne_Catalog e) = Inr json"
  shows "fetch_handler h env ns ''catalog'' start stop =
    (if start = (0, 0) then [FAccept, FStream, FWrite 0 0 0 0 json, FClose] else [FAccept, FStream, FClose])"
proof -
  have "locationInFetchRange (0, 0) start stop \<longleftrightarrow> start = (0, 0)"
    by (cases start; cases stop) (auto simp: locationInFetchRange_def locationLess_def word_gt_0)
  with assms show ?thesis by (simp add: fetch_handler_def fetch_serve_def)
qed

lemma tupleEqual_iff: "tupleEqual xs ys \<longleftrightarrow> xs = ys"
  by (induction xs ys rule: tupleEqual.induct) auto

lemma collect_entries_of:
  "collect_entries f xs = Inr (ts, ids) \<Longrightarrow> x \<in> set xs \<Longrightarrow> \<exists>ts' ids'. f x = Inr (ts', ids') \<and> set ts' \<subseteq> set ts"
  by (induction xs arbitrary: ts ids) (fastforce split: sum.splits prod.splits)+

text \<open>What a track of the CMSF catalog is.\<close>

lemma GenCMAF_origin:
  assumes "GenCMAFCatalogEntry G a ns prot now = Inr cat" and "tr \<in> set (cat_Tracks cat)"
  shows "tr_Role tr = ''subtitle'' \<and> (\<exists>st. GetSubtitleTrackByName a (tr_Name tr) = Some st) \<or>
    tr_Role tr \<noteq> ''subtitle'' \<and> (\<exists>alt ct. (alt, ct) \<in> set (selected prot a) \<and> (tr_Packaging tr = ''cmaf'' \<and> tr_Name tr = ct_Name ct \<or>
        tr_Packaging tr = ''locmaf'' \<and> tr_Name tr = ct_Name ct @ LocmafTrackSuffix))"
proof -
  obtain mts mids sts sids where
    m: "collect_entries (\<lambda>(alt, ct). cmaf_entry G ns alt ct) (selected prot a) = Inr (mts, mids)"
    and s: "collect_entries (subtitle_entry G ns (length (as_Groups a))) (as_SubtitleTracks a) = Inr (sts, sids)"
    and t: "cat_Tracks cat = mts @ sts"
    using GenCMAF_parts [OF assms(1)] .
  show ?thesis
  proof (cases "tr \<in> set sts")
    case True
    from collect_entries_mem [OF s this] obtain st ts ids where st: "st \<in> set (as_SubtitleTracks a)"
      "subtitle_entry G ns (length (as_Groups a)) st = Inr (ts, ids)" "tr \<in> set ts" by blast
    then have "tr_Role tr = ''subtitle''" "tr_Name tr = st_Name st"
      by (auto simp: subtitle_entry_def Let_def zero_track_def split: option.splits sum.splits)
    then show ?thesis using subtitle_lookup.lookup_hit [OF st(1)] by auto
  next
    case False
    with assms(2) t have tm: "tr \<in> set mts" by simp
    from collect_entries_mem [OF m tm] obtain alt ct ts ids where c: "(alt, ct) \<in> set (selected prot a)"
      "cmaf_entry G ns alt ct = Inr (ts, ids)" "tr \<in> set ts" by auto
    then have "tr_Role tr \<noteq> ''subtitle''" "tr_Packaging tr = ''cmaf'' \<and> tr_Name tr = ct_Name ct \<or>
        tr_Packaging tr = ''locmaf'' \<and> tr_Name tr = ct_Name ct @ LocmafTrackSuffix"
      by (auto simp: cmaf_entry_def cmaf_base_def describe_media_def zero_track_def Let_def
          split: option.splits sum.splits prod.splits if_splits)
    with c(1) show ?thesis by blast
  qed
qed

text \<open>With distinct names the name of a media track is not that of a subtitle track.\<close>

lemma GenCMAF_cases:
  assumes "GenCMAFCatalogEntry G a ns prot now = Inr cat" and "tr \<in> set (cat_Tracks cat)"
    and "distinct (map tr_Name (cat_Tracks cat))"
  shows "if tr_Role tr = ''subtitle'' then \<exists>st. GetSubtitleTrackByName a (tr_Name tr) = Some st
    else GetSubtitleTrackByName a (tr_Name tr) = None \<and>
      (\<exists>alt ct. (alt, ct) \<in> set (selected prot a) \<and> (tr_Packaging tr = ''cmaf'' \<and> tr_Name tr = ct_Name ct \<or>
        tr_Packaging tr = ''locmaf'' \<and> tr_Name tr = ct_Name ct @ LocmafTrackSuffix))"
proof (cases "tr_Role tr = ''subtitle''")
  case True
  with GenCMAF_origin [OF assms(1,2)] show ?thesis by auto
next
  case False
  obtain mts mids sts sids where
    s: "collect_entries (subtitle_entry G ns (length (as_Groups a))) (as_SubtitleTracks a) = Inr (sts, sids)"
    and t: "cat_Tracks cat = mts @ sts"
    using GenCMAF_parts [OF assms(1)] .
  have "tr_Name tr \<noteq> st_Name st" if "st \<in> set (as_SubtitleTracks a)" for st
  proof -
    from collect_entries_of [OF s that] obtain tr2 where r: "tr2 \<in> set sts" "tr_Name tr2 = st_Name st" "tr_Role tr2 = ''subtitle''"
      by (auto simp: subtitle_entry_def Let_def zero_track_def split: option.splits sum.splits)
    with t have "tr2 \<in> set (cat_Tracks cat)" by simp
    with assms(2,3) r False show ?thesis by (metis distinct_map inj_onD)
  qed
  then have "GetSubtitleTrackByName a (tr_Name tr) = None" by (auto simp: subtitle_lookup.lookup_None)
  with GenCMAF_origin [OF assms(1,2)] False show ?thesis by auto
qed

text \<open>C21: Every track advertised in a CMSF catalog can be subscribed to. If the names of the catalog are
  distinct and no rendition's own name ends in the LOCMAF suffix, the subscription of an advertised
  track is accepted; a subtitle track starts the subtitle publisher, and any other track starts
  \<open>PublishTrack\<close> with its own packaging and resolves there to the rendition it was generated from.\<close>

theorem advertised_tracks_served:
  assumes "GenCMAFCatalogEntry G (hd_Asset h) ns prot now = Inr cat" and "distinct (map tr_Name (cat_Tracks cat))"
    and "distinct (map ct_Name (all_tracks (hd_Asset h)))"
    and "\<forall>ct \<in> set (all_tracks (hd_Asset h)). \<not> has_suffix (ct_Name ct) LocmafTrackSuffix"
    and "findNamespace h nst = Some e" and "ne_Catalog e = Some cat" and "ne_Packaging e = ''cmaf''" and "nst \<noteq> interopNamespace"
    and "tr \<in> set (cat_Tracks cat)" and "tr_Name tr \<noteq> ''catalog''"
  shows "if tr_Role tr = ''subtitle''
    then \<exists>st. subscribe_handler h True nst (tr_Name tr) = (Accept None, Some (JobSubtitle st)) \<and> st_Name st = tr_Name tr
    else subscribe_handler h True nst (tr_Name tr) = (Accept None, Some (JobTrack (tr_Name tr) (tr_Packaging tr))) \<and>
      (\<exists>alt ct. (alt, ct) \<in> set (selected prot (hd_Asset h)) \<and>
         asset_GetTrackByName (hd_Asset h) (trim_suffix (tr_Name tr) LocmafTrackSuffix) = Some ct)"
proof -
  have h: "subscribe_handler h True nst (tr_Name tr) = subscribe_track h True e (tr_Name tr)"
    using assms(5-8,10) by (simp add: subscribe_handler_def isInteropNamespace_def tupleEqual_iff)
  have f: "first_named tr_Name (cat_Tracks cat) (tr_Name tr) = Some tr"
    using catalog_lookup.lookup_distinct [OF assms(2,9)] by (simp add: GetTrackByName_def)
  note c = GenCMAF_cases [OF assms(1,9,2)]
  show ?thesis
  proof (cases "tr_Role tr = ''subtitle''")
    case True
    with c obtain st where st: "GetSubtitleTrackByName (hd_Asset h) (tr_Name tr) = Some st" by auto
    from subtitle_lookup.lookup_sound [OF st] st True h show ?thesis by (auto simp: subscribe_track_def accepted_def)
  next
    case False
    with c obtain alt ct where n: "GetSubtitleTrackByName (hd_Asset h) (tr_Name tr) = None"
      and s: "(alt, ct) \<in> set (selected prot (hd_Asset h))"
      and m: "tr_Name tr = ct_Name ct \<or> tr_Name tr = ct_Name ct @ LocmafTrackSuffix" by auto
    have "ct \<in> set (all_tracks (hd_Asset h))" using selected_mem [OF s] by blast
    with assms(3,4) m have "asset_GetTrackByName (hd_Asset h) (trim_suffix (tr_Name tr) LocmafTrackSuffix) = Some ct"
      by (auto simp: trim_suffix_no asset_lookup.lookup_distinct)
    with s n False h f assms(6,7) show ?thesis by (auto simp: subscribe_track_def accepted_def)
  qed
qed

section \<open>Instances\<close>

definition ex_env :: pub_env where
  "ex_env = \<lparr>pe_ctxErr = (\<lambda>g. False), pe_openErr = (\<lambda>g. False), pe_objErr = (\<lambda>g k. False), pe_waitErr = (\<lambda>g k. False),
     pe_now = (\<lambda>g k. 0), pe_writeErr = (\<lambda>g k. None), pe_closeErr = (\<lambda>g. False)\<rparr>"

definition ex_handler :: "catalog \<Rightarrow> (unit, unit, unit_cue) handler" where
  "ex_handler cat = \<lparr>hd_Namespaces = [\<lparr>ne_Namespace = [''cmsf'', ''clear''], ne_Catalog = Some cat, ne_Packaging = ''cmaf'',
     ne_MoqMITracks = Map.empty\<rparr>], hd_Asset = ex_cat_asset, hd_CatalogDelay = 0\<rparr>"

theorem PublishTrack_protocol_witness:
  "\<exists>cto es gs. PublishTrack 2 5 ex_mp4 ex_go608 ex_env ex_cat_asset ''v2_locmaf'' ''locmaf'' 700 = Some (cto, es, True) \<and>
     es = groups_log MediaPriority 1 gs \<and> length gs = 2"
proof -
  have "case PublishTrack 2 5 ex_mp4 ex_go608 ex_env ex_cat_asset ''v2_locmaf'' ''locmaf'' 700 of Some (cto, es, c) \<Rightarrow> c | None \<Rightarrow> False"
    by code_simp
  then obtain cto es where p: "PublishTrack 2 5 ex_mp4 ex_go608 ex_env ex_cat_asset ''v2_locmaf'' ''locmaf'' 700 = Some (cto, es, True)"
    by (auto split: option.splits)
  have t: "trim_suffix ''v2_locmaf'' LocmafTrackSuffix = ''v2''" by code_simp
  have a: "asset_GetTrackByName ex_cat_asset ''v2'' = Some ex_svc_track"
    by (simp add: asset_GetTrackByName_def ex_cat_asset_def ex_svc_track_def ex_avc_track_def)
  have c: "CurrMoQGroupNr ex_svc_track (of_int 700) MoqGroupDurMS = Inr 0" by code_simp
  from PublishTrack_protocol [OF a [folded t] c p] p show ?thesis by auto
qed

theorem PublishLOCTrack_protocol_witness:
  "\<exists>es gs. PublishLOCTrack 2 ex_av1 ex_go608 ex_env ex_cat_asset ''v2/s1'' 700 = Some (es, True) \<and>
     es = groups_log (locPriority 1) 1 gs \<and> length gs = 2"
proof -
  have "case PublishLOCTrack 2 ex_av1 ex_go608 ex_env ex_cat_asset ''v2/s1'' 700 of Some (es, c) \<Rightarrow> c | None \<Rightarrow> False"
    by code_simp
  then obtain es where p: "PublishLOCTrack 2 ex_av1 ex_go608 ex_env ex_cat_asset ''v2/s1'' 700 = Some (es, True)"
    by (auto split: option.splits)
  let ?lt = "\<lparr>lt_ContentTrack = ex_svc_track, lt_SpatialLayer = Some (ex_layer 1)\<rparr>"
  have nm: "layer_name ''v2'' 0 = ''v2/s0''" "layer_name ''v2'' (Suc 0) = ''v2/s1''" by code_simp+
  have a: "GetLOCTrackByName ex_cat_asset ''v2/s1'' = Some ?lt"
    by (simp add: GetLOCTrackByName_def all_tracks_def spatial_layers_of_def ex_cat_defs nm)
  have c: "CurrMoQGroupNr ex_svc_track (of_int 700) MoqGroupDurMS = Inr 0" by code_simp
  have "case newVideoCaptioner ex_svc_track of Inr cap \<Rightarrow> True | Inl e \<Rightarrow> False" by code_simp
  then obtain cap where cap: "newVideoCaptioner ex_svc_track = Inr cap" by (auto split: sum.splits)
  from PublishLOCTrack_protocol [OF a, of cap 700 0 2 ex_av1 ex_go608 ex_env es True] p c cap show ?thesis
    by (auto simp: Let_def ex_cat_defs)
qed

theorem PublishSubtitleTrack_protocol_witness:
  "\<exists>es gs. PublishSubtitleTrack 1 5 ex_subs ex_env (as_SubtitleTracks ex_cat_asset ! 0) 1500 = Some (es, True) \<and>
     es = groups_log MediaPriority 2 gs \<and> length gs = 1"
proof -
  have "case PublishSubtitleTrack 1 5 ex_subs ex_env (as_SubtitleTracks ex_cat_asset ! 0) 1500 of Some (es, c) \<Rightarrow> c | None \<Rightarrow> False"
    by code_simp
  then obtain es where p: "PublishSubtitleTrack 1 5 ex_subs ex_env (as_SubtitleTracks ex_cat_asset ! 0) 1500 = Some (es, True)"
    by (auto split: option.splits)
  have c: "CurrSubtitleGroupNr (of_int 1500) MoqGroupDurMS = Inr 1" by code_simp
  from PublishSubtitleTrack_protocol [OF c p] p show ?thesis by auto
qed

theorem fetch_serves_catalog_witness:
  "fetch_handler (ex_handler zero_catalog) \<lparr>fe_accept = True, fe_stream = True, fe_marshal = (\<lambda>c. Inr [7]), fe_write = True\<rparr>
     [''cmsf'', ''clear''] ''catalog'' (0, 0) (3, 0) = [FAccept, FStream, FWrite 0 0 0 0 [7], FClose]"
proof -
  let ?e = "hd_Namespaces (ex_handler zero_catalog) ! 0"
  have "findNamespace (ex_handler zero_catalog) [''cmsf'', ''clear''] = Some ?e" "ne_Packaging ?e \<noteq> ''moqmi''"
    by (simp_all add: findNamespace_def ex_handler_def)
  from fetch_serves_catalog [OF this, of _ "[7]" "(0, 0)" "(3, 0)"] show ?thesis by simp
qed

theorem advertised_tracks_served_witness:
  "\<exists>cat. GenCMAFCatalogEntry ex_gen ex_cat_asset ''ns'' ProtectionNone 0 = Inr cat \<and>
     subscribe_handler (ex_handler cat) True [''cmsf'', ''clear''] ''v1_locmaf'' = (Accept None, Some (JobTrack ''v1_locmaf'' (tr_Packaging (cat_Tracks cat ! 1))))"
proof -
  obtain cat where c: "GenCMAFCatalogEntry ex_gen ex_cat_asset ''ns'' ProtectionNone 0 = Inr cat"
    and n: "map tr_Name (cat_Tracks cat) = [''v1'', ''v1_locmaf'', ''v2'', ''v2_locmaf'', ''subs'']"
    and r: "tr_Role (cat_Tracks cat ! 1) = ''video''"
    using ex_catalog_generated by (auto split: sum.splits)
  have l: "length (cat_Tracks cat) = 5" using arg_cong [OF n, of length] by simp
  then have m: "cat_Tracks cat ! 1 \<in> set (cat_Tracks cat)" by simp
  have nm: "tr_Name (cat_Tracks cat ! 1) = ''v1_locmaf''" using arg_cong [OF n, of "\<lambda>xs. xs ! 1"] l by simp
  have h: "hd_Asset (ex_handler cat) = ex_cat_asset" by (simp add: ex_handler_def)
  have f: "findNamespace (ex_handler cat) [''cmsf'', ''clear''] = Some (hd_Namespaces (ex_handler cat) ! 0)"
    by (simp add: findNamespace_def ex_handler_def)
  have d: "distinct (map ct_Name (all_tracks ex_cat_asset))"
    "\<forall>ct \<in> set (all_tracks ex_cat_asset). \<not> has_suffix (ct_Name ct) LocmafTrackSuffix"
    by (simp_all add: all_tracks_def ex_cat_defs has_suffix_def LocmafTrackSuffix_def)
  have "distinct (map tr_Name (cat_Tracks cat))" by (simp add: n)
  from advertised_tracks_served [of ex_gen "ex_handler cat", unfolded h, OF c this d f _ _ _ m] r nm c show ?thesis
    by (simp add: ex_handler_def interopNamespace_def)
qed

end
