(* ===== verification/Moqmi.thy ===== *)
theory Moqmi
  imports Publish_Props
begin

text \<open>
  moq-mi (\<^verbatim>\<open>internal/pub/moqmi.go\<close>, \<^verbatim>\<open>internal/sub/moqmi.go\<close>): catalogless publishing of one
  AVC track (one group per GOP) and one AAC or Opus track (one group per frame) with extension headers,
  and the subscriber that reads the fixed track names and tracks gaps in the sequence ids. The header
  codec is moqtransport's \<^verbatim>\<open>moqmi\<close> package, a parameter (\<open>moqmi_lib\<close>); that it reads back what it
  wrote is the hypothesis \<open>moqmi_codec\<close>.
\<close>

section \<open>The moqmi package\<close>

record video_meta =
  vm_SeqID :: u64
  vm_PTS :: u64
  vm_DTS :: u64
  vm_Timebase :: u64
  vm_Duration :: u64
  vm_WallclockMS :: u64

record audio_meta =
  am_SeqID :: u64
  am_PTS :: u64
  am_Timebase :: u64
  am_SampleFreq :: u64
  am_NumChannels :: u64
  am_Duration :: u64
  am_WallclockMS :: u64

record 'c moqmi_lib =
  mm_VideoH264AVCC :: u64
  mm_AudioAACLC :: u64
  mm_AudioOpus :: u64
  mm_UTF8Text :: u64
  mm_VideoHeaders :: "video_meta \<Rightarrow> bytes option \<Rightarrow> kv list"
  mm_AudioAACHeaders :: "audio_meta \<Rightarrow> kv list"
  mm_AudioOpusHeaders :: "audio_meta \<Rightarrow> kv list"
  mm_MediaType :: "kv list \<Rightarrow> u64 option"
  mm_ReadVideoMetadata :: "kv list \<Rightarrow> (video_meta \<times> bool) res"
  mm_ReadVideoExtradata :: "kv list \<Rightarrow> bytes option"
  mm_ReadAudioAACMetadata :: "kv list \<Rightarrow> (audio_meta \<times> bool) res"
  mm_ReadAudioOpusMetadata :: "kv list \<Rightarrow> (audio_meta \<times> bool) res"
  mm_ReadTextMetadata :: "kv list \<Rightarrow> (u64 \<times> bool) res"
  mm_CreateAVCDecConfRec :: "bytes list \<Rightarrow> bytes list \<Rightarrow> bool \<Rightarrow> 'c res"
  mm_EncodeDecConf :: "'c \<Rightarrow> bytes res"

section \<open>Publishing video\<close>

definition GenAVCDecoderConfigurationRecord :: "'c moqmi_lib \<Rightarrow> 'i avc_data \<Rightarrow> bytes res" where
  "GenAVCDecoderConfigurationRecord L d = (case mm_CreateAVCDecConfRec L (av_Spss d) (av_Ppss d) True of
     Inl e \<Rightarrow> Inl (Wrapf ''create AVCDecoderConfigurationRecord'' e)
   | Inr dcr \<Rightarrow> wrap_err ''encode AVCDecoderConfigurationRecord'' (mm_EncodeDecConf L dcr))"

text \<open>The first group: the GOP after the one \<open>now\<close> is in. Dividing by a zero timescale panics.\<close>

definition mi_first_gop :: "('i, 'p, 'u) content_track \<Rightarrow> u64 \<Rightarrow> u64 res" where
  "mi_first_gop ct now =
     (let gopLen = ucast (ct_GopLength ct); timebase = ucast (ct_TimeScale ct); sampleDur = ucast (ct_SampleDur ct)
      in if timebase = 0 then Inl (Panic ''integer divide by zero'')
         else let gopDurMS = gopLen * sampleDur * 1000 div timebase;
                  gopDurMS = (if gopDurMS = 0 then 1000 else gopDurMS)
              in Inr (now div gopDurMS + 1))"

definition mi_due :: "('i, 'p, 'u) content_track \<Rightarrow> u64 \<Rightarrow> int" where
  "mi_due ct sampleNr = sint (sampleNr * ucast (ct_SampleDur ct) * 1000 div ucast (ct_TimeScale ct))"

definition mi_video_object :: "'c moqmi_lib \<Rightarrow> 'g go608 \<Rightarrow> video_captioner \<Rightarrow> bytes list option \<Rightarrow> bytes \<Rightarrow>
    ('i, 'p, unit_cue) content_track \<Rightarrow> u64 \<Rightarrow> (nat \<Rightarrow> u64) \<Rightarrow> nat \<Rightarrow> u64 \<Rightarrow> u64 \<Rightarrow> (kv list \<times> bytes) res" where
  "mi_video_object L C cap sei extradata ct startSample wall objectID sampleNr seqID = (case CalcSample ct sampleNr of
     Inl e \<Rightarrow> Inl e
   | Inr (_, origNr) \<Rightarrow> (case idx (ct_Samples ct) (unat origNr) of
     Inl e \<Rightarrow> Inl e
   | Inr sample \<Rightarrow>
       let dat = spliceFrame C cap (fs_Data sample) sei sampleNr startSample;
           pts = sampleNr * ucast (ct_SampleDur ct);
           meta = \<lparr>vm_SeqID = seqID, vm_PTS = pts, vm_DTS = pts, vm_Timebase = ucast (ct_TimeScale ct),
                   vm_Duration = ucast (ct_SampleDur ct), vm_WallclockMS = wall objectID\<rparr>
       in Inr (mm_VideoHeaders L meta (if objectID = 0 then Some extradata else None), dat)))"

text \<open>The loop over the samples of a GOP, with the sequence id it advances.\<close>

function mi_objects :: "(nat \<Rightarrow> u64 \<Rightarrow> u64 \<Rightarrow> (kv list \<times> bytes) res) \<Rightarrow> (u64 \<Rightarrow> int) \<Rightarrow> pub_env \<Rightarrow> u64 \<Rightarrow> u64 \<Rightarrow> u64 \<Rightarrow> nat \<Rightarrow>
    u64 \<Rightarrow> u64 \<times> pub_event list \<times> bool" where
  "mi_objects gen due env g nr endNr k seqID =
     (if nr < endNr then
        if pe_objErr env g k then (seqID, [], False)
        else case gen k nr seqID of
          Inl e \<Rightarrow> (seqID, [], False)
        | Inr (headers, payload) \<Rightarrow>
            if due nr - pe_now env g k > 0 \<and> pe_waitErr env g k then (seqID, [], False)
            else (case pe_writeErr env g k of
                Some e \<Rightarrow> (seqID, [], False)
              | None \<Rightarrow> (case mi_objects gen due env g (nr + 1) endNr (Suc k) (seqID + 1) of
                  (seqID', es, c) \<Rightarrow> (seqID', WriteObject (of_nat k) headers payload # es, c)))
      else (seqID, [], True))"
  by auto
termination
  by (relation "measure (\<lambda>(gen, due, env, g, nr, e, k, s). unat (e - nr))") (auto intro: word_loop_measure)

declare mi_objects.simps [simp del]

definition mi_video_round :: "'c moqmi_lib \<Rightarrow> 'g go608 \<Rightarrow> pub_env \<Rightarrow> (u64 \<Rightarrow> nat \<Rightarrow> u64) \<Rightarrow> video_captioner \<Rightarrow> bytes \<Rightarrow>
    ('i, 'p, unit_cue) content_track \<Rightarrow> u64 \<Rightarrow> u64 \<Rightarrow> (u64 \<times> pub_event list \<times> bool) option" where
  "mi_video_round L C env wall cap extradata ct g seqID =
     (if pe_ctxErr env g \<or> pe_openErr env g then Some (seqID, [], False)
      else let gopLen = ucast (ct_GopLength ct); startSample = g * gopLen; endSample = startSample + gopLen;
               anchorSec = sint (startSample * ucast (ct_SampleDur ct) div ucast (ct_TimeScale ct));
               sei = schedule C cap anchorSec startSample endSample
        in Some (case mi_objects (mi_video_object L C cap sei extradata ct startSample (wall g)) (mi_due ct) env g
              startSample endSample 0 seqID of
            (seqID', es, False) \<Rightarrow> (seqID', OpenSubgroup g 0 MediaPriority # es, False)
          | (seqID', es, True) \<Rightarrow> (seqID', close_group env g (OpenSubgroup g 0 MediaPriority # es))))"

definition publishMoqMIVideo :: "nat \<Rightarrow> 'c moqmi_lib \<Rightarrow> 'g go608 \<Rightarrow> pub_env \<Rightarrow> (u64 \<Rightarrow> nat \<Rightarrow> u64) \<Rightarrow>
    ('i, 'p, unit_cue) content_track \<Rightarrow> 'i avc_data \<Rightarrow> int \<Rightarrow> (pub_event list \<times> bool) option" where
  "publishMoqMIVideo n L C env wall ct d now = (case GenAVCDecoderConfigurationRecord L d of
     Inl e \<Rightarrow> Some ([], False)
   | Inr extradata \<Rightarrow>
       if ct_GopLength ct = 0 then Some ([], False)
       else case mi_first_gop ct (of_int now) of
         Inl e \<Rightarrow> Some ([], False)
       | Inr groupNr \<Rightarrow> (case newVideoCaptioner ct of
           Inl e \<Rightarrow> Some ([], False)
         | Inr cap \<Rightarrow> map_option (\<lambda>(s, es, c). (es, c))
             (publish_rounds n (mi_video_round L C env wall cap extradata ct) groupNr (groupNr * ucast (ct_GopLength ct)))))"

section \<open>Publishing audio\<close>

text \<open>\<^verbatim>\<open>strconv.ParseUint(s, 10, 64)\<close>.\<close>

definition digit_val :: "char \<Rightarrow> nat option" where
  "digit_val c = (if 48 \<le> (of_char c :: nat) \<and> (of_char c :: nat) \<le> 57 then Some (of_char c - 48) else None)"

fun parse_digits :: "nat \<Rightarrow> string \<Rightarrow> nat option" where
  "parse_digits acc [] = Some acc"
| "parse_digits acc (c # cs) = (case digit_val c of None \<Rightarrow> None | Some d \<Rightarrow> parse_digits (10 * acc + d) cs)"

definition ParseUint :: "string \<Rightarrow> u64 res" where
  "ParseUint s = (if s = [] then Inl (Errorf ''invalid syntax'') else case parse_digits 0 s of
     None \<Rightarrow> Inl (Errorf ''invalid syntax'')
   | Some n \<Rightarrow> if n < 2 ^ 64 then Inr (of_nat n) else Inl (Errorf ''value out of range''))"

definition audioChannels :: "'i spec_data option \<Rightarrow> u64" where
  "audioChannels sdo = (case (case sdo of Some (AACData d) \<Rightarrow> Some (aa_channelConfig d)
       | Some (OpusData d) \<Rightarrow> Some (op_channelConfig d) | _ \<Rightarrow> None) of
     None \<Rightarrow> 0
   | Some cfg \<Rightarrow> (case ParseUint cfg of Inl e \<Rightarrow> 0 | Inr n \<Rightarrow> n))"

definition mi_first_frame :: "('i, 'p, 'u) content_track \<Rightarrow> u64 \<Rightarrow> u64" where
  "mi_first_frame ct now =
     (let sampleDur = ucast (ct_SampleDur ct); framePTSUnits = now * ucast (ct_TimeScale ct) div 1000;
          frameNr = framePTSUnits div sampleDur
      in if framePTSUnits mod sampleDur \<noteq> 0 then frameNr + 1 else frameNr)"

definition mi_audio_headers :: "'c moqmi_lib \<Rightarrow> u64 \<Rightarrow> audio_meta \<Rightarrow> kv list option" where
  "mi_audio_headers L mediaType meta = (if mediaType = mm_AudioAACLC L then Some (mm_AudioAACHeaders L meta)
     else if mediaType = mm_AudioOpus L then Some (mm_AudioOpusHeaders L meta) else None)"

definition mi_audio_meta :: "(u64 \<Rightarrow> nat \<Rightarrow> u64) \<Rightarrow> ('i, 'p, 'u) content_track \<Rightarrow> u64 \<Rightarrow> u64 \<Rightarrow> audio_meta" where
  "mi_audio_meta wall ct frameNr seqID =
     \<lparr>am_SeqID = seqID, am_PTS = frameNr * ucast (ct_SampleDur ct), am_Timebase = ucast (ct_TimeScale ct),
      am_SampleFreq = ucast (ct_TimeScale ct), am_NumChannels = audioChannels (ct_SpecData ct),
      am_Duration = ucast (ct_SampleDur ct), am_WallclockMS = wall frameNr 0\<rparr>"

text \<open>One frame is one group; the loop's state is the sequence id. A zero timescale panics.\<close>

definition mi_audio_round :: "'c moqmi_lib \<Rightarrow> pub_env \<Rightarrow> (u64 \<Rightarrow> nat \<Rightarrow> u64) \<Rightarrow> u64 \<Rightarrow> ('i, 'p, 'u) content_track \<Rightarrow>
    u64 \<Rightarrow> u64 \<Rightarrow> (u64 \<times> pub_event list \<times> bool) option" where
  "mi_audio_round L env wall mediaType ct frameNr seqID =
     (if pe_ctxErr env frameNr \<or> ct_TimeScale ct = 0 then Some (seqID, [], False)
      else if mi_due ct frameNr - pe_now env frameNr 0 > 0 \<and> pe_waitErr env frameNr 0 then Some (seqID, [], False)
      else Some (case CalcSample ct frameNr of
        Inl e \<Rightarrow> (seqID, [], False)
      | Inr (_, origNr) \<Rightarrow> (case idx (ct_Samples ct) (unat origNr) of
        Inl e \<Rightarrow> (seqID, [], False)
      | Inr sample \<Rightarrow>
          if pe_openErr env frameNr then (seqID, [], False)
          else let opened = OpenSubgroup frameNr 0 MediaPriority
            in (case mi_audio_headers L mediaType (mi_audio_meta wall ct frameNr seqID) of
                None \<Rightarrow> (seqID, [opened, CloseSubgroup], False)
              | Some headers \<Rightarrow> (case pe_writeErr env frameNr 0 of
                  Some e \<Rightarrow> (seqID, [opened, CloseSubgroup], False)
                | None \<Rightarrow> (seqID + 1, close_group env frameNr [opened, WriteObject 0 headers (fs_Data sample)]))))))"

definition publishMoqMIAudio :: "nat \<Rightarrow> 'c moqmi_lib \<Rightarrow> pub_env \<Rightarrow> (u64 \<Rightarrow> nat \<Rightarrow> u64) \<Rightarrow> ('i, 'p, 'u) content_track \<Rightarrow> u64 \<Rightarrow>
    int \<Rightarrow> (pub_event list \<times> bool) option" where
  "publishMoqMIAudio n L env wall ct mediaType now =
     (if ct_SampleDur ct = 0 then Some ([], False)
      else let frameNr = mi_first_frame ct (of_int now)
        in map_option (\<lambda>(s, es, c). (es, c)) (publish_rounds n (mi_audio_round L env wall mediaType ct) frameNr frameNr))"

definition PublishMoqMITrack :: "nat \<Rightarrow> 'c moqmi_lib \<Rightarrow> 'g go608 \<Rightarrow> pub_env \<Rightarrow> (u64 \<Rightarrow> nat \<Rightarrow> u64) \<Rightarrow>
    ('i, 'p, unit_cue) asset \<Rightarrow> string \<Rightarrow> int \<Rightarrow> (pub_event list \<times> bool) option" where
  "PublishMoqMITrack n L C env wall a assetTrackName now = (case asset_GetTrackByName a assetTrackName of
     None \<Rightarrow> Some ([], False)
   | Some ct \<Rightarrow> (case ct_SpecData ct of
       Some (AVCData d) \<Rightarrow> publishMoqMIVideo n L C env wall ct d now
     | Some (AACData d) \<Rightarrow> publishMoqMIAudio n L env wall ct (mm_AudioAACLC L) now
     | Some (OpusData d) \<Rightarrow> publishMoqMIAudio n L env wall ct (mm_AudioOpus L) now
     | _ \<Rightarrow> Some ([], False)))"

section \<open>The binding of the fixed names\<close>

definition bind_first :: "string \<Rightarrow> string \<Rightarrow> (string \<rightharpoonup> string) \<Rightarrow> (string \<rightharpoonup> string)" where
  "bind_first k n m = (if m k = None then m(k \<mapsto> n) else m)"

definition bind_track :: "('i, 'p, 'u) content_track \<Rightarrow> (string \<rightharpoonup> string) \<Rightarrow> (string \<rightharpoonup> string)" where
  "bind_track ct m = (if ct_Protection ct \<noteq> ProtectionNone then m else (case ct_SpecData ct of
     Some (AVCData d) \<Rightarrow> bind_first ''video0'' (ct_Name ct) m
   | Some (AACData d) \<Rightarrow> bind_first ''audio0'' (ct_Name ct) m
   | _ \<Rightarrow> m))"

definition is_opus :: "('i, 'p, 'u) content_track \<Rightarrow> bool" where
  "is_opus ct = (ct_Protection ct = ProtectionNone \<and> (case ct_SpecData ct of Some (OpusData d) \<Rightarrow> True | _ \<Rightarrow> False))"

definition BuildMoqMITrackMap :: "('i, 'p, 'u) asset \<Rightarrow> (string \<rightharpoonup> string) res" where
  "BuildMoqMITrackMap a =
     (let m = fold bind_track (all_tracks a) Map.empty;
          m = (if m ''audio0'' = None then (case find is_opus (all_tracks a) of
                 None \<Rightarrow> m | Some ct \<Rightarrow> m(''audio0'' \<mapsto> ct_Name ct)) else m)
      in if m ''video0'' = None then Inl (Errorf ''no clear AVC video track available for moq-mi video0'') else Inr m)"

section \<open>The subscriber\<close>

definition IsMoqMINamespace :: "string list \<Rightarrow> bool" where
  "IsMoqMINamespace ns = (case ns of [] \<Rightarrow> False | s # _ \<Rightarrow> s = ''moq-mi'' \<or> has_prefix s ''moq-mi/'')"

text \<open>The fixed subscriptions: \<open>outs\<close> says which outputs are configured and \<open>sub\<close> which SUBSCRIBEs succeed.
  The result is the tracks being read, or None when the connection is closed.\<close>

definition handleMoqMI :: "(string \<Rightarrow> bool) \<Rightarrow> (string \<Rightarrow> bool) \<Rightarrow> (string \<times> string) list option" where
  "handleMoqMI outs sub =
     (let v = (if outs ''video'' \<or> \<not> outs ''mux'' then (if sub ''video0'' then [(''video0'', ''video'')] else []) else []);
          au = (if outs ''audio'' \<or> \<not> outs ''mux'' then (if sub ''audio0'' then [(''audio0'', ''audio'')] else []) else [])
      in if v @ au = [] then None else Some (v @ au))"

record seq_state =
  sq_last :: u64
  sq_have :: bool

definition seqDelta :: "u64 \<Rightarrow> seq_state \<Rightarrow> seq_state \<times> u64" where
  "seqDelta seq st = (if \<not> sq_have st then (\<lparr>sq_last = seq, sq_have = True\<rparr>, 0)
     else (st\<lparr>sq_last := seq\<rparr>, seq - sq_last st))"

datatype mi_log = MiNoMediaType | MiBadMetadata | MiVideo video_meta "bytes option" u64 | MiAudio audio_meta u64
  | MiText u64 | MiUnknown u64

definition mi_audio_log :: "(audio_meta \<times> bool) res \<Rightarrow> seq_state \<Rightarrow> seq_state \<times> mi_log" where
  "mi_audio_log r st = (case r of
     Inr (meta, True) \<Rightarrow> (let (st', gap) = seqDelta (am_SeqID meta) st in (st', MiAudio meta gap))
   | _ \<Rightarrow> (st, MiBadMetadata))"

definition logMoqMIObject :: "'c moqmi_lib \<Rightarrow> kv list \<Rightarrow> seq_state \<Rightarrow> seq_state \<times> mi_log" where
  "logMoqMIObject L hs st = (case mm_MediaType L hs of
     None \<Rightarrow> (st, MiNoMediaType)
   | Some mt \<Rightarrow>
       if mt = mm_VideoH264AVCC L then (case mm_ReadVideoMetadata L hs of
           Inr (meta, True) \<Rightarrow> (let (st', gap) = seqDelta (vm_SeqID meta) st in (st', MiVideo meta (mm_ReadVideoExtradata L hs) gap))
         | _ \<Rightarrow> (st, MiBadMetadata))
       else if mt = mm_AudioAACLC L then mi_audio_log (mm_ReadAudioAACMetadata L hs) st
       else if mt = mm_AudioOpus L then mi_audio_log (mm_ReadAudioOpusMetadata L hs) st
       else if mt = mm_UTF8Text L then (case mm_ReadTextMetadata L hs of
           Inr (seq, True) \<Rightarrow> (st, MiText seq) | _ \<Rightarrow> (st, MiBadMetadata))
       else (st, MiUnknown mt))"

text \<open>The reading goroutine of \<^verbatim>\<open>subscribeMoqMI\<close>: what it logs and writes for the objects it reads, until
  the stream ends or a write fails.\<close>

fun mi_read_loop :: "'c moqmi_lib \<Rightarrow> (bytes \<Rightarrow> bool) option \<Rightarrow> (kv list \<times> bytes) list \<Rightarrow> seq_state \<Rightarrow> mi_log list \<times> bytes" where
  "mi_read_loop L out [] st = ([], [])"
| "mi_read_loop L out ((hs, payload) # obs) st = (case logMoqMIObject L hs st of
     (st', l) \<Rightarrow> (case out of
         None \<Rightarrow> (case mi_read_loop L out obs st' of (ls, bs) \<Rightarrow> (l # ls, bs))
       | Some ok \<Rightarrow> if \<not> ok payload then ([l], [])
           else (case mi_read_loop L out obs st' of (ls, bs) \<Rightarrow> (l # ls, payload @ bs))))"

end
