(* ===== verification/Moqmi_Props.thy ===== *)
theory Moqmi_Props
  imports Moqmi
begin

text \<open>
  What moq-mi promises: publisher and subscriber together. The video and the audio loop are further
  interpretations of \<open>group_publisher\<close>; with a header codec that reads back what it wrote, the subscriber of
  a video track sees consecutive sequence ids across all groups.
\<close>

lemma mi_objects_log:
  assumes "mi_objects gen due env g nr e k sq = (sq', es, c)"
  shows "\<exists>obs. es = obj_log k obs \<and> map Inr obs = map (\<lambda>i. gen (k + i) (nr + of_nat i) (sq + of_nat i)) [0..<length obs] \<and>
    sq' = sq + of_nat (length obs) \<and> (c \<longrightarrow> length obs = unat e - unat nr)"
  using assms
proof (induction gen due env g nr e k sq arbitrary: es rule: mi_objects.induct)
  case (1 gen due env g nr e k sq)
  show ?case
  proof (cases "nr < e \<and> \<not> pe_objErr env g k \<and> (\<exists>ob. gen k nr sq = Inr ob) \<and> \<not> (due nr - pe_now env g k > 0 \<and> pe_waitErr env g k) \<and>
      pe_writeErr env g k = None")
    case True
    then obtain hs ob where ob: "gen k nr sq = Inr (hs, ob)" by auto
    obtain s fs d where r: "mi_objects gen due env g (nr + 1) e (Suc k) (sq + 1) = (s, fs, d)" by (metis surj_pair)
    have es: "es = WriteObject (of_nat k) hs ob # fs" "c = d" "s = sq'"
      using "1.prems" True ob r by (auto simp: mi_objects.simps [of _ _ _ _ nr])
    have "mi_objects gen due env g (nr + 1) e (Suc k) (sq + 1) = (sq', fs, c)" using r es by simp
    from "1.IH" [OF _ _ ob _ _ _ this] True obtain obs where
      i: "fs = obj_log (Suc k) obs" "map Inr obs = map (\<lambda>i. gen (Suc k + i) (nr + 1 + of_nat i) (sq + 1 + of_nat i)) [0..<length obs]"
      "sq' = sq + 1 + of_nat (length obs)" "c \<longrightarrow> length obs = unat e - unat (nr + 1)" by auto
    have "unat nr < unat e" using True by (simp add: word_less_nat_alt)
    with True unat_next [of nr e] i(4) have n: "c \<longrightarrow> Suc (length obs) = unat e - unat nr" by auto
    have "map Inr ((hs, ob) # obs) = map (\<lambda>i. gen (k + i) (nr + of_nat i) (sq + of_nat i)) [0..<Suc (length obs)]"
      using i(2) ob by (simp add: map_upt_Suc algebra_simps del: upt_Suc)
    with es i(1,3) n show ?thesis by (intro exI [of _ "(hs, ob) # obs"]) (auto simp del: upt_Suc)
  next
    case False
    then have "es = []" "sq' = sq" "c \<longrightarrow> \<not> nr < e"
      using "1.prems" by (auto simp: mi_objects.simps [of _ _ _ _ nr] split: if_splits sum.splits option.splits prod.splits)
    then show ?thesis by (intro exI [of _ "[]"]) (auto simp: word_less_nat_alt)
  qed
qed

section \<open>The two loops\<close>

definition mi_video_group :: "'c moqmi_lib \<Rightarrow> 'g go608 \<Rightarrow> (u64 \<Rightarrow> nat \<Rightarrow> u64) \<Rightarrow> video_captioner \<Rightarrow> bytes \<Rightarrow>
    ('i, 'p, unit_cue) content_track \<Rightarrow> u64 \<Rightarrow> u64 \<Rightarrow> u64 \<Rightarrow> (kv list \<times> bytes) list \<Rightarrow> bool" where
  "mi_video_group L C wall cap extradata ct g sq sq' obs \<longleftrightarrow>
     (let gopLen = ucast (ct_GopLength ct); s = g * gopLen; e = s + gopLen;
          sei = schedule C cap (sint (s * ucast (ct_SampleDur ct) div ucast (ct_TimeScale ct))) s e
      in map Inr obs = map (\<lambda>i. mi_video_object L C cap sei extradata ct s (wall g) i (s + of_nat i) (sq + of_nat i)) [0..<unat e - unat s] \<and>
         sq' = sq + of_nat (length obs))"

lemma mi_video_round_cases:
  assumes "mi_video_round L C env wall cap xd ct g sq = Some (sq', es, c)"
  shows "if c then \<exists>obs. es = group_log MediaPriority g obs \<and> mi_video_group L C wall cap xd ct g sq sq' obs
    else stopped_log MediaPriority g es"
proof (cases "pe_ctxErr env g \<or> pe_openErr env g")
  case True
  then show ?thesis using assms by (auto simp: mi_video_round_def stopped_log_def)
next
  case False
  define s where "s = g * ucast (ct_GopLength ct)"
  define sei where "sei = schedule C cap (sint (s * ucast (ct_SampleDur ct) div ucast (ct_TimeScale ct))) s (s + ucast (ct_GopLength ct))"
  let ?op = "OpenSubgroup g 0 MediaPriority" and ?e = "s + ucast (ct_GopLength ct)"
  let ?gen = "mi_video_object L C cap sei xd ct s (wall g)"
  obtain s1 fs d where l: "mi_objects ?gen (mi_due ct) env g s ?e 0 sq = (s1, fs, d)" by (metis surj_pair)
  from mi_objects_log [OF l] obtain obs where f: "fs = obj_log 0 obs"
    "map Inr obs = map (\<lambda>i. ?gen i (s + of_nat i) (sq + of_nat i)) [0..<length obs]"
    "s1 = sq + of_nat (length obs)" "d \<longrightarrow> length obs = unat ?e - unat s" by auto
  have a: "(sq', es, c) = (if d then (s1, close_group env g (?op # fs)) else (s1, ?op # fs, False))"
    using assms False l by (auto simp: mi_video_round_def Let_def s_def sei_def)
  show ?thesis
  proof (cases c)
    case True
    with a have "d" "sq' = s1" "close_group env g (?op # fs) = (es, True)" by (auto split: if_splits)
    with f close_group_cases [of env g "?op # fs" es True] True show ?thesis
      by (auto simp: group_log_def mi_video_group_def Let_def s_def sei_def)
  next
    case False
    with a f close_group_cases [of env g "?op # fs" es False] show ?thesis
      by (auto simp: stopped_log_def split: if_splits)
  qed
qed

interpretation mi_video_publisher: group_publisher "mi_video_round L C env wall cap xd ct" MediaPriority
    "mi_video_group L C wall cap xd ct"
  for L C env wall cap xd ct
  using mi_video_round_cases [of L C env wall cap xd ct] by unfold_locales fastforce+

definition mi_audio_group :: "'c moqmi_lib \<Rightarrow> (u64 \<Rightarrow> nat \<Rightarrow> u64) \<Rightarrow> u64 \<Rightarrow> ('i, 'p, 'u) content_track \<Rightarrow> u64 \<Rightarrow> u64 \<Rightarrow> u64 \<Rightarrow>
    (kv list \<times> bytes) list \<Rightarrow> bool" where
  "mi_audio_group L wall mediaType ct g sq sq' obs \<longleftrightarrow> sq' = sq + 1 \<and>
     (\<exists>st orig sample hs. CalcSample ct g = Inr (st, orig) \<and> idx (ct_Samples ct) (unat orig) = Inr sample \<and>
        mi_audio_headers L mediaType (mi_audio_meta wall ct g sq) = Some hs \<and> obs = [(hs, fs_Data sample)])"

lemma obj_log_Nil [simp]: "[] = obj_log k obs \<longleftrightarrow> obs = []"
  by (cases "(k, obs)" rule: obj_log.cases) auto

lemma obj_log_single: "[WriteObject i hs ob] = obj_log k obs \<longleftrightarrow> i = of_nat k \<and> obs = [(hs, ob)]"
proof
  assume "[WriteObject i hs ob] = obj_log k obs"
  then show "i = of_nat k \<and> obs = [(hs, ob)]" by (cases "(k, obs)" rule: obj_log.cases) auto
qed simp

lemma mi_audio_round_cases:
  assumes "mi_audio_round L env wall mediaType ct g sq = Some (sq', es, c)"
  shows "if c then \<exists>obs. es = group_log MediaPriority g obs \<and> mi_audio_group L wall mediaType ct g sq sq' obs
    else stopped_log MediaPriority g es"
proof -
  let ?op = "OpenSubgroup g 0 MediaPriority"
  have st: "stopped_log MediaPriority g []" "stopped_log MediaPriority g [?op, CloseSubgroup]"
    "stopped_log MediaPriority g [?op, WriteObject 0 hs ob]" for hs ob
    by (auto simp: stopped_log_def intro: exI [of _ "[]"] exI [of _ "[(hs, ob)]"])
  show ?thesis
    using assms
    by (auto simp: mi_audio_round_def mi_audio_group_def close_group_def group_log_def st Let_def obj_log_single
        split: if_splits sum.splits option.splits prod.splits)
qed

interpretation mi_audio_publisher: group_publisher "mi_audio_round L env wall mediaType ct" MediaPriority
    "mi_audio_group L wall mediaType ct"
  for L env wall mediaType ct
  using mi_audio_round_cases [of L env wall mediaType ct] by unfold_locales fastforce+

section \<open>Sequence ids\<close>

definition seq_headers :: "'c moqmi_lib \<Rightarrow> u64 \<Rightarrow> u64 \<Rightarrow> (kv list \<times> bytes) list \<Rightarrow> bool" where
  "seq_headers L sd s obs \<longleftrightarrow> (\<forall>i < length obs. \<exists>m x. fst (obs ! i) = mm_VideoHeaders L m x \<and>
     vm_SeqID m = s + of_nat i \<and> vm_PTS m = (s + of_nat i) * sd)"

lemma seq_headers_Nil [simp]: "seq_headers L sd s []"
  by (simp add: seq_headers_def)

lemma seq_headers_Cons [simp]:
  "seq_headers L sd s (ob # obs) \<longleftrightarrow> (\<exists>m x. fst ob = mm_VideoHeaders L m x \<and> vm_SeqID m = s \<and> vm_PTS m = s * sd) \<and>
     seq_headers L sd (s + 1) obs"
  by (simp add: seq_headers_def All_less_Suc2 algebra_simps)

lemma seq_headers_append: "seq_headers L sd s (xs @ ys) \<longleftrightarrow> seq_headers L sd s xs \<and> seq_headers L sd (s + of_nat (length xs)) ys"
  by (induction xs arbitrary: s) (auto simp: algebra_simps)

lemma mi_video_group_headers:
  assumes "mi_video_group L C wall cap xd ct g (g * ucast (ct_GopLength ct)) sq' obs"
    and "(unat g + 1) * unat (ct_GopLength ct) < 2 ^ 64"
  shows "length obs = unat (ct_GopLength ct) \<and> seq_headers L (ucast (ct_SampleDur ct)) (g * ucast (ct_GopLength ct)) obs \<and>
    sq' = (g + 1) * ucast (ct_GopLength ct)"
proof -
  let ?gl = "ucast (ct_GopLength ct) :: u64" and ?s = "g * ucast (ct_GopLength ct) :: u64"
  have u: "unat ?gl = unat (ct_GopLength ct)" by simp
  have "unat g * unat ?gl + unat ?gl < 2 ^ 64" using assms(2) u by (simp add: add_mult_distrib)
  then have s: "unat ?s = unat g * unat ?gl" and e: "unat (?s + ?gl) = unat ?s + unat ?gl"
    by (simp_all add: unat_mult_lt unat_add_lt)
  from assms(1) obtain sei where m: "map Inr obs = map (\<lambda>i. mi_video_object L C cap sei xd ct ?s (wall g) i (?s + of_nat i) (?s + of_nat i)) [0..<unat ?gl]"
    and q: "sq' = ?s + of_nat (length obs)" using e by (auto simp: mi_video_group_def Let_def)
  have l: "length obs = unat ?gl" using arg_cong [OF m, of length] by simp
  have "\<exists>mt x. fst (obs ! i) = mm_VideoHeaders L mt x \<and> vm_SeqID mt = ?s + of_nat i \<and>
      vm_PTS mt = (?s + of_nat i) * ucast (ct_SampleDur ct)" if "i < length obs" for i
  proof -
    have "mi_video_object L C cap sei xd ct ?s (wall g) i (?s + of_nat i) (?s + of_nat i) = Inr (obs ! i)"
      using arg_cong [OF m, of "\<lambda>xs. xs ! i"] that l by simp
    then show ?thesis by (auto simp: mi_video_object_def Let_def split: sum.splits prod.splits) (metis fst_conv video_meta.simps(1,2))
  qed
  then have "seq_headers L (ucast (ct_SampleDur ct)) ?s obs" by (simp add: seq_headers_def)
  with l u q show ?thesis by (simp add: algebra_simps)
qed

lemma published_headers:
  assumes "published (mi_video_group L C wall cap xd ct) g sq gs sq'" and "sq = g * ucast (ct_GopLength ct)"
    and "(unat g + length gs) * unat (ct_GopLength ct) < 2 ^ 64" and "0 < unat (ct_GopLength ct)"
  shows "length (concat gs) = length gs * unat (ct_GopLength ct) \<and> seq_headers L (ucast (ct_SampleDur ct)) sq (concat gs)"
  using assms
proof (induction rule: published.induct)
  case (group g sq s1 obs rest s2)
  let ?n = "unat (ct_GopLength ct)"
  have a: "(unat g + 1 + length rest) * ?n < 2 ^ 64" using group.prems(2) by simp
  then have "(unat g + 1) * ?n < 2 ^ 64" by (simp add: add_mult_distrib)
  from mi_video_group_headers [OF group.hyps(1) [unfolded group.prems(1)] this] have h:
    "length obs = ?n" "seq_headers L (ucast (ct_SampleDur ct)) sq obs" "s1 = (g + 1) * ucast (ct_GopLength ct)"
    using group.prems(1) by auto
  have "unat g + 1 + length rest < 2 ^ 64" using a group.prems(3)
    by (metis One_nat_def Suc_leI le_less_trans mult.right_neutral mult_le_mono2)
  then have g1: "unat (g + 1) = unat g + 1" by (simp add: unat_add_lt)
  from group.IH [OF h(3)] a g1 group.prems(3) have
    i: "length (concat rest) = length rest * ?n" "seq_headers L (ucast (ct_SampleDur ct)) s1 (concat rest)" by auto
  have "s1 = sq + of_nat (length obs)" using h(1,3) group.prems(1) by (simp add: algebra_simps)
  with i h show ?case by (simp add: seq_headers_append)
qed simp

section \<open>The subscriber's view\<close>

fun written :: "pub_event list \<Rightarrow> (kv list \<times> bytes) list" where
  "written [] = []"
| "written (WriteObject i hs ob # es) = (hs, ob) # written es"
| "written (_ # es) = written es"

lemma written_append [simp]: "written (xs @ ys) = written xs @ written ys"
  by (induction xs rule: written.induct) auto

lemma written_obj_log [simp]: "written (obj_log k obs) = obs"
  by (induction k obs rule: obj_log.induct) auto

lemma written_groups_log [simp]: "written (groups_log prio g gs) = concat gs"
  by (induction gs arbitrary: g) (auto simp: group_log_def)

fun mi_gap :: "mi_log \<Rightarrow> u64 option" where
  "mi_gap (MiVideo m x gap) = Some gap"
| "mi_gap (MiAudio m gap) = Some gap"
| "mi_gap _ = None"

text \<open>The header codec reads back what it wrote.\<close>

definition moqmi_codec :: "'c moqmi_lib \<Rightarrow> bool" where
  "moqmi_codec L \<longleftrightarrow> (\<forall>m x. mm_MediaType L (mm_VideoHeaders L m x) = Some (mm_VideoH264AVCC L) \<and>
     mm_ReadVideoMetadata L (mm_VideoHeaders L m x) = Inr (m, True))"

lemma read_loop_consecutive:
  assumes "moqmi_codec L" and "seq_headers L sd s obs" and "sq_have st" and "sq_last st = s - 1"
  shows "map mi_gap (fst (mi_read_loop L (Some (\<lambda>b. True)) obs st)) = replicate (length obs) (Some 1) \<and>
    snd (mi_read_loop L (Some (\<lambda>b. True)) obs st) = concat (map snd obs)"
  using assms(2-)
proof (induction obs arbitrary: s st)
  case (Cons ob obs)
  then obtain m x where o: "fst ob = mm_VideoHeaders L m x" "vm_SeqID m = s" and r: "seq_headers L sd (s + 1) obs" by auto
  obtain hs pl where ob: "ob = (hs, pl)" by fastforce
  have l: "logMoqMIObject L hs st = (st\<lparr>sq_last := s\<rparr>, MiVideo m (mm_ReadVideoExtradata L hs) 1)"
    using o ob assms(1) Cons.prems by (simp add: logMoqMIObject_def moqmi_codec_def seqDelta_def)
  from Cons.IH [OF r, of "st\<lparr>sq_last := s\<rparr>"] Cons.prems l show ?case
    by (auto simp: ob split: prod.splits)
qed simp

text \<open>C22: Publisher and subscriber of a moq-mi video track fit together. With a header codec that reads back
  what it wrote, as long as the publisher's loop runs for \<open>n\<close> groups and the sample numbers fit 64 bits,
  its log has \<open>n\<close> GOPs of objects and follows the subgroup protocol, and a subscriber that reads them
  sees a sequence gap of 0 for the first and of 1 for every further object, across group borders too,
  and writes all payloads in order.\<close>

theorem moqmi_video_gapless:
  assumes "moqmi_codec L" and "mi_first_gop ct (of_int now) = Inr g" and "0 < n" and "ct_GopLength ct \<noteq> 0"
    and "(unat g + n) * unat (ct_GopLength ct) < 2 ^ 64"
    and "publishMoqMIVideo n L C env wall ct d now = Some (es, True)"
  shows "let obs = written es; r = mi_read_loop L (Some (\<lambda>b. True)) obs \<lparr>sq_last = 0, sq_have = False\<rparr> in
    log_run MediaPriority (Between g) es = Some (Between (g + of_nat n)) \<and>
    length obs = n * unat (ct_GopLength ct) \<and>
    map mi_gap (fst r) = Some 0 # replicate (length obs - 1) (Some 1) \<and> snd r = concat (map snd obs)"
proof -
  from assms(2,6) obtain xd cap sq' where r: "publish_rounds n (mi_video_round L C env wall cap xd ct) g (g * ucast (ct_GopLength ct)) = Some (sq', es, True)"
    by (auto simp: publishMoqMIVideo_def split: sum.splits if_splits)
  from mi_video_publisher.rounds_running [OF r] obtain gs where gs: "length gs = n" "es = groups_log MediaPriority g gs"
    "published (mi_video_group L C wall cap xd ct) g (g * ucast (ct_GopLength ct)) gs sq'" by blast
  have gl: "0 < unat (ct_GopLength ct)" using assms(4) by (simp add: unat_gt_0)
  from published_headers [OF gs(3) refl _ gl] assms(5) gs(1) have
    h: "length (concat gs) = n * unat (ct_GopLength ct)"
      "seq_headers L (ucast (ct_SampleDur ct)) (g * ucast (ct_GopLength ct)) (concat gs)" by auto
  then obtain hs pl obs where c: "concat gs = (hs, pl) # obs"
    using assms(3) gl by (cases "concat gs") (auto simp del: length_concat)
  with h(2) obtain m x where m: "hs = mm_VideoHeaders L m x" "vm_SeqID m = g * ucast (ct_GopLength ct)"
    and rest: "seq_headers L (ucast (ct_SampleDur ct)) (vm_SeqID m + 1) obs" by auto
  let ?st = "\<lparr>sq_last = vm_SeqID m, sq_have = True\<rparr>"
  have l: "logMoqMIObject L hs \<lparr>sq_last = 0, sq_have = False\<rparr> = (?st, MiVideo m (mm_ReadVideoExtradata L hs) 0)"
    using m assms(1) by (simp add: logMoqMIObject_def moqmi_codec_def seqDelta_def)
  have "log_run MediaPriority (Between g) es = Some (Between (g + of_nat n))"
    using mi_video_publisher.rounds_accepted [OF r] by simp
  then show ?thesis
    using read_loop_consecutive [OF assms(1) rest, of ?st] l c gs(2) h(1) by (auto simp: Let_def split: prod.splits)
qed

section \<open>Where the first group lies\<close>

text \<open>A moq-mi video publisher starts with the next GOP, if the duration of a GOP is a whole number
  \<open>d\<close> of milliseconds: its first group is due after now, and at most \<open>d\<close> milliseconds after now.\<close>

theorem mi_first_gop_next:
  assumes "unat (ct_GopLength ct) * unat (ct_SampleDur ct) * 1000 = d * unat (ct_TimeScale ct)"
    and "0 < d" and "ct_TimeScale ct \<noteq> 0" and "(unat now + d) * unat (ct_TimeScale ct) < 2 ^ 64" and "unat now + d < 2 ^ 63"
  shows "\<exists>g. mi_first_gop ct now = Inr g \<and> int (unat now) < mi_due ct (g * ucast (ct_GopLength ct)) \<and>
    mi_due ct (g * ucast (ct_GopLength ct)) \<le> int (unat now) + int d"
proof -
  let ?gl = "ucast (ct_GopLength ct) :: u64" and ?sd = "ucast (ct_SampleDur ct) :: u64" and ?ts = "ucast (ct_TimeScale ct) :: u64"
  let ?n = "unat now div d + 1"
  have ts: "0 < unat (ct_TimeScale ct)" using assms(3) by (simp add: unat_gt_0)
  have nd: "unat now < ?n * d" "?n * d \<le> unat now + d"
    using dividend_less_div_times [OF assms(2), of "unat now"] div_times_less_eq_dividend [of "unat now" d] by simp_all
  have one: "d * unat (ct_TimeScale ct) < 2 ^ 64" using assms(4) by (simp add: add_mult_distrib)
  then have u1: "unat (?gl * ?sd * 1000) = d * unat (ct_TimeScale ct)"
    using assms(1) unat_mult3 [of ?gl ?sd 1000] by simp
  then have dw: "unat (?gl * ?sd * 1000 div ?ts) = d" using ts by (simp add: unat_div)
  then have "?gl * ?sd * 1000 div ?ts \<noteq> 0" using assms(2) by (metis less_numeral_extra(3) unat_0)
  define g where "g = now div (?gl * ?sd * 1000 div ?ts) + 1"
  have g: "mi_first_gop ct now = Inr g"
    using assms(3) \<open>?gl * ?sd * 1000 div ?ts \<noteq> 0\<close> by (simp add: mi_first_gop_def Let_def g_def)
  have ug: "unat g = ?n"
  proof -
    have "unat now div d + 1 \<le> unat now + d" using assms(2) by (intro add_mono) simp_all
    then have "unat now div d + 1 < 2 ^ 64" using assms(5) by simp
    then show ?thesis unfolding g_def using dw by (simp add: unat_add_lt unat_div)
  qed
  have "?n * (d * unat (ct_TimeScale ct)) < 2 ^ 64"
    using nd(2) assms(4) by (metis (no_types) le_less_trans mult.assoc mult_le_mono1)
  moreover have prod: "unat g * unat ?gl * unat ?sd * 1000 = ?n * (d * unat (ct_TimeScale ct))"
    unfolding assms(1) [symmetric] ug by (simp only: mult.assoc unat_ucast_32_64)
  ultimately have fits: "unat g * unat ?gl * unat ?sd * 1000 < 2 ^ 64" by (simp only:)
  have "0 < unat ?sd" using assms(1,2) ts by (metis mult_is_0 neq0_conv unat_ucast_32_64)
  then have "unat (g * ?gl * ?sd) = unat g * unat ?gl * unat ?sd" using unat_mult3 [of g ?gl ?sd] fits by simp
  then have "unat (g * ?gl * ?sd * 1000) = ?n * (d * unat (ct_TimeScale ct))"
    using fits unat_mult_lt [of "g * ?gl * ?sd" 1000] prod by simp
  then have "unat (g * ?gl * ?sd * 1000 div ?ts) = ?n * d"
    using ts by (simp add: unat_div mult.assoc [symmetric])
  moreover have "?n * d < 2 ^ 63" using nd(2) assms(5) by linarith
  ultimately have "mi_due ct (g * ?gl) = int (?n * d)" unfolding mi_due_def by (simp only: sint_nat)
  with g nd show ?thesis by (metis of_nat_add of_nat_le_iff of_nat_less_iff)
qed

text \<open>The publisher rounds the GOP duration down to whole milliseconds before it divides the clock by
  it. If a GOP is not a whole number of milliseconds the error is multiplied by the number of GOPs since
  1970: for a GOP of ten frames at 30 fps and a start in November 2023, the first group is due more
  than 19 days after now, and nothing is published until then.\<close>

theorem mi_first_gop_days_ahead:
  assumes "ct_GopLength ct = 10" and "ct_SampleDur ct = 1000" and "ct_TimeScale ct = 30000"
  shows "\<exists>g. mi_first_gop ct 1700000000000 = Inr g \<and>
    mi_due ct (g * ucast (ct_GopLength ct)) > 1700000000000 + 19 * 24 * 60 * 60 * 1000"
  using assms by (simp add: mi_first_gop_def mi_due_def Let_def)

section \<open>Instances\<close>

text \<open>A header codec that keeps the metadata as a list of varints.\<close>

definition ex_video_headers :: "video_meta \<Rightarrow> bytes option \<Rightarrow> kv list" where
  "ex_video_headers m x = map (kv_varint 0) [vm_SeqID m, vm_PTS m, vm_DTS m, vm_Timebase m, vm_Duration m, vm_WallclockMS m]"

definition ex_read_video :: "kv list \<Rightarrow> (video_meta \<times> bool) res" where
  "ex_read_video hs = (let v = (\<lambda>i. kv_ValueVarInt (hs ! i)) in
     Inr (\<lparr>vm_SeqID = v 0, vm_PTS = v 1, vm_DTS = v 2, vm_Timebase = v 3, vm_Duration = v 4, vm_WallclockMS = v 5\<rparr>, True))"

definition ex_moqmi :: "unit moqmi_lib" where
  "ex_moqmi = \<lparr>mm_VideoH264AVCC = 0, mm_AudioAACLC = 3, mm_AudioOpus = 1, mm_UTF8Text = 2,
     mm_VideoHeaders = ex_video_headers, mm_AudioAACHeaders = (\<lambda>m. []), mm_AudioOpusHeaders = (\<lambda>m. []),
     mm_MediaType = (\<lambda>hs. Some 0), mm_ReadVideoMetadata = ex_read_video, mm_ReadVideoExtradata = (\<lambda>hs. None),
     mm_ReadAudioAACMetadata = (\<lambda>hs. Inl (Errorf [])), mm_ReadAudioOpusMetadata = (\<lambda>hs. Inl (Errorf [])),
     mm_ReadTextMetadata = (\<lambda>hs. Inl (Errorf [])), mm_CreateAVCDecConfRec = (\<lambda>s p b. Inr ()), mm_EncodeDecConf = (\<lambda>c. Inr [1])\<rparr>"

definition ex_gop_track :: "(unit, unit, unit_cue) content_track" where
  "ex_gop_track = ex_avc_track\<lparr>ct_GopLength := 2, ct_cc608 := None\<rparr>"

definition ex_avc_data :: "unit avc_data" where
  "ex_avc_data = \<lparr>av_inInit = (), av_outInit = (), av_Spss = [], av_Ppss = [], av_codec = ''avc1.64'', av_width = 640, av_height = 360\<rparr>"

theorem moqmi_video_gapless_witness:
  "\<exists>es. publishMoqMIVideo 2 ex_moqmi ex_go608 ex_env (\<lambda>g k. 0) ex_gop_track ex_avc_data 1500 = Some (es, True) \<and>
     map mi_gap (fst (mi_read_loop ex_moqmi (Some (\<lambda>b. True)) (written es) \<lparr>sq_last = 0, sq_have = False\<rparr>)) = [Some 0, Some 1, Some 1, Some 1]"
proof -
  have "case publishMoqMIVideo 2 ex_moqmi ex_go608 ex_env (\<lambda>g k. 0) ex_gop_track ex_avc_data 1500 of Some (es, c) \<Rightarrow> c | None \<Rightarrow> False"
    by code_simp
  then obtain es where p: "publishMoqMIVideo 2 ex_moqmi ex_go608 ex_env (\<lambda>g k. 0) ex_gop_track ex_avc_data 1500 = Some (es, True)"
    by (auto split: option.splits)
  have c: "moqmi_codec ex_moqmi"
    by (simp add: moqmi_codec_def ex_moqmi_def ex_read_video_def ex_video_headers_def kv_varint_def eval_nat_numeral)
  have g: "mi_first_gop ex_gop_track (of_int 1500) = Inr 2" by code_simp
  have l: "ct_GopLength ex_gop_track = 2" by (simp add: ex_gop_track_def)
  from moqmi_video_gapless [OF c g, of 2, OF _ _ _ p] l p show ?thesis by (simp add: Let_def numeral_3_eq_3)
qed

theorem mi_first_gop_next_witness:
  "\<exists>g. mi_first_gop ex_gop_track 1700000000000 = Inr g \<and> mi_due ex_gop_track (g * 2) \<le> 1700000000000 + 1000"
proof -
  have f: "ct_GopLength ex_gop_track = 2" "ct_SampleDur ex_gop_track = 1" "ct_TimeScale ex_gop_track = 2"
    by (simp_all add: ex_gop_track_def ex_avc_track_def ex_clear_def)
  from mi_first_gop_next [of ex_gop_track 1000 1700000000000] f show ?thesis by auto
qed

theorem mi_first_gop_days_ahead_witness:
  "mi_due (ex_gop_track\<lparr>ct_GopLength := 10, ct_SampleDur := 1000, ct_TimeScale := 30000\<rparr>) 51051051060 > 1701641600000"
proof -
  let ?ct = "ex_gop_track\<lparr>ct_GopLength := 10, ct_SampleDur := 1000, ct_TimeScale := 30000\<rparr>"
  have "mi_first_gop ?ct 1700000000000 = Inr 5105105106" by code_simp
  with mi_first_gop_days_ahead [of ?ct] show ?thesis by simp
qed

end
