(* ===== verification/Sub_Catalog.thy ===== *)
theory Sub_Catalog
  imports Publish_Props
begin

text \<open>
  How the subscriber gets the catalog (\<^verbatim>\<open>internal/sub/sub.go\<close>): by SUBSCRIBE plus relative joining
  FETCH, by SUBSCRIBE alone, or by a standalone FETCH; and how updates are applied afterwards. What the
  session answers is a \<open>session_env\<close>; \<open>session_of\<close> builds it from the publisher's handlers of the theory
  \<open>Publisher\<close>, so that the two ends can be run against each other. JSON is a parameter (\<open>json_lib\<close>).
\<close>

section \<open>Objects and results\<close>

record mo_object =
  mo_Group :: u64
  mo_Object :: u64
  mo_Headers :: "kv list"
  mo_Payload :: bytes

datatype read_result = ReadObject mo_object | ReadEOF | ReadErr string

record json_lib =
  js_Unmarshal :: "bytes \<Rightarrow> catalog res"
  js_UnmarshalPtr :: "bytes \<Rightarrow> catalog option \<Rightarrow> catalog option \<times> go_error option"
  js_Indent :: "catalog option \<Rightarrow> bytes res"

text \<open>The part of the handler that catalog retrieval changes; \<open>out\<close> below is the writer of the catalog
  output, if there is one: it says which writes succeed.\<close>

record cat_state =
  cs_catalog :: "catalog option"
  cs_written :: bytes

type_synonym out_writer = "(bytes \<Rightarrow> bool) option"

definition newline :: bytes where "newline = [10]"

definition applyCatalog :: "json_lib \<Rightarrow> out_writer \<Rightarrow> bytes \<Rightarrow> cat_state \<Rightarrow> cat_state \<times> go_error option" where
  "applyCatalog J out payload st = (case js_Unmarshal J payload of
     Inl e \<Rightarrow> (st, Some e)
   | Inr cat \<Rightarrow>
       let st1 = st\<lparr>cs_catalog := Some cat\<rparr>
       in (case out of
             None \<Rightarrow> (st1, None)
           | Some ok \<Rightarrow> (case js_Indent J (Some cat) of
               Inl e \<Rightarrow> (st1, Some e)
             | Inr indented \<Rightarrow>
                 if ok (indented @ newline) then (st1\<lparr>cs_written := cs_written st1 @ indented @ newline\<rparr>, None)
                 else (st1, Some (Errorf ''write'')))))"

definition afterLocation :: "mo_object \<Rightarrow> location \<Rightarrow> bool" where
  "afterLocation ob loc = (if mo_Group ob \<noteq> fst loc then mo_Group ob > fst loc else mo_Object ob > snd loc)"

section \<open>The three modes\<close>

text \<open>What the session does: whether SUBSCRIBE and FETCH succeed, the largest location the subscription
  reports, the first object read and the objects read after that.\<close>

record session_env =
  se_subscribe :: "go_error option"
  se_largest :: "location option"
  se_fetch :: "go_error option"
  se_read :: read_result
  se_updates :: "read_result list"

definition joiningCatalog :: "json_lib \<Rightarrow> out_writer \<Rightarrow> session_env \<Rightarrow> cat_state \<Rightarrow> cat_state \<times> go_error option" where
  "joiningCatalog J out env st = (case se_subscribe env of
     Some e \<Rightarrow> (st, Some e)
   | None \<Rightarrow> (case se_largest env of
       None \<Rightarrow> (st, Some (Errorf ''catalog subscription reported no content; cannot perform joining fetch''))
     | Some largest \<Rightarrow> (case se_fetch env of
         Some e \<Rightarrow> (st, Some e)
       | None \<Rightarrow> (case se_read env of
           ReadObject ob \<Rightarrow> applyCatalog J out (mo_Payload ob) st
         | ReadEOF \<Rightarrow> (st, Some (Wrapf ''joining fetch: reading catalog'' (Errorf ''EOF'')))
         | ReadErr e \<Rightarrow> (st, Some (Wrapf ''joining fetch: reading catalog'' (Errorf e)))))))"

text \<open>The goroutine that reads the subscription after a joining FETCH.\<close>

fun joining_updates :: "json_lib \<Rightarrow> out_writer \<Rightarrow> location \<Rightarrow> read_result list \<Rightarrow> cat_state \<Rightarrow> cat_state" where
  "joining_updates J out largest (ReadObject ob # rs) st =
     (if \<not> afterLocation ob largest then joining_updates J out largest rs st
      else joining_updates J out largest rs (fst (applyCatalog J out (mo_Payload ob) st)))"
| "joining_updates J out largest _ st = st"

text \<open>Printing a catalog: two writes whose failures are only logged.\<close>

definition print_catalog :: "json_lib \<Rightarrow> out_writer \<Rightarrow> cat_state \<Rightarrow> cat_state" where
  "print_catalog J out st = (case out of
     None \<Rightarrow> st
   | Some ok \<Rightarrow> (case js_Indent J (cs_catalog st) of
       Inl e \<Rightarrow> st
     | Inr indented \<Rightarrow>
         let w1 = (if ok indented then cs_written st @ indented else cs_written st)
         in st\<lparr>cs_written := (if ok newline then w1 @ newline else w1)\<rparr>))"

definition subscribeToCatalog :: "json_lib \<Rightarrow> out_writer \<Rightarrow> session_env \<Rightarrow> cat_state \<Rightarrow> cat_state \<times> go_error option" where
  "subscribeToCatalog J out env st = (case se_subscribe env of
     Some e \<Rightarrow> (st, Some e)
   | None \<Rightarrow> (case se_read env of
       ReadEOF \<Rightarrow> (st, None)
     | ReadErr e \<Rightarrow> (st, Some (Errorf e))
     | ReadObject ob \<Rightarrow> (case js_UnmarshalPtr J (mo_Payload ob) (cs_catalog st) of
         (c, Some e) \<Rightarrow>
           (st\<lparr>cs_catalog := c, cs_written := (case out of
               None \<Rightarrow> cs_written st
             | Some ok \<Rightarrow> let w1 = (if ok (mo_Payload ob) then cs_written st @ mo_Payload ob else cs_written st)
                 in (if ok newline then w1 @ newline else w1))\<rparr>, Some e)
       | (c, None) \<Rightarrow> (print_catalog J out (st\<lparr>cs_catalog := c\<rparr>), None))))"

text \<open>The goroutine that reads further updates of a plain subscription.\<close>

fun subscribe_updates :: "json_lib \<Rightarrow> out_writer \<Rightarrow> read_result list \<Rightarrow> cat_state \<Rightarrow> cat_state" where
  "subscribe_updates J out (ReadObject ob # rs) st = (case js_Unmarshal J (mo_Payload ob) of
     Inl e \<Rightarrow> subscribe_updates J out rs st
   | Inr cat \<Rightarrow> subscribe_updates J out rs (print_catalog J out (st\<lparr>cs_catalog := Some cat\<rparr>)))"
| "subscribe_updates J out _ st = st"

definition fetchCatalog :: "json_lib \<Rightarrow> out_writer \<Rightarrow> session_env \<Rightarrow> cat_state \<Rightarrow> cat_state \<times> go_error option" where
  "fetchCatalog J out env st = (case se_fetch env of
     Some e \<Rightarrow> (st, Some e)
   | None \<Rightarrow> (case se_read env of
       ReadEOF \<Rightarrow> (st, None)
     | ReadErr e \<Rightarrow> (st, Some (Errorf e))
     | ReadObject ob \<Rightarrow> (case js_UnmarshalPtr J (mo_Payload ob) (cs_catalog st) of
         (c, Some e) \<Rightarrow> (st\<lparr>cs_catalog := c\<rparr>, Some e)
       | (c, None) \<Rightarrow> (print_catalog J out (st\<lparr>cs_catalog := c\<rparr>), None))))"

text \<open>The mode switch in \<^verbatim>\<open>handle\<close> and the access to the tracks right after it.\<close>

definition catalog_mode :: "string \<Rightarrow> bool \<Rightarrow> string" where
  "catalog_mode m useFetch = (let mode = (if useFetch then ''fetch'' else m) in if mode = [] then ''joining'' else mode)"

definition retrieveCatalog :: "json_lib \<Rightarrow> out_writer \<Rightarrow> string \<Rightarrow> session_env \<Rightarrow> cat_state \<Rightarrow> cat_state \<times> go_error option" where
  "retrieveCatalog J out mode env st =
     (if mode = ''joining'' then joiningCatalog J out env st
      else if mode = ''subscribe'' then subscribeToCatalog J out env st
      else if mode = ''fetch'' then fetchCatalog J out env st
      else (st, Some (Errorf ''unknown catalog mode'')))"

definition catalog_tracks :: "cat_state \<Rightarrow> track list res" where
  "catalog_tracks st = (case cs_catalog st of None \<Rightarrow> Inl (Panic ''nil pointer dereference'') | Some c \<Rightarrow> Inr (cat_Tracks c))"

section \<open>Both ends\<close>

text \<open>What the transport delivers of the publisher's operations.\<close>

fun fetched :: "fetch_event list \<Rightarrow> read_result" where
  "fetched (FWrite g sg i p bs # es) = ReadObject \<lparr>mo_Group = g, mo_Object = i, mo_Headers = [], mo_Payload = bs\<rparr>"
| "fetched (_ # es) = fetched es"
| "fetched [] = ReadEOF"

fun subscribed :: "u64 \<Rightarrow> pub_event list \<Rightarrow> read_result list" where
  "subscribed g [] = []"
| "subscribed g (OpenSubgroup g' sg p # es) = subscribed g' es"
| "subscribed g (WriteObject i hs bs # es) =
     ReadObject \<lparr>mo_Group = g, mo_Object = i, mo_Headers = hs, mo_Payload = bs\<rparr> # subscribed g es"
| "subscribed g (CloseSubgroup # es) = subscribed g es"

text \<open>\<open>resolve\<close> is the transport's resolution of a relative joining FETCH with offset 0.\<close>

definition session_of :: "('i, 'p, 'u) handler \<Rightarrow> fetch_env \<Rightarrow> pub_env \<Rightarrow> (location \<Rightarrow> location \<times> location) \<Rightarrow> string list \<Rightarrow> session_env" where
  "session_of h fenv penv resolve ns = (case subscribe_handler h True ns ''catalog'' of
     (Accept loc, Some (JobCatalog cat delay)) \<Rightarrow>
       \<lparr>se_subscribe = None, se_largest = loc, se_fetch = None,
        se_read = (case loc of None \<Rightarrow> ReadEOF | Some l \<Rightarrow> fetched (fetch_handler h fenv ns ''catalog'' (fst (resolve l)) (snd (resolve l)))),
        se_updates = subscribed 0 (PublishCatalog (fe_marshal fenv) penv cat delay)\<rparr>
   | _ \<Rightarrow> \<lparr>se_subscribe = Some (Errorf ''rejected''), se_largest = None, se_fetch = None, se_read = ReadEOF, se_updates = []\<rparr>)"

section \<open>Properties\<close>

text \<open>C23: Joining delivers the catalog exactly once. A subscriber in joining mode against this publisher,
  for a catalog namespace without delay, with a JSON encoding that reads back, ends with exactly the
  publisher's catalog; and the catalog object that the publisher also sends on the subscription is
  skipped, so processing the subscription changes nothing more. With a catalog delay, joining fails.\<close>

theorem joining_delivers_catalog:
  assumes "findNamespace h ns = Some e" and "ne_Packaging e \<noteq> ''moqmi''" and "ns \<noteq> interopNamespace"
    and "ne_Catalog e = Some cat" and "fe_marshal fenv (Some cat) = Inr json" and "js_Unmarshal J json = Inr cat"
    and "fe_accept fenv" and "fe_stream fenv" and "fe_write fenv" and "fst (resolve (0, 0)) = (0, 0)"
  shows "let env = session_of h fenv penv resolve ns in
    if hd_CatalogDelay h > 0
    then \<exists>err. joiningCatalog J None env st = (st, Some err)
    else joiningCatalog J None env st = (st\<lparr>cs_catalog := Some cat\<rparr>, None) \<and>
      joining_updates J out (0, 0) (se_updates env) (st\<lparr>cs_catalog := Some cat\<rparr>) = st\<lparr>cs_catalog := Some cat\<rparr>"
proof -
  have s: "subscribe_handler h True ns ''catalog'' =
      (Accept (if hd_CatalogDelay h > 0 then None else Some (0, 0)), Some (JobCatalog (Some cat) (hd_CatalogDelay h)))"
    using assms(1-4) by (simp add: subscribe_handler_def isInteropNamespace_def tupleEqual_iff accepted_def)
  show ?thesis
  proof (cases "hd_CatalogDelay h > 0")
    case True
    then show ?thesis by (simp add: session_of_def s joiningCatalog_def Let_def)
  next
    case False
    have "locationInFetchRange (0, 0) (0, 0) x" for x
      by (cases x) (auto simp: locationInFetchRange_def locationLess_def word_gt_0)
    then have f: "fetched (fetch_handler h fenv ns ''catalog'' (fst (resolve (0, 0))) (snd (resolve (0, 0)))) =
        ReadObject \<lparr>mo_Group = 0, mo_Object = 0, mo_Headers = [], mo_Payload = json\<rparr>"
      using assms by (simp add: fetch_handler_def fetch_serve_def)
    have "set (subscribed 0 (PublishCatalog (fe_marshal fenv) penv (Some cat) (hd_CatalogDelay h))) \<subseteq>
        {ReadObject \<lparr>mo_Group = 0, mo_Object = 0, mo_Headers = [], mo_Payload = json\<rparr>}"
      using assms(5) by (auto simp: PublishCatalog_def close_group_def split: if_splits option.splits)
    moreover have "joining_updates J out (0, 0) rs st' = st'"
      if "set rs \<subseteq> {ReadObject \<lparr>mo_Group = 0, mo_Object = 0, mo_Headers = [], mo_Payload = json\<rparr>}" for rs st'
      using that by (induction rs) (auto simp: afterLocation_def)
    ultimately show ?thesis using False assms(6)
      by (simp add: session_of_def s f joiningCatalog_def applyCatalog_def Let_def)
  qed
qed

text \<open>An end of stream instead of the catalog object is no error for the two older modes: they report
  success without a catalog, and the handler's next statement dereferences the missing catalog.\<close>

theorem catalog_eof_panics:
  assumes "se_read env = ReadEOF" and "se_subscribe env = None" and "se_fetch env = None" and "mode = ''subscribe'' \<or> mode = ''fetch''"
  shows "\<exists>st. retrieveCatalog J out mode env \<lparr>cs_catalog = None, cs_written = []\<rparr> = (st, None) \<and>
    catalog_tracks st = Inl (Panic ''nil pointer dereference'')"
  using assms by (auto simp: retrieveCatalog_def subscribeToCatalog_def fetchCatalog_def catalog_tracks_def)

section \<open>Instances\<close>

definition ex_json :: json_lib where
  "ex_json = \<lparr>js_Unmarshal = (\<lambda>bs. Inr zero_catalog), js_UnmarshalPtr = (\<lambda>bs c. (Some zero_catalog, None)), js_Indent = (\<lambda>c. Inr [])\<rparr>"

definition ex_fetch :: fetch_env where
  "ex_fetch = \<lparr>fe_accept = True, fe_stream = True, fe_marshal = (\<lambda>c. Inr [7]), fe_write = True\<rparr>"

theorem joining_delivers_catalog_witness:
  "fst (joiningCatalog ex_json None (session_of (ex_handler zero_catalog) ex_fetch ex_env (\<lambda>l. (l, (0, 1))) [''cmsf'', ''clear''])
      \<lparr>cs_catalog = None, cs_written = []\<rparr>) = \<lparr>cs_catalog = Some zero_catalog, cs_written = []\<rparr>"
proof -
  let ?e = "hd_Namespaces (ex_handler zero_catalog) ! 0"
  have "findNamespace (ex_handler zero_catalog) [''cmsf'', ''clear''] = Some ?e" "ne_Packaging ?e \<noteq> ''moqmi''"
    "[''cmsf'', ''clear''] \<noteq> interopNamespace" "ne_Catalog ?e = Some zero_catalog"
    by (simp_all add: findNamespace_def ex_handler_def interopNamespace_def)
  from joining_delivers_catalog [OF this, of ex_fetch "[7]" ex_json "\<lambda>l. (l, (0, 1))" ex_env "\<lparr>cs_catalog = None, cs_written = []\<rparr>"]
  show ?thesis by (simp add: Let_def ex_fetch_def ex_json_def ex_handler_def)
qed

theorem catalog_eof_panics_witness:
  "\<exists>st. retrieveCatalog ex_json None ''fetch'' \<lparr>se_subscribe = None, se_largest = None, se_fetch = None, se_read = ReadEOF, se_updates = []\<rparr>
     \<lparr>cs_catalog = None, cs_written = []\<rparr> = (st, None) \<and> catalog_tracks st = Inl (Panic ''nil pointer dereference'')"
  by (rule catalog_eof_panics) simp_all

end
