(* ===== verification/Cmaf_Mux.thy ===== *)
theory Cmaf_Mux
  imports Go_Base64
begin

text \<open>
  The subscriber's multiplexer (\<^verbatim>\<open>internal/sub/mux.go\<close>): it collects one init segment per content type,
  writes the combined init once video and audio are there, and from then on rewrites the track id of every
  fragment and writes it. Parsing and encoding of MP4 boxes are mp4ff's (\<open>mux_lib\<close>). The calls of the
  reading goroutines interleave in any order; \<open>mux_reach\<close> is the set of states they can lead to.
\<close>

record ('n, 'f) mux_lib =
  xl_DecodeInit :: "bytes \<Rightarrow> 'n option res"
  xl_setTrackIDs :: "'n \<Rightarrow> u32 \<Rightarrow> 'n"
  xl_Timescale :: "'n \<Rightarrow> u32"
  xl_EncodeInits :: "'n \<Rightarrow> 'n \<Rightarrow> bytes res"
  xl_Segments :: "bytes \<Rightarrow> 'f list list res"
  xl_setTrackID :: "'f \<Rightarrow> u32 \<Rightarrow> 'f"
  xl_BaseTime :: "'f \<Rightarrow> u64"
  xl_EncodeFrag :: "'f \<Rightarrow> bytes res"

text \<open>\<open>mx_init\<close> says whether \<^verbatim>\<open>m.init\<close> is set, \<open>mx_out\<close> is what was written, write by write.\<close>

record 'n cmaf_mux =
  mx_init :: bool
  mx_inits :: "string \<rightharpoonup> 'n"
  mx_timeScales :: "string \<Rightarrow> int"
  mx_out :: "bytes list"

definition trackIDs :: "string \<Rightarrow> u32" where
  "trackIDs ty = (if ty = ''video'' then 1 else if ty = ''audio'' then 2 else 0)"

definition NewCmafMux :: "'n cmaf_mux" where
  "NewCmafMux = \<lparr>mx_init = False, mx_inits = Map.empty, mx_timeScales = (\<lambda>_. 0), mx_out = []\<rparr>"

definition muxInit :: "('n, 'f) mux_lib \<Rightarrow> 'n cmaf_mux \<Rightarrow> 'n cmaf_mux \<times> go_error option" where
  "muxInit L m = (case (mx_inits m ''video'', mx_inits m ''audio'') of
     (Some v, Some a) \<Rightarrow>
       if mx_init m then (m, Some (Errorf ''init already muxed''))
       else let m1 = m\<lparr>mx_init := True\<rparr>
         in (case xl_EncodeInits L v a of
               Inl e \<Rightarrow> (m1, Some e)
             | Inr bs \<Rightarrow> (m1\<lparr>mx_out := mx_out m1 @ [bs]\<rparr>, None))
   | _ \<Rightarrow> (m, None))"

definition AddInit :: "('n, 'f) mux_lib \<Rightarrow> string \<Rightarrow> string \<Rightarrow> 'n cmaf_mux \<Rightarrow> 'n cmaf_mux \<times> go_error option" where
  "AddInit L initData contentType m =
     (if mx_inits m contentType \<noteq> None then (m, Some (Errorf ''init already added''))
      else case base64_decode initData of
        Inl e \<Rightarrow> (m, Some e)
      | Inr bs \<Rightarrow> (case xl_DecodeInit L bs of
          Inl e \<Rightarrow> (m, Some e)
        | Inr None \<Rightarrow> (m, Some (Errorf ''no init segment in initData''))
        | Inr (Some n) \<Rightarrow>
            muxInit L (m\<lparr>mx_inits := (mx_inits m)(contentType \<mapsto> xl_setTrackIDs L n (trackIDs contentType)),
                         mx_timeScales := (mx_timeScales m)(contentType := int (unat (xl_Timescale L n)))\<rparr>)))"

text \<open>The media time in milliseconds is only logged, but its computation divides by the time scale.\<close>

definition MuxSample :: "('n, 'f) mux_lib \<Rightarrow> bytes \<Rightarrow> string \<Rightarrow> 'n cmaf_mux \<Rightarrow> 'n cmaf_mux \<times> go_error option" where
  "MuxSample L sample mediaType m =
     (if \<not> mx_init m then (m, None)
      else case xl_Segments L sample of
        Inl e \<Rightarrow> (m, Some e)
      | Inr segs \<Rightarrow> (case segs of
          [frags] \<Rightarrow> (case frags of
              [frag] \<Rightarrow>
                let frag1 = xl_setTrackID L frag (trackIDs mediaType)
                in if mx_timeScales m mediaType = 0 then (m, Some (Panic ''integer divide by zero''))
                   else (case xl_EncodeFrag L frag1 of
                       Inl e \<Rightarrow> (m, Some e)
                     | Inr bs \<Rightarrow> (m\<lparr>mx_out := mx_out m @ [bs]\<rparr>, None))
            | _ \<Rightarrow> (m, Some (Errorf ''expected 1 fragment'')))
        | _ \<Rightarrow> (m, Some (Errorf ''expected 1 segment''))))"

section \<open>Reachable states\<close>

inductive mux_reach :: "('n, 'f) mux_lib \<Rightarrow> 'n cmaf_mux \<Rightarrow> bool" for L where
  new: "mux_reach L NewCmafMux"
| init: "mux_reach L m \<Longrightarrow> AddInit L d ty m = (m', r) \<Longrightarrow> mux_reach L m'"
| sample: "mux_reach L m \<Longrightarrow> MuxSample L s ty m = (m', r) \<Longrightarrow> mux_reach L m'"

text \<open>A fragment that was written for a content type with an init segment.\<close>

definition muxed_fragment :: "('n, 'f) mux_lib \<Rightarrow> 'n cmaf_mux \<Rightarrow> bytes \<Rightarrow> bool" where
  "muxed_fragment L m bs \<longleftrightarrow> (\<exists>f ty. mx_inits m ty \<noteq> None \<and> xl_EncodeFrag L (xl_setTrackID L f (trackIDs ty)) = Inr bs)"

definition mux_ok :: "('n, 'f) mux_lib \<Rightarrow> 'n cmaf_mux \<Rightarrow> bool" where
  "mux_ok L m \<longleftrightarrow>
     (\<forall>ty n. mx_inits m ty = Some n \<longrightarrow> (\<exists>n0. n = xl_setTrackIDs L n0 (trackIDs ty))) \<and>
     (\<forall>ty. mx_timeScales m ty \<noteq> 0 \<longrightarrow> mx_inits m ty \<noteq> None) \<and>
     (mx_init m \<longleftrightarrow> mx_inits m ''video'' \<noteq> None \<and> mx_inits m ''audio'' \<noteq> None) \<and>
     (if mx_init m
      then \<exists>v a bs frags. mx_inits m ''video'' = Some v \<and> mx_inits m ''audio'' = Some a \<and> xl_EncodeInits L v a = Inr bs \<and>
             mx_out m = bs # frags \<and> (\<forall>fr \<in> set frags. muxed_fragment L m fr)
      else mx_out m = [])"

lemma NewCmafMux_ok: "mux_ok L NewCmafMux"
  by (simp add: mux_ok_def NewCmafMux_def)

lemma muxed_fragment_mono:
  "muxed_fragment L m fr \<Longrightarrow> mx_inits m' = (mx_inits m)(ty \<mapsto> n) \<Longrightarrow> muxed_fragment L m' fr"
  by (auto simp: muxed_fragment_def) (metis option.distinct(1))

lemma muxed_fragment_out [simp]: "muxed_fragment L (m\<lparr>mx_out := out\<rparr>) fr = muxed_fragment L m fr"
  by (simp add: muxed_fragment_def)

lemma AddInit_ok:
  assumes "\<forall>v a. \<exists>bs. xl_EncodeInits L v a = Inr bs" and "mux_ok L m" and "AddInit L d ty m = (m', r)"
  shows "mux_ok L m'"
proof (cases "m' = m")
  case False
  then obtain n where fresh: "mx_inits m ty = None"
    and mi: "muxInit L (m\<lparr>mx_inits := (mx_inits m)(ty \<mapsto> xl_setTrackIDs L n (trackIDs ty)),
       mx_timeScales := (mx_timeScales m)(ty := int (unat (xl_Timescale L n)))\<rparr>) = (m', r)"
    using assms(3) by (auto simp: AddInit_def split: if_splits sum.splits option.splits)
  let ?m1 = "m\<lparr>mx_inits := (mx_inits m)(ty \<mapsto> xl_setTrackIDs L n (trackIDs ty)),
       mx_timeScales := (mx_timeScales m)(ty := int (unat (xl_Timescale L n)))\<rparr>"
  show ?thesis
  proof (cases "mx_init m")
    case True
    then have "m' = ?m1" using mi assms(2) by (auto simp: muxInit_def mux_ok_def split: option.splits if_splits)
    then show ?thesis using assms(2) True fresh muxed_fragment_mono [of L m _ ?m1 ty]
      by (auto simp: mux_ok_def)
  next
    case f: False
    show ?thesis
    proof (cases "mx_inits ?m1 ''video'' \<noteq> None \<and> mx_inits ?m1 ''audio'' \<noteq> None")
      case True
      then obtain v a where va: "mx_inits ?m1 ''video'' = Some v" "mx_inits ?m1 ''audio'' = Some a" by auto
      obtain bs where bs: "xl_EncodeInits L v a = Inr bs" using assms(1) by blast
      have "m' = ?m1\<lparr>mx_init := True, mx_out := [bs]\<rparr>"
        using mi va bs f assms(2) by (auto simp: muxInit_def mux_ok_def split: option.splits)
      then show ?thesis using assms(2) va bs by (auto simp: mux_ok_def)
    next
      case n: False
      then have "m' = ?m1" using mi by (auto simp: muxInit_def split: option.splits)
      then show ?thesis using assms(2) f n by (auto simp: mux_ok_def split: if_splits)
    qed
  qed
qed (use assms in simp)

lemma MuxSample_ok:
  assumes "mux_ok L m" and "MuxSample L s ty m = (m', r)"
  shows "mux_ok L m'"
proof (cases "m' = m")
  case False
  then obtain frag bs where b: "xl_EncodeFrag L (xl_setTrackID L frag (trackIDs ty)) = Inr bs" "mx_init m"
    "mx_timeScales m ty \<noteq> 0" "m' = m\<lparr>mx_out := mx_out m @ [bs]\<rparr>"
    using assms(2) by (auto simp: MuxSample_def Let_def split: if_splits sum.splits list.splits)
  have "mx_inits m ty \<noteq> None" using b(3) assms(1) unfolding mux_ok_def by blast
  with b(1) have "muxed_fragment L m bs" unfolding muxed_fragment_def by blast
  then show ?thesis using b assms(1) by (auto simp: mux_ok_def)
qed (use assms in simp)

lemma mux_reach_ok:
  assumes "mux_reach L m" and "\<forall>v a. \<exists>bs. xl_EncodeInits L v a = Inr bs"
  shows "mux_ok L m"
  using assms(1) by induction (blast intro: NewCmafMux_ok AddInit_ok [OF assms(2)] MuxSample_ok)+

section \<open>Properties\<close>

text \<open>C24: The multiplexed output is well formed whatever the order of the calls. If the combined init can
  be encoded, then in every reachable state nothing has been written before both the video and the audio
  init were added; after that the output is the combined init segment, once and first, followed by
  fragments only, each carrying the track id of a content type whose init was added.\<close>

theorem mux_output_wellformed:
  assumes "mux_reach L m" and "\<forall>v a. \<exists>bs. xl_EncodeInits L v a = Inr bs"
  shows "if mx_inits m ''video'' = None \<or> mx_inits m ''audio'' = None then mx_out m = []
    else \<exists>v a bs frags. mx_inits m ''video'' = Some v \<and> mx_inits m ''audio'' = Some a \<and> xl_EncodeInits L v a = Inr bs \<and>
      mx_out m = bs # frags \<and> (\<forall>fr \<in> set frags. muxed_fragment L m fr)"
  using mux_reach_ok [OF assms] by (auto simp: mux_ok_def split: if_splits)

text \<open>Muxing a fragment of a content type without an init panics: once the combined init is written, a
  well-formed fragment of a subtitle track (or of a dependency of the video track) makes \<open>MuxSample\<close>
  divide by the missing time scale.\<close>

theorem mux_other_type_panics:
  assumes "mux_reach L m" and "\<forall>v a. \<exists>bs. xl_EncodeInits L v a = Inr bs"
    and "mx_init m" and "mx_inits m ty = None" and "xl_Segments L s = Inr [[frag]]"
  shows "MuxSample L s ty m = (m, Some (Panic ''integer divide by zero''))"
  using mux_reach_ok [OF assms(1,2)] assms(3-) by (auto simp: mux_ok_def MuxSample_def Let_def)

section \<open>Instances\<close>

text \<open>Init segments and fragments as their track id and payload.\<close>

definition ex_mux :: "(u32 \<times> bytes, u32 \<times> bytes) mux_lib" where
  "ex_mux = \<lparr>xl_DecodeInit = (\<lambda>bs. Inr (Some (0, bs))), xl_setTrackIDs = (\<lambda>(i, bs) j. (j, bs)), xl_Timescale = (\<lambda>n. 90000),
     xl_EncodeInits = (\<lambda>(i, v) (j, a). Inr (v @ a)), xl_Segments = (\<lambda>bs. Inr [[(0, bs)]]),
     xl_setTrackID = (\<lambda>(i, bs) j. (j, bs)), xl_BaseTime = (\<lambda>f. 0), xl_EncodeFrag = (\<lambda>(i, bs). Inr (ucast i # bs))\<rparr>"

definition ex_mux_run :: "(u32 \<times> bytes) cmaf_mux" where
  "ex_mux_run = fst (MuxSample ex_mux [9] ''audio'' (fst (AddInit ex_mux (base64_encode [2]) ''audio''
     (fst (MuxSample ex_mux [8] ''video'' (fst (AddInit ex_mux (base64_encode [1]) ''video'' NewCmafMux)))))))"

lemma ex_mux_run_eq:
  "ex_mux_run = \<lparr>mx_init = True, mx_inits = [''video'' \<mapsto> (1, [1]), ''audio'' \<mapsto> (2, [2])],
     mx_timeScales = (\<lambda>_. 0)(''video'' := 90000, ''audio'' := 90000), mx_out = [[1, 2], [2, 9]]\<rparr>"
  by (simp add: ex_mux_run_def AddInit_def MuxSample_def muxInit_def NewCmafMux_def trackIDs_def ex_mux_def del: base64_encode.simps)

lemma ex_mux_reach: "mux_reach ex_mux ex_mux_run"
  unfolding ex_mux_run_def by (metis mux_reach.intros prod.collapse)

theorem mux_output_wellformed_witness: "mx_out ex_mux_run = [[1, 2], [2, 9]] \<and> (\<exists>bs frags. mx_out ex_mux_run = bs # frags)"
proof -
  have "mx_inits ex_mux_run ''video'' \<noteq> None" "mx_inits ex_mux_run ''audio'' \<noteq> None" "mx_out ex_mux_run = [[1, 2], [2, 9]]"
    by (simp_all add: ex_mux_run_eq)
  moreover have "\<forall>v a. \<exists>bs. xl_EncodeInits ex_mux v a = Inr bs" by (auto simp: ex_mux_def)
  ultimately show ?thesis using mux_output_wellformed [OF ex_mux_reach] by auto
qed

theorem mux_other_type_panics_witness: "snd (MuxSample ex_mux [7] ''subs'' ex_mux_run) = Some (Panic ''integer divide by zero'')"
proof -
  have i: "mx_init ex_mux_run" "mx_inits ex_mux_run ''subs'' = None" by (simp_all add: ex_mux_run_eq)
  have "\<forall>v a. \<exists>bs. xl_EncodeInits ex_mux v a = Inr bs" "xl_Segments ex_mux [7] = Inr [[(0, [7])]]" by (auto simp: ex_mux_def)
  from mux_other_type_panics [OF ex_mux_reach this(1) i this(2)] show ?thesis by simp
qed

end
