(* ===== verification/Go_Base64_Url.thy ===== *)
theory Go_Base64_Url
  imports Go_Base64
begin

text \<open>
  \<^verbatim>\<open>encoding/base64\<close>'s unpadded encodings, \<^verbatim>\<open>RawStdEncoding\<close> and \<^verbatim>\<open>RawURLEncoding\<close>, as variations of
  the standard one, and \<^verbatim>\<open>encoding/hex\<close>. They carry keys and key ids of the ClearKey protocol.
\<close>

definition raw_std_encode :: "bytes \<Rightarrow> string" where
  "raw_std_encode bs = filter (\<lambda>c. c \<noteq> CHR ''='') (base64_encode bs)"

definition url_char :: "char \<Rightarrow> char" where
  "url_char c = (if c = CHR ''+'' then CHR ''-'' else if c = CHR ''/'' then CHR ''_'' else c)"

definition std_char :: "char \<Rightarrow> char" where
  "std_char c = (if c = CHR ''-'' then CHR ''+'' else if c = CHR ''_'' then CHR ''/'' else c)"

definition raw_url_encode :: "bytes \<Rightarrow> string" where
  "raw_url_encode bs = map url_char (raw_std_encode bs)"

definition pad_quads :: "string \<Rightarrow> string" where
  "pad_quads s = s @ replicate ((4 - length s mod 4) mod 4) (CHR ''='')"

definition raw_url_decode :: "string \<Rightarrow> bytes res" where
  "raw_url_decode s = (let t = filter (\<lambda>c. c \<noteq> CHR 0x0A \<and> c \<noteq> CHR 0x0D) s
     in if CHR ''+'' \<in> set t \<or> CHR ''/'' \<in> set t \<or> CHR ''='' \<in> set t then Inl (Errorf ''illegal base64 data'')
        else base64_decode (pad_quads (map std_char t)))"

definition hex_alphabet :: string where "hex_alphabet = ''0123456789abcdef''"

definition hex_encode :: "bytes \<Rightarrow> string" where
  "hex_encode bs = concat (map (\<lambda>b. [hex_alphabet ! (unat b div 16), hex_alphabet ! (unat b mod 16)]) bs)"

definition hex_value :: "char \<Rightarrow> nat option" where
  "hex_value c = (case index_of c hex_alphabet of Some n \<Rightarrow> Some n | None \<Rightarrow> index_of c ''0123456789ABCDEF'')"

fun hex_decode :: "string \<Rightarrow> bytes res" where
  "hex_decode [] = Inr []"
| "hex_decode [c] = Inl (Errorf ''encoding/hex: odd length hex string'')"
| "hex_decode (c # d # cs) = (case (hex_value c, hex_value d) of
     (Some x, Some y) \<Rightarrow> (case hex_decode cs of Inl e \<Rightarrow> Inl e | Inr bs \<Rightarrow> Inr (of_nat (16 * x + y) # bs))
   | _ \<Rightarrow> Inl (Errorf ''encoding/hex: invalid byte''))"

section \<open>Round trips and sizes\<close>

lemma hex_decode_length: "hex_decode s = Inr bs \<Longrightarrow> length s = 2 * length bs"
  by (induction s arbitrary: bs rule: hex_decode.induct) (auto split: option.splits sum.splits)

definition alpha :: "string \<Rightarrow> bool" where
  "alpha s \<longleftrightarrow> (\<forall>c \<in> set s. c \<in> set b64_alphabet)"

lemma alpha_simps [simp]: "alpha []" "alpha (s @ t) \<longleftrightarrow> alpha s \<and> alpha t"
  by (auto simp: alpha_def)

lemma alpha_quad [simp]: "n < 16777216 \<Longrightarrow> alpha (b64_quad n)"
proof -
  assume "n < 16777216"
  then have "n div 262144 < 64" by (simp add: less_mult_imp_div_less)
  moreover have "length b64_alphabet = 64" by (simp add: b64_alphabet_def)
  ultimately show ?thesis by (auto simp: alpha_def b64_quad_def b64_char_def)
qed

lemma alpha_take: "alpha s \<Longrightarrow> alpha (take k s)"
  by (auto simp: alpha_def dest: in_set_takeD)

lemma b64_join_bound: "b64_join a b c < 16777216"
  using u8_bound [of a] u8_bound [of b] u8_bound [of c] unfolding b64_join_def by linarith

lemma alpha_not_special: "alpha s \<Longrightarrow> set s \<inter> {CHR ''='', CHR ''-'', CHR ''_'', CHR 0x0A, CHR 0x0D} = {}"
proof -
  have "set b64_alphabet \<inter> {CHR ''='', CHR ''-'', CHR ''_'', CHR 0x0A, CHR 0x0D} = {}" by (simp add: b64_alphabet_def)
  then show "alpha s \<Longrightarrow> set s \<inter> {CHR ''='', CHR ''-'', CHR ''_'', CHR 0x0A, CHR 0x0D} = {}" unfolding alpha_def by blast
qed

lemma alpha_filter_pad [simp]: "alpha s \<Longrightarrow> filter (\<lambda>c. c \<noteq> CHR ''='') s = s"
  using alpha_not_special [of s] by (auto simp: filter_id_conv)

lemma length_b64_quad [simp]: "length (b64_quad n) = 4"
  by (simp add: b64_quad_def)

lemma raw_std_alpha: "alpha (raw_std_encode bs)"
  unfolding raw_std_encode_def
  by (induction bs rule: base64_encode.induct) (simp_all add: b64_join_bound alpha_take)

lemma pad_quads_append: "length s = 4 \<Longrightarrow> pad_quads (s @ t) = s @ pad_quads t"
  by (simp add: pad_quads_def)

lemma pad_raw_std: "pad_quads (raw_std_encode bs) = base64_encode bs"
  unfolding raw_std_encode_def
proof (induction bs rule: base64_encode.induct)
  case (2 a)
  show ?case by (simp add: b64_join_bound alpha_take pad_quads_def numeral_2_eq_2)
next
  case (3 a b)
  show ?case by (simp add: b64_join_bound alpha_take pad_quads_def)
next
  case (4 a b c bs)
  then show ?case by (simp add: b64_join_bound pad_quads_append)
qed (simp add: pad_quads_def)

lemma raw_url_roundtrip [simp]: "raw_url_decode (raw_url_encode bs) = Inr bs"
proof -
  let ?s = "raw_std_encode bs"
  note n = alpha_not_special [OF raw_std_alpha [of bs]]
  have "filter (\<lambda>c. c \<noteq> CHR 0x0A \<and> c \<noteq> CHR 0x0D) (map url_char ?s) = map url_char ?s"
    using n by (auto simp: filter_id_conv url_char_def split: if_splits)
  moreover have "map std_char (map url_char ?s) = ?s"
    using n by (auto simp: url_char_def std_char_def intro!: map_idI)
  moreover have "CHR ''+'' \<notin> set (map url_char ?s)" "CHR ''/'' \<notin> set (map url_char ?s)" "CHR ''='' \<notin> set (map url_char ?s)"
    using n by (auto simp: url_char_def split: if_splits)
  ultimately show ?thesis by (simp add: raw_url_decode_def raw_url_encode_def pad_raw_std)
qed

end
