(* ===== verification/Drm.thy ===== *)
theory Drm
  imports Sample_Clock Go_Base64_Url
begin

text \<open>
  Protection configuration (\<^verbatim>\<open>internal/drm.go\<close>) and the ClearKey license endpoint of the publisher's side
  server (\<^verbatim>\<open>cmd/mlmpub/handler.go\<close>). Key and UUID parsing and the PSSH box are mp4ff's (\<open>drm_lib\<close>), the
  DRM configuration file is read by livesim2 (\<open>drm_package\<close> is what it delivers).
\<close>

record drm_lib =
  dl_UnpackKey :: "string \<Rightarrow> bytes res"
  dl_NewUUIDFromString :: "string \<Rightarrow> bytes res"
  dl_UUIDString :: "bytes \<Rightarrow> string"
  dl_EncodePssh :: "bytes \<Rightarrow> bytes list \<Rightarrow> bytes res"

definition CommonSystemID :: string where
  "CommonSystemID = ''1077efec-c0b2-4d02-ace3-3c1e52e2fb4b''"

definition drmSystemIDs :: "string \<Rightarrow> string option" where
  "drmSystemIDs n = (if n = ''widevine'' then Some ''edef8ba9-79d6-4ace-a3c8-27dcd51d21ed''
     else if n = ''playready'' then Some ''9a04f079-9840-4286-ab92-e65be0885f95''
     else if n = ''fairplay'' then Some ''94ce86fb-07ff-4f43-adb8-93d2fa968ca2'' else None)"

definition zero_drm_system :: drm_system where
  "zero_drm_system = \<lparr>sys_SystemID = [], sys_Robustness = [], sys_LaURL = None, sys_AuthzURL = None, sys_CertURL = None, sys_Pssh = []\<rparr>"

section \<open>ClearKey flags\<close>

text \<open>The PSSH box is given by its system id and its key ids.\<close>

definition createClearKeyPssh :: "drm_lib \<Rightarrow> bytes \<Rightarrow> (bytes \<times> bytes list) res" where
  "createClearKeyPssh D kid = (case dl_NewUUIDFromString D CommonSystemID of
     Inl e \<Rightarrow> Inl (Wrapf ''invalid ClearKey system ID'' e) | Inr sys \<Rightarrow> Inr (sys, [kid]))"

definition clearkey_info :: "drm_lib \<Rightarrow> string \<Rightarrow> bytes \<Rightarrow> bytes \<Rightarrow> bytes \<Rightarrow> string \<Rightarrow> bytes \<times> bytes list \<Rightarrow> bytes \<Rightarrow> drm_info" where
  "clearkey_info D scheme kidUUID key iv laURL pssh enc =
     \<lparr>di_ContentProtections = [\<lparr>cp_RefID = ''1'', cp_DefaultKIDs = [dl_UUIDString D kidUUID], cp_Scheme = scheme,
        cp_DRMSystem = Some (zero_drm_system\<lparr>sys_SystemID := dl_UUIDString D (fst pssh),
          sys_LaURL := Some \<lparr>svc_URL = laURL, svc_Type = ''EME-1.0''\<rparr>, sys_Pssh := raw_std_encode enc\<rparr>)\<rparr>],
      di_cenc = \<lparr>ci_key = key, ci_iv = iv\<rparr>\<rparr>"

definition ParseCENCflags :: "drm_lib \<Rightarrow> string \<Rightarrow> string \<Rightarrow> string \<Rightarrow> string \<Rightarrow> string \<Rightarrow> drm_info option res" where
  "ParseCENCflags D scheme kidStr keyStr ivStr laURL =
     (if kidStr = [] \<and> keyStr = [] \<and> ivStr = [] then Inr None
      else if laURL = [] then Inl (Errorf ''laurl must be configured for ClearKey/ECCP encryption'')
      else case dl_UnpackKey D kidStr of
        Inl e \<Rightarrow> Inl (Wrapf ''invalid key ID'' e)
      | Inr kid \<Rightarrow> (case dl_NewUUIDFromString D (hex_encode kid) of
        Inl e \<Rightarrow> Inl (Wrapf ''failed to convert kid hexstring to UUID'' e)
      | Inr kidUUID \<Rightarrow>
        if scheme \<noteq> ''cenc'' \<and> scheme \<noteq> ''cbcs'' then Inl (Errorf ''scheme must be cenc or cbcs'')
        else if length ivStr \<noteq> 32 \<and> length ivStr \<noteq> 16 then Inl (Errorf ''hex iv must have length 16 or 32 chars'')
        else (case hex_decode ivStr of
          Inl e \<Rightarrow> Inl (Errorf ''invalid iv'')
        | Inr iv \<Rightarrow>
          if keyStr \<noteq> [] \<and> length keyStr \<noteq> 32 then Inl (Errorf ''hex key must have length 32 chars'')
          else (case (if keyStr = [] then Inr kidUUID else dl_UnpackKey D keyStr) of
            Inl e \<Rightarrow> Inl (Wrapf ''invalid key'' e)
          | Inr key \<Rightarrow> (case createClearKeyPssh D kidUUID of
            Inl e \<Rightarrow> Inl (Wrapf ''could not create ClearKey PSSH'' e)
          | Inr pssh \<Rightarrow> (case dl_EncodePssh D (fst pssh) (snd pssh) of
            Inl e \<Rightarrow> Inl (Wrapf ''failed to encode pssh box'' e)
          | Inr enc \<Rightarrow> Inr (Some (clearkey_info D scheme kidUUID key iv laURL pssh enc))))))))"

section \<open>DRM configuration file\<close>

record url_entry =
  ue_LaURL :: string
  ue_CertificateURL :: string

record cpix_key =
  ck_KeyID :: string
  ck_Key :: bytes
  ck_ExplicitIV :: bytes
  ck_CommonEncryptionScheme :: string

record cpix_system =
  xs_SystemID :: string
  xs_PSSH :: string

text \<open>\<open>dp_URLs\<close> is the Go map in the order it is iterated.\<close>

record drm_package =
  dp_URLs :: "(string \<times> url_entry) list"
  dp_ContentKeys :: "cpix_key list"
  dp_DRMSystems :: "cpix_system list"

definition is_space :: "char \<Rightarrow> bool" where
  "is_space c \<longleftrightarrow> c \<in> set [CHR '' '', CHR 0x09, CHR 0x0A, CHR 0x0B, CHR 0x0C, CHR 0x0D]"

definition trim_space :: "string \<Rightarrow> string" where
  "trim_space s = rev (dropWhile is_space (rev (dropWhile is_space s)))"

definition url_system :: "string \<times> url_entry \<Rightarrow> drm_system res" where
  "url_system e = (if fst e = ''fairplay'' \<and> ue_CertificateURL (snd e) = [] then Inl (Errorf ''certificate url must be configured for fairplay'')
     else case drmSystemIDs (fst e) of
       None \<Rightarrow> Inl (Errorf ''corresponding systemID not found'')
     | Some i \<Rightarrow> Inr (zero_drm_system\<lparr>sys_SystemID := i, sys_LaURL := Some \<lparr>svc_URL = ue_LaURL (snd e), svc_Type = []\<rparr>,
                       sys_CertURL := Some \<lparr>svc_URL = ue_CertificateURL (snd e), svc_Type = []\<rparr>\<rparr>))"

text \<open>The inner loop keeps the last matching system.\<close>

definition find_system :: "drm_system list \<Rightarrow> string \<Rightarrow> drm_system" where
  "find_system ss i = foldl (\<lambda>acc s. if i = sys_SystemID s then s else acc) zero_drm_system ss"

fun protections :: "drm_system list \<Rightarrow> cpix_key \<Rightarrow> nat \<Rightarrow> cpix_system list \<Rightarrow> content_protection list res" where
  "protections ss k refID [] = Inr []"
| "protections ss k refID (d # ds) = (let system = find_system ss (xs_SystemID d) in
     if system = zero_drm_system then Inl (Errorf ''couldn't find existing DRMSystem corresponding to systemID'')
     else case protections ss k (refID + 1) ds of
       Inl e \<Rightarrow> Inl e
     | Inr cps \<Rightarrow> Inr (\<lparr>cp_RefID = dec refID, cp_DefaultKIDs = [ck_KeyID k], cp_Scheme = ck_CommonEncryptionScheme k,
                       cp_DRMSystem = Some (system\<lparr>sys_Pssh := trim_space (xs_PSSH d)\<rparr>)\<rparr> # cps))"

definition ConfigureDRMFromFile :: "drm_package list res \<Rightarrow> drm_info res" where
  "ConfigureDRMFromFile cfg = (case cfg of
     Inl e \<Rightarrow> Inl (Wrapf ''error reading DRM config'' e)
   | Inr [] \<Rightarrow> Inl (Errorf ''no packages found in DRM config'')
   | Inr (pack # _) \<Rightarrow> (case dp_ContentKeys pack of
       [] \<Rightarrow> Inl (Panic ''index out of range'')
     | k # _ \<Rightarrow> (case map_res url_system (dp_URLs pack) of
         Inl e \<Rightarrow> Inl e
       | Inr ss \<Rightarrow> (case protections ss k 1 (dp_DRMSystems pack) of
           Inl e \<Rightarrow> Inl e
         | Inr cps \<Rightarrow> Inr \<lparr>di_ContentProtections = cps, di_cenc = \<lparr>ci_key = ck_Key k, ci_iv = ck_ExplicitIV k\<rparr>\<rparr>))))"

section \<open>The license endpoint\<close>

record key_info =
  ki_Kty :: string
  ki_K :: string
  ki_Kid :: string

text \<open>\<^verbatim>\<open>POST /clearkey\<close>: every requested key id is answered with itself as the key.\<close>

definition clearkey_response :: "string list \<Rightarrow> key_info list" where
  "clearkey_response kids = map (\<lambda>kid. \<lparr>ki_Kty = ''oct'', ki_K = kid, ki_Kid = kid\<rparr>) kids"

section \<open>Properties\<close>

text \<open>An accepted ClearKey configuration: one protection, whose key id is the configured one; the key is the
  configured key, or the key id if there is none; the IV has 8 or 16 bytes.\<close>

lemma ParseCENCflags_ok:
  assumes "ParseCENCflags D scheme kidStr keyStr ivStr laURL = Inr (Some d)"
  obtains kid kidUUID key iv sys enc where "dl_UnpackKey D kidStr = Inr kid" and "dl_NewUUIDFromString D (hex_encode kid) = Inr kidUUID"
    and "dl_NewUUIDFromString D CommonSystemID = Inr sys"
    and "d = clearkey_info D scheme kidUUID key iv laURL (sys, [kidUUID]) enc"
    and "if keyStr = [] then key = kidUUID else dl_UnpackKey D keyStr = Inr key"
    and "scheme = ''cenc'' \<or> scheme = ''cbcs''" and "length iv = 8 \<or> length iv = 16" and "laURL \<noteq> []"
proof -
  from assms obtain kid kidUUID iv key sys enc where
    a: "dl_UnpackKey D kidStr = Inr kid" "dl_NewUUIDFromString D (hex_encode kid) = Inr kidUUID"
    "dl_NewUUIDFromString D CommonSystemID = Inr sys" "d = clearkey_info D scheme kidUUID key iv laURL (sys, [kidUUID]) enc"
    "if keyStr = [] then key = kidUUID else dl_UnpackKey D keyStr = Inr key"
    "scheme = ''cenc'' \<or> scheme = ''cbcs''" "laURL \<noteq> []"
    and h: "hex_decode ivStr = Inr iv" "length ivStr = 32 \<or> length ivStr = 16"
    by (auto simp: ParseCENCflags_def createClearKeyPssh_def split: if_splits sum.splits)
  have "length iv = 8 \<or> length iv = 16" using hex_decode_length [OF h(1)] h(2) by auto
  with a show ?thesis using that by blast
qed

end
