(* ===== verification/Cenc_Sub.thy ===== *)
theory Cenc_Sub
  imports Drm Media_Chunks
begin

text \<open>
  Decryption at the subscriber (\<^verbatim>\<open>internal/sub/cenc.go\<close>, and \<^verbatim>\<open>DecryptInit\<close>, \<^verbatim>\<open>DecryptFragment\<close> of
  \<^verbatim>\<open>internal/asset.go\<close>): finding the ClearKey protection of a track in the catalog, asking the license
  server for the key, and decrypting init segments and fragments. The cipher and the boxes are mp4ff's
  (\<open>dec_lib\<close>), the license server is a parameter; \<open>clearkey_response\<close> of the theory \<open>Drm\<close> is the program's own.
\<close>

record ('f, 'n, 'v) dec_lib =
  de_DecodeInit :: "bytes \<Rightarrow> 'n option res"
  de_DecryptInit :: "'n \<Rightarrow> ('n \<times> 'v) res"
  de_EncodeInit :: "'n \<Rightarrow> bytes res"
  de_zeroInfo :: 'v
  de_TrackInfos :: "'v \<Rightarrow> bytes list"
  de_DecryptFragment :: "'f \<Rightarrow> 'v \<Rightarrow> bytes \<Rightarrow> 'f res"

text \<open>\<open>de_TrackInfos\<close> lists the default key ids of the track infos.\<close>

definition DecryptInit :: "('f, 'n, 'v) dec_lib \<Rightarrow> bytes \<Rightarrow> (bytes \<times> bytes \<times> 'v) res" where
  "DecryptInit E initData = (case de_DecodeInit E initData of
     Inl e \<Rightarrow> Inl e
   | Inr None \<Rightarrow> Inl (Errorf ''no init segment in initData'')
   | Inr (Some n) \<Rightarrow> (case de_DecryptInit E n of
       Inl e \<Rightarrow> Inl (Errorf ''unable to decrypt init'')
     | Inr (n', info) \<Rightarrow> (case de_TrackInfos E info of
         [] \<Rightarrow> Inl (Panic ''index out of range'')
       | kid # _ \<Rightarrow> (case de_EncodeInit E n' of Inl e \<Rightarrow> Inl e | Inr bs \<Rightarrow> Inr (bs, kid, info)))))"

definition DecryptFragment :: "('f, 'm, 'd, 'i, 'p, 's) mp4_lib \<Rightarrow> ('f, 'n, 'v) dec_lib \<Rightarrow> bytes \<Rightarrow> 'v \<Rightarrow> bytes \<Rightarrow> bytes res" where
  "DecryptFragment M E payload info key = (case decode_fragment M payload of
     Inl e \<Rightarrow> Inl e
   | Inr frag \<Rightarrow> (case de_DecryptFragment E frag info key of
       Inl e \<Rightarrow> Inl (Wrapf ''unable to decrypt fragment'' e)
     | Inr clear \<Rightarrow> wrap_err ''unable to encode decrypted fragment'' (ml_Encode M clear)))"

section \<open>The key\<close>

record ('o, 'v) sub_cenc =
  sc_Key :: bytes
  sc_DecryptInfo :: "string \<rightharpoonup> 'v"
  sc_ProtectedMoov :: "string \<rightharpoonup> 'o"

definition zero_protection :: content_protection where
  "zero_protection = \<lparr>cp_RefID = [], cp_DefaultKIDs = [], cp_Scheme = [], cp_DRMSystem = None\<rparr>"

definition last_protection :: "content_protection list \<Rightarrow> string \<Rightarrow> content_protection" where
  "last_protection cps refID = foldl (\<lambda>acc cp. if refID = cp_RefID cp then cp else acc) zero_protection cps"

definition clearkey_kid :: "drm_lib \<Rightarrow> string \<Rightarrow> string res" where
  "clearkey_kid D uuid = (case dl_UnpackKey D uuid of
     Inl e \<Rightarrow> Inl (Wrapf ''failed to unpack kid UUID'' e) | Inr kid \<Rightarrow> Inr (raw_url_encode kid))"

definition setClearKeyDecryptionKey :: "drm_lib \<Rightarrow> (string \<Rightarrow> string list \<Rightarrow> key_info list res) \<Rightarrow> catalog \<Rightarrow> string \<Rightarrow> bytes res" where
  "setClearKeyDecryptionKey D server cat refID =
     (let cp = last_protection (cat_ContentProtections cat) refID
      in case map_res (clearkey_kid D) (cp_DefaultKIDs cp) of
        Inl e \<Rightarrow> Inl e
      | Inr kids \<Rightarrow>
          if cp_RefID cp = [] then Inl (Errorf ''failed to find contentProtection'')
          else (case cp_DRMSystem cp of
            None \<Rightarrow> Inl (Panic ''nil pointer dereference'')
          | Some sys \<Rightarrow> (case sys_LaURL sys of
            None \<Rightarrow> Inl (Panic ''nil pointer dereference'')
          | Some la \<Rightarrow> (case server (svc_URL la) kids of
              Inl e \<Rightarrow> Inl (Wrapf ''failed to fetch ClearKey'' e)
            | Inr [] \<Rightarrow> Inl (Errorf ''no keys found in ClearKey response'')
            | Inr [k] \<Rightarrow> wrap_err ''unable to base64URL-decode key in ClearKey response'' (raw_url_decode (ki_K k))
            | Inr _ \<Rightarrow> Inl (Errorf ''too many keys in ClearKey response'')))))"

text \<open>The search for the ClearKey protection: position \<open>i\<close> of the track's reference list is looked up at
  position \<open>i\<close> of the catalog's protections.\<close>

fun clearkey_ref :: "content_protection list \<Rightarrow> nat \<Rightarrow> string list \<Rightarrow> string \<Rightarrow> string res" where
  "clearkey_ref cps i [] acc = Inr acc"
| "clearkey_ref cps i (r # rs) acc =
     (if length cps \<le> i then Inl (Panic ''index out of range'')
      else case cp_DRMSystem (cps ! i) of
        None \<Rightarrow> Inl (Panic ''nil pointer dereference'')
      | Some sys \<Rightarrow> clearkey_ref cps (Suc i) rs (if sys_SystemID sys = CommonSystemID then r else acc))"

definition decryptInit :: "drm_lib \<Rightarrow> ('f, 'n, 'v) dec_lib \<Rightarrow> (string \<Rightarrow> string list \<Rightarrow> key_info list res) \<Rightarrow> catalog \<Rightarrow>
    track \<Rightarrow> string \<Rightarrow> ('o, 'v) sub_cenc \<Rightarrow> ('o, 'v) sub_cenc \<times> string res" where
  "decryptInit D E server cat tr initData c = (case base64_decode initData of
     Inl e \<Rightarrow> (c, Inl (Wrapf ''failed to base64 decode init data'' e))
   | Inr bs \<Rightarrow> (case DecryptInit E bs of
     Inl e \<Rightarrow> (c, Inl (Wrapf ''failed to decrypt init'' e))
   | Inr (clear, kid, info) \<Rightarrow> (case clearkey_ref (cat_ContentProtections cat) 0 (tr_ContentProtectionRefIDs tr) [] of
     Inl e \<Rightarrow> (c, Inl e)
   | Inr refID \<Rightarrow>
       if refID = [] then (c, Inl (Errorf ''ClearKey not supported for track''))
       else (case setClearKeyDecryptionKey D server cat refID of
         Inl e \<Rightarrow> (c, Inl (Wrapf ''failed to set ClearKey decryption key'' e))
       | Inr key \<Rightarrow> (c\<lparr>sc_Key := key, sc_DecryptInfo := (sc_DecryptInfo c)(tr_Name tr \<mapsto> info)\<rparr>, Inr (base64_encode clear))))))"

definition decryptPayload :: "('f, 'm, 'd, 'i, 'p, 's) mp4_lib \<Rightarrow> ('f, 'n, 'v) dec_lib \<Rightarrow> ('o, 'v) sub_cenc \<Rightarrow> bytes \<Rightarrow> string \<Rightarrow> bytes res" where
  "decryptPayload M E c payload trackName =
     DecryptFragment M E payload (case sc_DecryptInfo c trackName of None \<Rightarrow> de_zeroInfo E | Some i \<Rightarrow> i) (sc_Key c)"

section \<open>Properties\<close>

text \<open>What mp4ff documents about UUIDs: the string of a parsed UUID unpacks to the same bytes, and the
  ClearKey system id prints as it was written.\<close>

definition uuid_laws :: "drm_lib \<Rightarrow> bool" where
  "uuid_laws D \<longleftrightarrow> (\<forall>s u. dl_NewUUIDFromString D s = Inr u \<longrightarrow> dl_UnpackKey D (dl_UUIDString D u) = Inr u) \<and>
     (\<forall>u. dl_NewUUIDFromString D CommonSystemID = Inr u \<longrightarrow> dl_UUIDString D u = CommonSystemID)"

text \<open>C25: ClearKey from end to end. Take a catalog with the protection that the publisher's flags give, and
  a subscriber that asks the publisher's own license endpoint. Decrypting the init segment of a
  protected track succeeds, returns the decrypted init and leaves the key id as the key. So the subscriber
  has the publisher's key exactly if no separate key was configured or the configured key equals the
  key id: with any other \<^verbatim>\<open>-cenckey\<close> the built-in license endpoint hands out a wrong key.\<close>

theorem clearkey_end_to_end:
  assumes "ParseCENCflags D scheme kidStr keyStr ivStr laURL = Inr (Some d)" and "uuid_laws D"
    and "cat_ContentProtections cat = di_ContentProtections d"
    and "tr_ContentProtectionRefIDs tr = map cp_RefID (di_ContentProtections d)"
    and "base64_decode initData = Inr bs" and "DecryptInit E bs = Inr (clear, k0, info)"
    and "dl_UnpackKey D kidStr = Inr kid" and "dl_NewUUIDFromString D (hex_encode kid) = Inr kidUUID"
  shows "\<exists>c'. decryptInit D E (\<lambda>url kids. Inr (clearkey_response kids)) cat tr initData c = (c', Inr (base64_encode clear)) \<and>
    sc_Key c' = kidUUID \<and> sc_DecryptInfo c' (tr_Name tr) = Some info \<and>
    (sc_Key c' = ci_key (di_cenc d) \<longleftrightarrow> keyStr = [] \<or> dl_UnpackKey D keyStr = Inr kidUUID)"
proof -
  from ParseCENCflags_ok [OF assms(1)] assms(7,8) obtain key iv sys enc where
    s: "dl_NewUUIDFromString D CommonSystemID = Inr sys"
    and d: "d = clearkey_info D scheme kidUUID key iv laURL (sys, [kidUUID]) enc"
    and k: "if keyStr = [] then key = kidUUID else dl_UnpackKey D keyStr = Inr key" by (metis Inr_inject)
  have u: "dl_UnpackKey D (dl_UUIDString D kidUUID) = Inr kidUUID" "dl_UUIDString D sys = CommonSystemID"
    using assms(2,8) s unfolding uuid_laws_def by blast+
  have r: "clearkey_ref (cat_ContentProtections cat) 0 (tr_ContentProtectionRefIDs tr) [] = Inr ''1''"
    using assms(3,4) d u(2) by (simp add: clearkey_info_def)
  have "setClearKeyDecryptionKey D (\<lambda>url kids. Inr (clearkey_response kids)) cat ''1'' = Inr kidUUID"
    using assms(3) d u(1)
    by (simp add: setClearKeyDecryptionKey_def last_protection_def clearkey_info_def clearkey_kid_def
        clearkey_response_def wrap_err_def)
  then have e: "decryptInit D E (\<lambda>url kids. Inr (clearkey_response kids)) cat tr initData c =
      (c\<lparr>sc_Key := kidUUID, sc_DecryptInfo := (sc_DecryptInfo c)(tr_Name tr \<mapsto> info)\<rparr>, Inr (base64_encode clear))"
    using assms(5,6) r by (simp add: decryptInit_def)
  have "ci_key (di_cenc d) = key" using d by (simp add: clearkey_info_def)
  with k e show ?thesis by (auto split: if_splits)
qed

text \<open>The search pairs references with protections by position: a track with more references than the
  catalog has protections makes the subscriber panic, whatever the references are.\<close>

lemma clearkey_ref_out_of_range:
  assumes "i \<le> length cps" and "length cps < i + length rs" and "\<forall>cp \<in> set cps. cp_DRMSystem cp \<noteq> None"
  shows "clearkey_ref cps i rs acc = Inl (Panic ''index out of range'')"
  using assms
proof (induction rs arbitrary: i acc)
  case (Cons r rs)
  show ?case
  proof (cases "length cps \<le> i")
    case False
    then obtain sys where "cp_DRMSystem (cps ! i) = Some sys" using Cons.prems(3) by (metis not_None_eq not_le nth_mem)
    with False Cons show ?thesis by simp
  qed simp
qed simp

theorem decryptInit_by_position:
  assumes "base64_decode initData = Inr bs" and "DecryptInit E bs = Inr x"
    and "length (cat_ContentProtections cat) < length (tr_ContentProtectionRefIDs tr)"
    and "\<forall>cp \<in> set (cat_ContentProtections cat). cp_DRMSystem cp \<noteq> None"
  shows "decryptInit D E server cat tr initData c = (c, Inl (Panic ''index out of range''))"
  using assms clearkey_ref_out_of_range [of 0 "cat_ContentProtections cat" "tr_ContentProtectionRefIDs tr" "[]"]
  by (cases x) (simp add: decryptInit_def)

section \<open>Instances\<close>

text \<open>UUIDs as their hexadecimal string.\<close>

definition char_byte :: "char \<Rightarrow> u8" where "char_byte c = of_nat (of_char c)"

definition byte_char :: "u8 \<Rightarrow> char" where "byte_char b = char_of (unat b)"

lemma byte_char_byte [simp]: "byte_char (char_byte c) = c"
  by (simp add: byte_char_def char_byte_def unsigned_of_nat take_bit_eq_mod)

definition ex_drm_lib :: drm_lib where
  "ex_drm_lib = \<lparr>dl_UnpackKey = (\<lambda>s. Inr (map char_byte s)), dl_NewUUIDFromString = (\<lambda>s. Inr (map char_byte s)),
     dl_UUIDString = map byte_char, dl_EncodePssh = (\<lambda>s ks. Inr [1])\<rparr>"

definition ex_dec :: "(bytes, bytes, bytes) dec_lib" where
  "ex_dec = \<lparr>de_DecodeInit = (\<lambda>bs. Inr (Some bs)), de_DecryptInit = (\<lambda>n. Inr (n, [9])), de_EncodeInit = Inr, de_zeroInfo = [],
     de_TrackInfos = (\<lambda>v. [v]), de_DecryptFragment = (\<lambda>f v k. Inr f)\<rparr>"

lemma ex_uuid_laws: "uuid_laws ex_drm_lib"
  by (auto simp: uuid_laws_def ex_drm_lib_def comp_def)

lemma hex_value_0: "hex_value (CHR ''0'') = Some 0"
  by (simp add: hex_value_def hex_alphabet_def)

lemma ex_iv: "hex_decode ''0000000000000000'' = Inr (replicate 8 0)"
  by (simp add: hex_value_0 eval_nat_numeral)

definition ex_eccp :: drm_info where
  "ex_eccp = (let u = map char_byte (hex_encode (map char_byte ''ab''))
     in clearkey_info ex_drm_lib ''cbcs'' u u (replicate 8 0) ''http://la'' (map char_byte CommonSystemID, [u]) [1])"

lemma ex_eccp_parsed: "ParseCENCflags ex_drm_lib ''cbcs'' ''ab'' [] ''0000000000000000'' ''http://la'' = Inr (Some ex_eccp)"
proof -
  have l: "dl_UnpackKey ex_drm_lib s = Inr (map char_byte s)" "dl_NewUUIDFromString ex_drm_lib s = Inr (map char_byte s)"
    "dl_EncodePssh ex_drm_lib a b = Inr [1]" for s a b by (simp_all add: ex_drm_lib_def)
  show ?thesis unfolding ParseCENCflags_def createClearKeyPssh_def l sum.case ex_iv ex_eccp_def Let_def by simp
qed

lemma ex_eccp_refs: "map cp_RefID (di_ContentProtections ex_eccp) = [''1'']"
  unfolding ex_eccp_def clearkey_info_def Let_def by simp

definition ex_cenc :: "(unit, bytes) sub_cenc" where
  "ex_cenc = \<lparr>sc_Key = [], sc_DecryptInfo = Map.empty, sc_ProtectedMoov = Map.empty\<rparr>"

theorem clearkey_end_to_end_witness:
  "\<exists>c'. decryptInit ex_drm_lib ex_dec (\<lambda>url kids. Inr (clearkey_response kids)) (zero_catalog\<lparr>cat_ContentProtections := di_ContentProtections ex_eccp\<rparr>)
       (zero_track\<lparr>tr_ContentProtectionRefIDs := [''1'']\<rparr>) (base64_encode [5]) ex_cenc
       = (c', Inr (base64_encode [5])) \<and> sc_Key c' = ci_key (di_cenc ex_eccp)"
proof -
  let ?cat = "zero_catalog\<lparr>cat_ContentProtections := di_ContentProtections ex_eccp\<rparr>"
  let ?tr = "zero_track\<lparr>tr_ContentProtectionRefIDs := [''1'']\<rparr>"
  have c: "cat_ContentProtections ?cat = di_ContentProtections ex_eccp"
    "tr_ContentProtectionRefIDs ?tr = map cp_RefID (di_ContentProtections ex_eccp)" by (simp_all add: ex_eccp_refs)
  have i: "DecryptInit ex_dec [5] = Inr ([5], [9], [9])" by (simp add: DecryptInit_def ex_dec_def)
  have k: "dl_UnpackKey ex_drm_lib s = Inr (map char_byte s)" "dl_NewUUIDFromString ex_drm_lib s = Inr (map char_byte s)" for s
    by (simp_all add: ex_drm_lib_def)
  from clearkey_end_to_end [OF ex_eccp_parsed ex_uuid_laws c base64_roundtrip i k,
      of ex_cenc] show ?thesis by metis
qed

theorem decryptInit_by_position_witness:
  "snd (decryptInit ex_drm_lib ex_dec (\<lambda>url kids. Inr []) zero_catalog (zero_track\<lparr>tr_ContentProtectionRefIDs := [''1'']\<rparr>) (base64_encode [5])
     ex_cenc) = Inl (Panic ''index out of range'')"
proof -
  have i: "DecryptInit ex_dec [5] = Inr ([5], [9], [9])" by (simp add: DecryptInit_def ex_dec_def)
  show ?thesis
    using decryptInit_by_position [OF base64_roundtrip i, of zero_catalog "zero_track\<lparr>tr_ContentProtectionRefIDs := [''1'']\<rparr>" ex_drm_lib "\<lambda>url kids. Inr []" ex_cenc]
    by (simp add: zero_catalog_def)
qed

end
