(* ===== verification/Subscriber.thy ===== *)
theory Subscriber
  imports Sub_Catalog Cmaf_Mux Cenc_Sub Playback Deps Moqmi
begin

text \<open>
  The subscriber's session (\<^verbatim>\<open>internal/sub/sub.go\<close>: \<^verbatim>\<open>handle\<close>, \<^verbatim>\<open>subscribeAndRead\<close> and what they call; the
  audio writers of \<^verbatim>\<open>internal/sub/loc.go\<close>): walking through the catalog, selecting a track per role,
  writing init segments, subscribing, and the reading goroutines that unpack LOCMAF, decrypt, and route
  every object to a LOC writer, the multiplexer or an output. MP4 boxes, cipher, license server, the LOCMAF
  codec and the ADTS header are parameters (\<open>recv_lib\<close>). The outputs are distinct sinks; a sink is what
  was written so far, and its writer says what a write does to it.
\<close>

section \<open>Parameters and state\<close>

type_synonym sink = "bytes \<Rightarrow> bytes \<Rightarrow> bytes \<times> go_error option"

record ('f, 'm, 'd, 'i, 'p, 's, 'v, 'o, 'e) recv_lib =
  rl_mp4 :: "('f, 'm, 'd, 'i, 'p, 's) mp4_lib"
  rl_mux :: "('i, 'f) mux_lib"
  rl_dec :: "('f, 'i, 'v) dec_lib"
  rl_drm :: drm_lib
  rl_license :: "string \<Rightarrow> string list \<Rightarrow> key_info list res"
  rl_DecodeMoov :: "bytes \<Rightarrow> 'o option res"
  rl_Version :: string
  rl_Decode :: "bytes \<Rightarrow> 's \<Rightarrow> 'o option \<Rightarrow> 's \<times> ('e \<times> bytes option) res"
  rl_Reconstruct :: "'o option \<Rightarrow> 'e \<Rightarrow> bytes option res"
  rl_ADTS :: "int \<Rightarrow> u8 \<Rightarrow> u8 \<Rightarrow> u16 \<Rightarrow> bytes res"

text \<open>\<open>LOCAACWriter\<close> carries the sample rate, the channel configuration and the object type. A LOC
  writer is stored under the media type whose output it writes to.\<close>

datatype loc_writer = LOCVideoWriter | LOCAACWriter int u8 u8 | LOCOpusWriter

record sub_config =
  sg_Namespace :: "string list"
  sg_Outs :: "string \<rightharpoonup> sink"
  sg_VideoName :: string
  sg_AudioName :: string
  sg_SubsName :: string
  sg_UseFetch :: bool
  sg_CatalogMode :: string
  sg_AcceptAny :: bool
  sg_Discover :: bool
  sg_CatalogTrack :: string
  sg_SubscribeDependencies :: bool
  sg_SimulatePlayback :: bool
  sg_MinimalBuffer :: int
  sg_TargetLatency :: int
  sg_MetricsPath :: string

record ('i, 'v, 'o) sub_state =
  ss_mux :: "'i cmaf_mux option"
  ss_cenc :: "('o, 'v) sub_cenc option"
  ss_locWriters :: "string \<rightharpoonup> loc_writer"
  ss_playback :: "native_playback option"
  ss_out :: "string \<Rightarrow> bytes"

text \<open>How \<^verbatim>\<open>handle\<close> ends: the connection closed with a reason, a plain return, a panic, or waiting for the
  context while the readers run.\<close>

datatype sub_end = Closed string | Returned | Panicked string

fun panics :: "go_error \<Rightarrow> bool" where
  "panics (Panic m) = True"
| "panics (Wrapf m e) = panics e"
| "panics (Errorf m) = False"

section \<open>Announcements and requests of the peer\<close>

fun sub_tupleEqual :: "string list \<Rightarrow> string list \<Rightarrow> bool" where
  "sub_tupleEqual [] [] = True"
| "sub_tupleEqual (x # xs) (y # ys) = (x = y \<and> sub_tupleEqual xs ys)"
| "sub_tupleEqual _ _ = False"

definition sub_announce_handler :: "sub_config \<Rightarrow> string list \<Rightarrow> reply" where
  "sub_announce_handler cfg ns =
     (if sg_AcceptAny cfg \<or> sg_Discover cfg then Accept None
      else if \<not> sub_tupleEqual ns (sg_Namespace cfg) then Reject CodeZero ''non-matching namespace''
      else Accept None)"

definition sub_subscribe_handler :: "string list \<Rightarrow> string \<Rightarrow> reply" where
  "sub_subscribe_handler ns name = Reject SubscribeTrackDoesNotExist ''endpoint does not publish any tracks''"

section \<open>LOC audio writers\<close>

fun split_on :: "char \<Rightarrow> string \<Rightarrow> string list" where
  "split_on c [] = [[]]"
| "split_on c (x # xs) = (if x = c then [] # split_on c xs
     else case split_on c xs of [] \<Rightarrow> [[x]] | p # ps \<Rightarrow> (x # p) # ps)"

text \<open>\<^verbatim>\<open>strconv.Atoi\<close> with 64 bit integers.\<close>

fun digits_val :: "int \<Rightarrow> string \<Rightarrow> int option" where
  "digits_val acc [] = Some acc"
| "digits_val acc (c # cs) = (if CHR ''0'' \<le> c \<and> c \<le> CHR ''9'' then digits_val (10 * acc + of_char c - 48) cs else None)"

definition atoi :: "string \<Rightarrow> int option" where
  "atoi s =
     (let ds = (if s \<noteq> [] \<and> (hd s = CHR ''-'' \<or> hd s = CHR ''+'') then drop 1 s else s)
      in if ds = [] then None
         else case digits_val 0 ds of
           None \<Rightarrow> None
         | Some n \<Rightarrow> let v = (if hd s = CHR ''-'' then - n else n)
             in if - (2 ^ 63) \<le> v \<and> v < 2 ^ 63 then Some v else None)"

definition AAClc :: u8 where "AAClc = 2"

definition NewLOCAACWriter :: "string \<Rightarrow> int \<Rightarrow> string \<Rightarrow> loc_writer res" where
  "NewLOCAACWriter codec sampleRate channelConfig =
     (let parts = split_on (CHR ''.'') codec;
          objectType = (if length parts \<ge> 3 then (case atoi (parts ! 2) of Some ot \<Rightarrow> of_int ot | None \<Rightarrow> AAClc) else AAClc)
      in if objectType \<noteq> AAClc then Inl (Errorf ''LOC AAC: only AAC-LC (mp4a.40.2) is supported'')
         else Inr (LOCAACWriter sampleRate (case atoi channelConfig of Some cc \<Rightarrow> of_int cc | None \<Rightarrow> 2) objectType))"

definition LOCAACWriter_Write :: "('f, 'm, 'd, 'i, 'p, 's, 'v, 'o, 'e) recv_lib \<Rightarrow> sink \<Rightarrow> int \<Rightarrow> u8 \<Rightarrow> u8 \<Rightarrow> sink" where
  "LOCAACWriter_Write L wr sr ch ot w payload = (case rl_ADTS L sr ch ot (of_nat (length payload)) of
     Inl e \<Rightarrow> (w, Some (Wrapf ''LOC AAC: ADTS header'' e))
   | Inr hdr \<Rightarrow> (case wr w hdr of (w1, Some e) \<Rightarrow> (w1, Some e) | (w1, None) \<Rightarrow> wr w1 payload))"

definition LOCOpusWriter_Write :: "sink \<Rightarrow> sink" where
  "LOCOpusWriter_Write wr w payload = wr w payload"

definition loc_write :: "('f, 'm, 'd, 'i, 'p, 's, 'v, 'o, 'e) recv_lib \<Rightarrow> loc_writer \<Rightarrow> sink \<Rightarrow> sink" where
  "loc_write L lw wr = (case lw of
     LOCVideoWriter \<Rightarrow> LOCVideoWriter_Write wr
   | LOCAACWriter sr ch ot \<Rightarrow> LOCAACWriter_Write L wr sr ch ot
   | LOCOpusWriter \<Rightarrow> LOCOpusWriter_Write wr)"

definition initLOCWriter :: "string \<Rightarrow> loc_writer \<Rightarrow> ('i, 'v, 'o) sub_state \<Rightarrow> ('i, 'v, 'o) sub_state" where
  "initLOCWriter mediaType w st = st\<lparr>ss_locWriters := (ss_locWriters st)(mediaType \<mapsto> w)\<rparr>"

section \<open>Setting up a track\<close>

definition unpackWrite :: "sink \<Rightarrow> string \<Rightarrow> bytes \<Rightarrow> bytes \<times> go_error option" where
  "unpackWrite wr initData w = (case base64_decode initData of Inl e \<Rightarrow> (w, Some e) | Inr bs \<Rightarrow> wr w bs)"

text \<open>The callers of \<^verbatim>\<open>parseCMAFInit\<close> use the moov box of its result only.\<close>

definition parseCMAFInit :: "('f, 'm, 'd, 'i, 'p, 's, 'v, 'o, 'e) recv_lib \<Rightarrow> string \<Rightarrow> 'o res" where
  "parseCMAFInit L initData = (case base64_decode initData of
     Inl e \<Rightarrow> Inl e
   | Inr bs \<Rightarrow> (case rl_DecodeMoov L bs of
       Inl e \<Rightarrow> Inl e
     | Inr None \<Rightarrow> Inl (Errorf ''missing moov in init data'')
     | Inr (Some moov) \<Rightarrow> Inr moov))"

text \<open>The name of the selected track after looking at a track called \<open>name\<close>: with a wanted substring the
  first match, without one the first track, if a default is allowed.\<close>

definition pick :: "string \<Rightarrow> bool \<Rightarrow> string \<Rightarrow> string \<Rightarrow> string" where
  "pick wanted dflt cur name =
     (if wanted \<noteq> [] then (if cur = [] \<and> str_contains name wanted then name else cur)
      else if cur = [] \<and> dflt then name else cur)"

definition write_init :: "sub_config \<Rightarrow> string \<Rightarrow> string \<Rightarrow> ('i, 'v, 'o) sub_state \<Rightarrow> ('i, 'v, 'o) sub_state" where
  "write_init cfg ty initData st = (case sg_Outs cfg ty of
     None \<Rightarrow> st
   | Some wr \<Rightarrow> st\<lparr>ss_out := (ss_out st)(ty := fst (unpackWrite wr initData (ss_out st ty)))\<rparr>)"

definition setup_cmaf :: "('f, 'm, 'd, 'i, 'p, 's, 'v, 'o, 'e) recv_lib \<Rightarrow> sub_config \<Rightarrow> string \<Rightarrow> string \<Rightarrow>
    ('i, 'v, 'o) sub_state \<Rightarrow> ('i, 'v, 'o) sub_state" where
  "setup_cmaf L cfg ty initData st =
     (let st1 = write_init cfg ty initData st
      in case ss_mux st1 of None \<Rightarrow> st1 | Some m \<Rightarrow> st1\<lparr>ss_mux := Some (fst (AddInit (rl_mux L) initData ty m))\<rparr>)"

definition setup_video :: "('f, 'm, 'd, 'i, 'p, 's, 'v, 'o, 'e) recv_lib \<Rightarrow> sub_config \<Rightarrow> track \<Rightarrow> string \<Rightarrow>
    ('i, 'v, 'o) sub_state \<Rightarrow> ('i, 'v, 'o) sub_state" where
  "setup_video L cfg tr initData st =
     (if tr_Packaging tr = ''loc''
      then (if sg_Outs cfg ''video'' \<noteq> None then initLOCWriter ''video'' LOCVideoWriter st else st)
      else setup_cmaf L cfg ''video'' initData st)"

definition setup_audio :: "('f, 'm, 'd, 'i, 'p, 's, 'v, 'o, 'e) recv_lib \<Rightarrow> sub_config \<Rightarrow> track \<Rightarrow> string \<Rightarrow>
    ('i, 'v, 'o) sub_state \<Rightarrow> ('i, 'v, 'o) sub_state" where
  "setup_audio L cfg tr initData st =
     (if tr_Packaging tr = ''loc''
      then (if sg_Outs cfg ''audio'' = None then st
            else if has_prefix (tr_Codec tr) ''mp4a''
            then (case NewLOCAACWriter (tr_Codec tr) (case tr_SampleRate tr of None \<Rightarrow> 0 | Some sr \<Rightarrow> sr) (tr_ChannelConfig tr) of
                    Inl e \<Rightarrow> st
                  | Inr w \<Rightarrow> initLOCWriter ''audio'' w st)
            else initLOCWriter ''audio'' LOCOpusWriter st)
      else setup_cmaf L cfg ''audio'' initData st)"

record selection =
  se_video :: string
  se_audio :: string
  se_subs :: string

text \<open>The protection part of the loop body: the init data to use, or the end of \<^verbatim>\<open>handle\<close>.\<close>

definition track_moov :: "('f, 'm, 'd, 'i, 'p, 's, 'v, 'o, 'e) recv_lib \<Rightarrow> track \<Rightarrow> string \<Rightarrow> sub_end + 'o option" where
  "track_moov L tr initData =
     (if tr_Packaging tr = ''locmaf''
      then if tr_LocmafVersion tr \<noteq> [] \<and> tr_LocmafVersion tr \<noteq> rl_Version L then Inl Returned
        else if tr_ContentProtectionRefIDs tr \<noteq> []
        then (case parseCMAFInit L initData of Inl e \<Rightarrow> Inl Returned | Inr moov \<Rightarrow> Inr (Some moov))
        else Inr None
      else Inr None)"

definition setup_protection :: "('f, 'm, 'd, 'i, 'p, 's, 'v, 'o, 'e) recv_lib \<Rightarrow> catalog \<Rightarrow> track \<Rightarrow> string \<Rightarrow> 'o option \<Rightarrow>
    ('i, 'v, 'o) sub_state \<Rightarrow> sub_end + ('i, 'v, 'o) sub_state \<times> string" where
  "setup_protection L cat tr initData moov st =
     (if tr_ContentProtectionRefIDs tr = [] then Inr (st, initData)
      else let c = (case ss_cenc st of Some c \<Rightarrow> c
                    | None \<Rightarrow> \<lparr>sc_Key = [], sc_DecryptInfo = Map.empty, sc_ProtectedMoov = Map.empty\<rparr>);
               c1 = (case moov of None \<Rightarrow> c | Some b \<Rightarrow> c\<lparr>sc_ProtectedMoov := (sc_ProtectedMoov c)(tr_Name tr \<mapsto> b)\<rparr>)
           in case decryptInit (rl_drm L) (rl_dec L) (rl_license L) cat tr initData c1 of
             (c2, Inl e) \<Rightarrow> if panics e then Inl (Panicked ''decryptInit'') else Inr (st\<lparr>ss_cenc := Some c2\<rparr>, initData)
           | (c2, Inr decrypted) \<Rightarrow> Inr (st\<lparr>ss_cenc := Some c2\<rparr>, decrypted))"

definition select_track :: "('f, 'm, 'd, 'i, 'p, 's, 'v, 'o, 'e) recv_lib \<Rightarrow> sub_config \<Rightarrow> track \<Rightarrow> string \<Rightarrow>
    ('i, 'v, 'o) sub_state \<times> selection \<Rightarrow> ('i, 'v, 'o) sub_state \<times> selection" where
  "select_track L cfg tr initData s = (case s of (st, sel) \<Rightarrow>
     if tr_Role tr = ''video'' then
       let v = pick (sg_VideoName cfg) True (se_video sel) (tr_Name tr)
       in (if v = tr_Name tr then setup_video L cfg tr initData st else st, sel\<lparr>se_video := v\<rparr>)
     else if tr_Role tr = ''audio'' then
       let v = pick (sg_AudioName cfg) True (se_audio sel) (tr_Name tr)
       in (if v = tr_Name tr then setup_audio L cfg tr initData st else st, sel\<lparr>se_audio := v\<rparr>)
     else if tr_Role tr = ''subtitle'' then
       let v = pick (sg_SubsName cfg) (sg_Outs cfg ''subs'' \<noteq> None) (se_subs sel) (tr_Name tr)
       in (if v = tr_Name tr then write_init cfg ''subs'' initData st else st, sel\<lparr>se_subs := v\<rparr>)
     else (st, sel))"

definition setup_track :: "('f, 'm, 'd, 'i, 'p, 's, 'v, 'o, 'e) recv_lib \<Rightarrow> sub_config \<Rightarrow> catalog \<Rightarrow> track \<Rightarrow>
    ('i, 'v, 'o) sub_state \<times> selection \<Rightarrow> sub_end + ('i, 'v, 'o) sub_state \<times> selection" where
  "setup_track L cfg cat tr s =
     (let initData = fst (InitDataFor cat (Some tr))
      in case track_moov L tr initData of
           Inl r \<Rightarrow> Inl r
         | Inr moov \<Rightarrow> (case setup_protection L cat tr initData moov (fst s) of
             Inl r \<Rightarrow> Inl r
           | Inr (st1, initData1) \<Rightarrow> Inr (select_track L cfg tr initData1 (st1, snd s))))"

fun setup_tracks :: "('f, 'm, 'd, 'i, 'p, 's, 'v, 'o, 'e) recv_lib \<Rightarrow> sub_config \<Rightarrow> catalog \<Rightarrow> track list \<Rightarrow>
    ('i, 'v, 'o) sub_state \<times> selection \<Rightarrow> sub_end + ('i, 'v, 'o) sub_state \<times> selection" where
  "setup_tracks L cfg cat [] s = Inr s"
| "setup_tracks L cfg cat (tr # trs) s = (case setup_track L cfg cat tr s of
     Inl r \<Rightarrow> Inl r
   | Inr s1 \<Rightarrow> setup_tracks L cfg cat trs s1)"

section \<open>Reading a track\<close>

text \<open>The result of \<^verbatim>\<open>decompressLocmafObject\<close> may be a nil slice (None): a copy of an empty raw box list is.\<close>

definition decompressLocmafObject :: "('f, 'm, 'd, 'i, 'p, 's, 'v, 'o, 'e) recv_lib \<Rightarrow> bytes \<Rightarrow> 'o option \<Rightarrow> 's \<Rightarrow> 's \<times> bytes option res" where
  "decompressLocmafObject L payload moov lst = (case rl_Decode L payload lst moov of
     (lst', Inl e) \<Rightarrow> (lst', Inl e)
   | (lst', Inr (eff, Some raw)) \<Rightarrow> (lst', Inr (if raw = [] then None else Some raw))
   | (lst', Inr (eff, None)) \<Rightarrow> (lst', rl_Reconstruct L moov eff))"

record 'o reader =
  rd_name :: string
  rd_mediaType :: string
  rd_track :: track
  rd_moov :: "'o option"

text \<open>The part of \<^verbatim>\<open>subscribeAndRead\<close> before its goroutine; \<open>sub\<close> is the session's answer to the request.\<close>

definition subscribeAndRead :: "('f, 'm, 'd, 'i, 'p, 's, 'v, 'o, 'e) recv_lib \<Rightarrow> (string \<Rightarrow> go_error option) \<Rightarrow> catalog \<Rightarrow>
    ('i, 'v, 'o) sub_state \<Rightarrow> string \<Rightarrow> string \<Rightarrow> 'o reader res" where
  "subscribeAndRead L sub cat st trackname mediaType = (case sub trackname of
     Some e \<Rightarrow> Inl e
   | None \<Rightarrow> (case GetTrackByName cat trackname of
       None \<Rightarrow> Inl (Errorf ''track not found'')
     | Some tr \<Rightarrow>
         let rd = \<lparr>rd_name = trackname, rd_mediaType = mediaType, rd_track = tr, rd_moov = None\<rparr>
         in if tr_Packaging tr = ''locmaf''
            then (case (case ss_cenc st of None \<Rightarrow> None | Some c \<Rightarrow> sc_ProtectedMoov c trackname) of
                Some moov \<Rightarrow> Inr (rd\<lparr>rd_moov := Some moov\<rparr>)
              | None \<Rightarrow> (case parseCMAFInit L (fst (InitDataFor cat (Some tr))) of
                  Inl e \<Rightarrow> Inl (Wrapf ''failed to parse init data'' e)
                | Inr moov \<Rightarrow> Inr (rd\<lparr>rd_moov := Some moov\<rparr>)))
            else Inr rd))"

text \<open>What a turn of the goroutine does: go on, return, or panic.\<close>

datatype flow = Continue | Ended | Panics

definition out_write :: "sub_config \<Rightarrow> string \<Rightarrow> bytes \<Rightarrow> ('i, 'v, 'o) sub_state \<Rightarrow> ('i, 'v, 'o) sub_state \<times> flow" where
  "out_write cfg ty payload st = (case sg_Outs cfg ty of
     None \<Rightarrow> (st, Continue)
   | Some wr \<Rightarrow> (case wr (ss_out st ty) payload of
       (w, err) \<Rightarrow> (st\<lparr>ss_out := (ss_out st)(ty := w)\<rparr>, if err = None then Continue else Ended)))"

definition route :: "('f, 'm, 'd, 'i, 'p, 's, 'v, 'o, 'e) recv_lib \<Rightarrow> sub_config \<Rightarrow> string \<Rightarrow> bytes \<Rightarrow> ('i, 'v, 'o) sub_state \<Rightarrow>
    ('i, 'v, 'o) sub_state \<times> flow" where
  "route L cfg ty payload st = (case ss_locWriters st ty of
     Some lw \<Rightarrow> (case sg_Outs cfg ty of
         None \<Rightarrow> (st, Panics)
       | Some wr \<Rightarrow> (case loc_write L lw wr (ss_out st ty) payload of
           (w, err) \<Rightarrow> (st\<lparr>ss_out := (ss_out st)(ty := w)\<rparr>, if err = None then Continue else Ended)))
   | None \<Rightarrow> (case ss_mux st of
         None \<Rightarrow> out_write cfg ty payload st
       | Some m \<Rightarrow> (case MuxSample (rl_mux L) payload ty m of
             (m', None) \<Rightarrow> out_write cfg ty payload (st\<lparr>ss_mux := Some m'\<rparr>)
           | (m', Some e) \<Rightarrow> (st\<lparr>ss_mux := Some m'\<rparr>, if panics e then Panics else Ended))))"

definition deliver :: "('f, 'm, 'd, 'i, 'p, 's, 'v, 'o, 'e) recv_lib \<Rightarrow> sub_config \<Rightarrow> 'o reader \<Rightarrow> bytes \<Rightarrow> ('i, 'v, 'o) sub_state \<Rightarrow>
    ('i, 'v, 'o) sub_state \<times> flow" where
  "deliver L cfg rd payload st = (case ss_cenc st of
     None \<Rightarrow> route L cfg (rd_mediaType rd) payload st
   | Some c \<Rightarrow> (case decryptPayload (rl_mp4 L) (rl_dec L) c payload (rd_name rd) of
       Inl e \<Rightarrow> (st, if panics e then Panics else Ended)
     | Inr clear \<Rightarrow> route L cfg (rd_mediaType rd) clear st))"

definition note_playback :: "'o reader \<Rightarrow> mo_object \<Rightarrow> int \<Rightarrow> ('i, 'v, 'o) sub_state \<Rightarrow> ('i, 'v, 'o) sub_state" where
  "note_playback rd ob now st = (case ss_playback st of
     Some p \<Rightarrow> if tr_Role (rd_track rd) = ''video''
       then st\<lparr>ss_playback := Some (addObject p (rd_name rd) (mo_Group ob) (mo_Object ob) (mo_Headers ob)
              (int (length (mo_Payload ob))) now)\<rparr>
       else st
   | None \<Rightarrow> st)"

definition read_object :: "('f, 'm, 'd, 'i, 'p, 's, 'v, 'o, 'e) recv_lib \<Rightarrow> sub_config \<Rightarrow> 'o reader \<Rightarrow> mo_object \<Rightarrow> int \<Rightarrow>
    ('i, 'v, 'o) sub_state \<times> 's \<Rightarrow> (('i, 'v, 'o) sub_state \<times> 's) \<times> flow" where
  "read_object L cfg rd ob now s =
     (let st1 = note_playback rd ob now (fst s);
          lst1 = (if mo_Object ob = 0 then ml_NewState (rl_mp4 L) else snd s)
      in if tr_Packaging (rd_track rd) = ''locmaf''
         then (case decompressLocmafObject L (mo_Payload ob) (rd_moov rd) lst1 of
             (lst2, Inl e) \<Rightarrow> ((st1, lst2), Ended)
           | (lst2, Inr None) \<Rightarrow> ((st1, lst2), Continue)
           | (lst2, Inr (Some chunk)) \<Rightarrow> (case deliver L cfg rd chunk st1 of (st2, f) \<Rightarrow> ((st2, lst2), f)))
         else (case deliver L cfg rd (mo_Payload ob) st1 of (st2, f) \<Rightarrow> ((st2, lst1), f)))"

fun read_loop :: "('f, 'm, 'd, 'i, 'p, 's, 'v, 'o, 'e) recv_lib \<Rightarrow> sub_config \<Rightarrow> 'o reader \<Rightarrow> (read_result \<times> int) list \<Rightarrow>
    ('i, 'v, 'o) sub_state \<times> 's \<Rightarrow> (('i, 'v, 'o) sub_state \<times> 's) \<times> flow" where
  "read_loop L cfg rd [] s = (s, Continue)"
| "read_loop L cfg rd ((ReadObject ob, now) # rs) s = (case read_object L cfg rd ob now s of
     (s', Continue) \<Rightarrow> read_loop L cfg rd rs s'
   | (s', f) \<Rightarrow> (s', f))"
| "read_loop L cfg rd ((ReadEOF, now) # rs) s = (s, Ended)"
| "read_loop L cfg rd ((ReadErr e, now) # rs) s = (s, Ended)"

section \<open>The session\<close>

text \<open>The video tracks to subscribe to and the player.\<close>

definition video_plan :: "sub_config \<Rightarrow> catalog \<Rightarrow> string \<Rightarrow> (sub_end + string list \<times> native_playback option) option" where
  "video_plan cfg cat videoTrack =
     (case (if sg_SubscribeDependencies cfg \<or> sg_SimulatePlayback cfg then dependencyOrder cat videoTrack
            else Some (Inr [videoTrack])) of
        None \<Rightarrow> None
      | Some (Inl e) \<Rightarrow> Some (Inl (Closed ''invalid video dependencies''))
      | Some (Inr names) \<Rightarrow> Some (
          if sg_SimulatePlayback cfg \<or> sg_MetricsPath cfg \<noteq> []
          then (case newNativePlayback cat names videoTrack (sg_SimulatePlayback cfg) (sg_MinimalBuffer cfg)
                       (sg_TargetLatency cfg) (sg_MetricsPath cfg) of
                  Inl e \<Rightarrow> Inl (Closed ''invalid playback configuration'')
                | Inr p \<Rightarrow> Inr (names, Some p))
          else Inr (names, None)))"

fun subscribe_all :: "('f, 'm, 'd, 'i, 'p, 's, 'v, 'o, 'e) recv_lib \<Rightarrow> (string \<Rightarrow> go_error option) \<Rightarrow> catalog \<Rightarrow>
    ('i, 'v, 'o) sub_state \<Rightarrow> (string \<times> string) list \<Rightarrow> sub_end + 'o reader list" where
  "subscribe_all L sub cat st [] = Inr []"
| "subscribe_all L sub cat st ((name, ty) # rest) = (case subscribeAndRead L sub cat st name ty of
     Inl e \<Rightarrow> Inl (Closed ''internal error'')
   | Inr rd \<Rightarrow> (case subscribe_all L sub cat st rest of Inl r \<Rightarrow> Inl r | Inr rds \<Rightarrow> Inr (rd # rds)))"

definition subscriptions :: "selection \<Rightarrow> string list \<Rightarrow> (string \<times> string) list" where
  "subscriptions sel videoTracks =
     map (\<lambda>n. (n, if n = se_video sel then ''video'' else ''video_dependency'')) videoTracks @
     (if se_audio sel \<noteq> [] then [(se_audio sel, ''audio'')] else []) @
     (if se_subs sel \<noteq> [] then [(se_subs sel, ''subs'')] else [])"

text \<open>From the catalog on. None stands for a dependency search that does not return, which
  \<open>dependencyOrder_correct\<close> excludes.\<close>

definition handle_catalog :: "('f, 'm, 'd, 'i, 'p, 's, 'v, 'o, 'e) recv_lib \<Rightarrow> sub_config \<Rightarrow> (string \<Rightarrow> go_error option) \<Rightarrow> catalog \<Rightarrow>
    ('i, 'v, 'o) sub_state \<Rightarrow> (sub_end + ('i, 'v, 'o) sub_state \<times> 'o reader list) option" where
  "handle_catalog L cfg sub cat st0 =
     (case setup_tracks L cfg cat (cat_Tracks cat) (st0, \<lparr>se_video = [], se_audio = [], se_subs = []\<rparr>) of
        Inl r \<Rightarrow> Some (Inl r)
      | Inr (st, sel) \<Rightarrow>
          (case (if se_video sel = [] then Some (Inr ([], ss_playback st)) else
                 map_option (map_sum id (map_prod id (\<lambda>p. if p = None then ss_playback st else p))) (video_plan cfg cat (se_video sel))) of
             None \<Rightarrow> None
           | Some (Inl r) \<Rightarrow> Some (Inl r)
           | Some (Inr (videoTracks, pb)) \<Rightarrow>
               let st1 = st\<lparr>ss_playback := pb\<rparr>
               in Some (case subscribe_all L sub cat st1 (subscriptions sel videoTracks) of
                    Inl r \<Rightarrow> Inl r
                  | Inr rds \<Rightarrow> if sel = \<lparr>se_video = [], se_audio = [], se_subs = []\<rparr>
                      then Inl (Closed ''no matching tracks found'') else Inr (st1, rds))))"

definition sub_handle :: "json_lib \<Rightarrow> ('f, 'm, 'd, 'i, 'p, 's, 'v, 'o, 'e) recv_lib \<Rightarrow> sub_config \<Rightarrow> out_writer \<Rightarrow> go_error option \<Rightarrow>
    session_env \<Rightarrow> (string \<Rightarrow> go_error option) \<Rightarrow> ('i, 'v, 'o) sub_state \<Rightarrow>
    (sub_end + ('i, 'v, 'o) sub_state \<times> 'o reader list) option" where
  "sub_handle J L cfg cout start env sub st0 = (case start of
     Some e \<Rightarrow> Some (Inl (Closed ''session initialization error''))
   | None \<Rightarrow> (case retrieveCatalog J cout (catalog_mode (sg_CatalogMode cfg) (sg_UseFetch cfg)) env
                 \<lparr>cs_catalog = None, cs_written = []\<rparr> of
       (cs, Some e) \<Rightarrow> Some (Inl (Closed ''internal error''))
     | (cs, None) \<Rightarrow> (case cs_catalog cs of
         None \<Rightarrow> Some (Inl (Panicked ''nil pointer dereference''))
       | Some cat \<Rightarrow> handle_catalog L cfg sub cat st0)))"

datatype sub_run = RunDiscover | RunMoqMI | RunCatalog

definition RunWithConn :: "sub_config \<Rightarrow> sub_config \<times> ('i, 'v, 'o) sub_state \<times> sub_run" where
  "RunWithConn cfg =
     (let st = \<lparr>ss_mux = (if sg_Outs cfg ''mux'' \<noteq> None then Some NewCmafMux else None), ss_cenc = None,
               ss_locWriters = Map.empty, ss_playback = None, ss_out = (\<lambda>_. [])\<rparr>;
          cfg1 = (if sg_CatalogTrack cfg = [] then cfg\<lparr>sg_CatalogTrack := ''catalog''\<rparr> else cfg)
      in (cfg1, st, if sg_Discover cfg then RunDiscover
          else if IsMoqMINamespace (sg_Namespace cfg) then RunMoqMI else RunCatalog))"

end
