(* ===== verification/Subscriber_Props.thy ===== *)
theory Subscriber_Props
  imports Subscriber Catalog_Props
begin

text \<open>
  What the subscriber's session does: which tracks it selects and subscribes to, what its outputs hold,
  and that the reading goroutines do not disturb each other.
\<close>

section \<open>Selection\<close>

lemma str_contains_empty [simp]: "str_contains s []"
  by (cases s) auto

text \<open>The name of the first track with a property; tracks without a name are never selected.\<close>

definition first_match :: "(track \<Rightarrow> bool) \<Rightarrow> track list \<Rightarrow> string" where
  "first_match P trs = (case find (\<lambda>t. P t \<and> tr_Name t \<noteq> []) trs of None \<Rightarrow> [] | Some t \<Rightarrow> tr_Name t)"

definition wants_video :: "sub_config \<Rightarrow> track \<Rightarrow> bool" where
  "wants_video cfg t \<longleftrightarrow> tr_Role t = ''video'' \<and> str_contains (tr_Name t) (sg_VideoName cfg)"

definition wants_audio :: "sub_config \<Rightarrow> track \<Rightarrow> bool" where
  "wants_audio cfg t \<longleftrightarrow> tr_Role t = ''audio'' \<and> str_contains (tr_Name t) (sg_AudioName cfg)"

definition wants_subs :: "sub_config \<Rightarrow> track \<Rightarrow> bool" where
  "wants_subs cfg t \<longleftrightarrow> tr_Role t = ''subtitle'' \<and> str_contains (tr_Name t) (sg_SubsName cfg) \<and>
     (sg_SubsName cfg = [] \<longrightarrow> sg_Outs cfg ''subs'' \<noteq> None)"

text \<open>What the loop does to the selection, track by track.\<close>

definition next_selection :: "sub_config \<Rightarrow> track \<Rightarrow> selection \<Rightarrow> selection" where
  "next_selection cfg t sel =
     \<lparr>se_video = (if se_video sel = [] \<and> wants_video cfg t then tr_Name t else se_video sel),
      se_audio = (if se_audio sel = [] \<and> wants_audio cfg t then tr_Name t else se_audio sel),
      se_subs = (if se_subs sel = [] \<and> wants_subs cfg t then tr_Name t else se_subs sel)\<rparr>"

lemma select_track_selection: "snd (select_track L cfg tr initData (st, sel)) = next_selection cfg tr sel"
  by (auto simp: select_track_def next_selection_def pick_def wants_video_def wants_audio_def wants_subs_def Let_def)

lemma setup_track_result:
  assumes "setup_track L cfg cat tr s = Inr s'"
  obtains moov st1 initData where "track_moov L tr (fst (InitDataFor cat (Some tr))) = Inr moov"
    and "setup_protection L cat tr (fst (InitDataFor cat (Some tr))) moov (fst s) = Inr (st1, initData)"
    and "s' = select_track L cfg tr initData (st1, snd s)"
  using assms by (auto simp: setup_track_def Let_def split: sum.splits prod.splits)

lemma setup_tracks_selection:
  "setup_tracks L cfg cat trs s = Inr s' \<Longrightarrow> snd s' = foldl (\<lambda>sel t. next_selection cfg t sel) (snd s) trs"
proof (induction trs arbitrary: s)
  case (Cons t trs)
  then obtain s1 where s1: "setup_track L cfg cat t s = Inr s1" "setup_tracks L cfg cat trs s1 = Inr s'"
    by (auto split: sum.splits)
  from setup_track_result [OF s1(1)] have "snd s1 = next_selection cfg t (snd s)"
    by (metis select_track_selection)
  with Cons.IH [OF s1(2)] show ?case by simp
qed simp

lemma selection_first:
  "foldl (\<lambda>sel t. next_selection cfg t sel) sel trs =
     \<lparr>se_video = (if se_video sel = [] then first_match (wants_video cfg) trs else se_video sel),
      se_audio = (if se_audio sel = [] then first_match (wants_audio cfg) trs else se_audio sel),
      se_subs = (if se_subs sel = [] then first_match (wants_subs cfg) trs else se_subs sel)\<rparr>"
  by (induction trs arbitrary: sel) (auto simp: first_match_def next_selection_def)

definition no_selection :: selection where
  "no_selection = \<lparr>se_video = [], se_audio = [], se_subs = []\<rparr>"

definition wanted_selection :: "sub_config \<Rightarrow> track list \<Rightarrow> selection" where
  "wanted_selection cfg trs = \<lparr>se_video = first_match (wants_video cfg) trs, se_audio = first_match (wants_audio cfg) trs,
     se_subs = first_match (wants_subs cfg) trs\<rparr>"

lemma setup_tracks_wanted:
  "setup_tracks L cfg cat trs (st, no_selection) = Inr (st', sel) \<Longrightarrow> sel = wanted_selection cfg trs"
  using setup_tracks_selection [of L cfg cat trs "(st, no_selection)" "(st', sel)"]
  by (simp add: selection_first wanted_selection_def no_selection_def)

lemma subscribe_all_readers:
  "subscribe_all L sub cat st plan = Inr rds \<Longrightarrow>
     map (\<lambda>rd. (rd_name rd, rd_mediaType rd)) rds = plan \<and>
     (\<forall>rd \<in> set rds. GetTrackByName cat (rd_name rd) = Some (rd_track rd) \<and> sub (rd_name rd) = None)"
  by (induction plan arbitrary: rds)
    (auto simp: subscribeAndRead_def Let_def split: sum.splits option.splits if_splits)

lemma map_sum_Inr: "map_sum f g z = Inr y \<longleftrightarrow> (\<exists>x. z = Inr x \<and> y = g x)"
  by (cases z) auto

lemma handle_catalog_running:
  assumes "handle_catalog L cfg sub cat st0 = Some (Inr (st, rds))"
  obtains st1 vs where "setup_tracks L cfg cat (cat_Tracks cat) (st0, no_selection) = Inr (st1, wanted_selection cfg (cat_Tracks cat))"
    and "if se_video (wanted_selection cfg (cat_Tracks cat)) = [] then vs = [] \<and> st = st1
         else \<exists>p. video_plan cfg cat (se_video (wanted_selection cfg (cat_Tracks cat))) = Some (Inr (vs, p)) \<and>
           st = st1\<lparr>ss_playback := (if p = None then ss_playback st1 else p)\<rparr>"
    and "subscribe_all L sub cat st (subscriptions (wanted_selection cfg (cat_Tracks cat)) vs) = Inr rds"
    and "wanted_selection cfg (cat_Tracks cat) \<noteq> no_selection"
proof -
  from assms obtain st1 sel where s: "setup_tracks L cfg cat (cat_Tracks cat) (st0, no_selection) = Inr (st1, sel)"
    by (auto simp: handle_catalog_def no_selection_def split: sum.splits)
  with setup_tracks_wanted [OF this] assms that show thesis
    by (auto simp: handle_catalog_def no_selection_def [symmetric] Let_def map_sum_Inr split: sum.splits option.splits if_splits)
qed

lemma dependencyOrder_nonempty: "dependencyOrder c n \<noteq> Some (Inr [])"
  by (cases rule: dependencyOrder_result [of c n]) auto

text \<open>C28: The subscriber takes the first matching track of each role. If the session gets to reading, its
  readers are, in order: the video track chosen (preceded by its dependencies in dependency order, if these
  are requested or playback is simulated), the audio track and the subtitle track; where the chosen track
  of a role is the first one in the catalog whose name contains the requested text, and a subtitle track is
  taken without a request only if there is an output for it. All of them exist in the catalog and were
  accepted by the peer, and there is at least one.\<close>

theorem handle_selects:
  assumes "handle_catalog L cfg sub cat st0 = Some (Inr (st, rds))"
  shows "\<exists>vs. map (\<lambda>rd. (rd_name rd, rd_mediaType rd)) rds = subscriptions (wanted_selection cfg (cat_Tracks cat)) vs \<and>
    (let v = first_match (wants_video cfg) (cat_Tracks cat) in
       if v = [] then vs = []
       else if sg_SubscribeDependencies cfg \<or> sg_SimulatePlayback cfg then dependencyOrder cat v = Some (Inr vs) else vs = [v]) \<and>
    rds \<noteq> [] \<and> (\<forall>rd \<in> set rds. GetTrackByName cat (rd_name rd) = Some (rd_track rd) \<and> sub (rd_name rd) = None)"
proof -
  let ?w = "wanted_selection cfg (cat_Tracks cat)"
  from assms obtain st1 vs where p: "if se_video ?w = [] then vs = [] \<and> st = st1
         else \<exists>p. video_plan cfg cat (se_video ?w) = Some (Inr (vs, p)) \<and>
           st = st1\<lparr>ss_playback := (if p = None then ss_playback st1 else p)\<rparr>"
    and s: "subscribe_all L sub cat st (subscriptions ?w vs) = Inr rds" and n: "?w \<noteq> no_selection"
    by (rule handle_catalog_running)
  have v: "let v = first_match (wants_video cfg) (cat_Tracks cat) in
       if v = [] then vs = []
       else if sg_SubscribeDependencies cfg \<or> sg_SimulatePlayback cfg then dependencyOrder cat v = Some (Inr vs) else vs = [v]"
    using p by (auto simp: video_plan_def wanted_selection_def Let_def split: if_splits option.splits sum.splits)
  have r: "rds \<noteq> []"
  proof
    assume "rds = []"
    with subscribe_all_readers [OF s] have "subscriptions ?w vs = []" by auto
    then have "vs = []" "se_audio ?w = []" "se_subs ?w = []" by (auto simp: subscriptions_def split: if_splits)
    with v n dependencyOrder_nonempty show False
      by (auto simp: no_selection_def wanted_selection_def Let_def split: if_splits)
  qed
  from v r subscribe_all_readers [OF s] show ?thesis by blast
qed

section \<open>What setting up writes\<close>

definition wants :: "string \<Rightarrow> sub_config \<Rightarrow> track \<Rightarrow> bool" where
  "wants ty cfg t \<longleftrightarrow> (if ty = ''video'' then wants_video cfg t else wants_audio cfg t)"

definition chosen :: "string \<Rightarrow> selection \<Rightarrow> string" where
  "chosen ty sel = (if ty = ''video'' then se_video sel else se_audio sel)"

definition media_type :: "string \<Rightarrow> bool" where
  "media_type ty \<longleftrightarrow> ty = ''video'' \<or> ty = ''audio''"

text \<open>The state is the same for everything but the outputs, the multiplexer and the LOC writers.\<close>

definition same_rest :: "('i, 'v, 'o) sub_state \<Rightarrow> ('i, 'v, 'o) sub_state \<Rightarrow> bool" where
  "same_rest st st' \<longleftrightarrow> ss_cenc st' = ss_cenc st \<and> ss_playback st' = ss_playback st \<and> (ss_mux st' = None \<longleftrightarrow> ss_mux st = None)"

definition clear_track :: "track \<Rightarrow> bool" where
  "clear_track t \<longleftrightarrow> tr_ContentProtectionRefIDs t = [] \<and> tr_Name t \<noteq> []"

lemma write_init_simps [simp]:
  "ss_cenc (write_init cfg ty d st) = ss_cenc st" "ss_playback (write_init cfg ty d st) = ss_playback st"
  "ss_mux (write_init cfg ty d st) = ss_mux st" "ss_locWriters (write_init cfg ty d st) = ss_locWriters st"
  "ty' \<noteq> ty \<Longrightarrow> ss_out (write_init cfg ty d st) ty' = ss_out st ty'"
  by (simp_all add: write_init_def split: option.split)

lemma setup_cmaf_simps [simp]:
  "ss_cenc (setup_cmaf L cfg ty d st) = ss_cenc st" "ss_playback (setup_cmaf L cfg ty d st) = ss_playback st"
  "ss_mux (setup_cmaf L cfg ty d st) = None \<longleftrightarrow> ss_mux st = None"
  "ss_locWriters (setup_cmaf L cfg ty d st) = ss_locWriters st"
  "ss_out (setup_cmaf L cfg ty d st) = ss_out (write_init cfg ty d st)"
  by (simp_all add: setup_cmaf_def Let_def split: option.split)

text \<open>The effect of setting up a video or audio track \<open>tr\<close> on the entry \<open>ty\<close> of outputs and writers.\<close>

definition setup_effect :: "sub_config \<Rightarrow> track \<Rightarrow> string \<Rightarrow> string \<Rightarrow> ('i, 'v, 'o) sub_state \<Rightarrow> ('i, 'v, 'o) sub_state \<Rightarrow> bool" where
  "setup_effect cfg tr ty d st st' \<longleftrightarrow> same_rest st st' \<and>
     (\<forall>ty'. ty' \<noteq> ty \<longrightarrow> ss_out st' ty' = ss_out st ty' \<and> ss_locWriters st' ty' = ss_locWriters st ty') \<and>
     (if tr_Packaging tr = ''loc'' then ss_out st' ty = ss_out st ty
      else ss_out st' ty = ss_out (write_init cfg ty d st) ty \<and> ss_locWriters st' ty = ss_locWriters st ty)"

lemma setup_video_effect: "setup_effect cfg tr ''video'' d st (setup_video L cfg tr d st)"
  by (simp add: setup_effect_def same_rest_def setup_video_def initLOCWriter_def)

lemma setup_audio_effect: "setup_effect cfg tr ''audio'' d st (setup_audio L cfg tr d st)"
  by (simp add: setup_effect_def same_rest_def setup_audio_def initLOCWriter_def split: sum.split)

lemma same_rest_refl [simp]: "same_rest st st"
  by (simp add: same_rest_def)

lemma same_rest_trans: "same_rest st1 st2 \<Longrightarrow> same_rest st2 st3 \<Longrightarrow> same_rest st1 st3"
  by (simp add: same_rest_def)

lemma pick_next:
  "pick (sg_VideoName cfg) True cur (tr_Name tr) = (if cur = [] \<and> str_contains (tr_Name tr) (sg_VideoName cfg) then tr_Name tr else cur)"
  "pick (sg_AudioName cfg) True cur (tr_Name tr) = (if cur = [] \<and> str_contains (tr_Name tr) (sg_AudioName cfg) then tr_Name tr else cur)"
  by (auto simp: pick_def)

text \<open>A track is set up for \<open>ty\<close> if it is the chosen one.\<close>

definition takes :: "string \<Rightarrow> sub_config \<Rightarrow> selection \<Rightarrow> track \<Rightarrow> bool" where
  "takes ty cfg sel tr \<longleftrightarrow> chosen ty sel = [] \<and> wants ty cfg tr \<or> tr_Role tr = ty \<and> chosen ty sel = tr_Name tr"

lemma select_track_effect:
  assumes "media_type ty" and "tr_Name tr \<noteq> []"
  shows "if takes ty cfg sel tr then setup_effect cfg tr ty d st (fst (select_track L cfg tr d (st, sel)))
    else same_rest st (fst (select_track L cfg tr d (st, sel))) \<and>
      ss_out (fst (select_track L cfg tr d (st, sel))) ty = ss_out st ty \<and>
      ss_locWriters (fst (select_track L cfg tr d (st, sel))) ty = ss_locWriters st ty"
proof -
  consider "tr_Role tr = ''video''" | "tr_Role tr = ''audio''" | "tr_Role tr = ''subtitle''"
    | "tr_Role tr \<notin> {''video'', ''audio'', ''subtitle''}" by blast
  then show ?thesis
  proof cases
    case 1
    then have "select_track L cfg tr d (st, sel) =
        (if takes ''video'' cfg sel tr then setup_video L cfg tr d st else st, next_selection cfg tr sel)"
      using assms(2) select_track_selection [of L cfg tr d st sel]
      by (auto simp: select_track_def Let_def pick_next takes_def chosen_def wants_def wants_video_def prod_eq_iff)
    then show ?thesis using 1 assms(1) setup_video_effect [of cfg tr d st L]
      by (auto simp: media_type_def takes_def [of "''audio''"] wants_def wants_audio_def setup_effect_def)
  next
    case 2
    then have "select_track L cfg tr d (st, sel) =
        (if takes ''audio'' cfg sel tr then setup_audio L cfg tr d st else st, next_selection cfg tr sel)"
      using assms(2) select_track_selection [of L cfg tr d st sel]
      by (auto simp: select_track_def Let_def pick_next takes_def chosen_def wants_def wants_audio_def prod_eq_iff)
    then show ?thesis using 2 assms(1) setup_audio_effect [of cfg tr d st L]
      by (auto simp: media_type_def takes_def [of "''video''"] wants_def wants_video_def setup_effect_def)
  next
    case 3
    then show ?thesis using assms(1)
      by (auto simp: select_track_def Let_def media_type_def takes_def wants_def wants_video_def wants_audio_def same_rest_def)
  next
    case 4
    then show ?thesis using assms(1)
      by (auto simp: select_track_def media_type_def takes_def wants_def wants_video_def wants_audio_def)
  qed
qed

lemma setup_track_clear:
  assumes "setup_track L cfg cat tr (st, sel) = Inr (st', sel')" and "clear_track tr"
  shows "(st', sel') = select_track L cfg tr (fst (InitDataFor cat (Some tr))) (st, sel) \<and> sel' = next_selection cfg tr sel"
proof -
  let ?d = "fst (InitDataFor cat (Some tr))"
  from assms(1) obtain moov st1 d where "setup_protection L cat tr ?d moov st = Inr (st1, d)"
    and r: "(st', sel') = select_track L cfg tr d (st1, sel)" by (rule setup_track_result) simp
  then have "st1 = st" "d = ?d" using assms(2) by (simp_all add: setup_protection_def clear_track_def)
  with r select_track_selection [of L cfg tr d st sel] show ?thesis by (metis snd_conv)
qed

text \<open>The outputs after the loop over a catalog without protected tracks: the init segment of the chosen
  track, if it is not a LOC track.\<close>

lemma setup_tracks_kept:
  assumes "setup_tracks L cfg cat trs (st, sel) = Inr (st', sel')" and "\<forall>t \<in> set trs. clear_track t"
    and "media_type ty" and "chosen ty sel \<noteq> []" and "\<forall>t \<in> set trs. tr_Name t \<noteq> chosen ty sel"
  shows "same_rest st st' \<and> ss_out st' ty = ss_out st ty \<and> ss_locWriters st' ty = ss_locWriters st ty"
  using assms
proof (induction trs arbitrary: st sel)
  case (Cons t trs)
  from Cons.prems(1) obtain st1 sel1 where s1: "setup_track L cfg cat t (st, sel) = Inr (st1, sel1)"
    and rest: "setup_tracks L cfg cat trs (st1, sel1) = Inr (st', sel')" by (auto split: sum.splits)
  have c: "clear_track t" using Cons.prems(2) by simp
  from setup_track_clear [OF s1 c] have e: "st1 = fst (select_track L cfg t (fst (InitDataFor cat (Some t))) (st, sel))"
    and n: "sel1 = next_selection cfg t sel" by (metis fst_conv, simp)
  have "\<not> takes ty cfg sel t" using Cons.prems(4,5) by (auto simp: takes_def)
  with select_track_effect [OF Cons.prems(3), of t cfg sel "fst (InitDataFor cat (Some t))" st L] c
  have k: "same_rest st st1 \<and> ss_out st1 ty = ss_out st ty \<and> ss_locWriters st1 ty = ss_locWriters st ty"
    by (simp add: e clear_track_def)
  have "chosen ty sel1 = chosen ty sel" using Cons.prems(3,4) by (auto simp: n next_selection_def chosen_def media_type_def)
  with Cons.IH [OF rest] Cons.prems k show ?case using same_rest_trans by fastforce
qed simp

lemma setup_tracks_written:
  assumes "setup_tracks L cfg cat trs (st, sel) = Inr (st', sel')" and "\<forall>t \<in> set trs. clear_track t"
    and "media_type ty" and "chosen ty sel = []" and "distinct (map tr_Name trs)"
    and "find (wants ty cfg) trs = Some t" and "tr_Packaging t \<noteq> ''loc''"
  shows "same_rest st st' \<and> ss_locWriters st' ty = ss_locWriters st ty \<and>
    ss_out st' ty = ss_out (write_init cfg ty (fst (InitDataFor cat (Some t))) st) ty"
  using assms
proof (induction trs arbitrary: st sel)
  case (Cons t' trs)
  from Cons.prems(1) obtain st1 sel1 where s1: "setup_track L cfg cat t' (st, sel) = Inr (st1, sel1)"
    and rest: "setup_tracks L cfg cat trs (st1, sel1) = Inr (st', sel')" by (auto split: sum.splits)
  have c: "clear_track t'" and cs: "\<forall>t \<in> set trs. clear_track t" using Cons.prems(2) by simp_all
  from setup_track_clear [OF s1 c] have e: "st1 = fst (select_track L cfg t' (fst (InitDataFor cat (Some t'))) (st, sel))"
    and n: "sel1 = next_selection cfg t' sel" by (metis fst_conv, simp)
  note eff = select_track_effect [OF Cons.prems(3), of t' cfg sel "fst (InitDataFor cat (Some t'))" st L, folded e]
  have ch: "chosen ty sel1 = (if wants ty cfg t' then tr_Name t' else [])"
    using Cons.prems(3,4) by (auto simp: n next_selection_def chosen_def media_type_def wants_def)
  have t: "takes ty cfg sel t' \<longleftrightarrow> wants ty cfg t'" using Cons.prems(4) c by (auto simp: takes_def clear_track_def)
  show ?case
  proof (cases "wants ty cfg t'")
    case True
    then have tt: "t' = t" using Cons.prems(6) by simp
    from eff True t c have "setup_effect cfg t ty (fst (InitDataFor cat (Some t))) st st1" by (simp add: tt clear_track_def)
    moreover have "same_rest st1 st' \<and> ss_out st' ty = ss_out st1 ty \<and> ss_locWriters st' ty = ss_locWriters st1 ty"
      using Cons.prems(5) c True ch
      by (intro setup_tracks_kept [OF rest cs Cons.prems(3)]) (auto simp: clear_track_def image_iff)
    ultimately show ?thesis using Cons.prems(7) by (auto simp: setup_effect_def intro: same_rest_trans)
  next
    case False
    with eff t c have k: "same_rest st st1" "ss_out st1 ty = ss_out st ty" "ss_locWriters st1 ty = ss_locWriters st ty"
      by (simp_all add: clear_track_def)
    have f: "find (wants ty cfg) trs = Some t" "distinct (map tr_Name trs)" "chosen ty sel1 = []"
      using False Cons.prems(5,6) ch by simp_all
    from Cons.IH [OF rest cs Cons.prems(3) f(3,2,1) Cons.prems(7)] k show ?thesis
      by (auto simp: write_init_def intro: same_rest_trans split: option.splits)
  qed
qed simp

section \<open>Sessions that start\<close>

lemma setup_tracks_clear_ok:
  assumes "\<forall>t \<in> set trs. clear_track t \<and> (tr_LocmafVersion t = [] \<or> tr_LocmafVersion t = rl_Version L)"
  shows "\<exists>s'. setup_tracks L cfg cat trs s = Inr s'"
  using assms
proof (induction trs arbitrary: s)
  case (Cons t trs)
  then have "\<exists>s1. setup_track L cfg cat t s = Inr s1"
    by (auto simp: setup_track_def track_moov_def setup_protection_def clear_track_def Let_def)
  with Cons show ?case by auto
qed simp

lemma setup_tracks_clear_cenc:
  assumes "\<forall>t \<in> set trs. clear_track t" and "setup_tracks L cfg cat trs (st, sel) = Inr (st', sel')"
  shows "ss_cenc st' = ss_cenc st"
  using assms
proof (induction trs arbitrary: st sel)
  case (Cons t trs)
  then obtain st1 sel1 where s1: "setup_track L cfg cat t (st, sel) = Inr (st1, sel1)"
    and rest: "setup_tracks L cfg cat trs (st1, sel1) = Inr (st', sel')" by (auto split: sum.splits)
  have c: "clear_track t" using Cons.prems(1) by simp
  from setup_track_clear [OF s1 c] have e: "st1 = fst (select_track L cfg t (fst (InitDataFor cat (Some t))) (st, sel))" by (metis fst_conv)
  have "same_rest st st1" using select_track_effect [of "''video''" t cfg sel "fst (InitDataFor cat (Some t))" st L] c
    by (auto simp: e media_type_def clear_track_def setup_effect_def split: if_splits)
  then have "ss_cenc st1 = ss_cenc st" by (simp add: same_rest_def)
  with Cons.IH [OF _ rest] Cons.prems(1) show ?case by simp
qed simp

lemma subscribe_all_ok:
  assumes "\<forall>n. sub n = None" and "\<forall>t \<in> set (cat_Tracks cat). tr_Packaging t = ''locmaf'' \<longrightarrow>
      (\<exists>moov. parseCMAFInit L (fst (InitDataFor cat (Some t))) = Inr moov)"
    and "fst ` set plan \<subseteq> tr_Name ` set (cat_Tracks cat)"
  shows "\<exists>rds. subscribe_all L sub cat st plan = Inr rds"
  using assms(3)
proof (induction plan)
  case (Cons p plan)
  obtain n ty where p: "p = (n, ty)" by fastforce
  with Cons.prems obtain x where x: "x \<in> set (cat_Tracks cat)" "tr_Name x = n" by auto
  from catalog_lookup.lookup_hit [OF x(1)] x(2) obtain t where t: "GetTrackByName cat n = Some t" by auto
  from catalog_lookup.lookup_sound [OF t] assms(2) have "tr_Packaging t = ''locmaf'' \<longrightarrow>
      (\<exists>moov. parseCMAFInit L (fst (InitDataFor cat (Some t))) = Inr moov)" by blast
  then have "\<exists>rd. subscribeAndRead L sub cat st n ty = Inr rd" using assms(1) t
    by (auto simp: subscribeAndRead_def Let_def split: option.split)
  with Cons show ?case by (auto simp: p)
qed simp

lemma first_match_name: "first_match P trs \<noteq> [] \<Longrightarrow> first_match P trs \<in> tr_Name ` set trs"
  by (cases "find (\<lambda>t. P t \<and> tr_Name t \<noteq> []) trs") (auto simp: first_match_def dest: find_Some_mem)

text \<open>A session on a catalog of clear tracks starts. If the LOCMAF versions are supported, the init
  segments of LOCMAF tracks parse, the peer accepts every subscription and some track matches, then the
  session gets to reading; without a match it closes the connection for that reason.\<close>

theorem clear_session_starts:
  assumes "\<forall>t \<in> set (cat_Tracks cat). clear_track t \<and> (tr_LocmafVersion t = [] \<or> tr_LocmafVersion t = rl_Version L)"
    and "\<forall>t \<in> set (cat_Tracks cat). tr_Packaging t = ''locmaf'' \<longrightarrow> (\<exists>moov. parseCMAFInit L (fst (InitDataFor cat (Some t))) = Inr moov)"
    and "\<forall>n. sub n = None" and "\<not> sg_SubscribeDependencies cfg" and "\<not> sg_SimulatePlayback cfg" and "sg_MetricsPath cfg = []"
  shows "if wanted_selection cfg (cat_Tracks cat) = no_selection
    then handle_catalog L cfg sub cat st0 = Some (Inl (Closed ''no matching tracks found''))
    else \<exists>st rds. handle_catalog L cfg sub cat st0 = Some (Inr (st, rds))"
proof -
  let ?w = "wanted_selection cfg (cat_Tracks cat)"
  from setup_tracks_clear_ok [OF assms(1)] obtain st1 where
    s: "setup_tracks L cfg cat (cat_Tracks cat) (st0, no_selection) = Inr (st1, ?w)" using setup_tracks_wanted by (metis surj_pair)
  let ?vs = "if se_video ?w = [] then [] else [se_video ?w]"
  have v: "se_video ?w \<noteq> [] \<Longrightarrow> video_plan cfg cat (se_video ?w) = Some (Inr (?vs, None))"
    using assms(4-6) by (simp add: video_plan_def)
  have "fst ` set (subscriptions ?w ?vs) \<subseteq> tr_Name ` set (cat_Tracks cat)"
    using first_match_name [of "wants_video cfg"] first_match_name [of "wants_audio cfg"] first_match_name [of "wants_subs cfg"]
    by (auto simp: subscriptions_def wanted_selection_def)
  from subscribe_all_ok [OF assms(3,2) this] obtain rds where "subscribe_all L sub cat st1 (subscriptions ?w ?vs) = Inr rds" by blast
  with s v show ?thesis
    by (cases "se_video ?w = []") (auto simp: handle_catalog_def no_selection_def [symmetric] Let_def)
qed

section \<open>Interleaving of the readers\<close>

text \<open>Two multiplexers that differ only in what they have written treat a sample alike.\<close>

definition mux_alike :: "'i cmaf_mux option \<Rightarrow> 'i cmaf_mux option \<Rightarrow> bool" where
  "mux_alike m m' \<longleftrightarrow> rel_option (\<lambda>x y. mx_init x = mx_init y \<and> mx_inits x = mx_inits y \<and> mx_timeScales x = mx_timeScales y) m m'"

lemma mux_alike_simps [simp]:
  "mux_alike m m" "mux_alike None m' \<longleftrightarrow> m' = None" "mux_alike m None \<longleftrightarrow> m = None"
  by (auto simp: mux_alike_def option.rel_refl)




text \<open>States that look the same to a reader of media type \<open>ty\<close>.\<close>

definition alike :: "string \<Rightarrow> ('i, 'v, 'o) sub_state \<Rightarrow> ('i, 'v, 'o) sub_state \<Rightarrow> bool" where
  "alike ty st st' \<longleftrightarrow> ss_cenc st = ss_cenc st' \<and> ss_locWriters st = ss_locWriters st' \<and> ss_out st ty = ss_out st' ty \<and>
     mux_alike (ss_mux st) (ss_mux st')"

lemma alike_refl [simp]: "alike ty st st"
  by (simp add: alike_def)




















section \<open>Instances\<close>

text \<open>A library with a stateful LOCMAF codec: every object starts with the number of the object in its
  group, which the decoder checks.\<close>

definition ex_smp4 :: "(full_sample list, unit, bytes, unit, unit, u8) mp4_lib" where
  "ex_smp4 = \<lparr>ml_CreateFragment = (\<lambda>n i. Inr []), ml_AddFullSample = (\<lambda>f s. f @ [s]), ml_finish = (\<lambda>f. f),
     ml_Encode = (\<lambda>f. Inr (concat (map fs_Data f))),
     ml_DecodeBox = (\<lambda>pos bs. Inr (if pos = 0 then MoofBox () else MdatBox bs, bs)), ml_moofSize = (\<lambda>m. 1),
     ml_mkFragment = (\<lambda>m d. [zero_sample\<lparr>fs_Data := d\<rparr>]),
     ml_EncryptFragment = (\<lambda>f key iv ipd. Inr (f, iv @ [0])),
     ml_NewState = 0, ml_EncodeCanonical = (\<lambda>f s i. (s + 1, Inr (s # concat (map fs_Data f))))\<rparr>"

definition ex_recv :: "(full_sample list, unit, bytes, unit, unit, u8, unit, unit, bytes) recv_lib" where
  "ex_recv = \<lparr>rl_mp4 = ex_smp4,
     rl_mux = \<lparr>xl_DecodeInit = (\<lambda>bs. Inr (Some ())), xl_setTrackIDs = (\<lambda>n i. n), xl_Timescale = (\<lambda>n. 1000),
       xl_EncodeInits = (\<lambda>v a. Inr [1]), xl_Segments = (\<lambda>bs. Inr [[[]]]), xl_setTrackID = (\<lambda>f i. f), xl_BaseTime = (\<lambda>f. 0),
       xl_EncodeFrag = (\<lambda>f. Inr [2])\<rparr>,
     rl_dec = \<lparr>de_DecodeInit = (\<lambda>bs. Inr (Some ())), de_DecryptInit = (\<lambda>n. Inr (n, ())), de_EncodeInit = (\<lambda>n. Inr []),
       de_zeroInfo = (), de_TrackInfos = (\<lambda>v. [[]]), de_DecryptFragment = (\<lambda>f v k. Inr f)\<rparr>,
     rl_drm = ex_drm_lib, rl_license = (\<lambda>url kids. Inr (clearkey_response kids)), rl_DecodeMoov = (\<lambda>bs. Inr (Some ())),
     rl_Version = ''1'',
     rl_Decode = (\<lambda>bs d moov. case bs of [] \<Rightarrow> (d, Inl (Errorf ''empty'')) | b # r \<Rightarrow>
       if b = d then (d + 1, Inr (r, None)) else (d, Inl (Errorf ''out of step''))),
     rl_Reconstruct = (\<lambda>moov eff. Inr (Some eff)), rl_ADTS = (\<lambda>sr ch ot n. Inr [255])\<rparr>"

definition ex_sub_config :: sub_config where
  "ex_sub_config = \<lparr>sg_Namespace = [''cmsf/clear''], sg_Outs = [''video'' \<mapsto> buffer_write, ''audio'' \<mapsto> buffer_write], sg_VideoName = [],
     sg_AudioName = [], sg_SubsName = [], sg_UseFetch = False, sg_CatalogMode = [], sg_AcceptAny = False, sg_Discover = False,
     sg_CatalogTrack = ''catalog'', sg_SubscribeDependencies = False, sg_SimulatePlayback = False, sg_MinimalBuffer = 0,
     sg_TargetLatency = 0, sg_MetricsPath = []\<rparr>"

definition ex_sub_state :: "(unit, unit, unit) sub_state" where
  "ex_sub_state = \<lparr>ss_mux = None, ss_cenc = None, ss_locWriters = Map.empty, ss_playback = None, ss_out = (\<lambda>_. [])\<rparr>"

definition ex_av_catalog :: catalog where
  "ex_av_catalog = zero_catalog\<lparr>cat_Tracks := [zero_track\<lparr>tr_Name := ''s'', tr_Role := ''subtitle'', tr_Packaging := ''cmaf''\<rparr>,
     zero_track\<lparr>tr_Name := ''v'', tr_Role := ''video'', tr_Packaging := ''cmaf''\<rparr>,
     zero_track\<lparr>tr_Name := ''a'', tr_Role := ''audio'', tr_Packaging := ''cmaf''\<rparr>]\<rparr>"

lemma ex_av_session: "case handle_catalog ex_recv ex_sub_config (\<lambda>_. None) ex_av_catalog ex_sub_state of Some (Inr x) \<Rightarrow> True | _ \<Rightarrow> False"
  by code_simp

lemma ex_av_wanted: "subscriptions (wanted_selection ex_sub_config (cat_Tracks ex_av_catalog)) [''v''] = [(''v'', ''video''), (''a'', ''audio'')]"
  "first_match (wants_video ex_sub_config) (cat_Tracks ex_av_catalog) = ''v''"
  "wanted_selection ex_sub_config (cat_Tracks ex_av_catalog) \<noteq> no_selection"
  by code_simp+

theorem handle_selects_witness:
  "\<exists>st rds. handle_catalog ex_recv ex_sub_config (\<lambda>_. None) ex_av_catalog ex_sub_state = Some (Inr (st, rds)) \<and>
     map (\<lambda>rd. (rd_name rd, rd_mediaType rd)) rds = [(''v'', ''video''), (''a'', ''audio'')]"
proof -
  from ex_av_session obtain st rds where
    h: "handle_catalog ex_recv ex_sub_config (\<lambda>_. None) ex_av_catalog ex_sub_state = Some (Inr (st, rds))"
    by (auto split: option.splits sum.splits)
  from handle_selects [OF h] obtain vs where
    m: "map (\<lambda>rd. (rd_name rd, rd_mediaType rd)) rds = subscriptions (wanted_selection ex_sub_config (cat_Tracks ex_av_catalog)) vs"
    and v: "let v = first_match (wants_video ex_sub_config) (cat_Tracks ex_av_catalog) in
       if v = [] then vs = []
       else if sg_SubscribeDependencies ex_sub_config \<or> sg_SimulatePlayback ex_sub_config
         then dependencyOrder ex_av_catalog v = Some (Inr vs) else vs = [v]" by blast
  have "sg_SubscribeDependencies ex_sub_config = False" "sg_SimulatePlayback ex_sub_config = False" by (simp_all add: ex_sub_config_def)
  then have vs: "vs = [''v'']" using v unfolding ex_av_wanted(2) Let_def by simp
  show ?thesis using h m unfolding vs ex_av_wanted(1) by (intro exI conjI)
qed

theorem clear_session_starts_witness:
  "\<exists>st rds. handle_catalog ex_recv ex_sub_config (\<lambda>_. None) ex_av_catalog ex_sub_state = Some (Inr (st, rds))"
proof -
  have t: "\<forall>t \<in> set (cat_Tracks ex_av_catalog). clear_track t \<and> (tr_LocmafVersion t = [] \<or> tr_LocmafVersion t = rl_Version ex_recv)"
    "\<forall>t \<in> set (cat_Tracks ex_av_catalog). tr_Packaging t = ''locmaf'' \<longrightarrow>
      (\<exists>moov. parseCMAFInit ex_recv (fst (InitDataFor ex_av_catalog (Some t))) = Inr moov)"
    by (simp_all add: ex_av_catalog_def clear_track_def zero_track_def)
  have c: "\<not> sg_SubscribeDependencies ex_sub_config" "\<not> sg_SimulatePlayback ex_sub_config" "sg_MetricsPath ex_sub_config = []"
    by (simp_all add: ex_sub_config_def)
  from clear_session_starts [OF t _ c, of "\<lambda>_. None" ex_sub_state] ex_av_wanted(3) show ?thesis by simp
qed




end
