(* ===== verification/Recording.thy ===== *)
theory Recording
  imports Subscriber_Props
begin

text \<open>
  Both ends together: what the output file of a subscriber holds when it reads what the publisher's loop
  of the theory \<open>Publisher\<close> wrote, for the CMAF and for the LOCMAF variant of a rendition.
\<close>

section \<open>Unpacking objects\<close>

text \<open>The chunk that an object of a track stands for, with the LOCMAF state after it.\<close>

definition object_chunk :: "('f, 'm, 'd, 'i, 'p, 's, 'v, 'o, 'e) recv_lib \<Rightarrow> 'o reader \<Rightarrow> mo_object \<Rightarrow> 's \<Rightarrow> 's \<times> bytes option res" where
  "object_chunk L rd ob lst =
     (let lst1 = (if mo_Object ob = 0 then ml_NewState (rl_mp4 L) else lst)
      in if tr_Packaging (rd_track rd) = ''locmaf'' then decompressLocmafObject L (mo_Payload ob) (rd_moov rd) lst1
         else (lst1, Inr (Some (mo_Payload ob))))"

fun unpacked :: "('f, 'm, 'd, 'i, 'p, 's, 'v, 'o, 'e) recv_lib \<Rightarrow> 'o reader \<Rightarrow> 's \<Rightarrow> mo_object list \<Rightarrow> (bytes list \<times> 's) option" where
  "unpacked L rd lst [] = Some ([], lst)"
| "unpacked L rd lst (ob # obs) = (case object_chunk L rd ob lst of
     (lst1, Inr (Some c)) \<Rightarrow> map_option (\<lambda>(cs, l). (c # cs, l)) (unpacked L rd lst1 obs)
   | _ \<Rightarrow> None)"

lemma unpacked_append:
  "unpacked L rd lst (xs @ ys) = (case unpacked L rd lst xs of
     None \<Rightarrow> None | Some (cs, l) \<Rightarrow> map_option (\<lambda>(ds, l'). (cs @ ds, l')) (unpacked L rd l ys))"
  by (induction xs arbitrary: lst)
    (auto simp: option.map_comp comp_def case_prod_beta' option.map_ident option.map_id split_beta split: sum.split option.split)

text \<open>A session without multiplexer and decryption that collects the media type in a buffer.\<close>

definition plain :: "sub_config \<Rightarrow> string \<Rightarrow> ('i, 'v, 'o) sub_state \<Rightarrow> bool" where
  "plain cfg ty st \<longleftrightarrow> ss_mux st = None \<and> ss_cenc st = None \<and> ss_locWriters st ty = None \<and> sg_Outs cfg ty = Some buffer_write"

lemma read_object_plain:
  assumes "plain cfg (rd_mediaType rd) st" and "object_chunk L rd ob lst = (lst', Inr (Some c))"
  shows "\<exists>st'. read_object L cfg rd ob now (st, lst) = ((st', lst'), Continue) \<and> plain cfg (rd_mediaType rd) st' \<and>
    ss_out st' (rd_mediaType rd) = ss_out st (rd_mediaType rd) @ c"
  using assms
  by (auto simp: read_object_def object_chunk_def plain_def deliver_def route_def out_write_def buffer_write_def
      note_playback_def Let_def split: option.splits if_splits)

lemma read_loop_plain:
  assumes "plain cfg (rd_mediaType rd) st" and "unpacked L rd lst obs = Some (cs, lst')"
    and "map fst rs = map ReadObject obs"
  shows "\<exists>st'. read_loop L cfg rd rs (st, lst) = ((st', lst'), Continue) \<and> plain cfg (rd_mediaType rd) st' \<and>
    ss_out st' (rd_mediaType rd) = ss_out st (rd_mediaType rd) @ concat cs"
  using assms
proof (induction rs arbitrary: st lst obs cs)
  case (Cons r rs)
  then obtain ob obs' now where o: "obs = ob # obs'" "r = (ReadObject ob, now)" by (cases r) auto
  from Cons.prems(2) obtain l1 c cs' where c: "object_chunk L rd ob lst = (l1, Inr (Some c))"
    "unpacked L rd l1 obs' = Some (cs', lst')" "cs = c # cs'"
    by (auto simp: o split: prod.splits sum.splits option.splits)
  from read_object_plain [OF Cons.prems(1) c(1), of now] obtain st1 where
    s: "read_object L cfg rd ob now (st, lst) = ((st1, l1), Continue)" "plain cfg (rd_mediaType rd) st1"
    "ss_out st1 (rd_mediaType rd) = ss_out st (rd_mediaType rd) @ c" by blast
  from Cons.IH [OF s(2) c(2)] Cons.prems(3) s c(3) show ?case by (auto simp: o)
qed auto

section \<open>The objects of a publishing loop\<close>

fun group_objects :: "u64 \<Rightarrow> nat \<Rightarrow> (kv list \<times> bytes) list \<Rightarrow> mo_object list" where
  "group_objects g k [] = []"
| "group_objects g k ((hs, bs) # obs) = \<lparr>mo_Group = g, mo_Object = of_nat k, mo_Headers = hs, mo_Payload = bs\<rparr> # group_objects g (Suc k) obs"

fun groups_objects :: "u64 \<Rightarrow> (kv list \<times> bytes) list list \<Rightarrow> mo_object list" where
  "groups_objects g [] = []"
| "groups_objects g (obs # rest) = group_objects g 0 obs @ groups_objects (g + 1) rest"

lemma subscribed_obj_log: "subscribed g (obj_log k obs @ es) = map ReadObject (group_objects g k obs) @ subscribed g es"
  by (induction k obs rule: obj_log.induct) auto

lemma subscribed_groups_log: "subscribed g0 (groups_log prio g gs) = map ReadObject (groups_objects g gs)"
  by (induction gs arbitrary: g0 g) (auto simp: group_log_def subscribed_obj_log)

lemma payloads_group: "map mo_Payload (group_objects g k obs) = map snd obs"
  by (induction g k obs rule: group_objects.induct) auto

lemma payloads_groups: "map mo_Payload (groups_objects g gs) = map snd (concat gs)"
  by (induction gs arbitrary: g) (auto simp: payloads_group)

lemma unpacked_cmaf:
  "tr_Packaging (rd_track rd) \<noteq> ''locmaf'' \<Longrightarrow> \<exists>lst'. unpacked L rd lst obs = Some (map mo_Payload obs, lst')"
  by (induction obs arbitrary: lst) (fastforce simp: object_chunk_def Let_def)+

section \<open>LOCMAF against CMAF\<close>

text \<open>A list of fragments encoded one after the other, from state to state.\<close>

fun locmaf_encoded :: "('f, 'm, 'd, 'i, 'p, 's) mp4_lib \<Rightarrow> 'i \<Rightarrow> 's \<Rightarrow> 'f list \<Rightarrow> bytes list \<Rightarrow> 's \<Rightarrow> bool" where
  "locmaf_encoded M ini s [] [] s' \<longleftrightarrow> s' = s"
| "locmaf_encoded M ini s (f # fs) (ob # obs) s' \<longleftrightarrow>
     (\<exists>s1. ml_EncodeCanonical M f s ini = (s1, Inr ob) \<and> locmaf_encoded M ini s1 fs obs s')"
| "locmaf_encoded M ini s _ _ s' \<longleftrightarrow> False"

lemma locmaf_encoded_append:
  "locmaf_encoded M ini s fs obs s1 \<Longrightarrow> locmaf_encoded M ini s1 fs' obs' s2 \<Longrightarrow> locmaf_encoded M ini s (fs @ fs') (obs @ obs') s2"
  by (induction M ini s fs obs s1 rule: locmaf_encoded.induct) auto

lemma gen_object_locmaf:
  assumes "ct_contentProtectionRefIDs t = []" and "ct_SpecData t = Some sd"
    and "gen_object M C cc g ''locmaf'' i e t lst = (t1, lst1, Inr os)"
  shows "t1 = t \<and> (\<exists>f ob bs. createFragment M C t (ucast g) i e cc = Inr f \<and> ml_Encode M f = Inr bs \<and>
    ml_EncodeCanonical M f lst (sd_GetInit sd) = (lst1, Inr ob) \<and> os = [ob] \<and>
    (\<forall>lst2. gen_object M C cc g ''cmaf'' i e t lst2 = (t, lst2, Inr [bs])))"
  using assms by (auto simp: gen_object_def GenLocmafChunk_def GenCMAFChunk_def split: sum.splits prod.splits)

text \<open>The two loops over the same group run side by side.\<close>

lemma group_loop_locmaf:
  assumes "ct_contentProtectionRefIDs t = []" and "ct_SpecData t = Some sd"
  shows "group_loop k (group_step M C cc g ''locmaf'') b e i objs (t, lst) = Some ((t', lst'), Inr objs') \<Longrightarrow>
    \<exists>fs obs cobs. objs' = objs @ obs \<and> t' = t \<and> length obs \<le> k \<and> locmaf_encoded M (sd_GetInit sd) lst fs obs lst' \<and>
      list_all2 (\<lambda>f ob. ml_Encode M f = Inr ob) fs cobs \<and>
      (\<forall>objs2 lst2. group_loop k (group_step M C cc g ''cmaf'') b e i objs2 (t, lst2) = Some ((t, lst2), Inr (objs2 @ cobs)))"
proof (induction k arbitrary: i objs lst)
  case (Suc k)
  show ?case
  proof (cases "i < e")
    case True
    let ?e = "min (i + b) e"
    obtain t1 l1 r where go: "gen_object M C cc g ''locmaf'' i ?e t lst = (t1, l1, r)" by (metis surj_pair)
    with Suc.prems True obtain os where r: "r = Inr os"
      and rest: "group_loop k (group_step M C cc g ''locmaf'') b e (i + b) (objs @ os) (t1, l1) = Some ((t', lst'), Inr objs')"
      by (cases r) (auto simp: group_step_def [of _ _ _ _ _ i])
    from gen_object_locmaf [OF assms go [unfolded r]] obtain f ob bs where
      f: "ml_Encode M f = Inr bs" "ml_EncodeCanonical M f lst (sd_GetInit sd) = (l1, Inr ob)" "os = [ob]" "t1 = t"
      "\<forall>lst2. gen_object M C cc g ''cmaf'' i ?e t lst2 = (t, lst2, Inr [bs])" by blast
    from Suc.IH rest f(3,4) obtain fs obs cobs where
      n: "objs' = (objs @ [ob]) @ obs" "t' = t" "length obs \<le> k" "locmaf_encoded M (sd_GetInit sd) l1 fs obs lst'"
      "list_all2 (\<lambda>f ob. ml_Encode M f = Inr ob) fs cobs"
      "\<forall>objs2 lst2. group_loop k (group_step M C cc g ''cmaf'') b e (i + b) objs2 (t, lst2) = Some ((t, lst2), Inr (objs2 @ cobs))"
      by blast
    have "group_loop (Suc k) (group_step M C cc g ''cmaf'') b e i objs2 (t, lst2) = Some ((t, lst2), Inr (objs2 @ bs # cobs))"
      for objs2 lst2 using True f(5) n(6) by (simp add: group_step_def [of _ _ _ _ _ i])
    with f n show ?thesis by (intro exI [of _ "f # fs"] exI [of _ "ob # obs"] exI [of _ "bs # cobs"]) auto
  next
    case False
    with Suc.prems show ?thesis by (auto intro!: exI [of _ "[]"])
  qed
qed simp

lemma track_objects_locmaf:
  assumes "ct_contentProtectionRefIDs t = []" and "ct_SpecData t = Some sd"
    and "track_objects fuel M C ''locmaf'' g t t' obs"
  shows "t' = t \<and> (\<exists>fs os cobs lst'. obs = map (Pair []) os \<and> length os \<le> fuel \<and>
    locmaf_encoded M (sd_GetInit sd) (ml_NewState M) fs os lst' \<and>
    list_all2 (\<lambda>f ob. ml_Encode M f = Inr (snd ob)) fs cobs \<and> track_objects fuel M C ''cmaf'' g t t cobs)"
proof -
  from assms(3) obtain s e cc lst' os where c: "calcMoQGroup t g MoqGroupDurMS = Inr (s, e)" "newGroupCCSplice C t g s e = Inr cc"
    and l: "group_loop fuel (group_step M C cc g ''locmaf'') (of_int (ct_SampleBatch t)) e s [] (t, ml_NewState M)
      = Some ((t', lst'), Inr os)" and o: "obs = map (Pair []) os"
    by (auto simp: track_objects_def GenMoQGroup_def split: sum.splits prod.splits option.splits)
  from group_loop_locmaf [OF assms(1,2) l] obtain fs cobs where
    n: "t' = t" "length os \<le> fuel" "locmaf_encoded M (sd_GetInit sd) (ml_NewState M) fs os lst'"
    "list_all2 (\<lambda>f ob. ml_Encode M f = Inr ob) fs cobs"
    "\<forall>objs2 lst2. group_loop fuel (group_step M C cc g ''cmaf'') (of_int (ct_SampleBatch t)) e s objs2 (t, lst2) = Some ((t, lst2), Inr (objs2 @ cobs))"
    by auto
  from c n(5) have "track_objects fuel M C ''cmaf'' g t t (map (Pair []) cobs)"
    by (auto simp: track_objects_def GenMoQGroup_def)
  with n o show ?thesis by (intro conjI exI [of _ fs] exI [of _ os] exI [of _ "map (Pair []) cobs"] exI [of _ lst'])
    (auto simp: list_all2_map2)
qed

text \<open>What the LOCMAF codec documents: as long as the decoder's state agrees with the encoder's, an encoded
  fragment decodes and is reconstructed as its canonical chunk \<open>canon f\<close>, and the states agree again; new
  states agree.\<close>

definition locmaf_faithful :: "('f, 'm, 'd, 'i, 'p, 's, 'v, 'o, 'e) recv_lib \<Rightarrow> 'i \<Rightarrow> 'o option \<Rightarrow> ('f \<Rightarrow> bytes) \<Rightarrow> ('s \<Rightarrow> 's \<Rightarrow> bool) \<Rightarrow> bool" where
  "locmaf_faithful L ini moov canon agree \<longleftrightarrow> agree (ml_NewState (rl_mp4 L)) (ml_NewState (rl_mp4 L)) \<and>
     (\<forall>f s d s' ob. agree s d \<and> ml_EncodeCanonical (rl_mp4 L) f s ini = (s', Inr ob) \<longrightarrow>
        (\<exists>d' eff. rl_Decode L ob d moov = (d', Inr (eff, None)) \<and> rl_Reconstruct L moov eff = Inr (Some (canon f)) \<and> agree s' d'))"

lemma faithful_step:
  assumes "locmaf_faithful L ini (rd_moov rd) canon agree" and "tr_Packaging (rd_track rd) = ''locmaf''"
    and "agree s (if mo_Object ob = 0 then ml_NewState (rl_mp4 L) else d)"
    and "ml_EncodeCanonical (rl_mp4 L) f s ini = (s', Inr (mo_Payload ob))"
  shows "\<exists>d'. object_chunk L rd ob d = (d', Inr (Some (canon f))) \<and> agree s' d'"
proof -
  from assms(1,3,4) obtain d' eff where "rl_Decode L (mo_Payload ob) (if mo_Object ob = 0 then ml_NewState (rl_mp4 L) else d) (rd_moov rd) = (d', Inr (eff, None))"
    "rl_Reconstruct L (rd_moov rd) eff = Inr (Some (canon f))" "agree s' d'"
    unfolding locmaf_faithful_def by blast
  with assms(2) show ?thesis by (auto simp: object_chunk_def decompressLocmafObject_def Let_def)
qed

lemma of_nat_neq_0_u64: "0 < k \<Longrightarrow> k < 2 ^ 64 \<Longrightarrow> (of_nat k :: u64) \<noteq> 0"
  by (simp add: word_of_nat_eq_0_iff nat_dvd_not_less)

lemma unpacked_locmaf_tail:
  assumes "locmaf_faithful L ini (rd_moov rd) canon agree" and "tr_Packaging (rd_track rd) = ''locmaf''"
  shows "locmaf_encoded (rl_mp4 L) ini s fs os s' \<Longrightarrow> agree s d \<Longrightarrow> 0 < k \<Longrightarrow> k + length os \<le> 2 ^ 64 \<Longrightarrow>
    \<exists>d'. unpacked L rd d (group_objects g k (map (Pair []) os)) = Some (map canon fs, d')"
proof (induction fs arbitrary: s os d k)
  case Nil
  then show ?case by (cases os) auto
next
  case (Cons f fs)
  then obtain ob os1 s1 where o: "os = ob # os1" and e: "ml_EncodeCanonical (rl_mp4 L) f s ini = (s1, Inr ob)"
    and r: "locmaf_encoded (rl_mp4 L) ini s1 fs os1 s'" by (cases os) auto
  let ?o = "\<lparr>mo_Group = g, mo_Object = of_nat k, mo_Headers = [], mo_Payload = ob\<rparr>"
  have "mo_Object ?o \<noteq> 0" using Cons.prems(3,4) o of_nat_neq_0_u64 [of k] by simp
  with faithful_step [OF assms, of s ?o d f s1] Cons.prems(2) e obtain d1 where
    d1: "object_chunk L rd ?o d = (d1, Inr (Some (canon f)))" "agree s1 d1" by auto
  from Cons.IH [OF r d1(2), of "Suc k"] Cons.prems(4) o obtain d' where
    "unpacked L rd d1 (group_objects g (Suc k) (map (Pair []) os1)) = Some (map canon fs, d')" by auto
  with d1 show ?case by (auto simp: o)
qed

lemma unpacked_locmaf_group:
  assumes "locmaf_faithful L ini (rd_moov rd) canon agree" and "tr_Packaging (rd_track rd) = ''locmaf''"
    and "locmaf_encoded (rl_mp4 L) ini (ml_NewState (rl_mp4 L)) fs os s'" and "length os \<le> 2 ^ 64"
  shows "\<exists>d'. unpacked L rd d (group_objects g 0 (map (Pair []) os)) = Some (map canon fs, d')"
proof (cases fs)
  case Nil
  with assms(3) show ?thesis by (cases os) auto
next
  case (Cons f fs')
  let ?n = "ml_NewState (rl_mp4 L)"
  obtain ob os1 s1 where o: "os = ob # os1" and e: "ml_EncodeCanonical (rl_mp4 L) f ?n ini = (s1, Inr ob)"
    and r: "locmaf_encoded (rl_mp4 L) ini s1 fs' os1 s'" using assms(3) Cons by (cases os) auto
  let ?o = "\<lparr>mo_Group = g, mo_Object = 0, mo_Headers = [], mo_Payload = ob\<rparr>"
  have "agree ?n ?n" using assms(1) by (simp add: locmaf_faithful_def)
  with faithful_step [OF assms(1,2), of ?n ?o d f s1] e obtain d1 where
    d1: "object_chunk L rd ?o d = (d1, Inr (Some (canon f)))" "agree s1 d1" by auto
  from unpacked_locmaf_tail [OF assms(1,2) r d1(2), of "Suc 0" g] assms(4) o obtain d' where
    "unpacked L rd d1 (group_objects g (Suc 0) (map (Pair []) os1)) = Some (map canon fs', d')" by auto
  with d1 show ?thesis by (auto simp: o Cons)
qed

lemma published_locmaf:
  assumes "locmaf_faithful L (sd_GetInit sd) (rd_moov rd) canon agree" and "tr_Packaging (rd_track rd) = ''locmaf''"
    and "ct_contentProtectionRefIDs ct = []" and "ct_SpecData ct = Some sd" and "fuel \<le> 2 ^ 64"
  shows "published (track_objects fuel (rl_mp4 L) C ''locmaf'') g t gs t' \<Longrightarrow> t = ct \<Longrightarrow>
    \<exists>fss cgs. published (track_objects fuel (rl_mp4 L) C ''cmaf'') g ct cgs ct \<and>
      list_all2 (list_all2 (\<lambda>f ob. ml_Encode (rl_mp4 L) f = Inr (snd ob))) fss cgs \<and>
      (\<forall>d. \<exists>d'. unpacked L rd d (groups_objects g gs) = Some (map canon (concat fss), d'))"
proof (induction rule: published.induct)
  case (none g s)
  then show ?case by (auto intro!: exI [of _ "[]"] published.none)
next
  case (group g s s1 obs rest s2)
  from track_objects_locmaf [OF assms(3,4) group(1) [unfolded group.prems]] obtain fs os cobs lst' where
    t: "s1 = ct" "obs = map (Pair []) os" "length os \<le> fuel"
    "locmaf_encoded (rl_mp4 L) (sd_GetInit sd) (ml_NewState (rl_mp4 L)) fs os lst'"
    "list_all2 (\<lambda>f ob. ml_Encode (rl_mp4 L) f = Inr (snd ob)) fs cobs" "track_objects fuel (rl_mp4 L) C ''cmaf'' g ct ct cobs"
    by blast
  from group.IH t(1) obtain fss cgs where
    i: "published (track_objects fuel (rl_mp4 L) C ''cmaf'') (g + 1) ct cgs ct"
    "list_all2 (list_all2 (\<lambda>f ob. ml_Encode (rl_mp4 L) f = Inr (snd ob))) fss cgs"
    "\<And>d. \<exists>d'. unpacked L rd d (groups_objects (g + 1) rest) = Some (map canon (concat fss), d')" by blast
  have "\<exists>d'. unpacked L rd d (groups_objects g (obs # rest)) = Some (map canon (concat (fs # fss)), d')" for d
  proof -
    from unpacked_locmaf_group [OF assms(1,2) t(4), of d g] t(3) assms(5) obtain d1 where
      "unpacked L rd d (group_objects g 0 (map (Pair []) os)) = Some (map canon fs, d1)" by auto
    with i(3) [of d1] show ?thesis by (auto simp: t(2) unpacked_append)
  qed
  with i t(5) published.group [of "track_objects fuel (rl_mp4 L) C ''cmaf''", OF t(6) i(1)] show ?case
    by (intro exI [of _ "fs # fss"] exI [of _ "cobs # cgs"]) auto
qed

section \<open>The session\<close>

text \<open>A running session on a catalog of clear tracks with distinct names, that was started without outputs
  written, multiplexer or decryption, and whose reader \<open>rd\<close> reads the track \<open>t\<close> of the media type \<open>ty\<close>.\<close>

definition recording_session :: "('f, 'm, 'd, 'i, 'p, 's, 'v, 'o, 'e) recv_lib \<Rightarrow> sub_config \<Rightarrow> (string \<Rightarrow> go_error option) \<Rightarrow> catalog \<Rightarrow>
    ('i, 'v, 'o) sub_state \<Rightarrow> ('i, 'v, 'o) sub_state \<Rightarrow> 'o reader list \<Rightarrow> string \<Rightarrow> track \<Rightarrow> 'o reader \<Rightarrow> bool" where
  "recording_session L cfg sub cat st0 st rds ty t rd \<longleftrightarrow>
     handle_catalog L cfg sub cat st0 = Some (Inr (st, rds)) \<and> (\<forall>t \<in> set (cat_Tracks cat). clear_track t) \<and>
     distinct (map tr_Name (cat_Tracks cat)) \<and> media_type ty \<and> find (wants ty cfg) (cat_Tracks cat) = Some t \<and>
     tr_Packaging t \<noteq> ''loc'' \<and> plain cfg ty st0 \<and> ss_out st0 ty = [] \<and> rd \<in> set rds \<and> rd_mediaType rd = ty"

lemma find_named: "\<forall>t \<in> set trs. clear_track t \<Longrightarrow> find (\<lambda>t. P t \<and> tr_Name t \<noteq> []) trs = find P trs"
  by (induction trs) (auto simp: clear_track_def)

lemma reader_name:
  assumes "map (\<lambda>rd. (rd_name rd, rd_mediaType rd)) rds = subscriptions sel vs" and "rd \<in> set rds"
    and "rd_mediaType rd = ty" and "media_type ty"
  shows "rd_name rd = chosen ty sel"
proof -
  have "(rd_name rd, rd_mediaType rd) \<in> set (subscriptions sel vs)" using assms(2) by (force simp flip: assms(1))
  then show ?thesis using assms(3,4) by (auto simp: subscriptions_def chosen_def media_type_def split: if_splits)
qed

lemma recording_ready:
  assumes "recording_session L cfg sub cat st0 st rds ty t rd"
    and "base64_decode (fst (InitDataFor cat (Some t))) = Inr ini"
  shows "plain cfg ty st \<and> ss_out st ty = ini \<and> rd_track rd = t"
proof -
  let ?w = "wanted_selection cfg (cat_Tracks cat)"
  from assms(1) have h: "handle_catalog L cfg sub cat st0 = Some (Inr (st, rds))" and c: "\<forall>t \<in> set (cat_Tracks cat). clear_track t"
    and d: "distinct (map tr_Name (cat_Tracks cat))" and m: "media_type ty" and f: "find (wants ty cfg) (cat_Tracks cat) = Some t"
    and p: "tr_Packaging t \<noteq> ''loc''" and pl: "plain cfg ty st0" and o: "ss_out st0 ty = []" and r: "rd \<in> set rds" "rd_mediaType rd = ty"
    by (simp_all add: recording_session_def)
  from h obtain st1 vs where s: "setup_tracks L cfg cat (cat_Tracks cat) (st0, no_selection) = Inr (st1, ?w)"
    and pb: "if se_video ?w = [] then vs = [] \<and> st = st1
         else \<exists>p. video_plan cfg cat (se_video ?w) = Some (Inr (vs, p)) \<and>
           st = st1\<lparr>ss_playback := (if p = None then ss_playback st1 else p)\<rparr>"
    and a: "subscribe_all L sub cat st (subscriptions ?w vs) = Inr rds"
    by (rule handle_catalog_running)
  have ch: "chosen ty no_selection = []" by (simp add: chosen_def no_selection_def)
  from setup_tracks_written [OF s c m ch d f p] pl o assms(2) have k: "plain cfg ty st1" "ss_out st1 ty = ini"
    by (simp_all add: plain_def same_rest_def write_init_def unpackWrite_def buffer_write_def)
  have "plain cfg ty st" "ss_out st ty = ini" using pb k by (auto simp: plain_def split: if_splits)
  moreover have "rd_track rd = t"
  proof -
    have "wants ty cfg = wants_video cfg \<and> ty = ''video'' \<or> wants ty cfg = wants_audio cfg \<and> ty = ''audio''"
      using m by (auto simp: media_type_def wants_def fun_eq_iff)
    then have "chosen ty ?w = tr_Name t"
      using f find_named [OF c, of "wants ty cfg"] by (auto simp: chosen_def wanted_selection_def first_match_def)
    with reader_name [OF conjunct1 [OF subscribe_all_readers [OF a]] r m] have n: "rd_name rd = tr_Name t" by simp
    have "t \<in> set (cat_Tracks cat)" using f by (auto simp: find_Some_iff)
    with catalog_lookup.lookup_distinct [OF d] n subscribe_all_readers [OF a] r(1) show ?thesis by auto
  qed
  ultimately show ?thesis by simp
qed

lemma PublishTrack_running:
  assumes "asset_GetTrackByName a (trim_suffix name LocmafTrackSuffix) = Some ct"
    and "CurrMoQGroupNr ct (of_int now) MoqGroupDurMS = Inr cur"
    and "PublishTrack n fuel M C env a name packaging now = Some (cto, es, True)"
  shows "\<exists>gs ct'. length gs = n \<and> es = groups_log MediaPriority (cur + 1) gs \<and>
    published (track_objects fuel M C packaging) (cur + 1) ct gs ct'"
  using assms cmaf_publisher.rounds_running [of n] by (fastforce simp: PublishTrack_def)

section \<open>Properties\<close>

text \<open>C26: A recording of a CMAF track is a playable file. A session on a catalog generated by the publisher,
  reading everything the publishing loop of the selected CMAF rendition wrote in \<open>n\<close> rounds, keeps reading,
  and its output is the encoded init segment of that rendition followed by all objects of the \<open>n\<close> groups
  built for it, complete and in order.\<close>

theorem cmaf_recording:
  assumes "GenCMAFCatalogEntry G a ns ProtectionNone t0 = Inr cat" and "distinct (advertised_names a ProtectionNone)"
    and "recording_session L cfg sub cat st0 st rds ty t rd" and "tr_Packaging t = ''cmaf''"
    and "asset_GetTrackByName a (trim_suffix (tr_Name t) LocmafTrackSuffix) = Some ct"
    and "CurrMoQGroupNr ct (of_int now) MoqGroupDurMS = Inr cur"
    and "PublishTrack n fuel M C env a (tr_Name t) ''cmaf'' now = Some (cto, es, True)"
    and "map fst rs = subscribed 0 es"
  shows "\<exists>st' lst' ini gs ct'. read_loop L cfg rd rs (st, lst) = ((st', lst'), Continue) \<and>
    ss_out st' ty = ini @ concat (map snd (concat gs)) \<and> init_of G a ProtectionNone (tr_Name t) ini \<and>
    length gs = n \<and> published (track_objects fuel M C ''cmaf'') (cur + 1) ct gs ct'"
proof -
  have t: "t \<in> set (cat_Tracks cat)" and m: "rd_mediaType rd = ty"
    using assms(3) by (auto simp: recording_session_def find_Some_iff)
  from catalog_init_lookup [OF assms(1,2) t] obtain b64 ini where
    i: "InitDataFor cat (Some t) = (b64, True)" "base64_decode b64 = Inr ini" "init_of G a ProtectionNone (tr_Name t) ini" by blast
  with recording_ready [OF assms(3), of ini] have r: "plain cfg ty st" "ss_out st ty = ini" "rd_track rd = t" by auto
  from PublishTrack_running [OF assms(5-7)] obtain gs ct' where g: "length gs = n" "es = groups_log MediaPriority (cur + 1) gs"
    "published (track_objects fuel M C ''cmaf'') (cur + 1) ct gs ct'" by blast
  have pk: "tr_Packaging (rd_track rd) \<noteq> ''locmaf''" using r(3) assms(4) by simp
  from unpacked_cmaf [OF pk, of L lst "groups_objects (cur + 1) gs"] obtain lst' where
    u: "unpacked L rd lst (groups_objects (cur + 1) gs) = Some (map snd (concat gs), lst')" by (auto simp: payloads_groups)
  have "map fst rs = map ReadObject (groups_objects (cur + 1) gs)" using assms(8) g(2) by (simp add: subscribed_groups_log)
  from read_loop_plain [OF _ u this, of cfg st] r m obtain st' where
    "read_loop L cfg rd rs (st, lst) = ((st', lst'), Continue)" "ss_out st' ty = ini @ concat (map snd (concat gs))" by auto
  with i(3) g show ?thesis by blast
qed

text \<open>C27: LOCMAF is transparent. Reading everything the publishing loop of the LOCMAF variant of a clear
  rendition wrote, the session keeps reading and its output is the init segment followed by the canonical
  chunks of fragments \<open>fss\<close>, group by group; and these are exactly the fragments whose encodings are the
  objects of the CMAF variant of the same groups. The subscriber's LOCMAF state, reset at every first
  object of a group, stays in step with the publisher's, which is new for every group.\<close>

theorem locmaf_recording:
  assumes "recording_session L cfg sub cat st0 st rds ty t rd" and "tr_Packaging t = ''locmaf''"
    and "base64_decode (fst (InitDataFor cat (Some t))) = Inr ini"
    and "asset_GetTrackByName a (trim_suffix (tr_Name t) LocmafTrackSuffix) = Some ct"
    and "ct_contentProtectionRefIDs ct = []" and "ct_SpecData ct = Some sd"
    and "locmaf_faithful L (sd_GetInit sd) (rd_moov rd) canon agree" and "fuel \<le> 2 ^ 64"
    and "CurrMoQGroupNr ct (of_int now) MoqGroupDurMS = Inr cur"
    and "PublishTrack n fuel (rl_mp4 L) C env a (tr_Name t) ''locmaf'' now = Some (cto, es, True)"
    and "map fst rs = subscribed 0 es"
  shows "\<exists>st' lst' fss cgs. read_loop L cfg rd rs (st, lst) = ((st', lst'), Continue) \<and>
    ss_out st' ty = ini @ concat (map canon (concat fss)) \<and>
    published (track_objects fuel (rl_mp4 L) C ''cmaf'') (cur + 1) ct cgs ct \<and>
    list_all2 (list_all2 (\<lambda>f ob. ml_Encode (rl_mp4 L) f = Inr (snd ob))) fss cgs"
proof -
  have m: "rd_mediaType rd = ty" using assms(1) by (simp add: recording_session_def)
  from recording_ready [OF assms(1,3)] have r: "plain cfg ty st" "ss_out st ty = ini" "rd_track rd = t" by auto
  from PublishTrack_running [OF assms(4,9,10)] obtain gs ct' where g: "es = groups_log MediaPriority (cur + 1) gs"
    "published (track_objects fuel (rl_mp4 L) C ''locmaf'') (cur + 1) ct gs ct'" by blast
  have pk: "tr_Packaging (rd_track rd) = ''locmaf''" using r(3) assms(2) by simp
  from published_locmaf [OF assms(7) pk assms(5,6,8) g(2) refl] obtain fss cgs lst' where
    u: "unpacked L rd lst (groups_objects (cur + 1) gs) = Some (map canon (concat fss), lst')"
    and c: "published (track_objects fuel (rl_mp4 L) C ''cmaf'') (cur + 1) ct cgs ct"
      "list_all2 (list_all2 (\<lambda>f ob. ml_Encode (rl_mp4 L) f = Inr (snd ob))) fss cgs" by blast
  have "map fst rs = map ReadObject (groups_objects (cur + 1) gs)" using assms(11) g(1) by (simp add: subscribed_groups_log)
  from read_loop_plain [OF _ u this, of cfg st] r m obtain st' where
    "read_loop L cfg rd rs (st, lst) = ((st', lst'), Continue)" "ss_out st' ty = ini @ concat (map canon (concat fss))" by auto
  with c show ?thesis by blast
qed

section \<open>Instances\<close>

definition ex_catalog :: catalog where
  "ex_catalog = (case GenCMAFCatalogEntry ex_gen ex_cat_asset ''ns'' ProtectionNone 0 of Inr cat \<Rightarrow> cat | Inl e \<Rightarrow> zero_catalog)"

lemma ex_catalog_generated': "GenCMAFCatalogEntry ex_gen ex_cat_asset ''ns'' ProtectionNone 0 = Inr ex_catalog"
  using ex_catalog_generated by (auto simp: ex_catalog_def split: sum.splits)

text \<open>The fields of the generated tracks that a session looks at.\<close>

definition track_key :: "track \<Rightarrow> string \<times> string \<times> string \<times> string \<times> string list" where
  "track_key t = (tr_Name t, tr_Role t, tr_Packaging t, tr_LocmafVersion t, tr_ContentProtectionRefIDs t)"

lemma ex_catalog_keys: "map track_key (cat_Tracks ex_catalog) = [(''v1'', ''video'', ''cmaf'', [], []), (''v1_locmaf'', ''video'', ''locmaf'', ''1'', []),
    (''v2'', ''video'', ''cmaf'', [], []), (''v2_locmaf'', ''video'', ''locmaf'', ''1'', []), (''subs'', ''subtitle'', ''cmaf'', [], [])]"
  by (simp add: ex_catalog_def track_key_def GenCMAFCatalogEntry_def selected_def cmaf_entry_def GenCMAFInitData_def calcCmafBitrate_def
      calcLocmafBitrate_def measure_batch_def GenCMAFChunk_def GenLocmafChunk_def createFragment_def add_frames.simps
      live_frame_def CalcSample_def spliced_data_def idx_def ex_mp4_def ex_gen_def ex_cat_defs cmaf_base_def
      describe_media_def subtitle_entry_def subtitle_init_def wrap_err_def zero_track_def zero_sample_def
      LocmafTrackSuffix_def zero_catalog_def Let_def)

lemma ex_catalog_tracks: obtains t1 t2 t3 t4 t5 where "cat_Tracks ex_catalog = [t1, t2, t3, t4, t5]"
    "track_key t1 = (''v1'', ''video'', ''cmaf'', [], [])" "track_key t2 = (''v1_locmaf'', ''video'', ''locmaf'', ''1'', [])"
    "track_key t3 = (''v2'', ''video'', ''cmaf'', [], [])" "track_key t4 = (''v2_locmaf'', ''video'', ''locmaf'', ''1'', [])"
    "track_key t5 = (''subs'', ''subtitle'', ''cmaf'', [], [])"
  using ex_catalog_keys by (auto simp: map_eq_Cons_conv)

lemma ex_catalog_init: "t \<in> set (cat_Tracks ex_catalog) \<Longrightarrow> \<exists>bs. base64_decode (fst (InitDataFor ex_catalog (Some t))) = Inr bs"
proof -
  have d: "distinct (advertised_names ex_cat_asset ProtectionNone)" by (simp add: advertised_names_def selected_def ex_cat_defs)
  show "t \<in> set (cat_Tracks ex_catalog) \<Longrightarrow> ?thesis" using catalog_init_lookup [OF ex_catalog_generated' d] by fastforce
qed

text \<open>A session on the generated catalog that asks for the track with the given name.\<close>

lemma ex_session:
  assumes "t \<in> set (cat_Tracks ex_catalog)" and "wants_video (ex_sub_config\<lparr>sg_VideoName := n\<rparr>) t"
    and "find (wants_video (ex_sub_config\<lparr>sg_VideoName := n\<rparr>)) (cat_Tracks ex_catalog) = Some t"
  shows "\<exists>st rds rd. recording_session ex_recv (ex_sub_config\<lparr>sg_VideoName := n\<rparr>) (\<lambda>_. None) ex_catalog ex_sub_state st rds ''video'' t rd"
proof -
  let ?cfg = "ex_sub_config\<lparr>sg_VideoName := n\<rparr>"
  obtain t1 t2 t3 t4 t5 where ts: "cat_Tracks ex_catalog = [t1, t2, t3, t4, t5]"
    "track_key t1 = (''v1'', ''video'', ''cmaf'', [], [])" "track_key t2 = (''v1_locmaf'', ''video'', ''locmaf'', ''1'', [])"
    "track_key t3 = (''v2'', ''video'', ''cmaf'', [], [])" "track_key t4 = (''v2_locmaf'', ''video'', ''locmaf'', ''1'', [])"
    "track_key t5 = (''subs'', ''subtitle'', ''cmaf'', [], [])" by (rule ex_catalog_tracks)
  have c: "\<forall>t \<in> set (cat_Tracks ex_catalog). clear_track t \<and> (tr_LocmafVersion t = [] \<or> tr_LocmafVersion t = rl_Version ex_recv)"
    and dn: "distinct (map tr_Name (cat_Tracks ex_catalog))" and nl: "\<forall>t \<in> set (cat_Tracks ex_catalog). tr_Packaging t \<noteq> ''loc''"
    using ts by (simp_all add: track_key_def clear_track_def ex_recv_def)
  have w: "first_match (wants_video ?cfg) (cat_Tracks ex_catalog) = tr_Name t"
    using assms(3) find_named [of "cat_Tracks ex_catalog" "wants_video ?cfg"] c by (simp add: first_match_def)
  have tn: "tr_Name t \<noteq> []" using c assms(1) by (simp add: clear_track_def)
  obtain s where s: "setup_tracks ex_recv ?cfg ex_catalog (cat_Tracks ex_catalog) (ex_sub_state, no_selection) = Inr s"
    using setup_tracks_clear_ok [OF c] by blast
  obtain st where st: "s = (st, wanted_selection ?cfg (cat_Tracks ex_catalog))" using setup_tracks_wanted s by (metis surj_pair)
  have sv: "se_video (wanted_selection ?cfg (cat_Tracks ex_catalog)) = tr_Name t" using w by (simp add: wanted_selection_def)
  have p: "video_plan ?cfg ex_catalog (tr_Name t) = Some (Inr ([tr_Name t], None))" by (simp add: video_plan_def ex_sub_config_def)
  have "fst ` set (subscriptions (wanted_selection ?cfg (cat_Tracks ex_catalog)) [tr_Name t]) \<subseteq> tr_Name ` set (cat_Tracks ex_catalog)"
    using assms(1) first_match_name [of "wants_audio ?cfg"] first_match_name [of "wants_subs ?cfg"]
    by (auto simp: subscriptions_def wanted_selection_def)
  moreover have "\<forall>t \<in> set (cat_Tracks ex_catalog). tr_Packaging t = ''locmaf'' \<longrightarrow>
      (\<exists>moov. parseCMAFInit ex_recv (fst (InitDataFor ex_catalog (Some t))) = Inr moov)"
    using ex_catalog_init by (fastforce simp: parseCMAFInit_def ex_recv_def)
  ultimately obtain rds where r: "subscribe_all ex_recv (\<lambda>_. None) ex_catalog st
      (subscriptions (wanted_selection ?cfg (cat_Tracks ex_catalog)) [tr_Name t]) = Inr rds"
    using subscribe_all_ok [of "\<lambda>_. None" ex_catalog ex_recv] by blast
  have h: "handle_catalog ex_recv ?cfg (\<lambda>_. None) ex_catalog ex_sub_state = Some (Inr (st, rds))"
    using s st sv tn p r by (auto simp: handle_catalog_def no_selection_def [symmetric] Let_def) (auto simp: no_selection_def)
  have "(tr_Name t, ''video'') \<in> set (map (\<lambda>rd. (rd_name rd, rd_mediaType rd)) rds)"
    using conjunct1 [OF subscribe_all_readers [OF r]] sv by (simp add: subscriptions_def)
  then obtain rd where rd: "rd \<in> set rds" "rd_mediaType rd = ''video''" by auto
  have "plain ?cfg ''video'' ex_sub_state" by (simp add: plain_def ex_sub_state_def ex_sub_config_def)
  moreover have "wants ''video'' ?cfg = wants_video ?cfg" by (simp add: wants_def fun_eq_iff)
  ultimately have "recording_session ex_recv ?cfg (\<lambda>_. None) ex_catalog ex_sub_state st rds ''video'' t rd"
    using h c dn nl assms rd by (simp add: recording_session_def media_type_def ex_sub_state_def)
  then show ?thesis by blast
qed

definition ex_canon :: "full_sample list \<Rightarrow> bytes" where
  "ex_canon f = concat (map fs_Data f)"

lemma ex_wanted:
  "\<exists>t. t \<in> set (cat_Tracks ex_catalog) \<and> find (wants_video (ex_sub_config\<lparr>sg_VideoName := ''v2''\<rparr>)) (cat_Tracks ex_catalog) = Some t \<and>
     track_key t = (''v2'', ''video'', ''cmaf'', [], [])"
  "\<exists>t. t \<in> set (cat_Tracks ex_catalog) \<and> find (wants_video (ex_sub_config\<lparr>sg_VideoName := ''v2_locmaf''\<rparr>)) (cat_Tracks ex_catalog) = Some t \<and>
     track_key t = (''v2_locmaf'', ''video'', ''locmaf'', ''1'', [])"
  by (rule ex_catalog_tracks; simp add: track_key_def wants_video_def; fail)+

lemma ex_v2: "trim_suffix ''v2'' LocmafTrackSuffix = ''v2''" "trim_suffix ''v2_locmaf'' LocmafTrackSuffix = ''v2''"
  "CurrMoQGroupNr ex_svc_track (of_int 700) MoqGroupDurMS = Inr 0"
  by code_simp+

lemma ex_v2_track: "asset_GetTrackByName ex_cat_asset ''v2'' = Some ex_svc_track"
  "ct_contentProtectionRefIDs ex_svc_track = []" "ct_SpecData ex_svc_track = Some (AV1Data ex_av1_data)"
  by (simp_all add: asset_GetTrackByName_def ex_cat_asset_def ex_svc_track_def ex_avc_track_def ex_clear_def zero_content_track_def)

theorem cmaf_recording_witness:
  "\<exists>st rd es rs st' lst' ini. PublishTrack 2 5 ex_mp4 ex_go608 ex_env ex_cat_asset ''v2'' ''cmaf'' 700 = es \<and> es \<noteq> None \<and>
     map fst rs = subscribed 0 (fst (snd (the es))) \<and>
     read_loop ex_recv (ex_sub_config\<lparr>sg_VideoName := ''v2''\<rparr>) rd rs (st, 0) = ((st', lst'), Continue) \<and>
     take (length ini) (ss_out st' ''video'') = ini \<and> init_of ex_gen ex_cat_asset ProtectionNone ''v2'' ini"
proof -
  let ?cfg = "ex_sub_config\<lparr>sg_VideoName := ''v2''\<rparr>"
  obtain t where t: "t \<in> set (cat_Tracks ex_catalog)" "find (wants_video ?cfg) (cat_Tracks ex_catalog) = Some t"
    "track_key t = (''v2'', ''video'', ''cmaf'', [], [])" using ex_wanted(1) by blast
  have tn: "tr_Name t = ''v2''" "tr_Packaging t = ''cmaf''" using t(3) by (simp_all add: track_key_def)
  have w: "wants_video ?cfg t" using find_Some_mem [OF t(2)] by simp
  from ex_session [OF t(1) w t(2)] obtain st rds rd where
    s: "recording_session ex_recv ?cfg (\<lambda>_. None) ex_catalog ex_sub_state st rds ''video'' t rd" by blast
  have "case PublishTrack 2 5 ex_mp4 ex_go608 ex_env ex_cat_asset ''v2'' ''cmaf'' 700 of Some (cto, es, c) \<Rightarrow> c | None \<Rightarrow> False"
    by code_simp
  then obtain cto es where p: "PublishTrack 2 5 ex_mp4 ex_go608 ex_env ex_cat_asset ''v2'' ''cmaf'' 700 = Some (cto, es, True)"
    by (auto split: option.splits)
  have d: "distinct (advertised_names ex_cat_asset ProtectionNone)" by (simp add: advertised_names_def selected_def ex_cat_defs)
  let ?rs = "map (\<lambda>r. (r, 0)) (subscribed 0 es)"
  have m: "map fst ?rs = subscribed 0 es" by (simp add: comp_def)
  have a: "asset_GetTrackByName ex_cat_asset (trim_suffix ''v2'' LocmafTrackSuffix) = Some ex_svc_track"
    by (simp only: ex_v2(1) ex_v2_track(1))
  from cmaf_recording [OF ex_catalog_generated' d s tn(2), unfolded tn(1), OF a ex_v2(3) p m, of 0] obtain st' lst' ini and gs :: "(kv list \<times> bytes) list list" where
    r: "read_loop ex_recv ?cfg rd ?rs (st, 0) = ((st', lst'), Continue)" "ss_out st' ''video'' = ini @ concat (map snd (concat gs))"
    "init_of ex_gen ex_cat_asset ProtectionNone ''v2'' ini" by (elim exE conjE) (rule that)
  show ?thesis
    by (rule exI [of _ st], rule exI [of _ rd], rule exI [of _ "Some (cto, es, True)"], rule exI [of _ ?rs], rule exI [of _ st'], rule exI [of _ lst'],
        rule exI [of _ ini]) (simp add: p r comp_def)
qed

theorem locmaf_recording_witness:
  "\<exists>st rd es rs st' lst' fss. PublishTrack 2 5 (rl_mp4 ex_recv) ex_go608 ex_env ex_cat_asset ''v2_locmaf'' ''locmaf'' 700 = es \<and> es \<noteq> None \<and>
     map fst rs = subscribed 0 (fst (snd (the es))) \<and>
     read_loop ex_recv (ex_sub_config\<lparr>sg_VideoName := ''v2_locmaf''\<rparr>) rd rs (st, 0) = ((st', lst'), Continue) \<and>
     ss_out st' ''video'' = ss_out st ''video'' @ concat (map ex_canon (concat fss))"
proof -
  let ?cfg = "ex_sub_config\<lparr>sg_VideoName := ''v2_locmaf''\<rparr>"
  obtain t where t: "t \<in> set (cat_Tracks ex_catalog)" "find (wants_video ?cfg) (cat_Tracks ex_catalog) = Some t"
    "track_key t = (''v2_locmaf'', ''video'', ''locmaf'', ''1'', [])" using ex_wanted(2) by blast
  have tn: "tr_Name t = ''v2_locmaf''" "tr_Packaging t = ''locmaf''" using t(3) by (simp_all add: track_key_def)
  have w: "wants_video ?cfg t" using find_Some_mem [OF t(2)] by simp
  from ex_session [OF t(1) w t(2)] obtain st rds rd where
    s: "recording_session ex_recv ?cfg (\<lambda>_. None) ex_catalog ex_sub_state st rds ''video'' t rd" by blast
  obtain ini where i: "base64_decode (fst (InitDataFor ex_catalog (Some t))) = Inr ini" using ex_catalog_init [OF t(1)] by blast
  have "case PublishTrack 2 5 (rl_mp4 ex_recv) ex_go608 ex_env ex_cat_asset ''v2_locmaf'' ''locmaf'' 700 of Some (cto, es, c) \<Rightarrow> c | None \<Rightarrow> False"
    by code_simp
  then obtain cto es where p: "PublishTrack 2 5 (rl_mp4 ex_recv) ex_go608 ex_env ex_cat_asset ''v2_locmaf'' ''locmaf'' 700 = Some (cto, es, True)"
    by (auto split: option.splits)
  have f: "locmaf_faithful ex_recv (sd_GetInit (AV1Data ex_av1_data)) (rd_moov rd) ex_canon (=)"
    by (simp add: locmaf_faithful_def ex_recv_def ex_smp4_def ex_canon_def)
  let ?rs = "map (\<lambda>r. (r, 0)) (subscribed 0 es)"
  have m: "map fst ?rs = subscribed 0 es" by (simp add: comp_def)
  have b: "(5 :: nat) \<le> 2 ^ 64" by simp
  from locmaf_recording [OF s tn(2) i, unfolded tn(1), OF ex_v2_track(1) [folded ex_v2(2)] ex_v2_track(2,3) f b ex_v2(3) p m, of 0]
  obtain st' lst' fss where r: "read_loop ex_recv ?cfg rd ?rs (st, 0) = ((st', lst'), Continue)"
    "ss_out st' ''video'' = ini @ concat (map ex_canon (concat fss))" by (elim exE conjE) (rule that)
  have o: "ss_out st ''video'' = ini" using recording_ready [OF s i] by simp
  show ?thesis
    by (rule exI [of _ st], rule exI [of _ rd], rule exI [of _ "Some (cto, es, True)"], rule exI [of _ ?rs], rule exI [of _ st'], rule exI [of _ lst'],
        rule exI [of _ fss]) (simp add: p r o comp_def)
qed

end
