(* ===== verification/Server.thy ===== *)
theory Server
  imports Subscriber Asset_Props
begin

text \<open>
  Starting the publisher (\<^verbatim>\<open>runServer\<close> of \<^verbatim>\<open>cmd/mlmpub/main.go\<close>) and its sessions (\<^verbatim>\<open>Handler.Handle\<close> of
  \<^verbatim>\<open>internal/pub/pub.go\<close>): from the options to the asset, the namespaces with their catalogs and the handler,
  and the announcements made on every connection. Certificates, listeners and log files are left out; the
  DRM file, the asset directory and the libraries are arguments.
\<close>

section \<open>Options\<close>

record pub_options =
  po_asset :: string
  po_audioSampleBatch :: int
  po_videoSampleBatch :: int
  po_sidePort :: int
  po_subsWvttLangs :: string
  po_subsStppLangs :: string
  po_cencKey :: string
  po_iv :: string
  po_kid :: string
  po_scheme :: string
  po_laURL :: string
  po_drmConfigPath :: string
  po_cc608 :: bool
  po_catalogDelay :: int

definition license_url :: "pub_options \<Rightarrow> string" where
  "license_url opts = (if po_laURL opts = [] \<and> po_sidePort opts > 0
     then ''http://localhost:'' @ itoa (po_sidePort opts) @ ''/clearkey'' else po_laURL opts)"

definition parseLanguages :: "string \<Rightarrow> string list" where
  "parseLanguages s = (let s1 = trim_space s
     in if s1 = [] then [] else filter (\<lambda>p. p \<noteq> []) (map trim_space (split_on (CHR '','') s1)))"

section \<open>Namespaces\<close>

definition cmaf_namespace :: "string \<Rightarrow> catalog \<Rightarrow> namespace_entry" where
  "cmaf_namespace name cat = \<lparr>ne_Namespace = [name], ne_Catalog = Some cat, ne_Packaging = ''cmaf'', ne_MoqMITracks = Map.empty\<rparr>"

definition protected_namespace :: "('f, 'm, 'd, 'i, 'p, 's, 'g, 'h, 'k) gen_lib \<Rightarrow> ('i, 'p, unit_cue) asset \<Rightarrow> string \<Rightarrow> ProtectionType \<Rightarrow>
    drm_info option \<Rightarrow> int \<Rightarrow> namespace_entry list res" where
  "protected_namespace G a name prot cfg now = (case cfg of
     None \<Rightarrow> Inr []
   | Some d \<Rightarrow> (case GenCMAFCatalogEntry G a name prot now of Inl e \<Rightarrow> Inl e | Inr cat \<Rightarrow> Inr [cmaf_namespace name cat]))"

definition server_namespaces :: "('f, 'm, 'd, 'i, 'p, 's, 'g, 'h, 'k) gen_lib \<Rightarrow> ('i, 'p, unit_cue) asset \<Rightarrow> string \<Rightarrow>
    drm_info option \<Rightarrow> drm_info option \<Rightarrow> int \<Rightarrow> namespace_entry list res" where
  "server_namespaces G a scheme drm eccp now = (case GenLOCCatalogEntry (gl_av1 G) a now of
     Inl e \<Rightarrow> Inl e
   | Inr loc \<Rightarrow>
       let ns1 = (if cat_Tracks loc \<noteq> []
                  then [\<lparr>ne_Namespace = [''msf/clear''], ne_Catalog = Some loc, ne_Packaging = ''loc'', ne_MoqMITracks = Map.empty\<rparr>] else []);
           ns2 = (case BuildMoqMITrackMap a of
                    Inl e \<Rightarrow> []
                  | Inr m \<Rightarrow> [\<lparr>ne_Namespace = [''moq-mi/clear''], ne_Catalog = None, ne_Packaging = ''moqmi'', ne_MoqMITracks = m\<rparr>])
       in (case GenCMAFCatalogEntry G a ''cmsf/clear'' ProtectionNone now of
             Inl e \<Rightarrow> Inl e
           | Inr clear \<Rightarrow> (case protected_namespace G a (''cmsf/drm-'' @ scheme) ProtectionDRM drm now of
               Inl e \<Rightarrow> Inl e
             | Inr ds \<Rightarrow> (case protected_namespace G a (''cmsf/eccp-'' @ scheme) ProtectionECCP eccp now of
                 Inl e \<Rightarrow> Inl e
               | Inr es \<Rightarrow> Inr (ns1 @ ns2 @ [cmaf_namespace ''cmsf/clear'' clear] @ ds @ es)))))"

definition prepare_asset :: "('i, 'p, 'h, 'k) load_lib \<Rightarrow> pub_options \<Rightarrow> 'i dir_entry list res \<Rightarrow> drm_info option \<Rightarrow> drm_info option \<Rightarrow>
    ('i, 'p, unit_cue) asset res" where
  "prepare_asset LL opts dir drm eccp =
     (case LoadAssetWithProtection LL (po_asset opts) dir (po_audioSampleBatch opts) (po_videoSampleBatch opts) drm eccp of
        Inl e \<Rightarrow> Inl e
      | Inr a \<Rightarrow> (case AddSubtitleTracks (parseLanguages (po_subsWvttLangs opts)) (parseLanguages (po_subsStppLangs opts)) a of
          (a1, Some e) \<Rightarrow> Inl e
        | (a1, None) \<Rightarrow> Inr (if po_cc608 opts
            then SetCC608Generator (Some (cc608_New \<lparr>cfg_Enabled = True, cfg_Channel = 0, cfg_Lang = [], cfg_Content = None\<rparr>)) a1
            else a1)))"

definition runServer :: "drm_lib \<Rightarrow> ('i, 'p, 'h, 'k) load_lib \<Rightarrow> ('f, 'm, 'd, 'i, 'p, 's, 'g, 'h, 'k) gen_lib \<Rightarrow> pub_options \<Rightarrow>
    drm_package list res \<Rightarrow> 'i dir_entry list res \<Rightarrow> int \<Rightarrow> ('i, 'p, unit_cue) handler res" where
  "runServer D LL G opts drmFile dir now =
     (case (if po_drmConfigPath opts \<noteq> [] then map_sum id Some (ConfigureDRMFromFile drmFile) else Inr None) of
        Inl e \<Rightarrow> Inl e
      | Inr drm \<Rightarrow> (case ParseCENCflags D (po_scheme opts) (po_kid opts) (po_cencKey opts) (po_iv opts) (license_url opts) of
          Inl e \<Rightarrow> Inl e
        | Inr eccp \<Rightarrow> (case prepare_asset LL opts dir drm eccp of
            Inl e \<Rightarrow> Inl e
          | Inr a \<Rightarrow> (case server_namespaces G a (po_scheme opts) drm eccp now of
              Inl e \<Rightarrow> Inl e
            | Inr ns \<Rightarrow> Inr \<lparr>hd_Namespaces = ns, hd_Asset = a, hd_CatalogDelay = po_catalogDelay opts\<rparr>))))"

section \<open>Sessions\<close>

text \<open>What the peer answers to an announcement is \<open>ann\<close>; the result holds the accepted announcements.\<close>

datatype pub_end = SessionClosed | HandleReturned | Serving

fun announce_all :: "(string list \<Rightarrow> go_error option) \<Rightarrow> string list list \<Rightarrow> string list list \<times> bool" where
  "announce_all ann [] = ([], True)"
| "announce_all ann (ns # rest) = (case ann ns of
     Some e \<Rightarrow> ([], False)
   | None \<Rightarrow> (case announce_all ann rest of (xs, c) \<Rightarrow> (ns # xs, c)))"

definition pub_Handle :: "('i, 'p, 'u) handler \<Rightarrow> go_error option \<Rightarrow> (string list \<Rightarrow> go_error option) \<Rightarrow> string list list \<times> pub_end" where
  "pub_Handle h start ann = (case start of
     Some e \<Rightarrow> ([], SessionClosed)
   | None \<Rightarrow> (case announce_all ann (map ne_Namespace (hd_Namespaces h)) of
       (xs, False) \<Rightarrow> (xs, HandleReturned)
     | (xs, True) \<Rightarrow> (if ann interopNamespace = None then xs @ [interopNamespace] else xs, Serving)))"

end
