(* ===== verification/Server_Props.thy ===== *)
theory Server_Props
  imports Server
begin

text \<open>
  What a started publisher guarantees: what is published in a protected namespace is encrypted, and what a
  peer learns from the announcements.
\<close>

section \<open>Encryption of what is published\<close>

text \<open>An object that was encrypted with the content key of the track before it was packaged.\<close>

definition sealed :: "('f, 'm, 'd, 'i, 'p, 's) mp4_lib \<Rightarrow> ('i, 'p, unit_cue) content_track \<Rightarrow> string \<Rightarrow> bytes \<Rightarrow> bool" where
  "sealed M t packaging ob \<longleftrightarrow> (\<exists>ci frag iv enc nx. ct_cenc t = Some ci \<and>
     ml_EncryptFragment M frag (ci_key ci) iv (ct_ipd t) = Inr (enc, nx) \<and>
     (if packaging = ''cmaf'' then ml_Encode M enc = Inr ob
      else \<exists>lst lst' ini. ml_EncodeCanonical M enc lst ini = (lst', Inr ob)))"

lemma sealed_IV [simp]: "sealed M (t\<lparr>ct_currentIV := c\<rparr>) = sealed M t"
  by (simp add: sealed_def fun_eq_iff)





text \<open>The payloads of a log.\<close>

definition written :: "pub_event list \<Rightarrow> bytes set" where
  "written es = {ob. \<exists>i hs. WriteObject i hs ob \<in> set es}"

lemma written_simps [simp]:
  "written [] = {}" "written (es @ fs) = written es \<union> written fs" "written [OpenSubgroup g sg p] = {}"
  "written (OpenSubgroup g sg p # es) = written es" "written [CloseSubgroup] = {}"
  "written (WriteObject i hs ob # es) = insert ob (written es)"
  by (auto simp: written_def)





section \<open>The server's asset and catalogs\<close>













section \<open>A server with a Widevine-protected video\<close>















section \<open>Announcements\<close>

text \<open>How a subscriber answers the announcements of a publisher.\<close>

definition sub_answers :: "sub_config \<Rightarrow> string list \<Rightarrow> go_error option" where
  "sub_answers cfg ns = (if sub_announce_handler cfg ns = Accept None then None else Some (Errorf ''announcement rejected''))"

lemma announce_all_takeWhile:
  "announce_all ann xs = (takeWhile (\<lambda>ns. ann ns = None) xs, list_all (\<lambda>ns. ann ns = None) xs)"
  by (induction xs) (auto split: option.splits)

lemma sub_tupleEqual_eq: "sub_tupleEqual xs ys \<longleftrightarrow> xs = ys"
  by (induction xs ys rule: sub_tupleEqual.induct) auto

lemma sub_answers_accepts: "sub_answers cfg ns = None \<longleftrightarrow> sg_AcceptAny cfg \<or> sg_Discover cfg \<or> ns = sg_Namespace cfg"
  by (simp add: sub_answers_def sub_announce_handler_def sub_tupleEqual_eq)

text \<open>C31: What a subscriber learns from the announcements of a publisher. A subscriber that accepts any
  namespace or discovers is told every namespace of the server in order, then the interoperability namespace,
  and the publisher keeps serving. A subscriber bound to one namespace is told only the leading namespaces
  equal to its own: the first announcement it rejects ends the publisher's handler, so a namespace announced
  after another one is never announced to it.\<close>

theorem announcements_seen:
  "pub_Handle h None (sub_answers cfg) = (let names = map ne_Namespace (hd_Namespaces h)
     in if sg_AcceptAny cfg \<or> sg_Discover cfg then (names @ [interopNamespace], Serving)
        else if list_all (\<lambda>ns. ns = sg_Namespace cfg) names
        then (names @ (if sg_Namespace cfg = interopNamespace then [interopNamespace] else []), Serving)
        else (takeWhile (\<lambda>ns. ns = sg_Namespace cfg) names, HandleReturned))"
proof (cases "sg_AcceptAny cfg \<or> sg_Discover cfg")
  case True
  then have "sub_answers cfg ns = None" for ns by (auto simp: sub_answers_accepts)
  with True show ?thesis by (simp add: pub_Handle_def announce_all_takeWhile list_all_iff)
next
  case False
  then have a: "(\<lambda>ns. sub_answers cfg ns = None) = (\<lambda>ns. ns = sg_Namespace cfg)" by (auto simp: sub_answers_accepts)
  show ?thesis
  proof (cases "list_all (\<lambda>ns. ns = sg_Namespace cfg) (map ne_Namespace (hd_Namespaces h))")
    case True
    then have "takeWhile (\<lambda>ns. ns = sg_Namespace cfg) (map ne_Namespace (hd_Namespaces h)) = map ne_Namespace (hd_Namespaces h)"
      by (simp only: list_all_iff takeWhile_eq_all_conv)
    with True False show ?thesis
      by (simp only: pub_Handle_def announce_all_takeWhile a Let_def if_False if_True option.case prod.case bool.case)
        (auto simp: sub_answers_accepts)
  next
    case neq: False
    with False show ?thesis
      by (simp only: pub_Handle_def announce_all_takeWhile a Let_def if_False option.case prod.case bool.case)
  qed
qed

end
