(* ===== verification/Quic_Varint.thy ===== *)
theory Quic_Varint
  imports Mlm_Prelude
begin

text \<open>
  QUIC variable-length integers (\<^verbatim>\<open>deps/quic-go/quicvarint/varint.go\<close>): a number below two to the power of 62 in 1, 2, 4 or 8
  bytes, the length in the two top bits of the first byte. The locale \<open>wire_codec\<close> is the contract between
  a writer and a parser of a wire format that the frames of the transport rely on.
\<close>

section \<open>The interface of a wire format\<close>

text \<open>
  \<open>put\<close> writes a value that is \<open>ok\<close>, \<open>get\<close> reads it back from the front of the input and says how many bytes
  it consumed, whatever follows; \<open>size\<close> is announced in advance.
\<close>

locale wire_codec =
  fixes ok :: "'a \<Rightarrow> bool" and put :: "bytes \<Rightarrow> 'a \<Rightarrow> bytes res" and get :: "bytes \<Rightarrow> ('a \<times> nat) res"
    and len :: "'a \<Rightarrow> nat res"
  assumes put_get: "ok x \<Longrightarrow> \<exists>bs. (\<forall>b. put b x = Inr (b @ bs)) \<and> (\<forall>rest. get (bs @ rest) = Inr (x, length bs)) \<and>
      len x = Inr (length bs) \<and> bs \<noteq> []"
begin

definition encoding :: "'a \<Rightarrow> bytes" where
  "encoding x = (case put [] x of Inr bs \<Rightarrow> bs | Inl e \<Rightarrow> [])"

lemma encoded:
  assumes "ok x"
  shows "put b x = Inr (b @ encoding x)" and "get (encoding x @ rest) = Inr (x, length (encoding x))"
    and "len x = Inr (length (encoding x))" and "encoding x \<noteq> []"
  using put_get [OF assms] by (auto simp: encoding_def)

text \<open>Encodings are self-delimiting, so different values have different encodings.\<close>

lemma prefix_free: "ok x \<Longrightarrow> ok y \<Longrightarrow> encoding x @ r = encoding y @ s \<Longrightarrow> x = y \<and> r = s"
  using encoded(2) [of x r] encoded(2) [of y s] by auto

text \<open>Reading until the input is used up gives back a sequence of values.\<close>

fun get_all :: "nat \<Rightarrow> bytes \<Rightarrow> 'a list res" where
  "get_all n [] = Inr []"
| "get_all 0 b = Inl (Errorf ''out of fuel'')"
| "get_all (Suc n) b = (case get b of Inl e \<Rightarrow> Inl e
     | Inr (x, k) \<Rightarrow> (case get_all n (drop k b) of Inl e \<Rightarrow> Inl e | Inr xs \<Rightarrow> Inr (x # xs)))"

fun put_all :: "bytes \<Rightarrow> 'a list \<Rightarrow> bytes res" where
  "put_all b [] = Inr b"
| "put_all b (x # xs) = (case put b x of Inl e \<Rightarrow> Inl e | Inr b1 \<Rightarrow> put_all b1 xs)"

lemma put_all_encoding: "list_all ok xs \<Longrightarrow> put_all b xs = Inr (b @ concat (map encoding xs))"
  by (induction xs arbitrary: b) (auto simp: encoded)

lemma get_put_all:
  assumes "list_all ok xs"
  shows "\<exists>bs. put_all [] xs = Inr bs \<and> (\<forall>n \<ge> length xs. get_all n bs = Inr xs)"
proof -
  have "get_all n (concat (map encoding xs)) = Inr xs" if "length xs \<le> n" for n
    using assms that
  proof (induction xs arbitrary: n)
    case (Cons x xs)
    then obtain m where n: "n = Suc m" "length xs \<le> m" by (cases n) auto
    from Cons.prems have x: "ok x" and "list_all ok xs" by auto
    then have "get_all m (concat (map encoding xs)) = Inr xs" using Cons.IH n(2) by blast
    moreover obtain c cs where "encoding x = c # cs" using encoded(4) [OF x] by (cases "encoding x") auto
    ultimately show ?case using encoded(2) [OF x, of "concat (map encoding xs)"] by (simp add: n(1))
  qed simp
  then show ?thesis by (auto simp: put_all_encoding [OF assms])
qed

end

section \<open>quicvarint\<close>

definition maxVarInt1 :: u64 where "maxVarInt1 = 63"
definition maxVarInt2 :: u64 where "maxVarInt2 = 16383"
definition maxVarInt4 :: u64 where "maxVarInt4 = 1073741823"
definition maxVarInt8 :: u64 where "maxVarInt8 = 4611686018427387903"

definition io_EOF :: go_error where "io_EOF = Errorf ''EOF''"
definition io_ErrUnexpectedEOF :: go_error where "io_ErrUnexpectedEOF = Errorf ''unexpected EOF''"
definition varintLengthError :: "u64 \<Rightarrow> go_error" where "varintLengthError i = Panic ''value doesn't fit into 62 bits''"

definition be64_get :: "bytes \<Rightarrow> u64" where
  "be64_get b = push_bit 56 (ucast (b ! 0)) OR push_bit 48 (ucast (b ! 1)) OR push_bit 40 (ucast (b ! 2)) OR push_bit 32 (ucast (b ! 3))
     OR push_bit 24 (ucast (b ! 4)) OR push_bit 16 (ucast (b ! 5)) OR push_bit 8 (ucast (b ! 6)) OR ucast (b ! 7)"

definition varint_Parse :: "bytes \<Rightarrow> (u64 \<times> nat) res" where
  "varint_Parse b =
     (if b = [] then Inl io_EOF
      else let first = b ! 0; hi = (ucast (first AND 0x3F) :: u64)
        in if drop_bit 6 first = 0 then Inr (hi, 1)
        else if drop_bit 6 first = 1 then
          (if length b < 2 then Inl io_ErrUnexpectedEOF else Inr (ucast (b ! 1) OR push_bit 8 hi, 2))
        else if drop_bit 6 first = 2 then
          (if length b < 4 then Inl io_ErrUnexpectedEOF
           else Inr (ucast (b ! 3) OR push_bit 8 (ucast (b ! 2)) OR push_bit 16 (ucast (b ! 1)) OR push_bit 24 hi, 4))
        else (if length b < 8 then Inl io_ErrUnexpectedEOF
           else Inr (be64_get b AND 0x3FFFFFFFFFFFFFFF, 8)))"

definition varint_Append :: "bytes \<Rightarrow> u64 \<Rightarrow> bytes res" where
  "varint_Append b i =
     (if i \<le> maxVarInt1 then Inr (b @ [ucast i])
      else if i \<le> maxVarInt2 then Inr (b @ [ucast (drop_bit 8 i) OR 0x40, ucast i])
      else if i \<le> maxVarInt4 then Inr (b @ [ucast (drop_bit 24 i) OR 0x80, ucast (drop_bit 16 i), ucast (drop_bit 8 i), ucast i])
      else if i \<le> maxVarInt8 then Inr (b @ [ucast (drop_bit 56 i) OR 0xC0, ucast (drop_bit 48 i), ucast (drop_bit 40 i), ucast (drop_bit 32 i),
        ucast (drop_bit 24 i), ucast (drop_bit 16 i), ucast (drop_bit 8 i), ucast i])
      else Inl (varintLengthError i))"

definition varint_Len :: "u64 \<Rightarrow> nat res" where
  "varint_Len i = (if i \<le> maxVarInt1 then Inr 1 else if i \<le> maxVarInt2 then Inr 2
     else if i \<le> maxVarInt4 then Inr 4 else if i \<le> maxVarInt8 then Inr 8 else Inl (varintLengthError i))"

definition varint_AppendWithLen :: "bytes \<Rightarrow> u64 \<Rightarrow> nat \<Rightarrow> bytes res" where
  "varint_AppendWithLen b i n =
     (if n \<noteq> 1 \<and> n \<noteq> 2 \<and> n \<noteq> 4 \<and> n \<noteq> 8 then Inl (Panic ''invalid varint length'')
      else case varint_Len i of
        Inl e \<Rightarrow> Inl e
      | Inr l \<Rightarrow>
          if l = n then varint_Append b i
          else if l > n then Inl (Panic ''cannot encode'')
          else let b1 = (if n = 2 then b @ [0x40] else if n = 4 then b @ [0x80] else if n = 8 then b @ [0xC0] else b)
            in Inr (b1 @ replicate (n - l - 1) 0 @ map (\<lambda>j. ucast (drop_bit (8 * (l - 1 - j)) i)) [0..<l]))"

text \<open>Reading from a byte reader: its input is a list, an empty one is the end of the stream.\<close>

definition ReadByte :: "bytes \<Rightarrow> (8 word \<times> bytes) res" where
  "ReadByte r = (case r of [] \<Rightarrow> Inl io_EOF | x # xs \<Rightarrow> Inr (x, xs))"

fun read_bytes :: "nat \<Rightarrow> bytes \<Rightarrow> (bytes \<times> bytes) res" where
  "read_bytes 0 r = Inr ([], r)"
| "read_bytes (Suc n) r = (case ReadByte r of Inl e \<Rightarrow> Inl e
     | Inr (x, r1) \<Rightarrow> (case read_bytes n r1 of Inl e \<Rightarrow> Inl e | Inr (xs, r2) \<Rightarrow> Inr (x # xs, r2)))"

definition varint_Read :: "bytes \<Rightarrow> (u64 \<times> bytes) res" where
  "varint_Read r = (case ReadByte r of
     Inl e \<Rightarrow> Inl e
   | Inr (firstByte, r1) \<Rightarrow>
       let l = (2 :: nat) ^ unat (drop_bit 6 (firstByte AND 0xC0)); b1 = firstByte AND (0xFF - 0xC0)
       in if l = 1 then Inr (ucast b1, r1)
       else case read_bytes 1 r1 of
         Inl e \<Rightarrow> Inl e
       | Inr (c2, r2) \<Rightarrow>
           if l = 2 then Inr (ucast (c2 ! 0) + push_bit 8 (ucast b1), r2)
           else (case read_bytes 2 r2 of
             Inl e \<Rightarrow> Inl e
           | Inr (c4, r4) \<Rightarrow>
               if l = 4 then Inr (ucast (c4 ! 1) + push_bit 8 (ucast (c4 ! 0)) + push_bit 16 (ucast (c2 ! 0)) + push_bit 24 (ucast b1), r4)
               else (case read_bytes 4 r4 of
                 Inl e \<Rightarrow> Inl e
               | Inr (c8, r8) \<Rightarrow>
                   Inr (ucast (c8 ! 3) + push_bit 8 (ucast (c8 ! 2)) + push_bit 16 (ucast (c8 ! 1)) + push_bit 24 (ucast (c8 ! 0))
                     + push_bit 32 (ucast (c4 ! 1)) + push_bit 40 (ucast (c4 ! 0)) + push_bit 48 (ucast (c2 ! 0)) + push_bit 56 (ucast b1), r8))))"

section \<open>Correctness\<close>

text \<open>The bits above the length of a number are zero.\<close>

lemma bit_small: "unat w < 2 ^ n \<Longrightarrow> bit w k \<Longrightarrow> k < n"
  by (metis bit_take_bit_iff bit_unsigned_iff possible_bit_nat possible_bit_word bit_imp_le_length take_bit_nat_eq_self_iff linorder_not_less)

lemma bit_tag:
  "bit (0x40 :: 8 word) k \<longleftrightarrow> k = 6" "bit (0x80 :: 8 word) k \<longleftrightarrow> k = 7" "bit (0xC0 :: int) k \<longleftrightarrow> k = 6 \<or> k = 7"
proof -
  show "bit (0x40 :: 8 word) k \<longleftrightarrow> k = 6" using bit_exp_iff [of 6 k, where ?'a = "8 word"] by auto
  show "bit (0x80 :: 8 word) k \<longleftrightarrow> k = 7" using bit_exp_iff [of 7 k, where ?'a = "8 word"] by auto
  have "(0xC0 :: int) = 2 ^ 6 OR 2 ^ 7" by simp
  then show "bit (0xC0 :: int) k \<longleftrightarrow> k = 6 \<or> k = 7" by (auto simp only: bit_or_iff bit_exp_iff) (simp_all)
qed

lemma and_masks:
  "(x :: 8 word) AND 0x3F = take_bit 6 x" "(y :: u64) AND 0x3FFFFFFFFFFFFFFF = take_bit 62 y"
  by (simp_all add: take_bit_eq_mask mask_eq_exp_minus_1)

lemma top_bits:
  fixes w :: u64
  shows "unat w < 64 \<Longrightarrow> drop_bit 6 (ucast w :: 8 word) = 0"
    and "unat w < 64 \<Longrightarrow> drop_bit 6 ((ucast w :: 8 word) OR 0x40) = 1"
    and "unat w < 64 \<Longrightarrow> drop_bit 6 ((ucast w :: 8 word) OR 0x80) = 2"
    and "unat w < 64 \<Longrightarrow> drop_bit 6 ((ucast w :: 8 word) OR 0xC0) = 3"
proof -
  assume "unat w < 64"
  then have z: "\<not> bit w (k + 6)" "\<not> bit w (6 + k)" for k using bit_small [of w 6 "k + 6"] by (auto simp: add.commute)
  show *: "drop_bit 6 (ucast w :: 8 word) = 0"
    by (rule bit_word_eqI) (auto simp: bit_simps z)
  show "drop_bit 6 ((ucast w :: 8 word) OR 0x40) = 1" "drop_bit 6 ((ucast w :: 8 word) OR 0x80) = 2"
    "drop_bit 6 ((ucast w :: 8 word) OR 0xC0) = 3" by (simp_all add: *)
qed

lemma value2:
  fixes w :: u64
  assumes "unat w < 2 ^ 14"
  shows "ucast (ucast w :: 8 word) OR push_bit 8 (ucast (take_bit 6 (ucast (drop_bit 8 w) OR 0x40 :: 8 word))) = w"
proof (rule bit_word_eqI)
  fix k :: nat
  assume "k < LENGTH(64)"
  consider "k < 8" | "8 \<le> k" "k < 14" | "14 \<le> k" by linarith
  then show "bit (ucast (ucast w :: 8 word) OR push_bit 8 (ucast (take_bit 6 (ucast (drop_bit 8 w) OR 0x40 :: 8 word)) :: u64)) k \<longleftrightarrow> bit w k"
    by cases (use bit_small [OF assms, of k] in \<open>auto simp: bit_simps bit_tag\<close>)
qed

lemma value4:
  fixes w :: u64
  assumes "unat w < 2 ^ 30"
  shows "ucast (ucast w :: 8 word) OR push_bit 8 (ucast (ucast (drop_bit 8 w) :: 8 word)) OR push_bit 16 (ucast (ucast (drop_bit 16 w) :: 8 word))
    OR push_bit 24 (ucast (take_bit 6 (ucast (drop_bit 24 w) OR 0x80 :: 8 word))) = w" (is "?v = w")
proof (rule bit_word_eqI)
  fix k :: nat
  assume "k < LENGTH(64)"
  consider "k < 8" | "8 \<le> k" "k < 16" | "16 \<le> k" "k < 24" | "24 \<le> k" "k < 30" | "30 \<le> k" by linarith
  then show "bit ?v k \<longleftrightarrow> bit w k"
    by cases (use bit_small [OF assms, of k] in \<open>auto simp: bit_simps bit_tag\<close>)
qed

lemma byte_bit_high: "8 \<le> n \<Longrightarrow> \<not> bit (x :: 8 word) n"
  using bit_imp_le_length by fastforce

lemma be64_bits:
  assumes "r < 8" and "q < 8"
  shows "bit (be64_get b) (8 * q + r) \<longleftrightarrow> bit (b ! (7 - q)) r"
proof -
  consider "q = 0" | "q = 1" | "q = 2" | "q = 3" | "q = 4" | "q = 5" | "q = 6" | "q = 7" using assms(2) by linarith
  then show ?thesis
    by cases (use assms(1) in \<open>simp_all add: be64_get_def bit_or_iff bit_push_bit_iff bit_unsigned_iff byte_bit_high\<close>)
qed

lemma value8:
  fixes w :: u64
  assumes "unat w < 2 ^ 62"
  shows "take_bit 62 (be64_get ([ucast (drop_bit 56 w) OR 0xC0, ucast (drop_bit 48 w), ucast (drop_bit 40 w), ucast (drop_bit 32 w),
        ucast (drop_bit 24 w), ucast (drop_bit 16 w), ucast (drop_bit 8 w), ucast w] @ t)) = w" (is "take_bit 62 (be64_get ?b) = w")
proof (rule bit_word_eqI)
  fix k :: nat
  assume "k < LENGTH(64)"
  define q r where "q = k div 8" and "r = k mod 8"
  with \<open>k < LENGTH(64)\<close> have k: "k = 8 * q + r" "r < 8" "q < 8" by simp_all
  have hi: "bit w k \<Longrightarrow> k < 62" using bit_small [OF assms, of k] by linarith
  consider "q = 0" | "q = 1" | "q = 2" | "q = 3" | "q = 4" | "q = 5" | "q = 6" | "q = 7" using k(3) by linarith
  then have "bit (?b ! (7 - q)) r \<longleftrightarrow> bit w k \<or> q = 7 \<and> 6 \<le> r"
    by cases (use k(2) in \<open>auto simp: k(1) bit_or_iff bit_unsigned_iff bit_drop_bit_eq bit_tag\<close>)
  moreover have "bit (take_bit 62 (be64_get ?b)) k \<longleftrightarrow> k < 62 \<and> bit (?b ! (7 - q)) r"
    using be64_bits [OF k(2,3), of ?b] by (simp only: bit_take_bit_iff k(1))
  ultimately show "bit (take_bit 62 (be64_get ?b)) k \<longleftrightarrow> bit w k" using hi k(1) by linarith
qed

lemma maxVarInt_bounds:
  "i \<le> maxVarInt1 \<longleftrightarrow> unat i < 2 ^ 6" "i \<le> maxVarInt2 \<longleftrightarrow> unat i < 2 ^ 14"
  "i \<le> maxVarInt4 \<longleftrightarrow> unat i < 2 ^ 30" "i \<le> maxVarInt8 \<longleftrightarrow> unat i < 2 ^ 62"
  by (auto simp: maxVarInt1_def maxVarInt2_def maxVarInt4_def maxVarInt8_def word_le_nat_alt)

lemma unat_drop_lt: "unat w < 2 ^ (n + 6) \<Longrightarrow> unat (drop_bit n w) < 64"
  unfolding unsigned_drop_bit_eq
  by (simp add: drop_bit_eq_div power_add) (metis less_mult_imp_div_less mult.commute order_le_less_trans div_le_mono take_bit_nat_less_eq_self)

lemma varint_put_get:
  assumes "i \<le> maxVarInt8"
  shows "\<exists>bs. (\<forall>b. varint_Append b i = Inr (b @ bs)) \<and> (\<forall>rest. varint_Parse (bs @ rest) = Inr (i, length bs)) \<and>
    varint_Len i = Inr (length bs) \<and> bs \<noteq> []"
proof -
  consider "unat i < 2 ^ 6" | "\<not> unat i < 2 ^ 6" "unat i < 2 ^ 14" | "\<not> unat i < 2 ^ 6" "\<not> unat i < 2 ^ 14" "unat i < 2 ^ 30"
    | "\<not> unat i < 2 ^ 6" "\<not> unat i < 2 ^ 14" "\<not> unat i < 2 ^ 30" "unat i < 2 ^ 62" using assms by (auto simp: maxVarInt_bounds)
  then show ?thesis
  proof cases
    case 1
    then have "ucast (take_bit 6 (ucast i :: 8 word)) = i"
      by (intro bit_word_eqI) (use bit_small [OF 1] in \<open>fastforce simp: bit_simps\<close>)
    with 1 top_bits(1) [of i] show ?thesis
      by (simp add: varint_Append_def varint_Len_def maxVarInt_bounds varint_Parse_def and_masks)
  next
    case 2
    then have "unat (drop_bit 8 i) < 64" using unat_drop_lt [of i 8] by simp
    from top_bits(2) [OF this] value2 [OF 2(2)] 2 show ?thesis
      by (simp add: varint_Append_def varint_Len_def maxVarInt_bounds varint_Parse_def and_masks)
  next
    case 3
    then have "unat (drop_bit 24 i) < 64" using unat_drop_lt [of i 24] by simp
    from top_bits(3) [OF this] value4 [OF 3(3)] 3 show ?thesis
      by (simp add: varint_Append_def varint_Len_def maxVarInt_bounds varint_Parse_def and_masks)
  next
    case 4
    then have "unat (drop_bit 56 i) < 64" using unat_drop_lt [of i 56] by simp
    from top_bits(4) [OF this] value8 [OF 4(4)] 4 show ?thesis
      by (simp add: varint_Append_def varint_Len_def maxVarInt_bounds varint_Parse_def and_masks)
  qed
qed

interpretation varint: wire_codec "\<lambda>i. i \<le> maxVarInt8" varint_Append varint_Parse varint_Len
  by unfold_locales (rule varint_put_get)

text \<open>Longer encodings than necessary.\<close>

lemma take_small: "unat w < 2 ^ n \<Longrightarrow> take_bit n w = w"
  by (rule bit_word_eqI) (auto simp: bit_simps dest: bit_small)

lemma low_bytes:
  fixes w :: u64
  shows "unat w < 2 ^ 6 \<Longrightarrow> ucast (ucast w :: 8 word) = w"
    and "unat w < 2 ^ 14 \<Longrightarrow> ucast (ucast w :: 8 word) OR push_bit 8 (ucast (ucast (drop_bit 8 w) :: 8 word)) = w"
    and "unat w < 2 ^ 30 \<Longrightarrow> ucast (ucast w :: 8 word) OR push_bit 8 (ucast (ucast (drop_bit 8 w) :: 8 word))
      OR push_bit 16 (ucast (ucast (drop_bit 16 w) :: 8 word)) OR push_bit 24 (ucast (ucast (drop_bit 24 w) :: 8 word)) = w"
proof -
  show "ucast (ucast w :: 8 word) = w" if "unat w < 2 ^ 6"
    by (rule bit_word_eqI) (use bit_small [OF that] in \<open>fastforce simp: bit_simps\<close>)
  show "ucast (ucast w :: 8 word) OR push_bit 8 (ucast (ucast (drop_bit 8 w) :: 8 word)) = w" if "unat w < 2 ^ 14"
    by (rule bit_word_eqI) (use bit_small [OF that] in \<open>fastforce simp: bit_simps\<close>)
  show "ucast (ucast w :: 8 word) OR push_bit 8 (ucast (ucast (drop_bit 8 w) :: 8 word))
      OR push_bit 16 (ucast (ucast (drop_bit 16 w) :: 8 word)) OR push_bit 24 (ucast (ucast (drop_bit 24 w) :: 8 word)) = w" (is "?v = w")
    if b: "unat w < 2 ^ 30"
  proof (rule bit_word_eqI)
    fix k :: nat
    assume "k < LENGTH(64)"
    consider "k < 8" | "8 \<le> k" "k < 16" | "16 \<le> k" "k < 24" | "24 \<le> k" "k < 30" | "30 \<le> k" by linarith
    then show "bit ?v k \<longleftrightarrow> bit w k" by cases (use bit_small [OF b, of k] in \<open>auto simp: bit_simps\<close>)
  qed
qed

lemma low_bytes_be:
  fixes w :: u64
  shows "unat w < 2 ^ 14 \<Longrightarrow> take_bit 62 (push_bit 8 (ucast (ucast (drop_bit 8 w) :: 8 word)) OR ucast (ucast w :: 8 word)) = w"
    and "unat w < 2 ^ 30 \<Longrightarrow> take_bit 62 (push_bit 24 (ucast (ucast (drop_bit 24 w) :: 8 word)) OR push_bit 16 (ucast (ucast (drop_bit 16 w) :: 8 word))
      OR push_bit 8 (ucast (ucast (drop_bit 8 w) :: 8 word)) OR ucast (ucast w :: 8 word)) = w"
proof -
  have t: "take_bit 62 w = w" if "unat w < 2 ^ 30" using that by (intro take_small) simp
  have "push_bit 8 (ucast (ucast (drop_bit 8 w) :: 8 word)) OR ucast (ucast w :: 8 word) = w" if "unat w < 2 ^ 14"
    using low_bytes(2) [OF that] by (simp only: or.commute)
  then show "take_bit 62 (push_bit 8 (ucast (ucast (drop_bit 8 w) :: 8 word)) OR ucast (ucast w :: 8 word)) = w" if "unat w < 2 ^ 14"
    using t that by (simp del: take_bit_or)
  have "push_bit 24 (ucast (ucast (drop_bit 24 w) :: 8 word)) OR push_bit 16 (ucast (ucast (drop_bit 16 w) :: 8 word))
      OR push_bit 8 (ucast (ucast (drop_bit 8 w) :: 8 word)) OR ucast (ucast w :: 8 word) = w" if "unat w < 2 ^ 30"
    using low_bytes(3) [OF that] by (simp only: or.commute or.left_commute or.assoc)
  then show "take_bit 62 (push_bit 24 (ucast (ucast (drop_bit 24 w) :: 8 word)) OR push_bit 16 (ucast (ucast (drop_bit 16 w) :: 8 word))
      OR push_bit 8 (ucast (ucast (drop_bit 8 w) :: 8 word)) OR ucast (ucast w :: 8 word)) = w" if "unat w < 2 ^ 30"
    using t that by (simp del: take_bit_or)
qed

lemma upt_few: "[0..<2] = [0, Suc 0]" "[0..<4] = [0, Suc 0, 2, 3]"
  by (simp_all add: upt_rec eval_nat_numeral)

lemma replicate_few: "replicate 2 x = [x, x]" "replicate 3 x = [x, x, x]" "replicate 5 x = [x, x, x, x, x]" "replicate 6 x = [x, x, x, x, x, x]"
  by (simp_all add: eval_nat_numeral)

lemma padded_bytes:
  assumes "varint_Len i = Inr l" and "l < n" and "n = 2 \<or> n = 4 \<or> n = 8"
  shows "varint_AppendWithLen b i n = Inr (b @ (if n = 2 then 0x40 else if n = 4 then 0x80 else 0xC0) # replicate (n - l - 1) 0
    @ map (\<lambda>j. ucast (drop_bit (8 * (l - 1 - j)) i)) [0..<l])"
  using assms by (auto simp: varint_AppendWithLen_def)

lemma padded_get:
  assumes "varint_Len i = Inr l" and "l < n" and "n = 2 \<or> n = 4 \<or> n = 8"
  shows "\<exists>bs. (\<forall>b. varint_AppendWithLen b i n = Inr (b @ bs)) \<and> length bs = n \<and> (\<forall>rest. varint_Parse (bs @ rest) = Inr (i, n))"
proof -
  have "l = 1 \<and> unat i < 2 ^ 6 \<or> l = 2 \<and> unat i < 2 ^ 14 \<or> l = 4 \<and> unat i < 2 ^ 30"
    using assms by (auto simp: varint_Len_def maxVarInt_bounds split: if_splits)
  then consider "l = 1" "unat i < 2 ^ 6" | "l = 2" "unat i < 2 ^ 14" | "l = 4" "unat i < 2 ^ 30" by blast
  then show ?thesis
  proof cases
    case 1
    with assms(2,3) low_bytes(1) [of i] show ?thesis unfolding padded_bytes [OF assms]
      by (elim disjE) (simp_all add: replicate_few varint_Parse_def be64_get_def and_masks take_small)
  next
    case 2
    with assms(2,3) low_bytes(2) [of i] low_bytes_be(1) [of i] show ?thesis unfolding padded_bytes [OF assms]
      by (elim disjE) (simp_all add: replicate_few upt_few varint_Parse_def be64_get_def and_masks or.assoc)
  next
    case 3
    with assms(2,3) low_bytes(3) [of i] low_bytes_be(2) [of i] show ?thesis unfolding padded_bytes [OF assms]
      by (elim disjE) (simp_all add: replicate_few upt_few varint_Parse_def be64_get_def and_masks or.assoc)
  qed
qed

text \<open>The byte-wise reader adds the bytes where the parser combines them bitwise.\<close>

definition below_bit :: "nat \<Rightarrow> u64 \<Rightarrow> bool" where
  "below_bit m v \<longleftrightarrow> (\<forall>k. bit v k \<longrightarrow> k < m)"

lemma below_byte: "below_bit 8 (ucast (x :: 8 word))"
  by (auto simp: below_bit_def bit_simps dest: bit_imp_le_length)

lemma add_byte:
  assumes "below_bit m v"
  shows "v + push_bit m (ucast (x :: 8 word)) = v OR push_bit m (ucast x)" "below_bit (m + 8) (v OR push_bit m (ucast x))"
proof -
  show "v + push_bit m (ucast x) = v OR push_bit m (ucast x)"
    using assms by (intro disjunctive_add) (auto simp: below_bit_def bit_simps)
  show "below_bit (m + 8) (v OR push_bit m (ucast x))"
    using assms by (fastforce simp: below_bit_def bit_simps dest: bit_imp_le_length)
qed

lemma sums_are_ors:
  fixes a b c d e f g h :: "8 word"
  shows "ucast a + push_bit 8 (ucast b) = (ucast a OR push_bit 8 (ucast b) :: u64)"
    and "ucast a + push_bit 8 (ucast b) + push_bit 16 (ucast c) + push_bit 24 (ucast d)
      = (ucast a OR push_bit 8 (ucast b) OR push_bit 16 (ucast c) OR push_bit 24 (ucast d) :: u64)"
    and "ucast a + push_bit 8 (ucast b) + push_bit 16 (ucast c) + push_bit 24 (ucast d) + push_bit 32 (ucast e) + push_bit 40 (ucast f)
        + push_bit 48 (ucast g) + push_bit 56 (ucast h)
      = be64_get (h # g # f # e # d # c # b # a # t)"
proof -
  note p1 = add_byte [OF below_byte [of a], of b, simplified] 
  note p2 = add_byte [OF p1(2), of c, simplified]
  note p3 = add_byte [OF p2(2), of d, simplified]
  note p4 = add_byte [OF p3(2), of e, simplified]
  note p5 = add_byte [OF p4(2), of f, simplified]
  note p6 = add_byte [OF p5(2), of g, simplified]
  note p7 = add_byte [OF p6(2), of h, simplified]
  show "ucast a + push_bit 8 (ucast b) = (ucast a OR push_bit 8 (ucast b) :: u64)" by (rule p1)
  show "ucast a + push_bit 8 (ucast b) + push_bit 16 (ucast c) + push_bit 24 (ucast d)
      = (ucast a OR push_bit 8 (ucast b) OR push_bit 16 (ucast c) OR push_bit 24 (ucast d) :: u64)"
    by (simp only: p1 p2 p3) (simp only: or.assoc)
  have "ucast a + push_bit 8 (ucast b) + push_bit 16 (ucast c) + push_bit 24 (ucast d) + push_bit 32 (ucast e) + push_bit 40 (ucast f)
        + push_bit 48 (ucast g) + push_bit 56 (ucast h)
      = (((((((ucast a OR push_bit 8 (ucast b)) OR push_bit 16 (ucast c)) OR push_bit 24 (ucast d)) OR push_bit 32 (ucast e)) OR push_bit 40 (ucast f))
        OR push_bit 48 (ucast g)) OR push_bit 56 (ucast h) :: u64)"
    by (simp only: p1 p2 p3 p4 p5 p6 p7)
  then show "ucast a + push_bit 8 (ucast b) + push_bit 16 (ucast c) + push_bit 24 (ucast d) + push_bit 32 (ucast e) + push_bit 40 (ucast f)
        + push_bit 48 (ucast g) + push_bit 56 (ucast h)
      = be64_get (h # g # f # e # d # c # b # a # t)"
    by (simp add: be64_get_def or.assoc or.commute or.left_commute)
qed

lemma be64_mask: "be64_get (take_bit 6 x # xs) = take_bit 62 (be64_get (x # xs))"
proof (rule bit_word_eqI)
  fix k :: nat
  assume "k < LENGTH(64)"
  define q r where "q = k div 8" and "r = k mod 8"
  with \<open>k < LENGTH(64)\<close> have k: "k = 8 * q + r" "r < 8" "q < 8" by simp_all
  show "bit (be64_get (take_bit 6 x # xs)) k \<longleftrightarrow> bit (take_bit 62 (be64_get (x # xs))) k"
    unfolding bit_take_bit_iff k(1) be64_bits [OF k(2,3)] using k(2,3) by (cases "q = 7") (auto simp: bit_take_bit_iff nth_Cons')
qed

lemma tag_length:
  fixes x :: "8 word"
  shows "drop_bit 6 (x AND 0xC0) = drop_bit 6 x" "drop_bit 6 x = 0 \<or> drop_bit 6 x = 1 \<or> drop_bit 6 x = 2 \<or> drop_bit 6 x = 3"
proof -
  show "drop_bit 6 (x AND 0xC0) = drop_bit 6 x"
  proof (rule bit_word_eqI)
    fix k :: nat
    have "bit x (6 + k) \<Longrightarrow> 6 + k < 8" using bit_imp_le_length [of x "6 + k"] by simp
    then have "bit x (6 + k) \<Longrightarrow> k = 0 \<or> k = 1" by linarith
    then show "bit (drop_bit 6 (x AND 0xC0)) k \<longleftrightarrow> bit (drop_bit 6 x) k"
      by (auto simp: bit_drop_bit_eq bit_and_iff bit_tag)
  qed
  have "unat (drop_bit 6 x) < 4"
    using unsigned_less [of x, where ?'a = nat] unfolding unsigned_drop_bit_eq by (simp add: drop_bit_eq_div take_bit_nat_eq_self)
  then have "unat (drop_bit 6 x) \<in> {0, 1, 2, 3}" by auto
  then show "drop_bit 6 x = 0 \<or> drop_bit 6 x = 1 \<or> drop_bit 6 x = 2 \<or> drop_bit 6 x = 3"
    by (simp add: word_unat_eq_iff)
qed


lemma read_bytes_few:
  "read_bytes n r = (if length r < n then Inl io_EOF else Inr (take n r, drop n r))"
proof (induction n arbitrary: r)
  case (Suc n)
  then show ?case by (cases r) (simp_all add: ReadByte_def)
qed simp

lemma varint_Read_Parse:
  "varint_Read r = (case varint_Parse r of Inl e \<Rightarrow> Inl io_EOF | Inr (v, n) \<Rightarrow> Inr (v, drop n r))"
proof (cases r)
  case Nil
  then show ?thesis by (simp add: varint_Read_def varint_Parse_def ReadByte_def)
next
  case (Cons x xs)
  consider "drop_bit 6 x = 0" | "drop_bit 6 x = 1" | "drop_bit 6 x = 2" | "drop_bit 6 x = 3" using tag_length(2) by blast
  then show ?thesis
  proof cases
    case 1
    then show ?thesis by (simp add: Cons varint_Read_def varint_Parse_def ReadByte_def tag_length(1))
  next
    case 2
    then show ?thesis by (cases xs) (simp_all add: Cons varint_Read_def varint_Parse_def ReadByte_def tag_length(1) sums_are_ors)
  next
    case 3
    have "(\<exists>a b c t. xs = a # b # c # t) \<or> length xs < 3" by (cases xs rule: remdups_adj.cases; cases "tl (tl xs)") auto
    with 3 show ?thesis
      by (auto simp: Cons varint_Read_def varint_Parse_def ReadByte_def tag_length(1) sums_are_ors(2) read_bytes_few Let_def)
  next
    case 4
    have "(\<exists>a b c d e f g t. xs = a # b # c # d # e # f # g # t) \<or> length xs < 7" 
    proof (cases "7 \<le> length xs")
      case True
      then show ?thesis by (simp add: numeral_eq_Suc Suc_le_length_iff) blast
    qed simp
    with 4 show ?thesis
      by (auto simp: Cons varint_Read_def varint_Parse_def ReadByte_def tag_length(1) read_bytes_few Let_def be64_mask [symmetric] and_masks
        intro: sums_are_ors(3))
  qed
qed


text \<open>C32: Variable-length integers round trip. Every number up to the maximum of 62 bits is written by \<open>Append\<close> in
  exactly \<open>Len\<close> bytes, and for every legal length that is not shorter by \<open>AppendWithLen\<close> in that length; both
  are read back by \<open>Parse\<close> and by the byte-wise \<open>Read\<close>, whatever follows, and leave exactly the rest. A
  larger number makes the writers panic, and \<open>Read\<close> and \<open>Parse\<close> agree on every input.\<close>

theorem varint_roundtrip:
  "if i \<le> maxVarInt8
   then \<exists>l. varint_Len i = Inr l \<and> varint_AppendWithLen b i l = varint_Append b i \<and>
     (\<forall>n \<in> {1, 2, 4, 8}. if n < l then \<exists>m. varint_AppendWithLen b i n = Inl (Panic m)
        else \<exists>bs. varint_AppendWithLen b i n = Inr (b @ bs) \<and> length bs = n \<and>
          varint_Parse (bs @ rest) = Inr (i, n) \<and> varint_Read (bs @ rest) = Inr (i, rest))
   else (\<exists>m. varint_Append b i = Inl (Panic m)) \<and> (\<exists>m. varint_Len i = Inl (Panic m))"
proof (cases "i \<le> maxVarInt8")
  case True
  from varint_put_get [OF True] obtain bs where bs: "\<forall>b. varint_Append b i = Inr (b @ bs)"
    "\<forall>rest. varint_Parse (bs @ rest) = Inr (i, length bs)" and l: "varint_Len i = Inr (length bs)" by blast
  have s: "length bs \<in> {1, 2, 4, 8}" using l by (auto simp: varint_Len_def split: if_splits)
  then have e: "varint_AppendWithLen b i (length bs) = varint_Append b i" by (auto simp: varint_AppendWithLen_def l)
  have "if n < length bs then \<exists>m. varint_AppendWithLen b i n = Inl (Panic m)
        else \<exists>bs. varint_AppendWithLen b i n = Inr (b @ bs) \<and> length bs = n \<and>
          varint_Parse (bs @ rest) = Inr (i, n) \<and> varint_Read (bs @ rest) = Inr (i, rest)" if n: "n \<in> {1, 2, 4, 8}" for n
  proof -
    consider "n < length bs" | "n = length bs" | "length bs < n" by linarith
    then show ?thesis
    proof cases
      case 1
      then show ?thesis using n by (auto simp: varint_AppendWithLen_def l)
    next
      case 2
      then show ?thesis using bs e by (auto simp: varint_Read_Parse)
    next
      case 3
      with n s have "n = 2 \<or> n = 4 \<or> n = 8" by auto
      from padded_get [OF l 3 this] 3 show ?thesis by (auto simp: varint_Read_Parse)
    qed
  qed
  with True l e show ?thesis by auto
next
  case False
  then show ?thesis by (auto simp: varint_Append_def varint_Len_def maxVarInt_bounds varintLengthError_def)
qed

lemma varint_roundtrip_witness:
  "(37 :: u64) \<le> maxVarInt8 \<and> (\<exists>bs. varint_AppendWithLen [] 37 2 = Inr bs \<and> length bs = 2 \<and> varint_Parse (bs @ [9]) = Inr (37, 2))"
proof -
  have m: "(37 :: u64) \<le> maxVarInt8" "varint_Len 37 = Inr 1" by (simp_all add: maxVarInt8_def varint_Len_def maxVarInt1_def)
  then show ?thesis using varint_roundtrip [of 37 "[]" "[9]"] by auto
qed

end
