(* ===== verification/Ack_Frame.thy ===== *)
theory Ack_Frame
  imports Quic_Varint "HOL-Library.Signed_Division"
begin

text \<open>
  ACK frames of the QUIC transport (\<^verbatim>\<open>deps/quic-go/internal/wire/ack_frame.go\<close>) and the receive timestamps the fork
  adds to them (\<^verbatim>\<open>ack_receive_timestamps.go\<close>). Packet numbers are signed 64 bit integers that stay below
  two to the power of 62 and are read as \<^typ>\<open>int\<close>; their conversion to \<^verbatim>\<open>uint64\<close> wraps around. The wire format is a
  sequence of variable-length integers.
\<close>

section \<open>Data\<close>

record ack_range =
  ar_Smallest :: int
  ar_Largest :: int

record receive_timestamp =
  rt_Packet :: int
  rt_Micros :: u64

record ack_frame =
  af_ReceiveTimestamps :: "receive_timestamp list"
  af_AckRanges :: "ack_range list"
  af_DelayTime :: int
  af_ECT0 :: u64
  af_ECT1 :: u64
  af_ECNCE :: u64

definition MaxNumAckRanges :: nat where "MaxNumAckRanges = 64"
definition AckDelayExponent :: nat where "AckDelayExponent = 3"
definition FrameTypeAck :: u64 where "FrameTypeAck = 2"
definition FrameTypeAckECN :: u64 where "FrameTypeAckECN = 3"

text \<open>The conversion \<^verbatim>\<open>uint64(x)\<close> of a signed integer.\<close>

definition uint64 :: "int \<Rightarrow> u64" where
  "uint64 i = word_of_int i"

section \<open>Sequences of variable-length integers\<close>

definition replaceUnexpectedEOF :: "go_error \<Rightarrow> go_error" where
  "replaceUnexpectedEOF e = (if e = io_ErrUnexpectedEOF then io_EOF else e)"

text \<open>The step \<^verbatim>\<open>v, l, err := quicvarint.Parse(b)\<close>, return on error, \<^verbatim>\<open>b = b[l:]\<close>.\<close>

definition next_varint :: "bytes \<Rightarrow> (u64 \<times> bytes) res" where
  "next_varint b = (case varint_Parse b of Inl e \<Rightarrow> Inl (replaceUnexpectedEOF e) | Inr (v, l) \<Rightarrow> Inr (v, drop l b))"

text \<open>Several \<^verbatim>\<open>b = quicvarint.Append(b, x)\<close> in a row, and the sum of their lengths.\<close>

fun varint_appends :: "bytes \<Rightarrow> u64 list \<Rightarrow> bytes res" where
  "varint_appends b [] = Inr b"
| "varint_appends b (x # xs) = (case varint_Append b x of Inl e \<Rightarrow> Inl e | Inr b1 \<Rightarrow> varint_appends b1 xs)"

fun varint_lens :: "u64 list \<Rightarrow> nat res" where
  "varint_lens [] = Inr 0"
| "varint_lens (x # xs) = (case varint_Len x of Inl e \<Rightarrow> Inl e
     | Inr l \<Rightarrow> (case varint_lens xs of Inl e \<Rightarrow> Inl e | Inr n \<Rightarrow> Inr (l + n)))"

section \<open>Parsing\<close>

fun ranges_descend :: "ack_range list \<Rightarrow> bool" where
  "ranges_descend (r # s # rs) = (\<not> ar_Smallest r \<le> ar_Smallest s \<and> \<not> ar_Smallest r \<le> ar_Largest s + 1 \<and> ranges_descend (s # rs))"
| "ranges_descend _ = True"

definition validateAckRanges :: "ack_frame \<Rightarrow> bool" where
  "validateAckRanges f = (af_AckRanges f \<noteq> [] \<and> list_all (\<lambda>r. \<not> ar_Smallest r > ar_Largest r) (af_AckRanges f) \<and>
     ranges_descend (af_AckRanges f))"

definition errInvalidAckRanges :: go_error where
  "errInvalidAckRanges = Errorf ''AckFrame: ACK frame contains invalid ACK ranges''"

fun parse_ranges :: "nat \<Rightarrow> int \<Rightarrow> bytes \<Rightarrow> (ack_range list \<times> bytes) res" where
  "parse_ranges 0 smallest b = Inr ([], b)"
| "parse_ranges (Suc n) smallest b = (case next_varint b of
     Inl e \<Rightarrow> Inl e
   | Inr (g, b1) \<Rightarrow>
       let gap = uint g
       in if smallest < gap + 2 then Inl errInvalidAckRanges
       else let largest = smallest - gap - 2
         in case next_varint b1 of
              Inl e \<Rightarrow> Inl e
            | Inr (ab, b2) \<Rightarrow>
                if uint ab > largest then Inl errInvalidAckRanges
                else (case parse_ranges n (largest - uint ab) b2 of
                  Inl e \<Rightarrow> Inl e
                | Inr (rs, b3) \<Rightarrow> Inr (\<lparr>ar_Smallest = largest - uint ab, ar_Largest = largest\<rparr> # rs, b3)))"

definition decode_delay :: "nat \<Rightarrow> u64 \<Rightarrow> int" where
  "decode_delay exponent delay = (let d = sint (push_bit exponent (delay * 1) * 1000) in if d < 0 then 2 ^ 63 - 1 else d)"

definition parse_ecn :: "bool \<Rightarrow> ack_frame \<Rightarrow> bytes \<Rightarrow> (ack_frame \<times> bytes) res" where
  "parse_ecn ecn f b = (if \<not> ecn then Inr (f, b) else case next_varint b of
     Inl e \<Rightarrow> Inl e
   | Inr (ect0, b1) \<Rightarrow> (case next_varint b1 of
       Inl e \<Rightarrow> Inl e
     | Inr (ect1, b2) \<Rightarrow> (case next_varint b2 of
         Inl e \<Rightarrow> Inl e
       | Inr (ecnce, b3) \<Rightarrow> Inr (f\<lparr>af_ECT0 := ect0, af_ECT1 := ect1, af_ECNCE := ecnce\<rparr>, b3))))"

text \<open>The frame that is filled in belongs to the parser; after an error it is not used before its next reset.\<close>

definition parseAckFrame :: "ack_frame \<Rightarrow> bytes \<Rightarrow> u64 \<Rightarrow> nat \<Rightarrow> (ack_frame \<times> nat) res" where
  "parseAckFrame frame b typ ackDelayExponent = (case next_varint b of
     Inl e \<Rightarrow> Inl e
   | Inr (la, b1) \<Rightarrow> (case next_varint b1 of
       Inl e \<Rightarrow> Inl e
     | Inr (delay, b2) \<Rightarrow> (case next_varint b2 of
         Inl e \<Rightarrow> Inl e
       | Inr (numBlocks, b3) \<Rightarrow> (case next_varint b3 of
           Inl e \<Rightarrow> Inl e
         | Inr (ab, b4) \<Rightarrow>
             if uint ab > uint la then Inl (Errorf ''invalid first ACK range'')
             else let smallest = uint la - uint ab
               in case parse_ranges (unat numBlocks) smallest b4 of
                    Inl e \<Rightarrow> Inl e
                  | Inr (rs, b5) \<Rightarrow>
                      let f = frame\<lparr>af_DelayTime := decode_delay ackDelayExponent delay,
                          af_AckRanges := af_AckRanges frame @ \<lparr>ar_Smallest = smallest, ar_Largest = uint la\<rparr> # rs\<rparr>
                      in if \<not> validateAckRanges f then Inl errInvalidAckRanges
                      else (case parse_ecn (typ = FrameTypeAckECN) f b5 of
                        Inl e \<Rightarrow> Inl e
                      | Inr (f1, b6) \<Rightarrow> Inr (f1, length b - length b6))))))"

section \<open>Writing\<close>

definition LargestAcked :: "ack_frame \<Rightarrow> int res" where
  "LargestAcked f = map_sum id ar_Largest (idx (af_AckRanges f) 0)"

definition LowestAcked :: "ack_frame \<Rightarrow> int res" where
  "LowestAcked f = (if af_AckRanges f = [] then Inl (Panic ''index out of range'')
     else Inr (ar_Smallest (af_AckRanges f ! (length (af_AckRanges f) - 1))))"

definition encodeAckDelay :: "int \<Rightarrow> u64" where
  "encodeAckDelay delay = uint64 (delay sdiv (1000 * 2 ^ AckDelayExponent))"

definition encodeAckRange :: "ack_frame \<Rightarrow> nat \<Rightarrow> u64 \<times> u64" where
  "encodeAckRange f i = (let rs = af_AckRanges f
     in if i = 0 then (0, uint64 (ar_Largest (rs ! 0) - ar_Smallest (rs ! 0)))
     else (uint64 (ar_Smallest (rs ! (i - 1)) - ar_Largest (rs ! i) - 2), uint64 (ar_Largest (rs ! i) - ar_Smallest (rs ! i))))"

definition hasECN :: "ack_frame \<Rightarrow> bool" where
  "hasECN f = (af_ECT0 f > 0 \<or> af_ECT1 f > 0 \<or> af_ECNCE f > 0)"

definition numRanges :: "ack_frame \<Rightarrow> nat" where
  "numRanges f = min (length (af_AckRanges f)) MaxNumAckRanges"

text \<open>The fields after the first range, as \<open>Append\<close> and \<open>Length\<close> run through them.\<close>

definition range_fields :: "ack_frame \<Rightarrow> u64 list" where
  "range_fields f = concat (map (\<lambda>i. [fst (encodeAckRange f i), snd (encodeAckRange f i)]) [1..<numRanges f])"

definition ecn_fields :: "ack_frame \<Rightarrow> u64 list" where
  "ecn_fields f = (if hasECN f then [af_ECT0 f, af_ECT1 f, af_ECNCE f] else [])"

definition append_plain :: "ack_frame \<Rightarrow> bytes \<Rightarrow> bytes res" where
  "append_plain f b = (case LargestAcked f of
     Inl e \<Rightarrow> Inl e
   | Inr la \<Rightarrow> varint_appends (b @ [ucast (if hasECN f then FrameTypeAckECN else FrameTypeAck)])
       ([uint64 la, encodeAckDelay (af_DelayTime f), of_nat (numRanges f - 1), snd (encodeAckRange f 0)]
        @ range_fields f @ ecn_fields f))"

definition length_plain :: "ack_frame \<Rightarrow> nat res" where
  "length_plain f = (case idx (af_AckRanges f) 0 of
     Inl e \<Rightarrow> Inl e
   | Inr r \<Rightarrow> (case varint_lens ([uint64 (ar_Largest r), encodeAckDelay (af_DelayTime f),
         uint64 (ar_Largest r - ar_Smallest r)] @ range_fields f @ ecn_fields f) of
       Inl e \<Rightarrow> Inl e | Inr n \<Rightarrow> Inr (2 + n)))"

section \<open>Receive timestamps\<close>

text \<open>The longest run of consecutive packet numbers at the front, and the rest.\<close>

fun take_run :: "receive_timestamp list \<Rightarrow> receive_timestamp list \<times> receive_timestamp list" where
  "take_run (t # u # ts) = (if rt_Packet t - rt_Packet u = 1
     then (case take_run (u # ts) of (run, rest) \<Rightarrow> (t # run, rest)) else ([t], u # ts))"
| "take_run ts = (ts, [])"

lemma take_run_append: "fst (take_run ts) @ snd (take_run ts) = ts"
  by (induction ts rule: take_run.induct) (auto split: prod.splits)

lemma take_run_progress: "length (snd (take_run (t # ts))) < Suc (length ts)"
proof -
  have "ts \<noteq> [] \<longrightarrow> length (snd (take_run ts)) < length ts" for ts
    by (induction ts rule: take_run.induct) (auto split: prod.splits)
  from this [of "t # ts"] show ?thesis by simp
qed

fun deltas :: "u64 \<Rightarrow> receive_timestamp list \<Rightarrow> u64 list" where
  "deltas prev [] = []"
| "deltas prev (t # ts) = (prev - rt_Micros t) # deltas (rt_Micros t) ts"

function timestamp_ranges :: "receive_timestamp option \<Rightarrow> u64 \<Rightarrow> receive_timestamp list \<Rightarrow> u64 list" where
  "timestamp_ranges before prev [] = []"
| "timestamp_ranges before prev (t # ts) = (case take_run (t # ts) of (run, rest) \<Rightarrow>
     (case before of None \<Rightarrow> 0 | Some u \<Rightarrow> uint64 (rt_Packet u - rt_Packet t - 2)) # of_nat (length run) #
     deltas prev run @ timestamp_ranges (Some (last run)) (rt_Micros (last run)) rest)"
  by pat_completeness auto
termination
  by (relation "measure (\<lambda>(_, _, ts). length ts)") (use take_run_progress in \<open>auto, metis snd_conv\<close>)

text \<open>\<open>Append\<close> counts the ranges by their boundaries, \<open>Length\<close> by the turns of its loop.\<close>

function loop_turns :: "receive_timestamp list \<Rightarrow> nat" where
  "loop_turns [] = 0"
| "loop_turns (t # ts) = Suc (loop_turns (snd (take_run (t # ts))))"
  by pat_completeness auto
termination
  by (relation "measure length") (use take_run_progress in auto)

fun count_runs :: "receive_timestamp list \<Rightarrow> nat" where
  "count_runs (t # u # ts) = (if rt_Packet t - rt_Packet u \<noteq> 1 then 1 else 0) + count_runs (u # ts)"
| "count_runs ts = 1"

definition without_timestamps :: "ack_frame \<Rightarrow> ack_frame" where
  "without_timestamps f = f\<lparr>af_ReceiveTimestamps := []\<rparr>"

definition normal :: "ack_frame \<Rightarrow> ack_frame" where
  "normal f = (without_timestamps f)\<lparr>af_ECT0 := 0, af_ECT1 := 0, af_ECNCE := 0\<rparr>"

definition appendReceiveTimestamps :: "ack_frame \<Rightarrow> bytes \<Rightarrow> bytes res" where
  "appendReceiveTimestamps f b = (case varint_Append b 0xB0 of
     Inl e \<Rightarrow> Inl e
   | Inr b1 \<Rightarrow> (case append_plain (normal f) b1 of
       Inl e \<Rightarrow> Inl e
     | Inr b2 \<Rightarrow>
         let b3 = take (length b1) b2 @ drop (length b1 + 1) b2; times = af_ReceiveTimestamps f; t0 = times ! 0
         in case varint_appends b3 ([uint64 (rt_Packet t0), rt_Micros t0, of_nat (count_runs times)]
                @ timestamp_ranges None (rt_Micros t0 * 2) times) of
              Inl e \<Rightarrow> Inl e
            | Inr b4 \<Rightarrow> if hasECN f then append_plain (without_timestamps f) b4 else Inr b4))"

definition receiveTimestampsLength :: "ack_frame \<Rightarrow> nat res" where
  "receiveTimestampsLength f = (case length_plain (normal f) of
     Inl e \<Rightarrow> Inl e
   | Inr n \<Rightarrow>
       let times = af_ReceiveTimestamps f; t0 = times ! 0
       in case varint_lens ([uint64 (rt_Packet t0), rt_Micros t0] @ timestamp_ranges None (rt_Micros t0 * 2) times
            @ [of_nat (loop_turns times)]) of
            Inl e \<Rightarrow> Inl e
          | Inr m \<Rightarrow> if hasECN f then map_sum id (\<lambda>k. n + 1 + m + k) (length_plain (without_timestamps f)) else Inr (n + 1 + m))"

definition ack_Append :: "ack_frame \<Rightarrow> bytes \<Rightarrow> bytes res" where
  "ack_Append f b = (if length (af_ReceiveTimestamps f) > 0 then appendReceiveTimestamps f b else append_plain f b)"

definition ack_Length :: "ack_frame \<Rightarrow> nat res" where
  "ack_Length f = (if length (af_ReceiveTimestamps f) > 0 then receiveTimestampsLength f else length_plain f)"

section \<open>Size limits\<close>

fun fit_ranges :: "ack_frame \<Rightarrow> int \<Rightarrow> nat \<Rightarrow> nat list \<Rightarrow> nat res" where
  "fit_ranges f maxSize n [] = Inr (numRanges f)"
| "fit_ranges f maxSize n (i # is) = (case encodeAckRange f i of (gap, l) \<Rightarrow>
     (case varint_lens [gap, l] of
        Inl e \<Rightarrow> Inl e
      | Inr rangeLen \<Rightarrow> if int (n + rangeLen) > maxSize then Inr i else fit_ranges f maxSize (n + rangeLen) is))"

definition numEncodableAckRanges :: "ack_frame \<Rightarrow> int \<Rightarrow> nat res" where
  "numEncodableAckRanges f maxSize =
     (let worst = 1 + 8 + 8 + 1 + 8 + (if hasECN f then 8 + 8 + 8 else 0) + 2 * 8 * (int (numRanges f) - 1)
      in if worst \<le> maxSize then Inr (numRanges f)
      else case LargestAcked f of
        Inl e \<Rightarrow> Inl e
      | Inr la \<Rightarrow> (case varint_lens ([uint64 la, encodeAckDelay (af_DelayTime f), snd (encodeAckRange f 0)] @ ecn_fields f) of
          Inl e \<Rightarrow> Inl e
        | Inr n \<Rightarrow> fit_ranges f maxSize (2 + n) [1..<numRanges f]))"

function trim_timestamps :: "int \<Rightarrow> ack_frame \<Rightarrow> ack_frame res" where
  "trim_timestamps maxSize f = (if af_ReceiveTimestamps f = [] then Inr f
     else case ack_Length f of
       Inl e \<Rightarrow> Inl e
     | Inr n \<Rightarrow> if int n > maxSize then trim_timestamps maxSize (f\<lparr>af_ReceiveTimestamps := butlast (af_ReceiveTimestamps f)\<rparr>) else Inr f)"
  by pat_completeness auto
termination
  by (relation "measure (\<lambda>(_, f). length (af_ReceiveTimestamps f))") auto

declare trim_timestamps.simps [simp del]

definition ack_Truncate :: "int \<Rightarrow> ack_frame \<Rightarrow> ack_frame res" where
  "ack_Truncate maxSize f = (case trim_timestamps maxSize f of
     Inl e \<Rightarrow> Inl e
   | Inr f1 \<Rightarrow> if af_ReceiveTimestamps f1 \<noteq> [] then Inr f1
       else (case numEncodableAckRanges f1 maxSize of
         Inl e \<Rightarrow> Inl e
       | Inr n \<Rightarrow> Inr (f1\<lparr>af_AckRanges := take n (af_AckRanges f1)\<rparr>)))"

section \<open>Queries\<close>

definition HasMissingRanges :: "ack_frame \<Rightarrow> bool" where
  "HasMissingRanges f = (length (af_AckRanges f) > 1)"

definition ack_Reset :: "ack_frame \<Rightarrow> ack_frame" where
  "ack_Reset f = f\<lparr>af_ReceiveTimestamps := [], af_DelayTime := 0, af_ECT0 := 0, af_ECT1 := 0, af_ECNCE := 0, af_AckRanges := []\<rparr>"

text \<open>\<^verbatim>\<open>sort.Search\<close>: binary search for the first index at which the predicate holds.\<close>

function sort_Search :: "(nat \<Rightarrow> bool) \<Rightarrow> nat \<Rightarrow> nat \<Rightarrow> nat" where
  "sort_Search P i j = (if i < j then (let h = (i + j) div 2 in if \<not> P h then sort_Search P (h + 1) j else sort_Search P i h) else i)"
  by pat_completeness auto
termination
  by (relation "measure (\<lambda>(_, i, j). j - i)") auto

declare sort_Search.simps [simp del]

definition AcksPacket :: "ack_frame \<Rightarrow> int \<Rightarrow> bool res" where
  "AcksPacket f p = (case LowestAcked f of
     Inl e \<Rightarrow> Inl e
   | Inr lo \<Rightarrow> (case LargestAcked f of
       Inl e \<Rightarrow> Inl e
     | Inr hi \<Rightarrow> if p < lo \<or> p > hi then Inr False
         else map_sum id (\<lambda>r. p \<le> ar_Largest r) (idx (af_AckRanges f)
           (sort_Search (\<lambda>i. p \<ge> ar_Smallest (af_AckRanges f ! i)) 0 (length (af_AckRanges f))))))"

fun keep_timestamps :: "ack_frame \<Rightarrow> receive_timestamp list \<Rightarrow> receive_timestamp list \<Rightarrow> receive_timestamp list res" where
  "keep_timestamps f out [] = Inr out"
| "keep_timestamps f out (t # ts) = (case AcksPacket f (rt_Packet t) of
     Inl e \<Rightarrow> Inl e
   | Inr False \<Rightarrow> keep_timestamps f out ts
   | Inr True \<Rightarrow>
       if out \<noteq> [] \<and> (rt_Packet t = rt_Packet (last out) \<or> rt_Micros t > rt_Micros (last out)) then keep_timestamps f out ts
       else keep_timestamps f (out @ [t]) ts)"

definition later_packet :: "receive_timestamp \<Rightarrow> receive_timestamp \<Rightarrow> bool" where
  "later_packet a b = (rt_Packet a > rt_Packet b)"

definition PrepareReceiveTimestamps :: "ack_frame \<Rightarrow> ack_frame res" where
  "PrepareReceiveTimestamps f = (case keep_timestamps f [] (sort_slice later_packet (af_ReceiveTimestamps f)) of
     Inl e \<Rightarrow> Inl e
   | Inr out \<Rightarrow> Inr (f\<lparr>af_ReceiveTimestamps := out\<rparr>))"

end
