(* ===== verification/Ack_Props.thy ===== *)
theory Ack_Props
  imports Ack_Frame
begin

text \<open>
  What ACK frames guarantee: a written frame is parsed back, its announced length is exact, the receive
  timestamps can be read by a reference reader, truncation respects the size limit, and the queries on
  ranges are queries on the set of packet numbers they denote.
\<close>

section \<open>Sequences of variable-length integers\<close>

abbreviation "vi \<equiv> \<lambda>x. x \<le> maxVarInt8"
abbreviation "enc \<equiv> varint.encoding"

definition encs :: "u64 list \<Rightarrow> bytes" where
  "encs xs = concat (map enc xs)"

lemma encs_simps [simp]: "encs [] = []" "encs (x # xs) = enc x @ encs xs" "encs (xs @ ys) = encs xs @ encs ys"
  by (simp_all add: encs_def)

lemma varint_appends_put_all: "varint_appends b xs = varint.put_all b xs"
  by (induction xs arbitrary: b) (auto split: sum.splits)

lemma varint_appends_enc: "list_all vi xs \<Longrightarrow> varint_appends b xs = Inr (b @ encs xs)"
  by (simp add: varint_appends_put_all varint.put_all_encoding encs_def)

lemma varint_lens_enc: "list_all vi xs \<Longrightarrow> varint_lens xs = Inr (length (encs xs))"
  by (induction xs) (auto simp: varint.encoded(3))

lemma next_varint_enc [simp]: "vi x \<Longrightarrow> next_varint (enc x @ rest) = Inr (x, rest)"
  by (simp add: next_varint_def varint.encoded(2))

lemma vi_uint64: "0 \<le> i \<Longrightarrow> i < 2 ^ 62 \<Longrightarrow> vi (uint64 i)"
  by (simp add: uint64_def maxVarInt8_def word_le_def uint_word_of_int)

lemma uint_uint64 [simp]: "0 \<le> i \<Longrightarrow> i < 2 ^ 62 \<Longrightarrow> uint (uint64 i) = i"
  by (simp add: uint64_def uint_word_of_int)

section \<open>Ranges on the wire\<close>

definition range_ok :: "ack_range \<Rightarrow> bool" where
  "range_ok r \<longleftrightarrow> 0 \<le> ar_Smallest r \<and> ar_Smallest r \<le> ar_Largest r \<and> ar_Largest r < 2 ^ 62"

fun gap_fields :: "ack_range list \<Rightarrow> u64 list" where
  "gap_fields (r # s # rs) = uint64 (ar_Smallest r - ar_Largest s - 2) # uint64 (ar_Largest s - ar_Smallest s) # gap_fields (s # rs)"
| "gap_fields rs = []"

lemma gap_fields_upt:
  "concat (map (\<lambda>i. [uint64 (ar_Smallest (rs ! (i - 1)) - ar_Largest (rs ! i) - 2),
     uint64 (ar_Largest (rs ! i) - ar_Smallest (rs ! i))]) [1..<min (length rs) m]) = gap_fields (take m rs)"
proof (induction rs arbitrary: m rule: gap_fields.induct)
  case (1 r s rs)
  show ?case
  proof (cases "m \<le> 1")
    case True
    then show ?thesis by (cases m) auto
  next
    case False
    then obtain k where m: "m = Suc (Suc k)" by (metis One_nat_def Suc_leI le_SucI not_less_eq_eq old.nat.exhaust)
    have u: "[Suc 0..<Suc (Suc n)] = Suc 0 # map Suc [Suc 0..<Suc n]" for n by (simp add: map_Suc_upt upt_conv_Cons del: upt_Suc)
    have c: "map (\<lambda>x. [uint64 (ar_Smallest ((r # s # rs) ! x) - ar_Largest ((s # rs) ! x) - 2), uint64 (ar_Largest ((s # rs) ! x) - ar_Smallest ((s # rs) ! x))]) [Suc 0..<n]
      = map (\<lambda>x. [uint64 (ar_Smallest ((s # rs) ! (x - Suc 0)) - ar_Largest ((s # rs) ! x) - 2), uint64 (ar_Largest ((s # rs) ! x) - ar_Smallest ((s # rs) ! x))]) [Suc 0..<n]" for n
      by (rule map_cong) (auto simp: nth_Cons')
    from 1 [of "Suc k"] show ?thesis by (simp add: m u o_def c del: upt_Suc)
  qed
next
  case "2_2"
  then show ?case by (cases m) auto
qed auto

lemma range_fields_gap: "range_fields f = gap_fields (take MaxNumAckRanges (af_AckRanges f))"
proof -
  have "range_fields f = concat (map (\<lambda>i. [uint64 (ar_Smallest (af_AckRanges f ! (i - 1)) - ar_Largest (af_AckRanges f ! i) - 2),
     uint64 (ar_Largest (af_AckRanges f ! i) - ar_Smallest (af_AckRanges f ! i))]) [1..<min (length (af_AckRanges f)) MaxNumAckRanges])"
    unfolding range_fields_def numRanges_def by (rule arg_cong [where f = concat], rule map_cong) (auto simp: encodeAckRange_def Let_def)
  then show ?thesis by (simp only: gap_fields_upt)
qed

lemma gap_fields_vi: "list_all range_ok rs \<Longrightarrow> ranges_descend rs \<Longrightarrow> list_all vi (gap_fields rs)"
  by (induction rs rule: gap_fields.induct) (auto simp: range_ok_def intro!: vi_uint64)

lemma parse_gap_fields:
  "list_all range_ok (r # rs) \<Longrightarrow> ranges_descend (r # rs) \<Longrightarrow>
    parse_ranges (length rs) (ar_Smallest r) (encs (gap_fields (r # rs)) @ rest) = Inr (rs, rest)"
proof (induction rs arbitrary: r)
  case (Cons s rs)
  then have s: "0 \<le> ar_Smallest s" "ar_Smallest s \<le> ar_Largest s" "ar_Largest s < 2 ^ 62" "0 \<le> ar_Smallest r" "ar_Smallest r < 2 ^ 62"
    "ar_Largest s + 1 < ar_Smallest r" by (auto simp: range_ok_def)
  let ?g = "ar_Smallest r - ar_Largest s - 2" and ?l = "ar_Largest s - ar_Smallest s"
  have v: "vi (uint64 ?g)" "vi (uint64 ?l)" "uint (uint64 ?g) = ?g" "uint (uint64 ?l) = ?l"
    using s by (auto intro!: vi_uint64 uint_uint64)
  from Cons have "parse_ranges (length rs) (ar_Smallest s) (encs (gap_fields (s # rs)) @ rest) = Inr (rs, rest)" by auto
  then show ?case using v s by simp
qed simp

section \<open>Round trip\<close>

text \<open>What the acknowledging side puts into a frame: valid ranges of packet numbers, a delay that is not
  negative and counters below the maximum.\<close>

definition ack_ok :: "ack_frame \<Rightarrow> bool" where
  "ack_ok f \<longleftrightarrow> validateAckRanges f \<and> list_all range_ok (af_AckRanges f) \<and> 0 \<le> af_DelayTime f \<and> af_DelayTime f < 2 ^ 63 \<and>
     vi (af_ECT0 f) \<and> vi (af_ECT1 f) \<and> vi (af_ECNCE f)"

text \<open>What arrives: at most 64 ranges, and the delay in units of eight microseconds.\<close>

definition received :: "ack_frame \<Rightarrow> ack_frame" where
  "received f = \<lparr>af_ReceiveTimestamps = [], af_AckRanges = take MaxNumAckRanges (af_AckRanges f),
     af_DelayTime = af_DelayTime f div 8000 * 8000, af_ECT0 = af_ECT0 f, af_ECT1 = af_ECT1 f, af_ECNCE = af_ECNCE f\<rparr>"

definition zero_ack :: ack_frame where
  "zero_ack = \<lparr>af_ReceiveTimestamps = [], af_AckRanges = [], af_DelayTime = 0, af_ECT0 = 0, af_ECT1 = 0, af_ECNCE = 0\<rparr>"

lemma encode_delay:
  assumes "0 \<le> d" and "d < 2 ^ 63"
  shows "vi (encodeAckDelay d)" and "decode_delay 3 (encodeAckDelay d) = d div 8000 * 8000"
proof -
  have e: "encodeAckDelay d = uint64 (d div 8000)"
    using assms by (cases "d = 0") (simp_all add: encodeAckDelay_def AckDelayExponent_def signed_divide_int_def)
  have b: "0 \<le> d div 8000" "d div 8000 < 2 ^ 62" using assms by auto
  show "vi (encodeAckDelay d)" unfolding e using b by (rule vi_uint64)
  have "push_bit 3 (uint64 (d div 8000) * 1) * 1000 = (of_int (d div 8000 * 8000) :: u64)"
    by (simp add: uint64_def push_bit_eq_mult)
  moreover have "sint (of_int (d div 8000 * 8000) :: u64) = d div 8000 * 8000"
  proof -
    have "d div 8000 * 8000 \<le> d" by (metis div_mult_mod_eq le_add_same_cancel1 pos_mod_sign zero_less_numeral)
    then show ?thesis using go_int64_id [of "d div 8000 * 8000"] assms b by (simp add: go_int64_def)
  qed
  ultimately show "decode_delay 3 (encodeAckDelay d) = d div 8000 * 8000"
    unfolding e decode_delay_def Let_def using b(1) by simp
qed

lemma ranges_descend_take: "ranges_descend rs \<Longrightarrow> ranges_descend (take n rs)"
proof (induction rs arbitrary: n rule: ranges_descend.induct)
  case (1 r s rs)
  show ?case
  proof (cases "n \<le> 1")
    case True
    then show ?thesis by (cases n) auto
  next
    case False
    then obtain k where "n = Suc (Suc k)" by (metis One_nat_def Suc_leI le_SucI not_less_eq_eq old.nat.exhaust)
    then show ?thesis using 1(2) 1(1) [of "Suc k"] by simp
  qed
next
  case "2_2"
  then show ?case by (cases n) auto
qed auto

lemma plain_roundtrip:
  assumes "ack_ok f" and "af_ReceiveTimestamps f = []"
  defines "typ \<equiv> if hasECN f then FrameTypeAckECN else FrameTypeAck"
  shows "\<exists>bs. (\<forall>b. append_plain f b = Inr (b @ ucast typ # bs)) \<and> length_plain f = Inr (1 + length bs) \<and>
    (\<forall>rest. parseAckFrame zero_ack (bs @ rest) typ 3 = Inr (received f, length bs))"
proof -
  obtain r rs where r: "af_AckRanges f = r # rs" using assms(1) by (cases "af_AckRanges f") (auto simp: ack_ok_def validateAckRanges_def)
  have ok: "list_all range_ok (r # rs)" "ranges_descend (r # rs)" using assms(1) r by (auto simp: ack_ok_def validateAckRanges_def)
  let ?rs = "take 63 rs"
  have t: "take MaxNumAckRanges (r # rs) = r # ?rs" by (simp add: MaxNumAckRanges_def take_Cons')
  have ok2: "list_all range_ok (r # ?rs)" "ranges_descend (r # ?rs)"
    using ok ranges_descend_take [of "r # rs" MaxNumAckRanges] t by (auto simp: list_all_iff dest: in_set_takeD)
  have n: "numRanges f - 1 = length ?rs" "numRanges f - Suc 0 = min (length rs) 63" by (simp_all add: numRanges_def r MaxNumAckRanges_def)
  have rb: "0 \<le> ar_Smallest r" "ar_Smallest r \<le> ar_Largest r" "ar_Largest r < 2 ^ 62" using ok by (auto simp: range_ok_def)
  have d: "0 \<le> af_DelayTime f" "af_DelayTime f < 2 ^ 63" and e: "vi (af_ECT0 f)" "vi (af_ECT1 f)" "vi (af_ECNCE f)"
    using assms(1) by (auto simp: ack_ok_def)
  let ?c = "of_nat (length ?rs) :: u64"
  have "length ?rs < 2 ^ 6" by simp
  then have u: "unat ?c < 2 ^ 6" "unat ?c = length ?rs" by (simp_all add: unsigned_of_nat take_bit_nat_eq_self)
  then have c: "vi ?c" "varint_Len ?c = Inr 1" by (auto simp: maxVarInt_bounds varint_Len_def)
  then have l: "length (enc ?c) = 1" using varint.encoded(3) [OF c(1)] by simp
  let ?ys = "gap_fields (r # ?rs) @ ecn_fields f"
  have v: "list_all vi ?ys" "vi (uint64 (ar_Largest r))" "vi (encodeAckDelay (af_DelayTime f))" "vi (uint64 (ar_Largest r - ar_Smallest r))"
    using gap_fields_vi [OF ok2] encode_delay(1) [OF d] rb e by (auto simp: ecn_fields_def intro!: vi_uint64)
  let ?bs = "enc (uint64 (ar_Largest r)) @ enc (encodeAckDelay (af_DelayTime f)) @ enc ?c @ enc (uint64 (ar_Largest r - ar_Smallest r)) @ encs ?ys"
  have 1: "append_plain f b = Inr (b @ ucast typ # ?bs)" for b
  proof -
    let ?xs = "[uint64 (ar_Largest r), encodeAckDelay (af_DelayTime f), of_nat (numRanges f - 1), uint64 (ar_Largest r - ar_Smallest r)] @ ?ys"
    have "list_all vi ?xs" using v c(1) by (simp add: n)
    then have "varint_appends (b @ [ucast typ]) ?xs = Inr ((b @ [ucast typ]) @ encs ?xs)" by (rule varint_appends_enc)
    then show ?thesis by (simp add: append_plain_def LargestAcked_def idx_def r encodeAckRange_def range_fields_gap t n typ_def)
  qed
  have 2: "length_plain f = Inr (1 + length ?bs)"
  proof -
    let ?xs = "[uint64 (ar_Largest r), encodeAckDelay (af_DelayTime f), uint64 (ar_Largest r - ar_Smallest r)] @ ?ys"
    have "list_all vi ?xs" using v by simp
    then have "varint_lens ?xs = Inr (length (encs ?xs))" by (rule varint_lens_enc)
    then show ?thesis by (simp add: length_plain_def idx_def r range_fields_gap t l [simplified])
  qed
  have 3: "parseAckFrame zero_ack (?bs @ rest) typ 3 = Inr (received f, length ?bs)" for rest
  proof -
    have p: "parse_ranges (unat ?c) (ar_Smallest r) (encs (gap_fields (r # ?rs)) @ encs (ecn_fields f) @ rest) = Inr (?rs, encs (ecn_fields f) @ rest)"
      unfolding u(2) by (rule parse_gap_fields [OF ok2])
    have val: "validateAckRanges (zero_ack\<lparr>af_DelayTime := x, af_AckRanges := af_AckRanges zero_ack @ r # ?rs\<rparr>)" for x
      using ok2 by (auto simp: validateAckRanges_def zero_ack_def list_all_iff range_ok_def)
    have ec: "parse_ecn (typ = FrameTypeAckECN) (zero_ack\<lparr>af_DelayTime := x, af_AckRanges := af_AckRanges zero_ack @ r # ?rs\<rparr>) (encs (ecn_fields f) @ rest)
      = Inr (zero_ack\<lparr>af_DelayTime := x, af_AckRanges := r # ?rs, af_ECT0 := af_ECT0 f, af_ECT1 := af_ECT1 f, af_ECNCE := af_ECNCE f\<rparr>, rest)" for x
      using e by (auto simp: parse_ecn_def typ_def ecn_fields_def FrameTypeAckECN_def FrameTypeAck_def zero_ack_def hasECN_def word_gt_0)
    have rr: "\<lparr>ar_Smallest = ar_Smallest r, ar_Largest = ar_Largest r\<rparr> = r" by (cases r) simp
    show ?thesis using v(2-4) c(1) rb p val ec
      by (simp add: parseAckFrame_def rr encode_delay(2) [OF d]) (simp add: received_def zero_ack_def r t)
  qed
  from 1 2 3 show ?thesis by blast
qed

section \<open>Reading receive timestamps\<close>

text \<open>
  A reference reader of the timestamp part of a frame of type 0xb0: the latest packet and its time, the
  number of ranges, and per range the gap to the previous range minus two, the number of packets and one
  number per packet, which is the time for the first packet and the decrease of the time for the others.
\<close>

fun read_deltas :: "nat \<Rightarrow> int \<Rightarrow> u64 option \<Rightarrow> bytes \<Rightarrow> (receive_timestamp list \<times> bytes) res" where
  "read_deltas 0 p prev b = Inr ([], b)"
| "read_deltas (Suc n) p prev b = (case next_varint b of
     Inl e \<Rightarrow> Inl e
   | Inr (d, b1) \<Rightarrow>
       let t = (case prev of None \<Rightarrow> d | Some x \<Rightarrow> x - d)
       in case read_deltas n (p - 1) (Some t) b1 of
            Inl e \<Rightarrow> Inl e
          | Inr (ts, b2) \<Rightarrow> Inr (\<lparr>rt_Packet = p, rt_Micros = t\<rparr> # ts, b2))"

fun read_stamp_ranges :: "nat \<Rightarrow> int \<Rightarrow> receive_timestamp option \<Rightarrow> bytes \<Rightarrow> (receive_timestamp list \<times> bytes) res" where
  "read_stamp_ranges 0 latest before b = Inr ([], b)"
| "read_stamp_ranges (Suc n) latest before b = (case next_varint b of
     Inl e \<Rightarrow> Inl e
   | Inr (gap, b1) \<Rightarrow> (case next_varint b1 of
       Inl e \<Rightarrow> Inl e
     | Inr (cnt, b2) \<Rightarrow>
         let p = (case before of None \<Rightarrow> latest | Some u \<Rightarrow> rt_Packet u - uint gap - 2)
         in case read_deltas (unat cnt) p (map_option rt_Micros before) b2 of
              Inl e \<Rightarrow> Inl e
            | Inr (run, b3) \<Rightarrow>
                if run = [] then Inl (Errorf ''empty timestamp range'')
                else (case read_stamp_ranges n latest (Some (last run)) b3 of
                  Inl e \<Rightarrow> Inl e
                | Inr (ts, b4) \<Rightarrow> Inr (run @ ts, b4))))"

definition read_receive_timestamps :: "bytes \<Rightarrow> (receive_timestamp list \<times> bytes) res" where
  "read_receive_timestamps b = (case next_varint b of
     Inl e \<Rightarrow> Inl e
   | Inr (p, b1) \<Rightarrow> (case next_varint b1 of
       Inl e \<Rightarrow> Inl e
     | Inr (latest_time, b2) \<Rightarrow> (case next_varint b2 of
         Inl e \<Rightarrow> Inl e
       | Inr (n, b3) \<Rightarrow> read_stamp_ranges (unat n) (uint p) None b3)))"

text \<open>Timestamps as the sender prepares them: newest packet first, and no packet later than a newer one.\<close>

definition stamp_desc :: "receive_timestamp \<Rightarrow> receive_timestamp \<Rightarrow> bool" where
  "stamp_desc a b \<longleftrightarrow> rt_Packet a > rt_Packet b \<and> rt_Micros a \<ge> rt_Micros b"

definition stamps_ok :: "receive_timestamp list \<Rightarrow> bool" where
  "stamps_ok ts \<longleftrightarrow> sorted_wrt stamp_desc ts \<and> length ts < 2 ^ 62 \<and>
     (\<forall>t \<in> set ts. 0 \<le> rt_Packet t \<and> rt_Packet t < 2 ^ 62 \<and> vi (rt_Micros t))"

fun consec :: "int \<Rightarrow> receive_timestamp list \<Rightarrow> bool" where
  "consec p [] = True"
| "consec p (t # ts) = (rt_Packet t = p \<and> consec (p - 1) ts)"

lemma take_run_consec: "ts \<noteq> [] \<Longrightarrow> consec (rt_Packet (hd ts)) (fst (take_run ts)) \<and> fst (take_run ts) \<noteq> [] \<and> hd (fst (take_run ts)) = hd ts"
proof (induction ts rule: take_run.induct)
  case (1 t u ts)
  then show ?case by (cases "rt_Packet t - rt_Packet u = 1") (auto split: prod.splits simp: algebra_simps)
qed auto

lemma take_run_stops: "take_run ts = (run, u # rest) \<Longrightarrow> rt_Packet (last run) - rt_Packet u \<noteq> 1"
proof (induction ts arbitrary: run rule: take_run.induct)
  case (1 t v ts)
  then show ?case using take_run_consec [of "v # ts"]
    by (cases "rt_Packet t - rt_Packet v = 1") (auto split: prod.splits)
qed auto

lemma count_runs_turns: "ts \<noteq> [] \<Longrightarrow> count_runs ts = loop_turns ts"
proof (induction ts rule: count_runs.induct)
  case (1 t u ts)
  then show ?case by (auto split: prod.splits)
qed auto

lemma deltas_vi: "sorted_wrt stamp_desc ts \<Longrightarrow> (\<forall>t \<in> set ts. vi (rt_Micros t)) \<Longrightarrow> ts \<noteq> [] \<Longrightarrow>
    vi prev \<and> rt_Micros (hd ts) \<le> prev \<or> prev = rt_Micros (hd ts) * 2 \<Longrightarrow> list_all vi (deltas prev ts)"
proof (induction ts arbitrary: prev)
  case (Cons t ts)
  have "vi (prev - rt_Micros t)"
    using Cons.prems by (auto simp: mult_2_right intro: order_trans [OF word_sub_le])
  moreover have "list_all vi (deltas (rt_Micros t) ts)"
    using Cons.prems Cons.IH [of "rt_Micros t"] by (cases ts) (auto simp: stamp_desc_def)
  ultimately show ?case by simp
qed simp

lemma read_deltas_enc:
  "list_all vi (deltas prev ts) \<Longrightarrow> consec p ts \<Longrightarrow> before = Some prev \<or> before = None \<and> ts \<noteq> [] \<and> prev = rt_Micros (hd ts) * 2 \<Longrightarrow>
    read_deltas (length ts) p before (encs (deltas prev ts) @ rest) = Inr (ts, rest)"
proof (induction ts arbitrary: prev p before)
  case (Cons t ts)
  have "(case before of None \<Rightarrow> prev - rt_Micros t | Some x \<Rightarrow> x - (prev - rt_Micros t)) = rt_Micros t"
    using Cons.prems(3) by auto
  moreover have "\<lparr>rt_Packet = p, rt_Micros = rt_Micros t\<rparr> = t" using Cons.prems(2) by (cases t) simp
  ultimately show ?case using Cons by simp
qed simp

lemma timestamp_ranges_enc:
  assumes "stamps_ok ts"
    and "case before of None \<Rightarrow> ts = [] \<or> latest = rt_Packet (hd ts) \<and> prev = rt_Micros (hd ts) * 2
      | Some u \<Rightarrow> prev = rt_Micros u \<and> vi prev \<and> rt_Packet u < 2 ^ 62 \<and> (ts = [] \<or> rt_Packet u - rt_Packet (hd ts) \<ge> 2 \<and> rt_Micros (hd ts) \<le> prev)"
  shows "list_all vi (timestamp_ranges before prev ts) \<and>
    read_stamp_ranges (loop_turns ts) latest before (encs (timestamp_ranges before prev ts) @ rest) = Inr (ts, rest)"
  using assms
proof (induction before prev ts rule: timestamp_ranges.induct)
  case (2 before prev t ts)
  obtain run tl where r: "take_run (t # ts) = (run, tl)" by fastforce
  have a: "run @ tl = t # ts" and c: "consec (rt_Packet t) run" "run \<noteq> []" "hd run = t"
    using take_run_append [of "t # ts"] take_run_consec [of "t # ts"] r by auto
  have so: "sorted_wrt stamp_desc run" "stamps_ok tl" "\<forall>x \<in> set run. 0 \<le> rt_Packet x \<and> rt_Packet x < 2 ^ 62 \<and> vi (rt_Micros x)"
    "length run < 2 ^ 62" "\<forall>x \<in> set run. \<forall>y \<in> set tl. stamp_desc x y"
    using 2(2) by (auto simp: stamps_ok_def a [symmetric] sorted_wrt_append)
  let ?g = "case before of None \<Rightarrow> 0 | Some u \<Rightarrow> uint64 (rt_Packet u - rt_Packet t - 2)"
  let ?p = "case before of None \<Rightarrow> latest | Some u \<Rightarrow> rt_Packet u - uint ?g - 2"
  have t: "0 \<le> rt_Packet t" "rt_Packet t < 2 ^ 62" using so(3) c(2,3) by (metis hd_in_set)+
  have g: "vi ?g" "?p = rt_Packet t"
    using 2(3) t by (auto split: option.splits intro!: vi_uint64)
  have n: "vi (of_nat (length run) :: u64)" "unat (of_nat (length run) :: u64) = length run"
    using so(4) by (simp_all add: maxVarInt_bounds unsigned_of_nat take_bit_nat_eq_self)
  have d: "list_all vi (deltas prev run)"
    using so 2(3) c by (intro deltas_vi) (auto split: option.splits)
  have rd: "read_deltas (length run) (rt_Packet t) (map_option rt_Micros before) (encs (deltas prev run) @ x) = Inr (run, x)" for x
    using d c 2(3) by (intro read_deltas_enc) (auto split: option.splits)
  have l: "last run \<in> set run" using c(2) by simp
  have ih: "list_all vi (timestamp_ranges (Some (last run)) (rt_Micros (last run)) tl) \<and>
      read_stamp_ranges (loop_turns tl) latest (Some (last run)) (encs (timestamp_ranges (Some (last run)) (rt_Micros (last run)) tl) @ rest) = Inr (tl, rest)"
  proof (rule 2(1) [OF r [symmetric]])
    show "stamps_ok tl" by (rule so(2))
    have "rt_Packet (last run) - rt_Packet (hd tl) \<ge> 2 \<and> rt_Micros (hd tl) \<le> rt_Micros (last run)" if "tl \<noteq> []"
    proof -
      from that obtain u us where u: "tl = u # us" by (cases tl) auto
      have "stamp_desc (last run) u" using so(5) l u by auto
      with take_run_stops [of "t # ts" run u us] r u show ?thesis by (auto simp: stamp_desc_def)
    qed
    then show "case Some (last run) of None \<Rightarrow> tl = [] \<or> latest = rt_Packet (hd tl) \<and> rt_Micros (last run) = rt_Micros (hd tl) * 2
      | Some u \<Rightarrow> rt_Micros (last run) = rt_Micros u \<and> vi (rt_Micros (last run)) \<and> rt_Packet u < 2 ^ 62 \<and> (tl = [] \<or> rt_Packet u - rt_Packet (hd tl) \<ge> 2 \<and> rt_Micros (hd tl) \<le> rt_Micros (last run))"
      using so(3) l by auto
  qed
  have lt: "loop_turns (t # ts) = Suc (loop_turns tl)" by (simp add: r)
  show ?case unfolding lt using ih d g n rd c(2) by (simp add: r a)
qed simp

lemma timestamps_readable:
  assumes "stamps_ok ts" and "ts \<noteq> []"
  defines "xs \<equiv> [uint64 (rt_Packet (hd ts)), rt_Micros (hd ts), of_nat (count_runs ts)] @ timestamp_ranges None (rt_Micros (hd ts) * 2) ts"
  shows "list_all vi xs" and "read_receive_timestamps (encs xs @ rest) = Inr (ts, rest)"
proof -
  have r: "list_all vi (timestamp_ranges None (rt_Micros (hd ts) * 2) ts)"
    "read_stamp_ranges (loop_turns ts) (rt_Packet (hd ts)) None (encs (timestamp_ranges None (rt_Micros (hd ts) * 2) ts) @ rest) = Inr (ts, rest)"
    using timestamp_ranges_enc [OF assms(1), where before = None and latest = "rt_Packet (hd ts)" and prev = "rt_Micros (hd ts) * 2" and rest = rest] by auto
  have h: "0 \<le> rt_Packet (hd ts)" "rt_Packet (hd ts) < 2 ^ 62" "vi (rt_Micros (hd ts))" "length ts < 2 ^ 62"
    using assms(1,2) by (auto simp: stamps_ok_def)
  have "loop_turns ts \<le> length ts" for ts
  proof (induction ts rule: loop_turns.induct)
    case (2 t ts)
    then show ?case using take_run_progress [of t ts] by simp
  qed simp
  from this [of ts] h(4) have "loop_turns ts < 2 ^ 62" by linarith
  then have n: "vi (of_nat (count_runs ts) :: u64)" "unat (of_nat (count_runs ts) :: u64) = loop_turns ts"
    by (simp_all add: count_runs_turns [OF assms(2)] maxVarInt_bounds unsigned_of_nat take_bit_nat_eq_self)
  show "list_all vi xs" using r h n vi_uint64 [OF h(1,2)] by (simp add: xs_def)
  show "read_receive_timestamps (encs xs @ rest) = Inr (ts, rest)"
    using r h n vi_uint64 [OF h(1,2)] by (simp add: xs_def read_receive_timestamps_def)
qed

lemma without_timestamps_simps [simp]:
  "hasECN (normal f) = False" "hasECN (without_timestamps f) = hasECN f" "received (without_timestamps f) = received f"
  "af_ReceiveTimestamps (normal f) = []" "af_ReceiveTimestamps (without_timestamps f) = []"
  by (simp_all add: normal_def without_timestamps_def hasECN_def received_def)

lemma ack_ok_without [simp]: "ack_ok f \<Longrightarrow> ack_ok (normal f)" "ack_ok f \<Longrightarrow> ack_ok (without_timestamps f)"
  by (auto simp: ack_ok_def normal_def without_timestamps_def validateAckRanges_def)

definition timestamp_frame :: "ack_frame \<Rightarrow> bytes \<Rightarrow> bool" where
  "timestamp_frame f bs \<longleftrightarrow> (\<exists>body stamps ecn. bs = [0x40, 0xB0] @ body @ stamps @ ecn \<and>
     (\<forall>rest. parseAckFrame zero_ack (body @ rest) FrameTypeAck 3 = Inr (received (normal f), length body)) \<and>
     (\<forall>rest. read_receive_timestamps (stamps @ rest) = Inr (af_ReceiveTimestamps f, rest)) \<and>
     (if hasECN f then \<exists>es. ecn = 3 # es \<and> (\<forall>rest. parseAckFrame zero_ack (es @ rest) FrameTypeAckECN 3 = Inr (received f, length es))
      else ecn = []))"

lemma timestamp_roundtrip:
  assumes "ack_ok f" and "stamps_ok (af_ReceiveTimestamps f)" and "af_ReceiveTimestamps f \<noteq> []"
  shows "\<exists>bs. (\<forall>b. ack_Append f b = Inr (b @ bs)) \<and> ack_Length f = Inr (length bs) \<and> timestamp_frame f bs"
proof -
  let ?ts = "af_ReceiveTimestamps f"
  let ?r = "timestamp_ranges None (rt_Micros (hd ?ts) * 2) ?ts"
  let ?xs = "[uint64 (rt_Packet (hd ?ts)), rt_Micros (hd ?ts), of_nat (count_runs ?ts)] @ ?r"
  have h: "?ts ! 0 = hd ?ts" using assms(3) by (simp add: hd_conv_nth)
  note rd = timestamps_readable [OF assms(2,3)]
  from plain_roundtrip [of "normal f"] assms(1) obtain bs where
    n: "\<And>b. append_plain (normal f) b = Inr (b @ ucast FrameTypeAck # bs)" "length_plain (normal f) = Inr (1 + length bs)"
      "\<And>rest. parseAckFrame zero_ack (bs @ rest) FrameTypeAck 3 = Inr (received (normal f), length bs)" by auto
  from plain_roundtrip [of "without_timestamps f"] assms(1) obtain es where
    es: "\<forall>b. append_plain (without_timestamps f) b = Inr (b @ ucast (if hasECN f then FrameTypeAckECN else FrameTypeAck) # es)"
      "length_plain (without_timestamps f) = Inr (1 + length es)"
      "\<forall>rest. parseAckFrame zero_ack (es @ rest) (if hasECN f then FrameTypeAckECN else FrameTypeAck) 3 = Inr (received f, length es)" by auto
  then have e: "hasECN f \<Longrightarrow> append_plain (without_timestamps f) b = Inr (b @ ucast FrameTypeAckECN # es)"
      "hasECN f \<Longrightarrow> length_plain (without_timestamps f) = Inr (1 + length es)"
      "hasECN f \<Longrightarrow> parseAckFrame zero_ack (es @ rest) FrameTypeAckECN 3 = Inr (received f, length es)" for b rest by auto
  let ?ecn = "if hasECN f then 3 # es else []"
  let ?bs = "[0x40, 0xB0] @ bs @ encs ?xs @ ?ecn"
  have t: "varint_Append b 0xB0 = Inr (b @ [0x40, 0xB0])" for b by (simp add: varint_Append_def maxVarInt1_def maxVarInt2_def)
  have "ack_Append f b = Inr (b @ ?bs)" for b
    using assms(3) varint_appends_enc [OF rd(1), of "b @ [0x40, 0xB0] @ bs"]
    by (simp add: ack_Append_def appendReceiveTimestamps_def t n(1) h e(1) FrameTypeAckECN_def Let_def del: encs_simps varint_appends.simps)
  moreover have "ack_Length f = Inr (length ?bs)"
  proof -
    let ?ys = "[uint64 (rt_Packet (hd ?ts)), rt_Micros (hd ?ts)] @ ?r @ [of_nat (loop_turns ?ts)]"
    have "list_all vi ?ys" using rd(1) by (simp add: count_runs_turns [OF assms(3)])
    from varint_lens_enc [OF this] have "varint_lens ?ys = Inr (length (encs ?xs))" by (simp add: count_runs_turns [OF assms(3)] add_ac)
    then show ?thesis using assms(3) by (simp add: ack_Length_def receiveTimestampsLength_def n(2) h e(2) Let_def del: encs_simps varint_lens.simps)
  qed
  moreover have "timestamp_frame f ?bs"
    unfolding timestamp_frame_def by (rule exI [of _ bs], rule exI [of _ "encs ?xs"], rule exI [of _ ?ecn]) (use n(3) rd(2) e(3) in \<open>simp del: encs_simps\<close>)
  ultimately show ?thesis by blast
qed

text \<open>C33: Acknowledgements round trip, with and without receive timestamps. An ACK frame with valid ranges is
  written, in exactly the announced length, as a frame that the parser reads back: at most the 64 newest
  ranges, the delay in units of eight microseconds, the ECN counters. With timestamps the frame has the
  extended type, its first part is parsed as the same acknowledgement without counters, a reader of the
  timestamp format recovers exactly the timestamps, and a standard ACK frame with the counters follows if
  there are any.\<close>

theorem ack_frame_roundtrip:
  assumes "ack_ok f" and "stamps_ok (af_ReceiveTimestamps f)"
  shows "\<exists>bs. (\<forall>b. ack_Append f b = Inr (b @ bs)) \<and> ack_Length f = Inr (length bs) \<and>
    (if af_ReceiveTimestamps f = []
     then \<exists>body. bs = (if hasECN f then 3 else 2) # body \<and> (\<forall>rest. parseAckFrame zero_ack (body @ rest)
       (if hasECN f then FrameTypeAckECN else FrameTypeAck) 3 = Inr (received f, length body))
     else timestamp_frame f bs)"
proof (cases "af_ReceiveTimestamps f = []")
  case True
  from plain_roundtrip [OF assms(1) True] obtain body where
    b: "\<forall>b. append_plain f b = Inr (b @ ucast (if hasECN f then FrameTypeAckECN else FrameTypeAck) # body)" "length_plain f = Inr (1 + length body)"
      "\<forall>rest. parseAckFrame zero_ack (body @ rest) (if hasECN f then FrameTypeAckECN else FrameTypeAck) 3 = Inr (received f, length body)" by blast
  have "ucast (if hasECN f then FrameTypeAckECN else FrameTypeAck) = (if hasECN f then 3 else 2 :: 8 word)"
    by (simp add: FrameTypeAckECN_def FrameTypeAck_def)
  with True b show ?thesis by (intro exI [of _ "(if hasECN f then 3 else 2) # body"]) (auto simp: ack_Append_def ack_Length_def)
next
  case False
  from timestamp_roundtrip [OF assms False] False show ?thesis by simp
qed

definition ex_ack :: ack_frame where
  "ex_ack = \<lparr>af_ReceiveTimestamps = [\<lparr>rt_Packet = 5, rt_Micros = 2000\<rparr>, \<lparr>rt_Packet = 4, rt_Micros = 1900\<rparr>, \<lparr>rt_Packet = 1, rt_Micros = 1200\<rparr>],
     af_AckRanges = [\<lparr>ar_Smallest = 1, ar_Largest = 5\<rparr>], af_DelayTime = 0, af_ECT0 = 0, af_ECT1 = 5, af_ECNCE = 0\<rparr>"

lemma ex_ack_ok: "ack_ok ex_ack" "stamps_ok (af_ReceiveTimestamps ex_ack)"
  by (simp_all add: ex_ack_def ack_ok_def validateAckRanges_def range_ok_def maxVarInt8_def stamps_ok_def stamp_desc_def)

lemma ack_frame_roundtrip_witness:
  "\<exists>bs. ack_Append ex_ack [] = Inr bs \<and> length bs = 28 \<and> timestamp_frame ex_ack bs"
proof -
  have l: "ack_Length ex_ack = Inr 28" by code_simp
  have "af_ReceiveTimestamps ex_ack \<noteq> []" by (simp add: ex_ack_def)
  with ack_frame_roundtrip [OF ex_ack_ok] l show ?thesis by auto
qed

section \<open>Queries\<close>

lemma sort_Search_least:
  assumes "\<And>a b. a \<le> b \<Longrightarrow> b < j \<Longrightarrow> P a \<Longrightarrow> P b" and "i \<le> j"
  shows "i \<le> sort_Search P i j \<and> sort_Search P i j \<le> j \<and> (\<forall>m. i \<le> m \<and> m < sort_Search P i j \<longrightarrow> \<not> P m) \<and>
    (\<forall>m. sort_Search P i j \<le> m \<and> m < j \<longrightarrow> P m)"
  using assms
proof (induction P i j rule: sort_Search.induct)
  case (1 P i j)
  show ?case
  proof (cases "i < j")
    case False
    then have "sort_Search P i j = i" by (simp add: sort_Search.simps [of P i j])
    with 1(4) False show ?thesis by auto
  next
    case lt: True
    define h where "h = (i + j) div 2"
    with lt have h: "i \<le> h" "h < j" by auto
    show ?thesis
    proof (cases "P h")
      case False
      have ih: "h + 1 \<le> sort_Search P (h + 1) j \<and> sort_Search P (h + 1) j \<le> j \<and> (\<forall>m. h + 1 \<le> m \<and> m < sort_Search P (h + 1) j \<longrightarrow> \<not> P m) \<and>
          (\<forall>m. sort_Search P (h + 1) j \<le> m \<and> m < j \<longrightarrow> P m)"
        by (rule 1(1) [OF lt h_def False]) (use 1(3) h in auto)
      moreover have "\<not> P m" if "m \<le> h" for m using 1(3) [OF that h(2)] False by blast
      moreover have "sort_Search P i j = sort_Search P (h + 1) j" using lt False by (simp add: sort_Search.simps [of P i j] h_def)
      ultimately show ?thesis using h by (metis Suc_eq_plus1 Suc_leD le_trans not_less_eq_eq)
    next
      case True
      have ih: "i \<le> sort_Search P i h \<and> sort_Search P i h \<le> h \<and> (\<forall>m. i \<le> m \<and> m < sort_Search P i h \<longrightarrow> \<not> P m) \<and>
          (\<forall>m. sort_Search P i h \<le> m \<and> m < h \<longrightarrow> P m)"
        by (rule 1(2) [OF lt h_def]) (use 1(3) h True in auto)
      moreover have "P m" if "h \<le> m" "m < j" for m using 1(3) that True by blast
      moreover have "sort_Search P i j = sort_Search P i h" using lt True by (simp add: sort_Search.simps [of P i j] h_def)
      ultimately show ?thesis using h by (metis le_trans linorder_not_less order_less_imp_le)
    qed
  qed
qed

definition acked :: "ack_range list \<Rightarrow> int set" where
  "acked rs = (\<Union>r \<in> set rs. {ar_Smallest r..ar_Largest r})"

lemma descend_sorted:
  "list_all (\<lambda>r. ar_Smallest r \<le> ar_Largest r) rs \<Longrightarrow> ranges_descend rs \<Longrightarrow> sorted_wrt (\<lambda>r s. ar_Smallest r > ar_Largest s + 1) rs"
proof (induction rs rule: ranges_descend.induct)
  case (1 r s rs)
  then have "sorted_wrt (\<lambda>r s. ar_Smallest r > ar_Largest s + 1) (s # rs)" by auto
  moreover from this have "ar_Largest x + 1 < ar_Smallest r" if "x \<in> set (s # rs)" for x
    using 1(2,3) that by auto
  ultimately show ?case by auto
qed auto

lemma AcksPacket_acked:
  assumes "validateAckRanges f"
  shows "AcksPacket f p = Inr (p \<in> acked (af_AckRanges f))"
proof -
  let ?rs = "af_AckRanges f" and ?P = "\<lambda>i. p \<ge> ar_Smallest (af_AckRanges f ! i)"
  have ne: "?rs \<noteq> []" and le: "\<And>r. r \<in> set ?rs \<Longrightarrow> ar_Smallest r \<le> ar_Largest r"
    and so: "sorted_wrt (\<lambda>r s. ar_Smallest r > ar_Largest s + 1) ?rs"
    using assms by (auto simp: validateAckRanges_def list_all_iff not_less intro!: descend_sorted)
  have d: "ar_Largest (?rs ! j) + 1 < ar_Smallest (?rs ! i)" if "i < j" "j < length ?rs" for i j
    using sorted_wrt_nth_less [OF so that] by simp
  have mono: "?P b" if "a \<le> b" "b < length ?rs" "?P a" for a b
  proof (cases "a = b")
    case False
    with that d [of a b] le [of "?rs ! b"] show ?thesis by auto
  qed (use that in simp)
  define k where "k = sort_Search ?P 0 (length ?rs)"
  have "0 \<le> k \<and> k \<le> length ?rs \<and> (\<forall>m. 0 \<le> m \<and> m < k \<longrightarrow> \<not> ?P m) \<and> (\<forall>m. k \<le> m \<and> m < length ?rs \<longrightarrow> ?P m)"
    unfolding k_def by (rule sort_Search_least) (use mono in auto)
  then have k: "k \<le> length ?rs" "\<And>m. m < k \<Longrightarrow> p < ar_Smallest (?rs ! m)" "\<And>m. k \<le> m \<Longrightarrow> m < length ?rs \<Longrightarrow> ar_Smallest (?rs ! m) \<le> p"
    by auto
  have lst: "?rs ! (length ?rs - 1) \<in> set ?rs" "?rs ! 0 \<in> set ?rs" using ne by auto
  have mem: "p \<in> acked ?rs \<longleftrightarrow> (\<exists>m < length ?rs. ar_Smallest (?rs ! m) \<le> p \<and> p \<le> ar_Largest (?rs ! m))"
    by (fastforce simp: acked_def in_set_conv_nth)
  show ?thesis
  proof (cases "p < ar_Smallest (?rs ! (length ?rs - 1)) \<or> p > ar_Largest (?rs ! 0)")
    case True
    have "\<not> (ar_Smallest (?rs ! m) \<le> p \<and> p \<le> ar_Largest (?rs ! m))" if m: "m < length ?rs" for m
    proof
      assume a: "ar_Smallest (?rs ! m) \<le> p \<and> p \<le> ar_Largest (?rs ! m)"
      then have "ar_Smallest (?rs ! (length ?rs - 1)) \<le> p" using mono [of m "length ?rs - 1"] m by auto
      moreover have "p \<le> ar_Largest (?rs ! 0)" using a d [of 0 m] le [OF lst(2)] m by (cases "m = 0") auto
      ultimately show False using True by linarith
    qed
    with True ne show ?thesis by (auto simp: AcksPacket_def LowestAcked_def LargestAcked_def idx_def mem)
  next
    case False
    then have kl: "k < length ?rs" using k ne by (metis One_nat_def diff_less length_greater_0_conv linorder_not_less nat_less_le zero_less_one)
    have "p \<le> ar_Largest (?rs ! k) \<longleftrightarrow> p \<in> acked ?rs" unfolding mem
    proof
      show "p \<le> ar_Largest (?rs ! k) \<Longrightarrow> \<exists>m < length ?rs. ar_Smallest (?rs ! m) \<le> p \<and> p \<le> ar_Largest (?rs ! m)" using k(3) kl by blast
      assume "\<exists>m < length ?rs. ar_Smallest (?rs ! m) \<le> p \<and> p \<le> ar_Largest (?rs ! m)"
      then obtain m where m: "m < length ?rs" "ar_Smallest (?rs ! m) \<le> p" "p \<le> ar_Largest (?rs ! m)" by blast
      with k(2) [of m] have "k \<le> m" by linarith
      moreover have "\<not> k < m" using d [of k m] k(3) [of k] m kl by auto
      ultimately show "p \<le> ar_Largest (?rs ! k)" using m by simp
    qed
    with False ne kl show ?thesis by (simp add: AcksPacket_def LowestAcked_def LargestAcked_def idx_def k_def [symmetric])
  qed
qed

section \<open>Preparing the timestamps\<close>

interpretation stamps: keyed_order later_packet rt_Packet
  by unfold_locales (auto simp: later_packet_def)

lemma sorted_insert_later: "sorted_wrt (\<lambda>a b. rt_Packet b \<le> rt_Packet a) ts \<Longrightarrow> sorted_wrt (\<lambda>a b. rt_Packet b \<le> rt_Packet a) (insert_by later_packet t ts)"
proof (induction ts)
  case (Cons u ts)
  have s: "set (insert_by later_packet t ts) = insert t (set ts)" by (metis mset_insert_by set_mset_add_mset_insert set_mset_mset)
  have l: "later_packet u t \<longleftrightarrow> rt_Packet t < rt_Packet u" by (simp add: later_packet_def)
  show ?case using Cons by (auto simp: l s)
qed simp

lemma sorted_later: "sorted_wrt (\<lambda>a b. rt_Packet b \<le> rt_Packet a) (sort_slice later_packet ts)"
  by (induction ts) (auto intro: sorted_insert_later)

text \<open>What the filter keeps, read off the list.\<close>

fun keep_from :: "receive_timestamp option \<Rightarrow> receive_timestamp list \<Rightarrow> receive_timestamp list" where
  "keep_from u [] = []"
| "keep_from None (t # ts) = t # keep_from (Some t) ts"
| "keep_from (Some u) (t # ts) = (if rt_Packet t = rt_Packet u \<or> rt_Micros t > rt_Micros u then keep_from (Some u) ts else t # keep_from (Some t) ts)"

lemma keep_from_subset: "set (keep_from u ts) \<subseteq> set ts"
  by (induction u ts rule: keep_from.induct) auto

lemma keep_from_desc:
  "sorted_wrt (\<lambda>a b. rt_Packet b \<le> rt_Packet a) (u # ts) \<Longrightarrow> sorted_wrt stamp_desc (u # keep_from (Some u) ts)"
proof (induction ts arbitrary: u)
  case (Cons t ts)
  show ?case
  proof (cases "rt_Packet t = rt_Packet u \<or> rt_Micros t > rt_Micros u")
    case True
    then show ?thesis using Cons.IH [of u] Cons.prems by simp
  next
    case False
    then have tu: "stamp_desc u t" using Cons.prems by (auto simp: stamp_desc_def)
    have "sorted_wrt stamp_desc (t # keep_from (Some t) ts)" using Cons by simp
    moreover from this have "\<forall>x \<in> set (keep_from (Some t) ts). stamp_desc u x" using tu by (auto simp: stamp_desc_def)
    ultimately show ?thesis using False tu by simp
  qed
qed simp

lemma keep_from_None: "sorted_wrt (\<lambda>a b. rt_Packet b \<le> rt_Packet a) ts \<Longrightarrow> sorted_wrt stamp_desc (keep_from None ts)"
  using keep_from_desc by (cases ts) auto

lemma keep_from_all: "sorted_wrt stamp_desc (u # ts) \<Longrightarrow> keep_from (Some u) ts = ts"
  by (induction ts arbitrary: u) (auto simp: stamp_desc_def)

lemma keep_timestamps_filter:
  assumes "validateAckRanges f"
  shows "keep_timestamps f out ts = Inr (out @ keep_from (if out = [] then None else Some (last out))
    (filter (\<lambda>t. rt_Packet t \<in> acked (af_AckRanges f)) ts))"
proof (induction ts arbitrary: out)
  case (Cons t ts)
  show ?case
    using Cons [of out] Cons [of "out @ [t]"] by (auto simp: AcksPacket_acked [OF assms])
qed simp

text \<open>The timestamps put into an acknowledgement are never fabricated or misattributed. Whatever
  timestamps were collected, in any order and even twice for a packet, those prepared for a frame with valid
  ranges are collected ones of acknowledged packets, newest packet first and with times that never increase, as the
  format needs (so a frame with them can be written); and when the packets arrived in order, every timestamp of
  an acknowledged packet is among them.\<close>

theorem prepared_timestamps:
  assumes "validateAckRanges f"
  shows "\<exists>out. PrepareReceiveTimestamps f = Inr (f\<lparr>af_ReceiveTimestamps := out\<rparr>) \<and> sorted_wrt stamp_desc out \<and>
    set out \<subseteq> {t \<in> set (af_ReceiveTimestamps f). rt_Packet t \<in> acked (af_AckRanges f)} \<and>
    (distinct (map rt_Packet (af_ReceiveTimestamps f)) \<and>
     (\<forall>s \<in> set (af_ReceiveTimestamps f). \<forall>t \<in> set (af_ReceiveTimestamps f). rt_Packet s > rt_Packet t \<longrightarrow> rt_Micros s \<ge> rt_Micros t) \<longrightarrow>
      set out = {t \<in> set (af_ReceiveTimestamps f). rt_Packet t \<in> acked (af_AckRanges f)})"
proof -
  let ?ts = "sort_slice later_packet (af_ReceiveTimestamps f)"
  let ?fs = "filter (\<lambda>t. rt_Packet t \<in> acked (af_AckRanges f)) ?ts"
  have k: "keep_timestamps f [] ?ts = Inr (keep_from None ?fs)" by (simp add: keep_timestamps_filter [OF assms])
  have all: "keep_from None ?fs = ?fs"
    if "distinct (map rt_Packet (af_ReceiveTimestamps f))"
      and o: "\<forall>s \<in> set (af_ReceiveTimestamps f). \<forall>t \<in> set (af_ReceiveTimestamps f). rt_Packet s > rt_Packet t \<longrightarrow> rt_Micros s \<ge> rt_Micros t"
  proof -
    have "sorted_wrt later_packet ?fs" using that(1) by (intro sorted_wrt_filter_mono stamps.sorted_sort_slice)
    then have "sorted_wrt stamp_desc ?fs" by (rule sorted_wrt_mono_rel [rotated]) (use o in \<open>auto simp: later_packet_def stamp_desc_def\<close>)
    then show ?thesis using keep_from_all by (cases ?fs) auto
  qed
  have "sorted_wrt stamp_desc (keep_from None ?fs)" by (intro keep_from_None sorted_wrt_filter_mono sorted_later)
  then show ?thesis
    using keep_from_subset [of None ?fs] all by (intro exI [of _ "keep_from None ?fs"]) (auto simp: PrepareReceiveTimestamps_def k)
qed

lemma prepared_timestamps_witness:
  "\<exists>out. PrepareReceiveTimestamps ex_ack = Inr (ex_ack\<lparr>af_ReceiveTimestamps := out\<rparr>) \<and> sorted_wrt stamp_desc out \<and>
     set out = set (af_ReceiveTimestamps ex_ack)"
proof -
  have "validateAckRanges ex_ack" by (simp add: ex_ack_def validateAckRanges_def)
  from prepared_timestamps [OF this] obtain out where o: "PrepareReceiveTimestamps ex_ack = Inr (ex_ack\<lparr>af_ReceiveTimestamps := out\<rparr>)"
    "sorted_wrt stamp_desc out" "distinct (map rt_Packet (af_ReceiveTimestamps ex_ack)) \<and>
     (\<forall>s \<in> set (af_ReceiveTimestamps ex_ack). \<forall>t \<in> set (af_ReceiveTimestamps ex_ack). rt_Packet s > rt_Packet t \<longrightarrow> rt_Micros s \<ge> rt_Micros t) \<longrightarrow>
      set out = {t \<in> set (af_ReceiveTimestamps ex_ack). rt_Packet t \<in> acked (af_AckRanges ex_ack)}" by blast
  have "distinct (map rt_Packet (af_ReceiveTimestamps ex_ack))"
    "\<forall>s \<in> set (af_ReceiveTimestamps ex_ack). \<forall>t \<in> set (af_ReceiveTimestamps ex_ack). rt_Packet s > rt_Packet t \<longrightarrow> rt_Micros s \<ge> rt_Micros t"
    by (simp_all add: ex_ack_def)
  with o have "set out = {t \<in> set (af_ReceiveTimestamps ex_ack). rt_Packet t \<in> acked (af_AckRanges ex_ack)}" by blast
  also have "\<dots> = set (af_ReceiveTimestamps ex_ack)" by (auto simp: ex_ack_def acked_def)
  finally show ?thesis using o by blast
qed

section \<open>Truncation\<close>

lemma enc_le_8: "vi x \<Longrightarrow> length (enc x) \<le> 8"
  using varint.encoded(3) [of x] by (auto simp: varint_Len_def split: if_splits)

lemma encs_le: "list_all vi xs \<Longrightarrow> length (encs xs) \<le> 8 * length xs"
  by (induction xs) (auto dest: enc_le_8)

text \<open>The size of a frame without timestamps that has the first \<open>k\<close> ranges.\<close>

definition plain_size :: "ack_frame \<Rightarrow> nat \<Rightarrow> nat" where
  "plain_size f k = 2 + length (encs ([uint64 (ar_Largest (af_AckRanges f ! 0)), encodeAckDelay (af_DelayTime f),
     uint64 (ar_Largest (af_AckRanges f ! 0) - ar_Smallest (af_AckRanges f ! 0))] @ ecn_fields f)) + length (encs (gap_fields (take k (af_AckRanges f))))"

lemma ack_ok_vi:
  assumes "ack_ok f"
  shows "list_all vi (gap_fields (take k (af_AckRanges f)))" "af_AckRanges f \<noteq> []"
    "list_all vi ([uint64 (ar_Largest (af_AckRanges f ! 0)), encodeAckDelay (af_DelayTime f),
       uint64 (ar_Largest (af_AckRanges f ! 0) - ar_Smallest (af_AckRanges f ! 0))] @ ecn_fields f)"
proof -
  have r: "list_all range_ok (af_AckRanges f)" "ranges_descend (af_AckRanges f)" and ne: "af_AckRanges f \<noteq> []"
    using assms by (auto simp: ack_ok_def validateAckRanges_def)
  show "af_AckRanges f \<noteq> []" by fact
  have "list_all range_ok (take k (af_AckRanges f))" using r(1) by (auto simp: list_all_iff dest: in_set_takeD)
  then show "list_all vi (gap_fields (take k (af_AckRanges f)))" by (rule gap_fields_vi) (rule ranges_descend_take [OF r(2)])
  have "range_ok (af_AckRanges f ! 0)" using r(1) ne by (simp add: list_all_length)
  then show "list_all vi ([uint64 (ar_Largest (af_AckRanges f ! 0)), encodeAckDelay (af_DelayTime f),
       uint64 (ar_Largest (af_AckRanges f ! 0) - ar_Smallest (af_AckRanges f ! 0))] @ ecn_fields f)"
    using assms encode_delay(1) [of "af_DelayTime f"] by (auto simp: ack_ok_def range_ok_def ecn_fields_def intro!: vi_uint64)
qed

lemma length_plain_take:
  assumes "ack_ok f" and "0 < k" and "k \<le> MaxNumAckRanges"
  shows "length_plain (f\<lparr>af_AckRanges := take k (af_AckRanges f)\<rparr>) = Inr (plain_size f k)"
proof -
  let ?g = "f\<lparr>af_AckRanges := take k (af_AckRanges f)\<rparr>"
  let ?xs = "[uint64 (ar_Largest (af_AckRanges f ! 0)), encodeAckDelay (af_DelayTime f),
       uint64 (ar_Largest (af_AckRanges f ! 0) - ar_Smallest (af_AckRanges f ! 0))] @ gap_fields (take k (af_AckRanges f)) @ ecn_fields f"
  have "list_all vi ?xs" using ack_ok_vi [OF assms(1)] by auto
  from varint_lens_enc [OF this] have v: "varint_lens ?xs = Inr (length (encs ?xs))" .
  have r: "range_fields ?g = gap_fields (take k (af_AckRanges f))" using assms(3) by (simp add: range_fields_gap min.absorb2)
  have e: "ecn_fields ?g = ecn_fields f" by (simp add: ecn_fields_def hasECN_def)
  have i: "idx (take k (af_AckRanges f)) 0 = Inr (af_AckRanges f ! 0)" using ack_ok_vi(2) [OF assms(1)] assms(2) by (simp add: idx_def)
  show ?thesis using v by (simp add: length_plain_def r e i plain_size_def)
qed

lemma length_plain_size:
  assumes "ack_ok f"
  shows "length_plain f = Inr (plain_size f (numRanges f))"
proof -
  let ?xs = "[uint64 (ar_Largest (af_AckRanges f ! 0)), encodeAckDelay (af_DelayTime f),
       uint64 (ar_Largest (af_AckRanges f ! 0) - ar_Smallest (af_AckRanges f ! 0))] @ range_fields f @ ecn_fields f"
  have "list_all vi ?xs" using ack_ok_vi [OF assms] by (auto simp: range_fields_gap)
  from varint_lens_enc [OF this] have v: "varint_lens ?xs = Inr (length (encs ?xs))" .
  have i: "idx (af_AckRanges f) 0 = Inr (af_AckRanges f ! 0)" using ack_ok_vi(2) [OF assms] by (simp add: idx_def)
  have t: "take (numRanges f) (af_AckRanges f) = take MaxNumAckRanges (af_AckRanges f)" by (simp add: numRanges_def min_def)
  show ?thesis using v by (simp add: length_plain_def i plain_size_def range_fields_gap t)
qed

lemma gap_fields_take_Suc:
  assumes "0 < i" and "i < length (af_AckRanges f)"
  shows "gap_fields (take (Suc i) (af_AckRanges f)) = gap_fields (take i (af_AckRanges f)) @ [fst (encodeAckRange f i), snd (encodeAckRange f i)]"
proof -
  from assms have m: "min (length (af_AckRanges f)) (Suc i) = Suc i" "min (length (af_AckRanges f)) i = i" by auto
  then show ?thesis using assms
    by (simp add: gap_fields_upt [symmetric] upt_Suc_append encodeAckRange_def Let_def)
qed

lemma length_gap_fields: "length (gap_fields rs) = 2 * (length rs - 1)"
  by (induction rs rule: gap_fields.induct) auto

lemma fit_ranges_fits:
  assumes "ack_ok f" and "0 < i" and "i \<le> numRanges f" and "int (plain_size f i) \<le> maxSize"
  shows "\<exists>k. fit_ranges f maxSize (plain_size f i) [i..<numRanges f] = Inr k \<and> i \<le> k \<and> k \<le> numRanges f \<and>
    int (plain_size f k) \<le> maxSize \<and> (k < numRanges f \<longrightarrow> int (plain_size f (Suc k)) > maxSize)"
  using assms(2-4)
proof (induction "numRanges f - i" arbitrary: i)
  case 0
  then show ?case by auto
next
  case (Suc n)
  then have lt: "i < numRanges f" "i < length (af_AckRanges f)" by (auto simp: numRanges_def)
  have g: "gap_fields (take (Suc i) (af_AckRanges f)) = gap_fields (take i (af_AckRanges f)) @ [fst (encodeAckRange f i), snd (encodeAckRange f i)]"
    using gap_fields_take_Suc [OF Suc.prems(1) lt(2)] .
  have "list_all vi [fst (encodeAckRange f i), snd (encodeAckRange f i)]" using ack_ok_vi(1) [OF assms(1), of "Suc i"] by (simp add: g)
  from varint_lens_enc [OF this] have v: "varint_lens [fst (encodeAckRange f i), snd (encodeAckRange f i)]
    = Inr (length (encs [fst (encodeAckRange f i), snd (encodeAckRange f i)]))" .
  have s: "plain_size f (Suc i) = plain_size f i + length (encs [fst (encodeAckRange f i), snd (encodeAckRange f i)])"
    by (simp add: plain_size_def g)
  have step: "fit_ranges f maxSize (plain_size f i) [i..<numRanges f] = (if int (plain_size f (Suc i)) > maxSize then Inr i
    else fit_ranges f maxSize (plain_size f (Suc i)) [Suc i..<numRanges f])"
    using lt(1) v by (simp add: upt_conv_Cons case_prod_beta s del: varint_lens.simps encs_simps)
  show ?case
  proof (cases "int (plain_size f (Suc i)) > maxSize")
    case True
    then show ?thesis using step lt Suc.prems by (intro exI [of _ i]) auto
  next
    case False
    then show ?thesis using step lt Suc.hyps(1) [of "Suc i"] Suc.hyps(2) by fastforce
  qed
qed

lemma numEncodable_fits:
  assumes "ack_ok f" and "int (plain_size f 1) \<le> maxSize"
  shows "\<exists>k. numEncodableAckRanges f maxSize = Inr k \<and> 0 < k \<and> k \<le> numRanges f \<and> int (plain_size f k) \<le> maxSize \<and>
    (k < numRanges f \<longrightarrow> int (plain_size f (Suc k)) > maxSize)"
proof -
  have n: "0 < numRanges f" using ack_ok_vi(2) [OF assms(1)] by (simp add: numRanges_def MaxNumAckRanges_def)
  let ?w = "1 + 8 + 8 + 1 + 8 + (if hasECN f then 8 + 8 + 8 else 0) + 2 * 8 * (int (numRanges f) - 1)"
  show ?thesis
  proof (cases "?w \<le> maxSize")
    case True
    have "length (encs (gap_fields (take (numRanges f) (af_AckRanges f)))) \<le> 16 * (numRanges f - 1)"
      using encs_le [OF ack_ok_vi(1) [OF assms(1), of "numRanges f"]] by (auto simp: length_gap_fields numRanges_def)
    moreover have "length (encs ([uint64 (ar_Largest (af_AckRanges f ! 0)), encodeAckDelay (af_DelayTime f),
       uint64 (ar_Largest (af_AckRanges f ! 0) - ar_Smallest (af_AckRanges f ! 0))] @ ecn_fields f)) \<le> 24 + (if hasECN f then 24 else 0)"
      using encs_le [OF ack_ok_vi(3) [OF assms(1)]] by (auto simp: ecn_fields_def)
    ultimately have "plain_size f (numRanges f) \<le> 26 + (if hasECN f then 24 else 0) + 16 * (numRanges f - 1)"
      unfolding plain_size_def by linarith
    with True n have "int (plain_size f (numRanges f)) \<le> maxSize" by (auto split: if_splits)
    with True n show ?thesis by (intro exI [of _ "numRanges f"]) (simp add: numEncodableAckRanges_def)
  next
    case False
    have la: "LargestAcked f = Inr (ar_Largest (af_AckRanges f ! 0))" using ack_ok_vi(2) [OF assms(1)] by (simp add: LargestAcked_def idx_def)
    have "gap_fields (take 1 (af_AckRanges f)) = []" by (cases "af_AckRanges f") auto
    then have s: "plain_size f 1 = 2 + length (encs ([uint64 (ar_Largest (af_AckRanges f ! 0)), encodeAckDelay (af_DelayTime f),
       uint64 (ar_Largest (af_AckRanges f ! 0) - ar_Smallest (af_AckRanges f ! 0))] @ ecn_fields f))" by (simp add: plain_size_def)
    have "numEncodableAckRanges f maxSize = fit_ranges f maxSize (plain_size f 1) [1..<numRanges f]"
      using False varint_lens_enc [OF ack_ok_vi(3) [OF assms(1)]]
      by (simp add: numEncodableAckRanges_def la s [unfolded One_nat_def] encodeAckRange_def Let_def del: varint_lens.simps encs_simps)
    with fit_ranges_fits [OF assms(1), of 1 maxSize] n assms(2) show ?thesis by fastforce
  qed
qed

lemma stamps_ok_butlast: "stamps_ok ts \<Longrightarrow> stamps_ok (butlast ts)"
  by (auto simp: stamps_ok_def butlast_conv_take sorted_wrt_take dest: in_set_takeD)

lemma ack_Length_total:
  assumes "ack_ok f" and "stamps_ok (af_ReceiveTimestamps f)"
  shows "\<exists>n. ack_Length f = Inr n"
  using timestamp_roundtrip [OF assms] length_plain_size [OF assms(1)] by (cases "af_ReceiveTimestamps f = []") (auto simp: ack_Length_def)

lemma trim_timestamps_fits:
  assumes "ack_ok f" and "stamps_ok (af_ReceiveTimestamps f)"
  shows "\<exists>m. trim_timestamps maxSize f = Inr (f\<lparr>af_ReceiveTimestamps := take m (af_ReceiveTimestamps f)\<rparr>) \<and> m \<le> length (af_ReceiveTimestamps f) \<and>
    (0 < m \<longrightarrow> (\<exists>n. ack_Length (f\<lparr>af_ReceiveTimestamps := take m (af_ReceiveTimestamps f)\<rparr>) = Inr n \<and> int n \<le> maxSize)) \<and>
    (m < length (af_ReceiveTimestamps f) \<longrightarrow> (\<exists>n. ack_Length (f\<lparr>af_ReceiveTimestamps := take (Suc m) (af_ReceiveTimestamps f)\<rparr>) = Inr n \<and> int n > maxSize))"
  using assms
proof (induction maxSize f rule: trim_timestamps.induct)
  case (1 maxSize f)
  let ?ts = "af_ReceiveTimestamps f"
  obtain n where n: "ack_Length f = Inr n" using ack_Length_total [OF 1(2,3)] by blast
  have all: "f\<lparr>af_ReceiveTimestamps := take (length ?ts) ?ts\<rparr> = f" by simp
  show ?case
  proof (cases "?ts = [] \<or> int n \<le> maxSize")
    case True
    then have "trim_timestamps maxSize f = Inr f" using n by (auto simp: trim_timestamps.simps [of maxSize f])
    with True n show ?thesis by (intro exI [of _ "length ?ts"]) (auto simp: all)
  next
    case False
    let ?g = "f\<lparr>af_ReceiveTimestamps := butlast ?ts\<rparr>"
    have st: "trim_timestamps maxSize f = trim_timestamps maxSize ?g" using False n by (simp add: trim_timestamps.simps [of maxSize f])
    have "ack_ok ?g" using 1(2) by (simp add: ack_ok_def validateAckRanges_def)
    then have "\<exists>m. trim_timestamps maxSize ?g = Inr (?g\<lparr>af_ReceiveTimestamps := take m (butlast ?ts)\<rparr>) \<and> m \<le> length ?ts - 1 \<and>
      (0 < m \<longrightarrow> (\<exists>n. ack_Length (?g\<lparr>af_ReceiveTimestamps := take m (butlast ?ts)\<rparr>) = Inr n \<and> int n \<le> maxSize)) \<and>
      (m < length ?ts - 1 \<longrightarrow> (\<exists>n. ack_Length (?g\<lparr>af_ReceiveTimestamps := take (Suc m) (butlast ?ts)\<rparr>) = Inr n \<and> int n > maxSize))"
      using 1(1) [OF _ n] False stamps_ok_butlast [OF 1(3)] by simp
    then obtain m where m: "trim_timestamps maxSize ?g = Inr (?g\<lparr>af_ReceiveTimestamps := take m (butlast ?ts)\<rparr>)" "m \<le> length ?ts - 1"
      "0 < m \<longrightarrow> (\<exists>n. ack_Length (?g\<lparr>af_ReceiveTimestamps := take m (butlast ?ts)\<rparr>) = Inr n \<and> int n \<le> maxSize)"
      "m < length ?ts - 1 \<longrightarrow> (\<exists>n. ack_Length (?g\<lparr>af_ReceiveTimestamps := take (Suc m) (butlast ?ts)\<rparr>) = Inr n \<and> int n > maxSize)" by (elim exE conjE) (rule that)
    have t: "take m (butlast ?ts) = take m ?ts" "m < length ?ts - 1 \<Longrightarrow> take (Suc m) (butlast ?ts) = take (Suc m) ?ts" "m < length ?ts"
      using m(2) False by (auto simp: butlast_conv_take less_Suc_eq_le [symmetric])
    have "\<exists>n. ack_Length (f\<lparr>af_ReceiveTimestamps := take (Suc m) ?ts\<rparr>) = Inr n \<and> int n > maxSize"
    proof (cases "m < length ?ts - 1")
      case True
      then show ?thesis using m(4) t(2) by simp
    next
      case nl: False
      then have "take (Suc m) ?ts = ?ts" using t(3) by simp
      then show ?thesis using n False by simp
    qed
    with m t st show ?thesis by (intro exI [of _ m]) (simp add: t)
  qed
qed

text \<open>C34: Truncating an acknowledgement makes it fit and drops as little as possible. If a frame with only the newest
  range and no timestamps fits into the limit, the truncated frame fits, keeps at least the newest range and drops
  only the oldest information: first timestamps, until the frame fits, and ranges only when no timestamp
  is left. Whenever something was dropped, keeping one item more would exceed the limit (or the maximum
  of 64 ranges).\<close>

theorem ack_truncate_fits:
  assumes "ack_ok f" and "stamps_ok (af_ReceiveTimestamps f)"
    and "ack_Length (f\<lparr>af_ReceiveTimestamps := [], af_AckRanges := take 1 (af_AckRanges f)\<rparr>) = Inr least" and "int least \<le> maxSize"
  shows "\<exists>m k n. let g = f\<lparr>af_ReceiveTimestamps := take m (af_ReceiveTimestamps f), af_AckRanges := take k (af_AckRanges f)\<rparr>
    in ack_Truncate maxSize f = Inr g \<and> ack_Length g = Inr n \<and> int n \<le> maxSize \<and> 0 < k \<and>
      (m < length (af_ReceiveTimestamps f) \<longrightarrow>
        (\<exists>l. ack_Length (f\<lparr>af_ReceiveTimestamps := take (Suc m) (af_ReceiveTimestamps f)\<rparr>) = Inr l \<and> int l > maxSize)) \<and>
      (k < numRanges f \<longrightarrow> m = 0 \<and>
        (\<exists>l. ack_Length (f\<lparr>af_ReceiveTimestamps := [], af_AckRanges := take (Suc k) (af_AckRanges f)\<rparr>) = Inr l \<and> int l > maxSize))"
proof -
  let ?ts = "af_ReceiveTimestamps f" and ?f0 = "f\<lparr>af_ReceiveTimestamps := []\<rparr>"
  obtain m where m: "trim_timestamps maxSize f = Inr (f\<lparr>af_ReceiveTimestamps := take m ?ts\<rparr>)" "m \<le> length ?ts"
    "0 < m \<longrightarrow> (\<exists>n. ack_Length (f\<lparr>af_ReceiveTimestamps := take m ?ts\<rparr>) = Inr n \<and> int n \<le> maxSize)"
    "m < length ?ts \<longrightarrow> (\<exists>n. ack_Length (f\<lparr>af_ReceiveTimestamps := take (Suc m) ?ts\<rparr>) = Inr n \<and> int n > maxSize)"
    using trim_timestamps_fits [OF assms(1,2), of maxSize] by blast
  show ?thesis
  proof (cases "0 < m")
    case True
    then have ne: "take m ?ts \<noteq> []" using m(2) by auto
    from m(3) True obtain n where n: "ack_Length (f\<lparr>af_ReceiveTimestamps := take m ?ts\<rparr>) = Inr n" "int n \<le> maxSize" by blast
    have eq: "f\<lparr>af_ReceiveTimestamps := take m ?ts, af_AckRanges := take (length (af_AckRanges f)) (af_AckRanges f)\<rparr> = f\<lparr>af_ReceiveTimestamps := take m ?ts\<rparr>"
      by simp
    show ?thesis
      by (rule exI [of _ m], rule exI [of _ "length (af_AckRanges f)"], rule exI [of _ n])
        (use m(1,4) n ne eq in \<open>simp add: ack_Truncate_def Let_def numRanges_def ack_ok_vi(2) [OF assms(1)]\<close>)
  next
    case False
    have ok: "ack_ok ?f0" using assms(1) by (simp add: ack_ok_def validateAckRanges_def)
    have size: "length_plain (?f0\<lparr>af_AckRanges := take j (af_AckRanges f)\<rparr>) = Inr (plain_size ?f0 j)" if "0 < j" "j \<le> MaxNumAckRanges" for j
      using length_plain_take [OF ok that] by simp
    have "int (plain_size ?f0 1) \<le> maxSize" using size [of 1] assms(3,4) by (simp add: ack_Length_def MaxNumAckRanges_def)
    then obtain k where k: "numEncodableAckRanges ?f0 maxSize = Inr k" "0 < k" "k \<le> numRanges ?f0" "int (plain_size ?f0 k) \<le> maxSize"
      "k < numRanges ?f0 \<longrightarrow> int (plain_size ?f0 (Suc k)) > maxSize" using numEncodable_fits [OF ok] by blast
    have nr: "numRanges ?f0 = numRanges f" "numRanges f \<le> MaxNumAckRanges" by (simp_all add: numRanges_def)
    have t: "ack_Truncate maxSize f = Inr (f\<lparr>af_ReceiveTimestamps := take 0 ?ts, af_AckRanges := take k (af_AckRanges f)\<rparr>)"
      using False m(1) k(1) by (simp add: ack_Truncate_def)
    have sk: "ack_Length (f\<lparr>af_ReceiveTimestamps := [], af_AckRanges := take k (af_AckRanges f)\<rparr>) = Inr (plain_size ?f0 k)"
      using size [OF k(2)] k(3) nr by (simp add: ack_Length_def)
    have sk1: "k < numRanges f \<longrightarrow> ack_Length (f\<lparr>af_ReceiveTimestamps := [], af_AckRanges := take (Suc k) (af_AckRanges f)\<rparr>) = Inr (plain_size ?f0 (Suc k))"
      using size [of "Suc k"] nr by (simp add: ack_Length_def)
    show ?thesis
      by (rule exI [of _ 0], rule exI [of _ k], rule exI [of _ "plain_size ?f0 k"])
        (use t sk sk1 k m(4) False nr(1) in \<open>simp add: Let_def\<close>)
  qed
qed

lemma ack_truncate_fits_witness:
  "\<exists>m k n. ack_Truncate 20 ex_ack = Inr (ex_ack\<lparr>af_ReceiveTimestamps := take m (af_ReceiveTimestamps ex_ack), af_AckRanges := take k (af_AckRanges ex_ack)\<rparr>) \<and>
     ack_Length (ex_ack\<lparr>af_ReceiveTimestamps := take m (af_ReceiveTimestamps ex_ack), af_AckRanges := take k (af_AckRanges ex_ack)\<rparr>) = Inr n \<and> n \<le> 20"
proof -
  have "ack_Length (ex_ack\<lparr>af_ReceiveTimestamps := [], af_AckRanges := take 1 (af_AckRanges ex_ack)\<rparr>) = Inr 8" by code_simp
  from ack_truncate_fits [OF ex_ack_ok this, of 20] show ?thesis by (fastforce simp: Let_def)
qed

section \<open>Overflow of the delay\<close>

text \<open>A delay that overflows is replaced by the maximum only when the product comes out negative: a peer can send
  a huge delay that is read as zero.\<close>

lemma decode_delay_overflow: "decode_delay 3 (2 ^ 58) = 0"
  by code_simp

end
