(* ===== verification/Packet_History.thy ===== *)
theory Packet_History
  imports Ack_Props
begin

text \<open>
  The numbers of the packets a QUIC endpoint received (\<^verbatim>\<open>deps/quic-go/internal/ackhandler/received_packet_history.go\<close>):
  a bounded list of ranges, oldest first, and a limit below which packets are ignored. The operations are
  shown to implement operations on a set of packet numbers.
\<close>

section \<open>Model\<close>

record interval =
  iv_Start :: int
  iv_End :: int

record packet_history =
  ph_ranges :: "interval list"
  ph_deletedBelow :: int

definition InvalidPacketNumber :: int where "InvalidPacketNumber = -1"

definition newReceivedPacketHistory :: packet_history where
  "newReceivedPacketHistory = \<lparr>ph_ranges = [], ph_deletedBelow = InvalidPacketNumber\<rparr>"

text \<open>The loop over the ranges from the newest to the oldest; \<open>Suc i\<close> stands for the index \<open>i\<close>.\<close>

fun add_loop :: "int \<Rightarrow> interval list \<Rightarrow> nat \<Rightarrow> interval list \<times> bool" where
  "add_loop p rs 0 = (\<lparr>iv_Start = p, iv_End = p\<rparr> # rs, True)"
| "add_loop p rs (Suc i) = (let r = rs ! i in
     if p \<ge> iv_Start r \<and> p \<le> iv_End r then (rs, False)
     else if iv_End r = p - 1 then (rs[i := r\<lparr>iv_End := p\<rparr>], True)
     else if iv_Start r = p + 1 then
       (let rs1 = rs[i := r\<lparr>iv_Start := p\<rparr>]
        in if i > 0 \<and> iv_End (rs1 ! (i - 1)) + 1 = iv_Start (rs1 ! i)
           then (let rs2 = rs1[i - 1 := (rs1 ! (i - 1))\<lparr>iv_End := iv_End (rs1 ! i)\<rparr>] in (take i rs2 @ drop (i + 1) rs2, True))
           else (rs1, True))
     else if p > iv_End r then (take (i + 1) rs @ \<lparr>iv_Start = p, iv_End = p\<rparr> # drop (i + 1) rs, True)
     else add_loop p rs i)"

definition addToRanges :: "packet_history \<Rightarrow> int \<Rightarrow> packet_history \<times> bool" where
  "addToRanges h p = (if length (ph_ranges h) = 0 then (h\<lparr>ph_ranges := ph_ranges h @ [\<lparr>iv_Start = p, iv_End = p\<rparr>]\<rparr>, True)
     else case add_loop p (ph_ranges h) (length (ph_ranges h)) of (rs, isNew) \<Rightarrow> (h\<lparr>ph_ranges := rs\<rparr>, isNew))"

definition hist_ReceivedPacket :: "packet_history \<Rightarrow> int \<Rightarrow> packet_history \<times> bool" where
  "hist_ReceivedPacket h p = (if p < ph_deletedBelow h then (h, False)
     else case addToRanges h p of (h1, isNew) \<Rightarrow>
       (if length (ph_ranges h1) > MaxNumAckRanges
        then h1\<lparr>ph_ranges := drop (length (ph_ranges h1) - MaxNumAckRanges) (ph_ranges h1)\<rparr> else h1, isNew))"

text \<open>The loop of \<open>DeleteBelow\<close>: the ranges left when the loop ends.\<close>

fun delete_loop :: "int \<Rightarrow> interval list \<Rightarrow> interval list" where
  "delete_loop p [] = []"
| "delete_loop p (r # rs) = (if iv_End r < p then delete_loop p rs
     else if p > iv_Start r \<and> p \<le> iv_End r then r\<lparr>iv_Start := p\<rparr> # rs
     else r # rs)"

definition DeleteBelow :: "packet_history \<Rightarrow> int \<Rightarrow> packet_history" where
  "DeleteBelow h p = (if p < ph_deletedBelow h then h
     else let h1 = h\<lparr>ph_deletedBelow := p\<rparr> in if length (ph_ranges h1) = 0 then h1 else h1\<lparr>ph_ranges := delete_loop p (ph_ranges h1)\<rparr>)"

definition Backward :: "packet_history \<Rightarrow> interval list" where
  "Backward h = rev (ph_ranges h)"

fun missing_loop :: "packet_history \<Rightarrow> int \<Rightarrow> nat \<Rightarrow> int" where
  "missing_loop h p 0 = p"
| "missing_loop h p (Suc i) = (let r = ph_ranges h ! i in
     if p \<ge> iv_Start r \<and> p \<le> iv_End r then
       (let highest = iv_Start r - 1
        in if ph_deletedBelow h \<noteq> InvalidPacketNumber \<and> highest < ph_deletedBelow h then InvalidPacketNumber else highest)
     else if i \<ge> 1 \<and> p > iv_End (ph_ranges h ! (i - 1)) \<and> p \<le> iv_Start r then p
     else missing_loop h p i)"

definition HighestMissingUpTo :: "packet_history \<Rightarrow> int \<Rightarrow> int" where
  "HighestMissingUpTo h p =
     (if length (ph_ranges h) = 0 \<or> (ph_deletedBelow h \<noteq> InvalidPacketNumber \<and> p < ph_deletedBelow h) then InvalidPacketNumber
      else missing_loop h (min (iv_End (ph_ranges h ! (length (ph_ranges h) - 1))) p) (length (ph_ranges h)))"

fun duplicate_loop :: "interval list \<Rightarrow> int \<Rightarrow> nat \<Rightarrow> bool" where
  "duplicate_loop rs p 0 = False"
| "duplicate_loop rs p (Suc i) = (if p > iv_End (rs ! i) then False
     else if p \<le> iv_End (rs ! i) \<and> p \<ge> iv_Start (rs ! i) then True else duplicate_loop rs p i)"

definition hist_IsPotentiallyDuplicate :: "packet_history \<Rightarrow> int \<Rightarrow> bool" where
  "hist_IsPotentiallyDuplicate h p = (if p < ph_deletedBelow h then True else duplicate_loop (ph_ranges h) p (length (ph_ranges h)))"

section \<open>The set of packets\<close>

definition packets :: "interval list \<Rightarrow> int set" where
  "packets rs = (\<Union>r \<in> set rs. {iv_Start r..iv_End r})"

definition apart :: "interval list \<Rightarrow> bool" where
  "apart rs \<longleftrightarrow> sorted_wrt (\<lambda>r s. iv_End r + 1 < iv_Start s) rs \<and> (\<forall>r \<in> set rs. iv_Start r \<le> iv_End r)"

definition hist_inv :: "packet_history \<Rightarrow> bool" where
  "hist_inv h \<longleftrightarrow> apart (ph_ranges h) \<and> length (ph_ranges h) \<le> MaxNumAckRanges \<and>
     (\<forall>r \<in> set (ph_ranges h). ph_deletedBelow h \<le> iv_Start r)"

lemma packets_simps [simp]:
  "packets [] = {}" "packets (r # rs) = {iv_Start r..iv_End r} \<union> packets rs" "packets (rs @ ss) = packets rs \<union> packets ss"
  "packets (rev rs) = packets rs"
  by (auto simp: packets_def)

lemma apart_simps [simp]:
  "apart []" "apart (r # rs) \<longleftrightarrow> iv_Start r \<le> iv_End r \<and> (\<forall>s \<in> set rs. iv_End r + 1 < iv_Start s) \<and> apart rs"
  by (auto simp: apart_def)

lemma apart_append:
  "apart (rs @ ss) \<longleftrightarrow> apart rs \<and> apart ss \<and> (\<forall>r \<in> set rs. \<forall>s \<in> set ss. iv_End r + 1 < iv_Start s)"
  by (auto simp: apart_def sorted_wrt_append)

lemma starts_packets: "apart rs \<Longrightarrow> (\<forall>r \<in> set rs. d \<le> iv_Start r) \<longleftrightarrow> (\<forall>q \<in> packets rs. d \<le> q)"
  by (fastforce simp: packets_def apart_def)

text \<open>A packet number that is not adjacent to the newer ranges is filed among the older ones.\<close>

lemma add_loop_spec:
  assumes "apart (ls @ gs)" and "\<forall>g \<in> set gs. p + 1 < iv_Start g" and "add_loop p (ls @ gs) (length ls) = (rs, new)"
  shows "apart rs \<and> packets rs = insert p (packets (ls @ gs)) \<and> (new \<longleftrightarrow> p \<notin> packets (ls @ gs)) \<and> length rs \<le> Suc (length (ls @ gs)) \<and> rs \<noteq> []"
  using assms
proof (induction ls arbitrary: gs rs new rule: rev_induct)
  case Nil
  then have "rs = \<lparr>iv_Start = p, iv_End = p\<rparr> # gs" "new" by auto
  with Nil show ?case by (force simp: packets_def)
next
  case (snoc r ls)
  have n: "(ls @ r # gs) ! length ls = r" by simp
  have ap: "apart ls" "apart gs" "iv_Start r \<le> iv_End r" "\<forall>l \<in> set ls. iv_End l + 1 < iv_Start r" "\<forall>g \<in> set gs. iv_End r + 1 < iv_Start g"
    "\<forall>l \<in> set ls. \<forall>g \<in> set gs. iv_End l + 1 < iv_Start g" using snoc.prems(1) by (auto simp: apart_append)
  have out: "p \<notin> packets gs" using snoc.prems(2) by (force simp: packets_def)
  have low: "p \<notin> packets ls" if "iv_Start r \<le> p + 1" using ap(4) that by (force simp: packets_def)
  consider (dup) "iv_Start r \<le> p" "p \<le> iv_End r" | (after) "iv_End r = p - 1" | (before) "iv_Start r = p + 1" "iv_End r \<noteq> p - 1"
    | (new) "iv_End r + 1 < p" | (older) "p + 1 < iv_Start r" using ap(3) by linarith
  then show ?case
  proof cases
    case dup
    then show ?thesis using snoc.prems by (auto simp: n)
  next
    case after
    then have "rs = ls @ r\<lparr>iv_End := p\<rparr> # gs" "new" using snoc.prems(3) ap(3) by (auto simp: n list_update_append split: if_splits)
    then show ?thesis using ap snoc.prems(2) after out low by (auto simp: apart_append)
  next
    case new
    then have "rs = (ls @ [r]) @ \<lparr>iv_Start = p, iv_End = p\<rparr> # gs" "new" using snoc.prems(3) ap(3) by (auto simp: n)
    then show ?thesis using ap snoc.prems(2) new out low by (fastforce simp: apart_append)
  next
    case older
    then have "add_loop p (ls @ r # gs) (length ls) = (rs, new)" using snoc.prems(3) ap(3) by (simp add: n)
    moreover have "\<forall>g \<in> set (r # gs). p + 1 < iv_Start g" using older snoc.prems(2) by auto
    ultimately show ?thesis using snoc.IH [of "r # gs" rs new] snoc.prems(1) by simp
  next
    case before
    show ?thesis
    proof (cases "ls = [] \<or> iv_End (last ls) + 1 \<noteq> p")
      case True
      then have e: "rs = ls @ r\<lparr>iv_Start := p\<rparr> # gs" "new"
        using snoc.prems(3) before ap(3) by (auto simp: n list_update_append nth_append last_conv_nth Let_def split: if_splits)
      have "iv_End l + 1 < p" if "l \<in> set ls" for l
      proof -
        from that have ne: "ls \<noteq> []" by auto
        then have "apart (butlast ls @ [last ls])" "l \<in> set (butlast ls @ [last ls])" using ap(1) that by simp_all
        then have "iv_End l \<le> iv_End (last ls)" by (auto simp: apart_append simp del: append_butlast_last_id)
        moreover have "iv_End (last ls) + 1 < p + 1" "iv_End (last ls) + 1 \<noteq> p"
          using ap(4) last_in_set [OF ne] before(1) True ne by auto
        ultimately show ?thesis by linarith
      qed
      then show ?thesis using e ap snoc.prems(2) before out low by (auto simp: apart_append)
    next
      case False
      then obtain ks q where ls: "ls = ks @ [q]" "iv_End q + 1 = p" by (metis append_butlast_last_id)
      then have e: "rs = ks @ q\<lparr>iv_End := iv_End r\<rparr> # gs" "new"
        using snoc.prems(3) before ap(3) by (auto simp: n list_update_append nth_append split: if_splits)
      then show ?thesis using ap ls snoc.prems(2) before out low by (fastforce simp: apart_append)
    qed
  qed
qed

lemma apart_drop: "apart rs \<Longrightarrow> apart (drop k rs) \<and> (\<exists>m. packets (drop k rs) = {q \<in> packets rs. m \<le> q})"
proof -
  assume a: "apart rs"
  then have b: "apart (take k rs @ drop k rs)" by simp
  show ?thesis
  proof (cases "drop k rs")
    case Nil
    have "packets rs \<subseteq> {..Max (iv_End ` set rs)}" if "rs \<noteq> []"
      using that by (auto simp: packets_def intro: order_trans [OF _ Max_ge])
    then have "packets (drop k rs) = {q \<in> packets rs. Max (iv_End ` set rs) + 1 \<le> q}" using Nil by (cases "rs = []") auto
    then show ?thesis using Nil by auto
  next
    case (Cons r ss)
    have "packets (drop k rs) = {q \<in> packets (take k rs @ drop k rs). iv_Start r \<le> q}"
      using b unfolding Cons by (force simp: apart_append packets_def)
    then show ?thesis using b [unfolded apart_append] by auto
  qed
qed

lemma addToRanges_spec:
  assumes "apart (ph_ranges h)" and "addToRanges h p = (h1, new)"
  shows "apart (ph_ranges h1) \<and> packets (ph_ranges h1) = insert p (packets (ph_ranges h)) \<and> (new \<longleftrightarrow> p \<notin> packets (ph_ranges h)) \<and>
    length (ph_ranges h1) \<le> Suc (length (ph_ranges h)) \<and> ph_ranges h1 \<noteq> [] \<and> ph_deletedBelow h1 = ph_deletedBelow h"
proof (cases "ph_ranges h = []")
  case True
  then show ?thesis using assms(2) by (auto simp: addToRanges_def)
next
  case False
  then obtain rs where rs: "add_loop p (ph_ranges h) (length (ph_ranges h)) = (rs, new)" "h1 = h\<lparr>ph_ranges := rs\<rparr>"
    using assms(2) by (auto simp: addToRanges_def split: prod.splits)
  with add_loop_spec [of "ph_ranges h" "[]" p rs new] assms(1) show ?thesis by simp
qed

text \<open>The packets that should be known after packet \<open>p\<close> arrived.\<close>

definition with_packet :: "packet_history \<Rightarrow> int \<Rightarrow> int set" where
  "with_packet h p = (if ph_deletedBelow h \<le> p then insert p (packets (ph_ranges h)) else packets (ph_ranges h))"

lemma hist_inv_packets: "hist_inv h \<Longrightarrow> q \<in> packets (ph_ranges h) \<Longrightarrow> ph_deletedBelow h \<le> q"
  using starts_packets by (auto simp: hist_inv_def)

lemma hist_ReceivedPacket_spec:
  assumes "hist_inv h" and "hist_ReceivedPacket h p = (h', new)"
  shows "hist_inv h' \<and> ph_deletedBelow h' = ph_deletedBelow h \<and> (new \<longleftrightarrow> ph_deletedBelow h \<le> p \<and> p \<notin> packets (ph_ranges h)) \<and>
    (\<exists>m. packets (ph_ranges h') = {q \<in> with_packet h p. m \<le> q}) \<and>
    (length (ph_ranges h) < MaxNumAckRanges \<longrightarrow> packets (ph_ranges h') = with_packet h p) \<and> (ph_deletedBelow h \<le> p \<longrightarrow> ph_ranges h' \<noteq> [])"
proof (cases "p < ph_deletedBelow h")
  case True
  with assms hist_inv_packets [OF assms(1)] show ?thesis
    by (auto simp: hist_ReceivedPacket_def with_packet_def intro!: exI [of _ "ph_deletedBelow h"])
next
  case False
  obtain h1 n1 where a: "addToRanges h p = (h1, n1)" by fastforce
  let ?rs = "ph_ranges h1" and ?k = "length (ph_ranges h1) - MaxNumAckRanges"
  have ap: "apart (ph_ranges h)" "length (ph_ranges h) \<le> MaxNumAckRanges" using assms(1) by (auto simp: hist_inv_def)
  note s = addToRanges_spec [OF ap(1) a]
  have w: "packets ?rs = with_packet h p" using s False by (simp add: with_packet_def)
  have h': "h' = h1\<lparr>ph_ranges := drop ?k ?rs\<rparr>" "new = n1" using False assms(2) a by (auto simp: hist_ReceivedPacket_def)
  obtain m where m: "packets (drop ?k ?rs) = {q \<in> packets ?rs. m \<le> q}" "apart (drop ?k ?rs)" using apart_drop [of ?rs ?k] s by blast
  have "\<forall>q \<in> packets (drop ?k ?rs). ph_deletedBelow h \<le> q" using m(1) s hist_inv_packets [OF assms(1)] False by auto
  then have lo: "\<forall>r \<in> set (drop ?k ?rs). ph_deletedBelow h \<le> iv_Start r" using starts_packets [OF m(2)] by blast
  have k: "length (ph_ranges h) < MaxNumAckRanges \<Longrightarrow> drop ?k ?rs = ?rs" using s by (simp add: Suc_leI)
  have ne: "drop ?k ?rs \<noteq> []" using s by (cases ?rs) (auto simp: MaxNumAckRanges_def)
  have "hist_inv h'" using lo m(2) s by (simp add: hist_inv_def h')
  moreover have "\<exists>m. packets (ph_ranges h') = {q \<in> with_packet h p. m \<le> q}" using m(1) w by (auto simp: h')
  moreover have "length (ph_ranges h) < MaxNumAckRanges \<longrightarrow> packets (ph_ranges h') = with_packet h p" using k w by (simp add: h')
  ultimately show ?thesis using s ne False by (simp add: h')
qed

lemma delete_loop_spec:
  "apart rs \<Longrightarrow> apart (delete_loop p rs) \<and> packets (delete_loop p rs) = {q \<in> packets rs. p \<le> q} \<and> length (delete_loop p rs) \<le> length rs"
proof (induction rs)
  case (Cons r rs)
  have "p \<le> q" if "q \<in> packets rs" "p \<le> iv_End r" for q using Cons.prems that by (force simp: packets_def)
  then show ?case using Cons by auto
qed simp

lemma DeleteBelow_spec:
  assumes "hist_inv h"
  shows "hist_inv (DeleteBelow h p) \<and> ph_deletedBelow (DeleteBelow h p) = max p (ph_deletedBelow h) \<and>
    packets (ph_ranges (DeleteBelow h p)) = {q \<in> packets (ph_ranges h). p \<le> q}"
proof (cases "p < ph_deletedBelow h")
  case True
  then show ?thesis using assms hist_inv_packets [OF assms] by (force simp: DeleteBelow_def)
next
  case False
  have d: "apart (delete_loop p (ph_ranges h))" "packets (delete_loop p (ph_ranges h)) = {q \<in> packets (ph_ranges h). p \<le> q}"
    "length (delete_loop p (ph_ranges h)) \<le> length (ph_ranges h)" using delete_loop_spec assms by (auto simp: hist_inv_def)
  have e: "DeleteBelow h p = h\<lparr>ph_deletedBelow := p, ph_ranges := delete_loop p (ph_ranges h)\<rparr>"
    using False by (cases "ph_ranges h") (auto simp: DeleteBelow_def)
  have "\<forall>r \<in> set (delete_loop p (ph_ranges h)). p \<le> iv_Start r" using starts_packets [OF d(1)] d(2) by blast
  then show ?thesis using d assms False by (auto simp: e hist_inv_def)
qed

lemma duplicate_loop_spec: "apart (ls @ gs) \<Longrightarrow> duplicate_loop (ls @ gs) p (length ls) = (p \<in> packets ls)"
proof (induction ls arbitrary: gs rule: rev_induct)
  case (snoc r ls)
  have "p \<notin> packets ls" if "p \<ge> iv_Start r" using snoc.prems that by (force simp: apart_append packets_def)
  then show ?case using snoc.IH [of "r # gs"] snoc.prems by (auto simp: apart_append)
qed simp

lemma IsPotentiallyDuplicate_spec:
  "hist_inv h \<Longrightarrow> hist_IsPotentiallyDuplicate h p \<longleftrightarrow> p < ph_deletedBelow h \<or> p \<in> packets (ph_ranges h)"
  using duplicate_loop_spec [of "ph_ranges h" "[]" p] by (simp add: hist_IsPotentiallyDuplicate_def hist_inv_def)


text \<open>The greatest number up to \<open>p\<close> that is missing from a set.\<close>

definition top_missing :: "int set \<Rightarrow> int \<Rightarrow> int \<Rightarrow> bool" where
  "top_missing S p q \<longleftrightarrow> q \<le> p \<and> q \<notin> S \<and> (\<forall>x. q < x \<and> x \<le> p \<longrightarrow> x \<in> S)"

lemma missing_loop_spec:
  assumes "ph_ranges h = ls @ gs" and "apart (ls @ gs)" and "ls \<noteq> [] \<Longrightarrow> p \<le> iv_End (last ls)"
    and "ph_deletedBelow h \<noteq> InvalidPacketNumber \<Longrightarrow> ph_deletedBelow h \<le> p"
  shows "\<exists>q. top_missing (packets ls) p q \<and>
    missing_loop h p (length ls) = (if ph_deletedBelow h \<noteq> InvalidPacketNumber \<and> q < ph_deletedBelow h then InvalidPacketNumber else q)"
  using assms(1-3)
proof (induction ls arbitrary: gs rule: rev_induct)
  case Nil
  then show ?case using assms(4) by (intro exI [of _ p]) (auto simp: top_missing_def)
next
  case (snoc r ls)
  have n: "ph_ranges h ! length ls = r" using snoc.prems(1) by simp
  have pv: "ls \<noteq> [] \<Longrightarrow> ph_ranges h ! (length ls - Suc 0) = last ls" using snoc.prems(1) by (simp add: nth_append last_conv_nth)
  have ap: "iv_Start r \<le> iv_End r" "apart ls" "\<forall>l \<in> set ls. iv_End l + 1 < iv_Start r" using snoc.prems(2) by (auto simp: apart_append)
  have le: "p \<le> iv_End r" using snoc.prems(3) by simp
  have low: "q \<notin> packets ls" if "iv_Start r \<le> q + 1" for q using ap(3) that by (force simp: packets_def)
  show ?case
  proof (cases "iv_Start r \<le> p")
    case True
    then have "top_missing (packets (ls @ [r])) p (iv_Start r - 1)" using le low by (auto simp: top_missing_def)
    moreover have "missing_loop h p (length (ls @ [r])) = (if ph_deletedBelow h \<noteq> InvalidPacketNumber \<and> iv_Start r - 1 < ph_deletedBelow h then InvalidPacketNumber else iv_Start r - 1)"
      using True le by (simp add: n Let_def)
    ultimately show ?thesis by blast
  next
    case False
    show ?thesis
    proof (cases "ls \<noteq> [] \<and> p > iv_End (last ls)")
      case True
      have "apart (butlast ls @ [last ls])" using True ap(2) by simp
      then have "\<forall>l \<in> set (butlast ls @ [last ls]). iv_End l \<le> iv_End (last ls)" by (auto simp: apart_append simp del: append_butlast_last_id)
      then have "p \<notin> packets ls" using True by (force simp: packets_def)
      then have "top_missing (packets (ls @ [r])) p p" using False by (auto simp: top_missing_def)
      moreover have "missing_loop h p (length (ls @ [r])) = p"
        using True False by (simp add: n pv Let_def Suc_le_eq)
      ultimately show ?thesis using assms(4) by auto
    next
      case older: False
      then have st: "missing_loop h p (length (ls @ [r])) = missing_loop h p (length ls)"
        using False by (auto simp: n pv Let_def Suc_le_eq)
      have tm: "top_missing (packets (ls @ [r])) p q \<longleftrightarrow> top_missing (packets ls) p q" for q
        using False by (auto simp: top_missing_def)
      show ?thesis unfolding st tm
        by (rule snoc.IH [of "r # gs"]) (use snoc.prems(1,2) older in auto)
    qed
  qed
qed

lemma HighestMissingUpTo_spec:
  assumes "hist_inv h" and "ph_ranges h \<noteq> []" and "\<not> (ph_deletedBelow h \<noteq> InvalidPacketNumber \<and> p < ph_deletedBelow h)"
  shows "\<exists>q. top_missing (packets (ph_ranges h)) (min (iv_End (last (ph_ranges h))) p) q \<and>
    HighestMissingUpTo h p = (if ph_deletedBelow h \<noteq> InvalidPacketNumber \<and> q < ph_deletedBelow h then InvalidPacketNumber else q)"
proof -
  let ?p = "min (iv_End (last (ph_ranges h))) p"
  have d: "ph_deletedBelow h \<le> iv_End (last (ph_ranges h))" using assms(1) last_in_set [OF assms(2)] by (force simp: hist_inv_def apart_def)
  have c: "HighestMissingUpTo h p = missing_loop h ?p (length (ph_ranges h))"
    using assms(2,3) by (auto simp: HighestMissingUpTo_def last_conv_nth)
  show ?thesis unfolding c
    by (rule missing_loop_spec [where gs = "[]"]) (use assms(1,3) d in \<open>auto simp: hist_inv_def\<close>)
qed

text \<open>C35: The list of received ranges implements a set of packet numbers. Every operation keeps the ranges
  ordered, separated by gaps and at most 64. A packet is reported as new exactly if it is neither known nor
  below the deletion limit, and is then added (a full list forgets its oldest packets); deleting removes exactly
  the packets below the limit; a packet counts as a duplicate exactly if it is known or below the limit; and the
  highest missing packet is the greatest number not in the set, unless it is below the limit.\<close>

theorem packet_history_refines:
  assumes "hist_inv h"
  shows "(\<exists>h' m. hist_ReceivedPacket h p = (h', ph_deletedBelow h \<le> p \<and> p \<notin> packets (ph_ranges h)) \<and> hist_inv h' \<and>
      ph_deletedBelow h' = ph_deletedBelow h \<and> packets (ph_ranges h') = {q \<in> with_packet h p. m \<le> q} \<and>
      (length (ph_ranges h) < MaxNumAckRanges \<longrightarrow> packets (ph_ranges h') = with_packet h p)) \<and>
    hist_inv (DeleteBelow h p) \<and> ph_deletedBelow (DeleteBelow h p) = max p (ph_deletedBelow h) \<and>
    packets (ph_ranges (DeleteBelow h p)) = {q \<in> packets (ph_ranges h). p \<le> q} \<and>
    (hist_IsPotentiallyDuplicate h p \<longleftrightarrow> p < ph_deletedBelow h \<or> p \<in> packets (ph_ranges h)) \<and>
    (if ph_ranges h = [] \<or> ph_deletedBelow h \<noteq> InvalidPacketNumber \<and> p < ph_deletedBelow h then HighestMissingUpTo h p = InvalidPacketNumber
     else \<exists>q. top_missing (packets (ph_ranges h)) (min (iv_End (last (ph_ranges h))) p) q \<and>
        HighestMissingUpTo h p = (if ph_deletedBelow h \<noteq> InvalidPacketNumber \<and> q < ph_deletedBelow h then InvalidPacketNumber else q))"
proof -
  obtain h' new where r: "hist_ReceivedPacket h p = (h', new)" by fastforce
  have a: "\<exists>h' m. hist_ReceivedPacket h p = (h', ph_deletedBelow h \<le> p \<and> p \<notin> packets (ph_ranges h)) \<and> hist_inv h' \<and>
      ph_deletedBelow h' = ph_deletedBelow h \<and> packets (ph_ranges h') = {q \<in> with_packet h p. m \<le> q} \<and>
      (length (ph_ranges h) < MaxNumAckRanges \<longrightarrow> packets (ph_ranges h') = with_packet h p)"
    using hist_ReceivedPacket_spec [OF assms r] unfolding r by blast
  have b: "if ph_ranges h = [] \<or> ph_deletedBelow h \<noteq> InvalidPacketNumber \<and> p < ph_deletedBelow h then HighestMissingUpTo h p = InvalidPacketNumber
     else \<exists>q. top_missing (packets (ph_ranges h)) (min (iv_End (last (ph_ranges h))) p) q \<and>
        HighestMissingUpTo h p = (if ph_deletedBelow h \<noteq> InvalidPacketNumber \<and> q < ph_deletedBelow h then InvalidPacketNumber else q)"
  proof (cases "ph_ranges h = [] \<or> ph_deletedBelow h \<noteq> InvalidPacketNumber \<and> p < ph_deletedBelow h")
    case True
    then show ?thesis by (auto simp: HighestMissingUpTo_def)
  next
    case False
    with HighestMissingUpTo_spec [OF assms, of p] show ?thesis by presburger
  qed
  from a b DeleteBelow_spec [OF assms, of p] IsPotentiallyDuplicate_spec [OF assms, of p] show ?thesis by blast
qed

definition ex_history :: packet_history where
  "ex_history = fst (hist_ReceivedPacket (fst (hist_ReceivedPacket (fst (hist_ReceivedPacket newReceivedPacketHistory 4)) 7)) 5)"

lemma hist_inv_new: "hist_inv newReceivedPacketHistory"
  by (simp add: hist_inv_def newReceivedPacketHistory_def)

lemma ex_history_value: "ex_history = \<lparr>ph_ranges = [\<lparr>iv_Start = 4, iv_End = 5\<rparr>, \<lparr>iv_Start = 7, iv_End = 7\<rparr>], ph_deletedBelow = -1\<rparr>"
  by code_simp

lemma packet_history_refines_witness:
  "hist_inv ex_history \<and> packets (ph_ranges (DeleteBelow ex_history 5)) = {5, 7} \<and> hist_IsPotentiallyDuplicate ex_history 5 \<and>
     (\<exists>h'. hist_ReceivedPacket ex_history 6 = (h', True) \<and> hist_inv h' \<and> packets (ph_ranges h') = {4..7})"
proof -
  have i: "hist_inv ex_history" by (simp add: ex_history_value hist_inv_def MaxNumAckRanges_def)
  have p: "packets (ph_ranges ex_history) = {4, 5, 7}" by (auto simp: ex_history_value)
  have w: "with_packet ex_history 6 = {4..7}" by (auto simp: ex_history_value with_packet_def)
  have d: "ph_deletedBelow ex_history = -1" "length (ph_ranges ex_history) < MaxNumAckRanges" by (simp_all add: ex_history_value MaxNumAckRanges_def)
  have "{q \<in> {4, 5, 7 :: int}. 5 \<le> q} = {5, 7}" by auto
  with packet_history_refines [OF i, of 5] packet_history_refines [OF i, of 6] i p w d show ?thesis by auto
qed

text \<open>A full history forgets its oldest range without raising the deletion limit: a packet of that range that
  arrives again is taken for new.\<close>

definition even_packets :: packet_history where
  "even_packets = fold (\<lambda>p h. fst (hist_ReceivedPacket h p)) (map (\<lambda>i. 2 * int i) [0..<65]) newReceivedPacketHistory"

lemma forgotten_packet_is_new: "\<not> hist_IsPotentiallyDuplicate even_packets 0 \<and> snd (hist_ReceivedPacket even_packets 0)"
  by code_simp

end
