(* ===== verification/Packet_Tracker.thy ===== *)
theory Packet_Tracker
  imports Packet_History
begin

text \<open>
  Which packets are acknowledged, and when (\<^verbatim>\<open>received_packet_tracker.go\<close> and \<^verbatim>\<open>received_packet_handler.go\<close> of
  \<^verbatim>\<open>deps/quic-go/internal/ackhandler\<close>): one tracker per packet number space, delayed acknowledgements of application
  data, and the ring of receive timestamps. Times are nanoseconds of the process's monotonic clock. A tracker
  keeps the frame it returned last; a caller that truncates this frame changes what the tracker sees.
\<close>

section \<open>Trackers\<close>

datatype ecn = ECNUnsupported | ECNNon | ECT1 | ECT0 | ECNCE

record packet_tracker =
  pt_ect0 :: u64
  pt_ect1 :: u64
  pt_ecnce :: u64
  pt_packetHistory :: packet_history
  pt_lastAck :: "ack_frame option"
  pt_hasNewAck :: bool

definition newReceivedPacketTracker :: packet_tracker where
  "newReceivedPacketTracker = \<lparr>pt_ect0 = 0, pt_ect1 = 0, pt_ecnce = 0, pt_packetHistory = newReceivedPacketHistory, pt_lastAck = None, pt_hasNewAck = False\<rparr>"

definition count_ecn :: "ecn \<Rightarrow> packet_tracker \<Rightarrow> packet_tracker" where
  "count_ecn e h = (case e of
     ECT0 \<Rightarrow> h\<lparr>pt_ect0 := pt_ect0 h + 1\<rparr>
   | ECT1 \<Rightarrow> h\<lparr>pt_ect1 := pt_ect1 h + 1\<rparr>
   | ECNCE \<Rightarrow> h\<lparr>pt_ecnce := pt_ecnce h + 1\<rparr>
   | _ \<Rightarrow> h)"

definition pt_ReceivedPacket :: "packet_tracker \<Rightarrow> int \<Rightarrow> ecn \<Rightarrow> bool \<Rightarrow> packet_tracker \<times> go_error option" where
  "pt_ReceivedPacket h pn e ackEliciting = (case hist_ReceivedPacket (pt_packetHistory h) pn of (hist, isNew) \<Rightarrow>
     let h1 = h\<lparr>pt_packetHistory := hist\<rparr>
     in if \<not> isNew then (h1, Some (Errorf ''receivedPacketTracker BUG: ReceivedPacket called for old / duplicate packet''))
     else let h2 = count_ecn e h1 in if \<not> ackEliciting then (h2, None) else (h2\<lparr>pt_hasNewAck := True\<rparr>, None))"

definition history_ranges :: "packet_history \<Rightarrow> ack_range list" where
  "history_ranges h = map (\<lambda>r. \<lparr>ar_Smallest = iv_Start r, ar_Largest = iv_End r\<rparr>) (Backward h)"

definition pt_GetAckFrame :: "packet_tracker \<Rightarrow> packet_tracker \<times> ack_frame option" where
  "pt_GetAckFrame h = (if \<not> pt_hasNewAck h then (h, None)
     else let ack = ack_Reset (case pt_lastAck h of None \<Rightarrow> zero_ack | Some a \<Rightarrow> a);
       ack1 = ack\<lparr>af_ECT0 := pt_ect0 h, af_ECT1 := pt_ect1 h, af_ECNCE := pt_ecnce h, af_AckRanges := af_AckRanges ack @ history_ranges (pt_packetHistory h)\<rparr>
     in (h\<lparr>pt_lastAck := Some ack1, pt_hasNewAck := False\<rparr>, Some ack1))"

definition pt_IsPotentiallyDuplicate :: "packet_tracker \<Rightarrow> int \<Rightarrow> bool" where
  "pt_IsPotentiallyDuplicate h pn = hist_IsPotentiallyDuplicate (pt_packetHistory h) pn"

section \<open>Application data\<close>

record app_tracker =
  at_timestampLimit :: nat
  at_timestampExponent :: u64
  at_timestampOrigin :: int
  at_timestampOriginUs :: int
  at_timestamps :: "receive_timestamp list"
  at_timestampCursor :: nat
  at_timestampCount :: nat
  at_tracker :: packet_tracker
  at_largestObservedRcvdTime :: int
  at_largestObserved :: int
  at_ignoreBelow :: int
  at_maxAckDelay :: int
  at_ackQueued :: bool
  at_ackEliciting :: nat
  at_ackAlarm :: int

definition reorderingThreshold :: int where "reorderingThreshold = 1"
definition packetsBeforeAck :: nat where "packetsBeforeAck = 2"
definition MaxAckDelay :: int where "MaxAckDelay = 25 * 1000000"

definition newAppDataReceivedPacketTracker :: app_tracker where
  "newAppDataReceivedPacketTracker = \<lparr>at_timestampLimit = 0, at_timestampExponent = 0, at_timestampOrigin = 0, at_timestampOriginUs = 0,
     at_timestamps = replicate 256 \<lparr>rt_Packet = 0, rt_Micros = 0\<rparr>, at_timestampCursor = 0, at_timestampCount = 0, at_tracker = newReceivedPacketTracker,
     at_largestObservedRcvdTime = 0, at_largestObserved = 0, at_ignoreBelow = 0, at_maxAckDelay = MaxAckDelay, at_ackQueued = False,
     at_ackEliciting = 0, at_ackAlarm = 0\<rparr>"

text \<open>The clock readings are arguments: the process's clock before and after, and the system's monotonic clock in
  seconds and nanoseconds, or an error.\<close>

definition enableReceiveTimestamps :: "app_tracker \<Rightarrow> u64 \<Rightarrow> u64 \<Rightarrow> int \<Rightarrow> (int \<times> int) option \<Rightarrow> int \<Rightarrow> app_tracker" where
  "enableReceiveTimestamps h limit exponent before now after = (case now of
     None \<Rightarrow> h
   | Some (sec, nsec) \<Rightarrow> h\<lparr>at_timestampLimit := unat (min limit 256), at_timestampExponent := exponent,
       at_timestampOrigin := before + (after - before) sdiv 2, at_timestampOriginUs := sec * 1000000 + nsec sdiv 1000\<rparr>)"

definition make_stamp :: "app_tracker \<Rightarrow> int \<Rightarrow> int \<Rightarrow> receive_timestamp" where
  "make_stamp h pn rcvTime = (let receiveUs = at_timestampOriginUs h + (rcvTime - at_timestampOrigin h) sdiv 1000
     in \<lparr>rt_Packet = pn, rt_Micros = drop_bit (unat (at_timestampExponent h)) (uint64 (max 0 receiveUs))\<rparr>)"

definition store_stamp :: "app_tracker \<Rightarrow> int \<Rightarrow> int \<Rightarrow> app_tracker" where
  "store_stamp h pn rcvTime = (if at_timestampLimit h > 0
     then h\<lparr>at_timestamps := (at_timestamps h)[at_timestampCursor h := make_stamp h pn rcvTime],
       at_timestampCursor := (at_timestampCursor h + 1) mod at_timestampLimit h,
       at_timestampCount := min (at_timestampCount h + 1) (at_timestampLimit h)\<rparr>
     else h)"

definition isMissing :: "app_tracker \<Rightarrow> int \<Rightarrow> bool res" where
  "isMissing h p = (case pt_lastAck (at_tracker h) of
     None \<Rightarrow> Inr False
   | Some ack \<Rightarrow> if p < at_ignoreBelow h then Inr False
       else case LargestAcked ack of
         Inl e \<Rightarrow> Inl e
       | Inr la \<Rightarrow> if p < la then map_sum id Not (AcksPacket ack p) else Inr False)"

definition hasNewMissingPackets :: "app_tracker \<Rightarrow> bool res" where
  "hasNewMissingPackets h = (case pt_lastAck (at_tracker h) of
     None \<Rightarrow> Inr False
   | Some ack \<Rightarrow> if at_largestObserved h < reorderingThreshold then Inr False
       else let highestMissing = HighestMissingUpTo (pt_packetHistory (at_tracker h)) (at_largestObserved h - reorderingThreshold)
         in if highestMissing = InvalidPacketNumber then Inr False
         else case LargestAcked ack of
           Inl e \<Rightarrow> Inl e
         | Inr la \<Rightarrow> if highestMissing < la then Inr False else Inr (highestMissing > la - reorderingThreshold))"

definition shouldQueueACK :: "app_tracker \<Rightarrow> int \<Rightarrow> ecn \<Rightarrow> bool \<Rightarrow> bool res" where
  "shouldQueueACK h pn e wasMissing = (if wasMissing then Inr True
     else if at_ackEliciting h \<ge> packetsBeforeAck then Inr True
     else case hasNewMissingPackets h of
       Inl err \<Rightarrow> Inl err
     | Inr True \<Rightarrow> Inr True
     | Inr False \<Rightarrow> Inr (e = ECNCE))"

definition schedule_ack :: "app_tracker \<Rightarrow> int \<Rightarrow> ecn \<Rightarrow> int \<Rightarrow> app_tracker \<times> go_error option" where
  "schedule_ack h pn e rcvTime = (let h1 = h\<lparr>at_ackEliciting := at_ackEliciting h + 1\<rparr>
     in case isMissing h1 pn of
       Inl err \<Rightarrow> (h1, Some err)
     | Inr missing \<Rightarrow> (case (if at_ackQueued h1 then Inr False else shouldQueueACK h1 pn e missing) of
         Inl err \<Rightarrow> (h1, Some err)
       | Inr queue \<Rightarrow>
           let h2 = (if queue then h1\<lparr>at_ackQueued := True, at_ackAlarm := 0\<rparr> else h1)
           in (if \<not> at_ackQueued h2 then h2\<lparr>at_ackAlarm := rcvTime + at_maxAckDelay h2\<rparr> else h2, None)))"

definition app_ReceivedPacket :: "app_tracker \<Rightarrow> int \<Rightarrow> ecn \<Rightarrow> int \<Rightarrow> bool \<Rightarrow> app_tracker \<times> go_error option" where
  "app_ReceivedPacket h pn e rcvTime ackEliciting = (case pt_ReceivedPacket (at_tracker h) pn e ackEliciting of
     (t, Some err) \<Rightarrow> (h\<lparr>at_tracker := t\<rparr>, Some err)
   | (t, None) \<Rightarrow>
       let h1 = store_stamp (h\<lparr>at_tracker := t\<rparr>) pn rcvTime;
         h2 = (if pn \<ge> at_largestObserved h1 then h1\<lparr>at_largestObserved := pn, at_largestObservedRcvdTime := rcvTime\<rparr> else h1)
       in if \<not> ackEliciting then (h2, None) else schedule_ack h2 pn e rcvTime)"

definition IgnoreBelow :: "app_tracker \<Rightarrow> int \<Rightarrow> app_tracker" where
  "IgnoreBelow h pn = (if pn \<le> at_ignoreBelow h then h
     else h\<lparr>at_ignoreBelow := pn, at_tracker := (at_tracker h)\<lparr>pt_packetHistory := DeleteBelow (pt_packetHistory (at_tracker h)) pn\<rparr>\<rparr>)"

definition app_GetAckFrame :: "app_tracker \<Rightarrow> int \<Rightarrow> bool \<Rightarrow> (app_tracker \<times> ack_frame option) res" where
  "app_GetAckFrame h now onlyIfQueued =
     (if onlyIfQueued \<and> \<not> at_ackQueued h \<and> (at_ackAlarm h = 0 \<or> at_ackAlarm h > now) then Inr (h, None)
      else case pt_GetAckFrame (at_tracker h) of
        (t, None) \<Rightarrow> Inr (h\<lparr>at_tracker := t\<rparr>, None)
      | (t, Some ack) \<Rightarrow>
          let ack1 = ack\<lparr>af_DelayTime := max 0 (now - at_largestObservedRcvdTime h)\<rparr>
          in case (if at_timestampLimit h > 0
                   then PrepareReceiveTimestamps (ack1\<lparr>af_ReceiveTimestamps := take (at_timestampCount h) (at_timestamps h)\<rparr>) else Inr ack1) of
               Inl e \<Rightarrow> Inl e
             | Inr ack2 \<Rightarrow> Inr (h\<lparr>at_tracker := t\<lparr>pt_lastAck := Some ack2\<rparr>, at_ackQueued := False, at_ackAlarm := 0, at_ackEliciting := 0\<rparr>, Some ack2))"

definition app_GetAlarmTimeout :: "app_tracker \<Rightarrow> int" where
  "app_GetAlarmTimeout h = at_ackAlarm h"

section \<open>All packet number spaces\<close>

datatype enc_level = EncryptionInitial | EncryptionHandshake | Encryption0RTT | Encryption1RTT

record packet_handler =
  rh_initialPackets :: "packet_tracker option"
  rh_handshakePackets :: "packet_tracker option"
  rh_appDataPackets :: app_tracker
  rh_lowest1RTTPacket :: int

definition NewReceivedPacketHandler :: packet_handler where
  "NewReceivedPacketHandler = \<lparr>rh_initialPackets = Some newReceivedPacketTracker, rh_handshakePackets = Some newReceivedPacketTracker,
     rh_appDataPackets = newAppDataReceivedPacketTracker, rh_lowest1RTTPacket = InvalidPacketNumber\<rparr>"

definition nil_panic :: go_error where "nil_panic = Panic ''nil pointer dereference''"

definition rh_ReceivedPacket :: "packet_handler \<Rightarrow> int \<Rightarrow> ecn \<Rightarrow> enc_level \<Rightarrow> int \<Rightarrow> bool \<Rightarrow> packet_handler \<times> go_error option" where
  "rh_ReceivedPacket h pn e encLevel rcvTime ackEliciting = (case encLevel of
     EncryptionInitial \<Rightarrow> (case rh_initialPackets h of
       None \<Rightarrow> (h, Some nil_panic)
     | Some t \<Rightarrow> (case pt_ReceivedPacket t pn e ackEliciting of (t1, err) \<Rightarrow> (h\<lparr>rh_initialPackets := Some t1\<rparr>, err)))
   | EncryptionHandshake \<Rightarrow> (case rh_handshakePackets h of
       None \<Rightarrow> (h, None)
     | Some t \<Rightarrow> (case pt_ReceivedPacket t pn e ackEliciting of (t1, err) \<Rightarrow> (h\<lparr>rh_handshakePackets := Some t1\<rparr>, err)))
   | Encryption0RTT \<Rightarrow>
       if rh_lowest1RTTPacket h \<noteq> InvalidPacketNumber \<and> pn > rh_lowest1RTTPacket h
       then (h, Some (Errorf ''received packet number on a 0-RTT packet after receiving on a 1-RTT packet''))
       else (case app_ReceivedPacket (rh_appDataPackets h) pn e rcvTime ackEliciting of (t1, err) \<Rightarrow> (h\<lparr>rh_appDataPackets := t1\<rparr>, err))
   | Encryption1RTT \<Rightarrow>
       let h1 = (if rh_lowest1RTTPacket h = InvalidPacketNumber \<or> pn < rh_lowest1RTTPacket h then h\<lparr>rh_lowest1RTTPacket := pn\<rparr> else h)
       in (case app_ReceivedPacket (rh_appDataPackets h1) pn e rcvTime ackEliciting of (t1, err) \<Rightarrow> (h1\<lparr>rh_appDataPackets := t1\<rparr>, err)))"

definition rh_EnableReceiveTimestamps :: "packet_handler \<Rightarrow> u64 \<Rightarrow> u64 \<Rightarrow> int \<Rightarrow> (int \<times> int) option \<Rightarrow> int \<Rightarrow> packet_handler" where
  "rh_EnableReceiveTimestamps h limit exponent before now after =
     h\<lparr>rh_appDataPackets := enableReceiveTimestamps (rh_appDataPackets h) limit exponent before now after\<rparr>"

definition rh_IgnorePacketsBelow :: "packet_handler \<Rightarrow> int \<Rightarrow> packet_handler" where
  "rh_IgnorePacketsBelow h pn = h\<lparr>rh_appDataPackets := IgnoreBelow (rh_appDataPackets h) pn\<rparr>"

definition rh_DropPackets :: "packet_handler \<Rightarrow> enc_level \<Rightarrow> packet_handler res" where
  "rh_DropPackets h encLevel = (case encLevel of
     EncryptionInitial \<Rightarrow> Inr (h\<lparr>rh_initialPackets := None\<rparr>)
   | EncryptionHandshake \<Rightarrow> Inr (h\<lparr>rh_handshakePackets := None\<rparr>)
   | Encryption0RTT \<Rightarrow> Inr h
   | Encryption1RTT \<Rightarrow> Inl (Panic ''Cannot drop keys for encryption level''))"

definition rh_GetAlarmTimeout :: "packet_handler \<Rightarrow> int" where
  "rh_GetAlarmTimeout h = app_GetAlarmTimeout (rh_appDataPackets h)"

definition rh_GetAckFrame :: "packet_handler \<Rightarrow> enc_level \<Rightarrow> int \<Rightarrow> bool \<Rightarrow> (packet_handler \<times> ack_frame option) res" where
  "rh_GetAckFrame h encLevel now onlyIfQueued = (case encLevel of
     EncryptionInitial \<Rightarrow> (case rh_initialPackets h of
       None \<Rightarrow> Inr (h, None)
     | Some t \<Rightarrow> (case pt_GetAckFrame t of (t1, a) \<Rightarrow> Inr (h\<lparr>rh_initialPackets := Some t1\<rparr>, a)))
   | EncryptionHandshake \<Rightarrow> (case rh_handshakePackets h of
       None \<Rightarrow> Inr (h, None)
     | Some t \<Rightarrow> (case pt_GetAckFrame t of (t1, a) \<Rightarrow> Inr (h\<lparr>rh_handshakePackets := Some t1\<rparr>, a)))
   | Encryption1RTT \<Rightarrow> (case app_GetAckFrame (rh_appDataPackets h) now onlyIfQueued of
       Inl e \<Rightarrow> Inl e | Inr (t1, a) \<Rightarrow> Inr (h\<lparr>rh_appDataPackets := t1\<rparr>, a))
   | Encryption0RTT \<Rightarrow> Inr (h, None))"

definition rh_IsPotentiallyDuplicate :: "packet_handler \<Rightarrow> int \<Rightarrow> enc_level \<Rightarrow> bool res" where
  "rh_IsPotentiallyDuplicate h pn encLevel = (case encLevel of
     EncryptionInitial \<Rightarrow> (case rh_initialPackets h of
       None \<Rightarrow> Inl (Panic ''unexpected encryption level'') | Some t \<Rightarrow> Inr (pt_IsPotentiallyDuplicate t pn))
   | EncryptionHandshake \<Rightarrow> (case rh_handshakePackets h of
       None \<Rightarrow> Inl (Panic ''unexpected encryption level'') | Some t \<Rightarrow> Inr (pt_IsPotentiallyDuplicate t pn))
   | _ \<Rightarrow> Inr (pt_IsPotentiallyDuplicate (at_tracker (rh_appDataPackets h)) pn))"

end
