(* ===== verification/Tracker_Props.thy ===== *)
theory Tracker_Props
  imports Packet_Tracker
begin

text \<open>
  Every run of the tracker of application data: what its acknowledgements say, that they can be written and are
  understood by the peer, and that they are sent in time.
\<close>

section \<open>Runs\<close>

text \<open>
  A run with the set of the packets received so far, the timestamps taken and the number of packets. Times
  are positive and below two to the power of 62, timestamps are enabled once; the receiver of a frame may truncate
  it, keeping at least one range.
\<close>

definition time_ok :: "int \<Rightarrow> bool" where
  "time_ok t \<longleftrightarrow> 0 < t \<and> t < 2 ^ 62"

inductive app_run :: "app_tracker \<Rightarrow> int set \<Rightarrow> receive_timestamp list \<Rightarrow> nat \<Rightarrow> bool" where
  start: "app_run newAppDataReceivedPacketTracker {} [] 0"
| enable: "app_run t S [] n \<Longrightarrow> at_timestampLimit t = 0 \<Longrightarrow> time_ok before \<Longrightarrow> time_ok after \<Longrightarrow> before \<le> after \<Longrightarrow> 0 \<le> sec \<Longrightarrow> sec < 2 ^ 40 \<Longrightarrow>
    0 \<le> nsec \<Longrightarrow> nsec < 1000000000 \<Longrightarrow> app_run (enableReceiveTimestamps t limit exponent before (Some (sec, nsec)) after) S [] n"
| received: "app_run t S L n \<Longrightarrow> app_ReceivedPacket t pn e time eliciting = (t', None) \<Longrightarrow> 0 \<le> pn \<Longrightarrow> pn < 2 ^ 62 \<Longrightarrow> time_ok time \<Longrightarrow>
    app_run t' (insert pn S) (if at_timestampLimit t > 0 then L @ [make_stamp t pn time] else L) (Suc n)"
| ignore: "app_run t S L n \<Longrightarrow> app_run (IgnoreBelow t pn) S L n"
| get: "app_run t S L n \<Longrightarrow> app_GetAckFrame t now queued = Inr (t', a) \<Longrightarrow> app_run t' S L n"
| truncate: "app_run t S L n \<Longrightarrow> pt_lastAck (at_tracker t) = Some a \<Longrightarrow> 0 < k \<Longrightarrow>
    app_run (t\<lparr>at_tracker := (at_tracker t)\<lparr>pt_lastAck := Some (a\<lparr>af_ReceiveTimestamps := take m (af_ReceiveTimestamps a), af_AckRanges := take k (af_AckRanges a)\<rparr>)\<rparr>\<rparr>) S L n"

section \<open>The timestamp ring\<close>

definition ring_inv :: "app_tracker \<Rightarrow> receive_timestamp list \<Rightarrow> bool" where
  "ring_inv t L \<longleftrightarrow> length (at_timestamps t) = 256 \<and> at_timestampLimit t \<le> 256 \<and>
     (if at_timestampLimit t = 0 then L = [] \<and> at_timestampCount t = 0 \<and> at_timestampCursor t = 0
      else at_timestampCount t = min (length L) (at_timestampLimit t) \<and> at_timestampCursor t = length L mod at_timestampLimit t \<and>
        (\<forall>j. j < length L \<and> length L \<le> j + at_timestampLimit t \<longrightarrow> at_timestamps t ! (j mod at_timestampLimit t) = L ! j))"

lemma ring_store:
  assumes "ring_inv t L" and "at_timestampLimit t > 0"
  shows "ring_inv (store_stamp t pn time) (L @ [make_stamp t pn time])"
proof -
  let ?l = "at_timestampLimit t"
  have r: "length (at_timestamps t) = 256" "?l \<le> 256" "at_timestampCount t = min (length L) ?l" "at_timestampCursor t = length L mod ?l"
    "\<And>j. j < length L \<Longrightarrow> length L \<le> j + ?l \<Longrightarrow> at_timestamps t ! (j mod ?l) = L ! j" using assms by (auto simp: ring_inv_def)
  have c: "at_timestampCursor t < 256" using r(2,4) assms(2) by (metis less_le_trans mod_less_divisor)
  have "((at_timestamps t)[at_timestampCursor t := make_stamp t pn time]) ! (j mod ?l) = (L @ [make_stamp t pn time]) ! j"
    if "j < Suc (length L)" "Suc (length L) \<le> j + ?l" for j
  proof (cases "j = length L")
    case True
    then show ?thesis using r(1,4) c by simp
  next
    case False
    then have j: "j < length L" "length L < j + ?l" using that by auto
    have "j mod ?l \<noteq> length L mod ?l"
    proof
      assume "j mod ?l = length L mod ?l"
      then have "?l dvd length L - j" using j(1) by (metis mod_eq_dvd_iff_nat less_imp_le)
      then show False using j by (auto dest: dvd_imp_le)
    qed
    then show ?thesis using r(4,5) j by (simp add: nth_append)
  qed
  moreover have "Suc (length L mod ?l) mod ?l = Suc (length L) mod ?l" by (simp add: mod_Suc_eq)
  ultimately show ?thesis using r assms(2) by (auto simp: ring_inv_def store_stamp_def)
qed

lemma mod_interval_image:
  fixes a l :: nat
  assumes "0 < l"
  shows "(\<lambda>j. j mod l) ` {a..<a + l} = {0..<l}"
proof -
  have "\<exists>j. a \<le> j \<and> j < a + l \<and> j mod l = i" if "i < l" for i
  proof (intro exI conjI)
    let ?d = "(i + (l - a mod l)) mod l"
    show "a \<le> a + ?d" "a + ?d < a + l" using assms by simp_all
    have "(a + ?d) mod l = (a mod l + (i + (l - a mod l))) mod l" by (simp add: mod_simps)
    also have "a mod l + (i + (l - a mod l)) = i + l" using mod_less_divisor [OF assms, of a] by linarith
    finally show "(a + ?d) mod l = i" using that by simp
  qed
  then show ?thesis using assms by (fastforce simp: image_iff)
qed

text \<open>The ring holds exactly the newest timestamps.\<close>

lemma ring_contents:
  assumes "ring_inv t L" and "at_timestampLimit t > 0"
  shows "set (take (at_timestampCount t) (at_timestamps t)) = set (drop (length L - at_timestampLimit t) L)"
proof -
  let ?l = "at_timestampLimit t" and ?n = "length L"
  have r: "length (at_timestamps t) = 256" "?l \<le> 256" "at_timestampCount t = min ?n ?l"
    "\<And>j. j < ?n \<Longrightarrow> ?n \<le> j + ?l \<Longrightarrow> at_timestamps t ! (j mod ?l) = L ! j" using assms by (auto simp: ring_inv_def)
  show ?thesis
  proof (cases "?n \<le> ?l")
    case True
    have "at_timestamps t ! j = L ! j" if "j < ?n" for j using r(4) [of j] that True by (cases "j = ?l") auto
    then have "take ?n (at_timestamps t) = L" using r(1,2) True by (intro nth_equalityI) auto
    then show ?thesis using r(3) True by simp
  next
    case False
    then have "take (at_timestampCount t) (at_timestamps t) = take ?l (at_timestamps t)" using r(3) by simp
    also have "set \<dots> = (\<lambda>i. at_timestamps t ! i) ` {0..<?l}" using nth_image [of ?l "at_timestamps t"] r(1,2) by simp
    also have "{0..<?l} = (\<lambda>j. j mod ?l) ` {?n - ?l..<?n}"
    proof -
      have "(\<lambda>j. j mod ?l) ` {?n - ?l..<?n - ?l + ?l} = {0..<?l}" using assms(2) by (rule mod_interval_image)
      then show ?thesis using False by simp
    qed
    also have "(\<lambda>i. at_timestamps t ! i) ` (\<lambda>j. j mod ?l) ` {?n - ?l..<?n} = (\<lambda>j. L ! j) ` {?n - ?l..<?n}"
      using r(4) by (force simp: image_image)
    also have "\<dots> = set (drop (?n - ?l) L)" by (metis map_nth drop_map drop_upt plus_nat.add_0 set_map set_upt atLeastLessThan_upt)
    finally show ?thesis .
  qed
qed

section \<open>Invariant\<close>

abbreviation "hist t \<equiv> pt_packetHistory (at_tracker t)"
abbreviation "known t \<equiv> packets (ph_ranges (hist t))"

definition counters_le :: "packet_tracker \<Rightarrow> nat \<Rightarrow> bool" where
  "counters_le h n \<longleftrightarrow> unat (pt_ect0 h) \<le> n \<and> unat (pt_ect1 h) \<le> n \<and> unat (pt_ecnce h) \<le> n"

definition clock_ok :: "app_tracker \<Rightarrow> bool" where
  "clock_ok t \<longleftrightarrow> 0 \<le> at_timestampOriginUs t \<and> at_timestampOriginUs t < 2 ^ 61 \<and> 0 \<le> at_timestampOrigin t \<and>
     0 \<le> at_largestObservedRcvdTime t \<and> at_largestObservedRcvdTime t < 2 ^ 62 \<and> at_maxAckDelay t = MaxAckDelay"

definition ack_pending :: "app_tracker \<Rightarrow> bool" where
  "ack_pending t \<longleftrightarrow> (pt_hasNewAck (at_tracker t) \<longleftrightarrow> 0 < at_ackEliciting t) \<and> (pt_hasNewAck (at_tracker t) \<longrightarrow> at_ackQueued t \<or> 0 < at_ackAlarm t)"

definition app_inv :: "app_tracker \<Rightarrow> int set \<Rightarrow> receive_timestamp list \<Rightarrow> nat \<Rightarrow> bool" where
  "app_inv t S L n \<longleftrightarrow> hist_inv (hist t) \<and> known t \<subseteq> S \<and> (\<forall>p \<in> S. 0 \<le> p \<and> p < 2 ^ 62) \<and> counters_le (at_tracker t) n \<and> ring_inv t L \<and>
     (\<forall>x \<in> set L. rt_Packet x \<in> S \<and> vi (rt_Micros x)) \<and> clock_ok t \<and> ack_pending t"

lemma unat_plus_1_le: "unat (w + 1 :: u64) \<le> Suc (unat w)"
  by (simp add: unat_word_ariths)

lemma pt_ReceivedPacket_ok:
  assumes "pt_ReceivedPacket h pn e el = (h1, None)" and "hist_inv (pt_packetHistory h)"
  shows "hist_inv (pt_packetHistory h1)" "packets (ph_ranges (pt_packetHistory h1)) \<subseteq> insert pn (packets (ph_ranges (pt_packetHistory h)))"
    "pt_hasNewAck h1 = (pt_hasNewAck h \<or> el)" "pt_lastAck h1 = pt_lastAck h" "counters_le h n \<Longrightarrow> counters_le h1 (Suc n)"
    "length (ph_ranges (pt_packetHistory h)) < MaxNumAckRanges \<Longrightarrow> pn \<in> packets (ph_ranges (pt_packetHistory h1))" "ph_ranges (pt_packetHistory h1) \<noteq> []"
proof -
  obtain hs new where r: "hist_ReceivedPacket (pt_packetHistory h) pn = (hs, new)" by fastforce
  have new: new and h1: "h1 = (count_ecn e (h\<lparr>pt_packetHistory := hs\<rparr>))\<lparr>pt_hasNewAck := pt_hasNewAck h \<or> el\<rparr>"
    using assms(1) r by (auto simp: pt_ReceivedPacket_def Let_def count_ecn_def split: if_splits ecn.splits)
  have p: "pt_packetHistory h1 = hs" by (auto simp: h1 count_ecn_def split: ecn.splits)
  from hist_ReceivedPacket_spec [OF assms(2) r] new obtain m where s: "hist_inv hs" "ph_deletedBelow (pt_packetHistory h) \<le> pn"
    "packets (ph_ranges hs) = {q \<in> with_packet (pt_packetHistory h) pn. m \<le> q}"
    "length (ph_ranges (pt_packetHistory h)) < MaxNumAckRanges \<longrightarrow> packets (ph_ranges hs) = with_packet (pt_packetHistory h) pn" "ph_ranges hs \<noteq> []" by blast
  show "hist_inv (pt_packetHistory h1)" "ph_ranges (pt_packetHistory h1) \<noteq> []" using s by (simp_all add: p)
  show "packets (ph_ranges (pt_packetHistory h1)) \<subseteq> insert pn (packets (ph_ranges (pt_packetHistory h)))" using s by (auto simp: p with_packet_def)
  show "length (ph_ranges (pt_packetHistory h)) < MaxNumAckRanges \<Longrightarrow> pn \<in> packets (ph_ranges (pt_packetHistory h1))" using s(2,4) by (simp add: p with_packet_def)
  show "pt_hasNewAck h1 = (pt_hasNewAck h \<or> el)" "pt_lastAck h1 = pt_lastAck h" by (auto simp: h1 count_ecn_def split: ecn.splits)
  show "counters_le h n \<Longrightarrow> counters_le h1 (Suc n)"
    using unat_plus_1_le [of "pt_ect0 h"] unat_plus_1_le [of "pt_ect1 h"] unat_plus_1_le [of "pt_ecnce h"]
    by (auto simp: h1 count_ecn_def counters_le_def split: ecn.splits)
qed

lemma make_stamp_vi:
  assumes "clock_ok t" and "time_ok time"
  shows "vi (rt_Micros (make_stamp t pn time))" and "rt_Packet (make_stamp t pn time) = pn"
proof -
  let ?u = "at_timestampOriginUs t + (time - at_timestampOrigin t) sdiv 1000"
  have "(time - at_timestampOrigin t) sdiv 1000 < 2 ^ 61"
  proof (cases "time < at_timestampOrigin t")
    case True
    then have "(time - at_timestampOrigin t) sdiv 1000 \<le> 0" by (auto simp: signed_divide_int_def sgn_if)
    then show ?thesis by simp
  next
    case False
    then have "(time - at_timestampOrigin t) sdiv 1000 = (time - at_timestampOrigin t) div 1000" by (auto simp: signed_divide_int_def sgn_if)
    moreover have "time - at_timestampOrigin t < 2 ^ 62" using assms by (auto simp: clock_ok_def time_ok_def)
    ultimately show ?thesis by simp
  qed
  then have "max 0 ?u < 2 ^ 62" using assms(1) by (auto simp: clock_ok_def)
  then have v: "vi (uint64 (max 0 ?u))" by (intro vi_uint64) auto
  have "unat (drop_bit k w) \<le> unat w" for k and w :: u64
    unfolding unsigned_drop_bit_eq by (simp add: drop_bit_eq_div) (metis div_le_dividend le_trans take_bit_nat_less_eq_self)
  then have "drop_bit k w \<le> w" for k and w :: u64 by (simp add: word_le_nat_alt)
  then show "vi (rt_Micros (make_stamp t pn time))" using v by (auto simp: make_stamp_def Let_def intro: order_trans)
  show "rt_Packet (make_stamp t pn time) = pn" by (simp add: make_stamp_def Let_def)
qed

text \<open>What scheduling an acknowledgement changes.\<close>

lemma schedule_ack_ok:
  assumes "schedule_ack h pn e time = (h', None)"
  shows "\<exists>q a. h' = h\<lparr>at_ackEliciting := at_ackEliciting h + 1, at_ackQueued := q, at_ackAlarm := a\<rparr> \<and>
    (if at_ackQueued h then q \<and> a = at_ackAlarm h else q \<and> a = 0 \<or> \<not> q \<and> a = time + at_maxAckDelay h \<and> at_ackEliciting h + 1 < packetsBeforeAck)"
proof -
  let ?h1 = "h\<lparr>at_ackEliciting := at_ackEliciting h + 1\<rparr>"
  obtain missing where m: "isMissing ?h1 pn = Inr missing" using assms by (cases "isMissing ?h1 pn") (auto simp: schedule_ack_def Let_def)
  show ?thesis
  proof (cases "at_ackQueued h")
    case True
    then have "h' = ?h1" using assms m by (simp add: schedule_ack_def Let_def)
    then show ?thesis using True by (intro exI [of _ True] exI [of _ "at_ackAlarm h"]) simp
  next
    case False
    then obtain queue where q: "shouldQueueACK ?h1 pn e missing = Inr queue"
      using assms m by (cases "shouldQueueACK ?h1 pn e missing") (auto simp: schedule_ack_def Let_def)
    show ?thesis
    proof (cases queue)
      case True
      then have "h' = ?h1\<lparr>at_ackQueued := True, at_ackAlarm := 0\<rparr>" using assms m q False by (simp add: schedule_ack_def Let_def)
      then show ?thesis using False by (intro exI [of _ True] exI [of _ 0]) simp
    next
      case nq: False
      then have "at_ackEliciting h + 1 < packetsBeforeAck" using q by (auto simp: shouldQueueACK_def split: if_splits sum.splits bool.splits)
      moreover have "h' = ?h1\<lparr>at_ackQueued := False, at_ackAlarm := time + at_maxAckDelay h\<rparr>" using assms m q False nq by (cases h) (simp add: schedule_ack_def Let_def)
      ultimately show ?thesis using False by (intro exI [of _ False] exI [of _ "time + at_maxAckDelay h"]) simp
    qed
  qed
qed

lemma app_ReceivedPacket_ok:
  assumes "app_ReceivedPacket t pn e time el = (t', None)"
  obtains h t1 t2 where "pt_ReceivedPacket (at_tracker t) pn e el = (h, None)" and "t1 = store_stamp (t\<lparr>at_tracker := h\<rparr>) pn time"
    and "t2 = (if pn \<ge> at_largestObserved t1 then t1\<lparr>at_largestObserved := pn, at_largestObservedRcvdTime := time\<rparr> else t1)"
    and "if el then schedule_ack t2 pn e time = (t', None) else t' = t2"
  using assms by (auto simp: app_ReceivedPacket_def Let_def split: prod.splits option.splits if_splits)

lemma store_stamp_simps [simp]:
  "at_tracker (store_stamp t pn time) = at_tracker t" "at_ackEliciting (store_stamp t pn time) = at_ackEliciting t"
  "at_ackQueued (store_stamp t pn time) = at_ackQueued t" "at_ackAlarm (store_stamp t pn time) = at_ackAlarm t"
  "at_maxAckDelay (store_stamp t pn time) = at_maxAckDelay t" "clock_ok (store_stamp t pn time) = clock_ok t"
  "at_timestampLimit (store_stamp t pn time) = at_timestampLimit t" "clock_ok (t\<lparr>at_tracker := h\<rparr>) = clock_ok t"
  by (simp_all add: store_stamp_def clock_ok_def)

lemma make_stamp_tracker [simp]: "make_stamp (t\<lparr>at_tracker := h\<rparr>) = make_stamp t"
  by (simp add: make_stamp_def fun_eq_iff)

lemma ring_inv_tracker [simp]: "ring_inv (t\<lparr>at_tracker := h\<rparr>) = ring_inv t"
  "ring_inv (t\<lparr>at_largestObserved := a, at_largestObservedRcvdTime := b\<rparr>) = ring_inv t"
  "ring_inv (t\<lparr>at_ackEliciting := c, at_ackQueued := q, at_ackAlarm := d\<rparr>) = ring_inv t"
  by (simp_all add: ring_inv_def fun_eq_iff)

lemma received_inv:
  assumes "app_inv t S L n" and "app_ReceivedPacket t pn e time el = (t', None)" and "0 \<le> pn" and "pn < 2 ^ 62" and "time_ok time"
  shows "app_inv t' (insert pn S) (if at_timestampLimit t > 0 then L @ [make_stamp t pn time] else L) (Suc n)"
proof -
  let ?L = "if at_timestampLimit t > 0 then L @ [make_stamp t pn time] else L"
  have i: "hist_inv (hist t)" "known t \<subseteq> S" "\<forall>p \<in> S. 0 \<le> p \<and> p < 2 ^ 62" "counters_le (at_tracker t) n" "ring_inv t L"
    "\<forall>x \<in> set L. rt_Packet x \<in> S \<and> vi (rt_Micros x)" "clock_ok t" "ack_pending t" using assms(1) by (auto simp: app_inv_def)
  from app_ReceivedPacket_ok [OF assms(2)] obtain h t1 t2 where r: "pt_ReceivedPacket (at_tracker t) pn e el = (h, None)"
    and t1: "t1 = store_stamp (t\<lparr>at_tracker := h\<rparr>) pn time"
    and t2: "t2 = (if pn \<ge> at_largestObserved t1 then t1\<lparr>at_largestObserved := pn, at_largestObservedRcvdTime := time\<rparr> else t1)"
    and t': "if el then schedule_ack t2 pn e time = (t', None) else t' = t2" .
  note h = pt_ReceivedPacket_ok [OF r i(1)]
  have L: "\<forall>x \<in> set ?L. rt_Packet x \<in> insert pn S \<and> vi (rt_Micros x)" using i(6) make_stamp_vi [OF i(7) assms(5), of pn] by auto
  have ring1: "ring_inv t1 ?L"
  proof (cases "at_timestampLimit t > 0")
    case True
    then show ?thesis using ring_store [of "t\<lparr>at_tracker := h\<rparr>" L pn time] i(5) by (simp add: t1)
  qed (use i(5) in \<open>simp add: t1 store_stamp_def\<close>)
  have k1: "clock_ok t1" using i(7) by (simp add: t1)
  have s2: "at_tracker t2 = h" "ring_inv t2 ?L" "clock_ok t2" "at_ackEliciting t2 = at_ackEliciting t" "at_ackQueued t2 = at_ackQueued t"
    "at_ackAlarm t2 = at_ackAlarm t" using ring1 k1 assms(5) by (auto simp: t2 t1 clock_ok_def time_ok_def)
  have "at_tracker t' = h \<and> ring_inv t' ?L \<and> clock_ok t' \<and> ack_pending t'"
  proof (cases el)
    case False
    then show ?thesis using t' s2 i(8) h(3) by (auto simp: ack_pending_def)
  next
    case True
    with t' have "schedule_ack t2 pn e time = (t', None)" by simp
    from schedule_ack_ok [OF this] obtain q a where
      e: "t' = t2\<lparr>at_ackEliciting := at_ackEliciting t2 + 1, at_ackQueued := q, at_ackAlarm := a\<rparr>"
      "if at_ackQueued t2 then q \<and> a = at_ackAlarm t2 else q \<and> a = 0 \<or> \<not> q \<and> a = time + at_maxAckDelay t2 \<and> at_ackEliciting t2 + 1 < packetsBeforeAck" by blast
    have "q \<or> 0 < a" using e(2) s2(3) assms(5) by (auto simp: clock_ok_def time_ok_def MaxAckDelay_def split: if_splits)
    then show ?thesis using s2 True h(3) by (auto simp: e(1) ack_pending_def clock_ok_def)
  qed
  then show ?thesis using h(1,2) h(5) [OF i(4)] i(2,3) assms(3,4) L by (auto simp: app_inv_def)
qed

section \<open>Acknowledgements\<close>

lemma descend_rev: "apart rs \<Longrightarrow> ranges_descend (map (\<lambda>r. \<lparr>ar_Smallest = iv_Start r, ar_Largest = iv_End r\<rparr>) (rev rs))"
proof (induction rs rule: rev_induct)
  case (snoc r rs)
  then have "apart rs" "\<forall>s \<in> set rs. iv_End s + 1 < iv_Start r" "\<forall>s \<in> set rs. iv_Start s \<le> iv_End s" by (auto simp: apart_append apart_def sorted_wrt_append)
  with snoc.IH show ?case by (cases rs rule: rev_cases) auto
qed simp

lemma history_ranges_ok:
  assumes "apart (ph_ranges h)"
  shows "ranges_descend (history_ranges h)" "list_all (\<lambda>r. ar_Smallest r \<le> ar_Largest r) (history_ranges h)"
    "acked (history_ranges h) = packets (ph_ranges h)"
proof -
  show "ranges_descend (history_ranges h)" using descend_rev [OF assms] by (simp add: history_ranges_def Backward_def)
  show "list_all (\<lambda>r. ar_Smallest r \<le> ar_Largest r) (history_ranges h)" using assms by (auto simp: history_ranges_def Backward_def list_all_iff apart_def)
  show "acked (history_ranges h) = packets (ph_ranges h)" by (auto simp: acked_def packets_def history_ranges_def Backward_def)
qed

definition plain_ack :: "app_tracker \<Rightarrow> int \<Rightarrow> ack_frame" where
  "plain_ack t now = \<lparr>af_ReceiveTimestamps = [], af_AckRanges = history_ranges (hist t), af_DelayTime = max 0 (now - at_largestObservedRcvdTime t),
     af_ECT0 = pt_ect0 (at_tracker t), af_ECT1 = pt_ect1 (at_tracker t), af_ECNCE = pt_ecnce (at_tracker t)\<rparr>"

definition acknowledged :: "app_tracker \<Rightarrow> ack_frame \<Rightarrow> app_tracker" where
  "acknowledged t ack = t\<lparr>at_tracker := (at_tracker t)\<lparr>pt_lastAck := Some ack, pt_hasNewAck := False\<rparr>, at_ackQueued := False, at_ackAlarm := 0, at_ackEliciting := 0\<rparr>"

lemma app_GetAckFrame_eq:
  "app_GetAckFrame t now onlyIfQueued =
    (if onlyIfQueued \<and> \<not> at_ackQueued t \<and> (at_ackAlarm t = 0 \<or> at_ackAlarm t > now) \<or> \<not> pt_hasNewAck (at_tracker t) then Inr (t, None)
     else case (if at_timestampLimit t > 0
                then PrepareReceiveTimestamps ((plain_ack t now)\<lparr>af_ReceiveTimestamps := take (at_timestampCount t) (at_timestamps t)\<rparr>) else Inr (plain_ack t now)) of
            Inl e \<Rightarrow> Inl e | Inr ack \<Rightarrow> Inr (acknowledged t ack, Some ack))"
proof (cases "pt_hasNewAck (at_tracker t)")
  case True
  let ?a = "\<lparr>af_ReceiveTimestamps = [], af_AckRanges = history_ranges (hist t), af_DelayTime = 0,
     af_ECT0 = pt_ect0 (at_tracker t), af_ECT1 = pt_ect1 (at_tracker t), af_ECNCE = pt_ecnce (at_tracker t)\<rparr>"
  have g: "pt_GetAckFrame (at_tracker t) = ((at_tracker t)\<lparr>pt_lastAck := Some ?a, pt_hasNewAck := False\<rparr>, Some ?a)"
    using True by (simp add: pt_GetAckFrame_def Let_def ack_Reset_def)
  show ?thesis using True by (auto simp: app_GetAckFrame_def g plain_ack_def acknowledged_def Let_def split: sum.splits)
next
  case False
  then have "pt_GetAckFrame (at_tracker t) = (at_tracker t, None)" by (simp add: pt_GetAckFrame_def)
  then show ?thesis using False by (cases t) (simp add: app_GetAckFrame_def)
qed

lemma acknowledged_simps [simp]:
  "hist (acknowledged t ack) = hist t" "counters_le (at_tracker (acknowledged t ack)) = counters_le (at_tracker t)"
  "ring_inv (acknowledged t ack) = ring_inv t" "clock_ok (acknowledged t ack) = clock_ok t" "ack_pending (acknowledged t ack)"
  by (simp_all add: acknowledged_def counters_le_def ring_inv_def clock_ok_def ack_pending_def fun_eq_iff)

lemma get_cases:
  assumes "app_GetAckFrame t now queued = Inr (t', a)"
  shows "t' = t \<and> a = None \<or> (\<exists>ack. t' = acknowledged t ack \<and> a = Some ack)"
proof -
  have "\<exists>ack. t' = acknowledged t ack \<and> a = Some ack" if "(case X of Inl e \<Rightarrow> Inl e | Inr ack \<Rightarrow> Inr (acknowledged t ack, Some ack)) = Inr (t', a)"
    for X :: "ack_frame res"
    using that by (cases X) auto
  then show ?thesis using assms unfolding app_GetAckFrame_eq by (metis (lifting) Inr_inject prod.inject)
qed

lemma get_inv:
  assumes "app_inv t S L n" and "app_GetAckFrame t now queued = Inr (t', a)"
  shows "app_inv t' S L n"
  using get_cases [OF assms(2)] assms(1) by (elim disjE conjE exE) (simp_all add: app_inv_def)

lemma ignore_inv: "app_inv t S L n \<Longrightarrow> app_inv (IgnoreBelow t pn) S L n"
  using DeleteBelow_spec [of "hist t" pn] by (auto simp: app_inv_def IgnoreBelow_def counters_le_def clock_ok_def ack_pending_def ring_inv_def)

lemma enable_inv:
  assumes "app_inv t S [] n" and "at_timestampLimit t = 0" and "time_ok before" and "time_ok after" and "before \<le> after"
    and "0 \<le> sec" and "sec < 2 ^ 40" and "0 \<le> nsec" and "nsec < 1000000000"
  shows "app_inv (enableReceiveTimestamps t limit exponent before (Some (sec, nsec)) after) S [] n"
proof -
  have l: "unat (min limit 256) \<le> 256" by (simp add: min_def word_le_nat_alt)
  have "nsec sdiv 1000 = nsec div 1000" "(after - before) sdiv 2 = (after - before) div 2" using assms(5,8) by (auto simp: signed_divide_int_def sgn_if)
  moreover from this have "0 \<le> nsec sdiv 1000" "nsec sdiv 1000 < 1000000" "0 \<le> (after - before) sdiv 2" using assms(5,8,9) by auto
  ultimately show ?thesis using assms l
    by (auto simp: app_inv_def enableReceiveTimestamps_def clock_ok_def ring_inv_def ack_pending_def time_ok_def)
qed

lemma app_run_inv: "app_run t S L n \<Longrightarrow> app_inv t S L n"
proof (induction rule: app_run.induct)
  case start
  show ?case
    by (auto simp: app_inv_def newAppDataReceivedPacketTracker_def newReceivedPacketTracker_def hist_inv_def counters_le_def ring_inv_def clock_ok_def
        ack_pending_def newReceivedPacketHistory_def)
next
  case (enable t S n before after sec nsec limit exponent)
  then show ?case using enable_inv by blast
next
  case (received t S L n pn e time eliciting t')
  then show ?case using received_inv by blast
next
  case (ignore t S L n pn)
  then show ?case using ignore_inv by blast
next
  case (get t S L n now queued t' a)
  then show ?case using get_inv by blast
next
  case (truncate t S L n a k m)
  then show ?case by (auto simp: app_inv_def counters_le_def clock_ok_def ack_pending_def ring_inv_def)
qed

lemma wire_ack:
  assumes "ack_ok f" and "stamps_ok (af_ReceiveTimestamps f)"
  shows "\<exists>bs f' k. ack_Append f [] = Inr bs \<and> ack_Length f = Inr (length bs) \<and>
    parseAckFrame zero_ack (drop (if af_ReceiveTimestamps f = [] then 1 else 2) bs)
      (if af_ReceiveTimestamps f = [] \<and> hasECN f then FrameTypeAckECN else FrameTypeAck) 3 = Inr (f', k) \<and>
    af_AckRanges f' = take MaxNumAckRanges (af_AckRanges f) \<and>
    (af_ReceiveTimestamps f \<noteq> [] \<longrightarrow> (\<exists>rest. read_receive_timestamps (drop (2 + k) bs) = Inr (af_ReceiveTimestamps f, rest)))"
proof (cases "af_ReceiveTimestamps f = []")
  case True
  from plain_roundtrip [OF assms(1) True] obtain body where
    "\<forall>b. append_plain f b = Inr (b @ ucast (if hasECN f then FrameTypeAckECN else FrameTypeAck) # body)" "length_plain f = Inr (1 + length body)"
    "\<forall>rest. parseAckFrame zero_ack (body @ rest) (if hasECN f then FrameTypeAckECN else FrameTypeAck) 3 = Inr (received f, length body)" by blast
  then show ?thesis using True
    by (intro exI [of _ "ucast (if hasECN f then FrameTypeAckECN else FrameTypeAck) # body"] exI [of _ "received f"] exI [of _ "length body"])
      (auto simp: ack_Append_def ack_Length_def received_def dest: spec [of _ "[]"])
next
  case False
  from timestamp_roundtrip [OF assms False] obtain bs where b: "\<forall>b. ack_Append f b = Inr (b @ bs)" "ack_Length f = Inr (length bs)" "timestamp_frame f bs" by blast
  then obtain body stamps es where p: "bs = [0x40, 0xB0] @ body @ stamps @ es"
    "\<forall>rest. parseAckFrame zero_ack (body @ rest) FrameTypeAck 3 = Inr (received (normal f), length body)"
    "\<forall>rest. read_receive_timestamps (stamps @ rest) = Inr (af_ReceiveTimestamps f, rest)" unfolding timestamp_frame_def by blast
  have "af_AckRanges (received (normal f)) = take MaxNumAckRanges (af_AckRanges f)" by (simp add: received_def normal_def without_timestamps_def)
  then show ?thesis using False b(1,2) p
    by (intro exI [of _ bs] exI [of _ "received (normal f)"] exI [of _ "length body"]) auto
qed

lemma plain_ack_ok:
  assumes "app_inv t S L n" and "n < 2 ^ 62" and "ph_ranges (hist t) \<noteq> []" and "time_ok now"
  shows "ack_ok ((plain_ack t now)\<lparr>af_ReceiveTimestamps := ts\<rparr>)"
proof -
  have i: "hist_inv (hist t)" "known t \<subseteq> S" "\<forall>p \<in> S. 0 \<le> p \<and> p < 2 ^ 62" "counters_le (at_tracker t) n" "clock_ok t" using assms(1) by (auto simp: app_inv_def)
  have ap: "apart (ph_ranges (hist t))" using i(1) by (simp add: hist_inv_def)
  note h = history_ranges_ok [OF ap]
  have "range_ok r" if "r \<in> set (history_ranges (hist t))" for r
  proof -
    have le: "ar_Smallest r \<le> ar_Largest r" using h(2) that by (auto simp: list_all_iff)
    then have "{ar_Smallest r, ar_Largest r} \<subseteq> known t" using that unfolding h(3) [symmetric] by (auto simp: acked_def)
    then show ?thesis using le i(2,3) by (auto simp: range_ok_def)
  qed
  moreover have "history_ranges (hist t) \<noteq> []" using assms(3) by (simp add: history_ranges_def Backward_def)
  moreover have "vi (pt_ect0 (at_tracker t))" "vi (pt_ect1 (at_tracker t))" "vi (pt_ecnce (at_tracker t))"
    using i(4) assms(2) by (auto simp: counters_le_def maxVarInt_bounds)
  moreover have "max 0 (now - at_largestObservedRcvdTime t) < 2 ^ 63" using assms(4) i(5) by (auto simp: time_ok_def clock_ok_def)
  ultimately show ?thesis using h(1,2) by (simp add: ack_ok_def plain_ack_def validateAckRanges_def list_all_iff not_less)
qed

lemma prepare_keep:
  assumes "validateAckRanges f"
  shows "\<exists>out. PrepareReceiveTimestamps f = Inr (f\<lparr>af_ReceiveTimestamps := out\<rparr>) \<and> sorted_wrt stamp_desc out \<and>
    length out \<le> length (af_ReceiveTimestamps f) \<and> set out \<subseteq> {x \<in> set (af_ReceiveTimestamps f). rt_Packet x \<in> acked (af_AckRanges f)}"
proof -
  let ?fs = "filter (\<lambda>t. rt_Packet t \<in> acked (af_AckRanges f)) (sort_slice later_packet (af_ReceiveTimestamps f))"
  have l: "length (keep_from u ts) \<le> length ts" for u ts by (induction u ts rule: keep_from.induct) auto
  have "length (keep_from None ?fs) \<le> length (af_ReceiveTimestamps f)"
    using l [of None ?fs] length_filter_le [of "\<lambda>t. rt_Packet t \<in> acked (af_AckRanges f)" "sort_slice later_packet (af_ReceiveTimestamps f)"] by simp
  moreover have "sorted_wrt stamp_desc (keep_from None ?fs)" by (intro keep_from_None sorted_wrt_filter_mono sorted_later)
  ultimately show ?thesis using keep_from_subset [of None ?fs]
    by (intro exI [of _ "keep_from None ?fs"]) (auto simp: PrepareReceiveTimestamps_def keep_timestamps_filter [OF assms])
qed

text \<open>What the returned frame holds.\<close>

lemma get_frame:
  assumes "app_inv t S L n" and "n < 2 ^ 62" and "ph_ranges (hist t) \<noteq> []" and "time_ok now"
  shows "\<exists>t' a. app_GetAckFrame t now q = Inr (t', a) \<and>
    (a = None \<longleftrightarrow> q \<and> \<not> at_ackQueued t \<and> (at_ackAlarm t = 0 \<or> at_ackAlarm t > now) \<or> \<not> pt_hasNewAck (at_tracker t)) \<and>
    (\<forall>ack. a = Some ack \<longrightarrow> (\<exists>out. ack = (plain_ack t now)\<lparr>af_ReceiveTimestamps := out\<rparr> \<and> ack_ok ack \<and> stamps_ok out \<and>
      set out \<subseteq> {x \<in> set (drop (length L - at_timestampLimit t) L). rt_Packet x \<in> known t}))"
proof (cases "q \<and> \<not> at_ackQueued t \<and> (at_ackAlarm t = 0 \<or> at_ackAlarm t > now) \<or> \<not> pt_hasNewAck (at_tracker t)")
  case True
  then have "app_GetAckFrame t now q = Inr (t, None)" unfolding app_GetAckFrame_eq by (rule if_P)
  then show ?thesis using True by auto
next
  case False
  let ?ts = "take (at_timestampCount t) (at_timestamps t)"
  have ok: "ack_ok ((plain_ack t now)\<lparr>af_ReceiveTimestamps := out\<rparr>)" for out using plain_ack_ok [OF assms] .
  have ap: "apart (ph_ranges (hist t))" and rg: "ring_inv t L" and Lok: "\<forall>x \<in> set L. rt_Packet x \<in> S \<and> vi (rt_Micros x)" "\<forall>p \<in> S. 0 \<le> p \<and> p < 2 ^ 62"
    using assms(1) by (auto simp: app_inv_def hist_inv_def)
  have ak: "acked (af_AckRanges (plain_ack t now)) = known t" using history_ranges_ok(3) [OF ap] by (simp add: plain_ack_def)
  show ?thesis
  proof (cases "at_timestampLimit t > 0")
    case True
    have "validateAckRanges ((plain_ack t now)\<lparr>af_ReceiveTimestamps := ?ts\<rparr>)" using ok by (simp add: ack_ok_def)
    then have "\<exists>out. PrepareReceiveTimestamps ((plain_ack t now)\<lparr>af_ReceiveTimestamps := ?ts\<rparr>) = Inr ((plain_ack t now)\<lparr>af_ReceiveTimestamps := out\<rparr>) \<and>
      sorted_wrt stamp_desc out \<and> length out \<le> length ?ts \<and> set out \<subseteq> {x \<in> set ?ts. rt_Packet x \<in> known t}"
      using prepare_keep [of "(plain_ack t now)\<lparr>af_ReceiveTimestamps := ?ts\<rparr>"] ak by simp
    then obtain out where out: "PrepareReceiveTimestamps ((plain_ack t now)\<lparr>af_ReceiveTimestamps := ?ts\<rparr>) = Inr ((plain_ack t now)\<lparr>af_ReceiveTimestamps := out\<rparr>)"
      "sorted_wrt stamp_desc out" "length out \<le> length ?ts" "set out \<subseteq> {x \<in> set ?ts. rt_Packet x \<in> known t}" by blast
    have sub: "set out \<subseteq> {x \<in> set (drop (length L - at_timestampLimit t) L). rt_Packet x \<in> known t}" using out(4) ring_contents [OF rg True] by simp
    have "length ?ts \<le> 256" using rg by (simp add: ring_inv_def)
    then have "stamps_ok out" using out(2,3) sub Lok by (auto simp: stamps_ok_def dest!: in_set_dropD)
    moreover have "app_GetAckFrame t now q = Inr (acknowledged t ((plain_ack t now)\<lparr>af_ReceiveTimestamps := out\<rparr>), Some ((plain_ack t now)\<lparr>af_ReceiveTimestamps := out\<rparr>))"
      unfolding app_GetAckFrame_eq using False True out(1) by simp
    ultimately show ?thesis using False ok sub by auto
  next
    case nl: False
    have e: "(plain_ack t now)\<lparr>af_ReceiveTimestamps := []\<rparr> = plain_ack t now" by (simp add: plain_ack_def)
    have "app_GetAckFrame t now q = Inr (acknowledged t (plain_ack t now), Some (plain_ack t now))"
      unfolding app_GetAckFrame_eq using False nl by simp
    then show ?thesis using False ok [of "[]"] by (auto simp: e stamps_ok_def intro!: exI [of _ "[]"])
  qed
qed

text \<open>C36: Acknowledgements are truthful and readable. In every run of the tracker (packets in any order, packets
  ignored, frames truncated by the caller, timestamps enabled at some point), asking for an acknowledgement never
  panics while a packet is known. A returned frame is written in its announced length, and parsing it the peer finds
  exactly the packet numbers the tracker knows, all of which were received. If the frame has timestamps, the
  reader of the extended format recovers them, and each is one of the newest that were taken, of a packet
  the frame acknowledges.\<close>

theorem acknowledgements_truthful:
  assumes "app_run t S L n" and "n < 2 ^ 62" and "ph_ranges (hist t) \<noteq> []" and "time_ok now"
  shows "\<exists>t' a. app_GetAckFrame t now q = Inr (t', a) \<and> known t \<subseteq> S \<and> (\<forall>ack. a = Some ack \<longrightarrow>
    set (af_ReceiveTimestamps ack) \<subseteq> {x \<in> set (drop (length L - at_timestampLimit t) L). rt_Packet x \<in> known t} \<and>
    (\<exists>bs f' k. ack_Append ack [] = Inr bs \<and> ack_Length ack = Inr (length bs) \<and>
      parseAckFrame zero_ack (drop (if af_ReceiveTimestamps ack = [] then 1 else 2) bs)
        (if af_ReceiveTimestamps ack = [] \<and> hasECN ack then FrameTypeAckECN else FrameTypeAck) 3 = Inr (f', k) \<and>
      acked (af_AckRanges f') = known t \<and>
      (af_ReceiveTimestamps ack \<noteq> [] \<longrightarrow> (\<exists>rest. read_receive_timestamps (drop (2 + k) bs) = Inr (af_ReceiveTimestamps ack, rest)))))"
proof -
  note i = app_run_inv [OF assms(1)]
  have h: "apart (ph_ranges (hist t))" "length (ph_ranges (hist t)) \<le> MaxNumAckRanges" "known t \<subseteq> S" using i by (auto simp: app_inv_def hist_inv_def)
  from get_frame [OF i assms(2-4), of q] obtain t' a where g: "app_GetAckFrame t now q = Inr (t', a)"
    "\<And>ack. a = Some ack \<Longrightarrow> \<exists>out. ack = (plain_ack t now)\<lparr>af_ReceiveTimestamps := out\<rparr> \<and> ack_ok ack \<and> stamps_ok out \<and>
      set out \<subseteq> {x \<in> set (drop (length L - at_timestampLimit t) L). rt_Packet x \<in> known t}" by blast
  show ?thesis
  proof (rule exI [of _ t'], rule exI [of _ a], intro conjI allI impI g(1) h(3))
    fix ack assume a: "a = Some ack"
    from g(2) [OF a] obtain out where o: "ack = (plain_ack t now)\<lparr>af_ReceiveTimestamps := out\<rparr>" "ack_ok ack" "stamps_ok out"
      "set out \<subseteq> {x \<in> set (drop (length L - at_timestampLimit t) L). rt_Packet x \<in> known t}" by blast
    have ts: "af_ReceiveTimestamps ack = out" by (simp add: o(1))
    show "set (af_ReceiveTimestamps ack) \<subseteq> {x \<in> set (drop (length L - at_timestampLimit t) L). rt_Packet x \<in> known t}" unfolding ts by (rule o(4))
    have "acked (take MaxNumAckRanges (af_AckRanges ack)) = known t"
      using history_ranges_ok(3) [OF h(1)] h(2) by (simp add: o(1) plain_ack_def history_ranges_def Backward_def)
    then show "\<exists>bs f' k. ack_Append ack [] = Inr bs \<and> ack_Length ack = Inr (length bs) \<and>
      parseAckFrame zero_ack (drop (if af_ReceiveTimestamps ack = [] then 1 else 2) bs)
        (if af_ReceiveTimestamps ack = [] \<and> hasECN ack then FrameTypeAckECN else FrameTypeAck) 3 = Inr (f', k) \<and>
      acked (af_AckRanges f') = known t \<and>
      (af_ReceiveTimestamps ack \<noteq> [] \<longrightarrow> (\<exists>rest. read_receive_timestamps (drop (2 + k) bs) = Inr (af_ReceiveTimestamps ack, rest)))"
      using wire_ack [OF o(2)] o(3) unfolding ts by metis
  qed
qed

section \<open>Acknowledgements in time\<close>

text \<open>What can happen before the next acknowledgement is asked for.\<close>

inductive quiet :: "app_tracker \<Rightarrow> app_tracker \<Rightarrow> bool" for t0 :: app_tracker where
  refl: "quiet t0 t0"
| received: "quiet t0 t \<Longrightarrow> app_ReceivedPacket t pn e time eliciting = (t', None) \<Longrightarrow> 0 \<le> pn \<Longrightarrow> pn < 2 ^ 62 \<Longrightarrow> time_ok time \<Longrightarrow> quiet t0 t'"
| ignore: "quiet t0 t \<Longrightarrow> quiet t0 (IgnoreBelow t pn)"

definition due_by :: "int \<Rightarrow> app_tracker \<Rightarrow> bool" where
  "due_by d t \<longleftrightarrow> pt_hasNewAck (at_tracker t) \<and> 0 < at_ackEliciting t \<and> (at_ackQueued t \<or> 0 < at_ackAlarm t \<and> at_ackAlarm t \<le> d)"

lemma received_tracker:
  assumes "app_ReceivedPacket t pn e time el = (t', None)"
  obtains h where "pt_ReceivedPacket (at_tracker t) pn e el = (h, None)" and "at_tracker t' = h"
    and "if el then (if at_ackQueued t then at_ackQueued t' else at_ackQueued t' \<or> at_ackAlarm t' = time + at_maxAckDelay t \<and> at_ackEliciting t + 1 < packetsBeforeAck) \<and>
        at_ackEliciting t' = at_ackEliciting t + 1
      else at_ackQueued t' = at_ackQueued t \<and> at_ackAlarm t' = at_ackAlarm t \<and> at_ackEliciting t' = at_ackEliciting t"
proof -
  from app_ReceivedPacket_ok [OF assms] obtain h t1 t2 where r: "pt_ReceivedPacket (at_tracker t) pn e el = (h, None)"
    and t1: "t1 = store_stamp (t\<lparr>at_tracker := h\<rparr>) pn time"
    and t2: "t2 = (if pn \<ge> at_largestObserved t1 then t1\<lparr>at_largestObserved := pn, at_largestObservedRcvdTime := time\<rparr> else t1)"
    and t': "if el then schedule_ack t2 pn e time = (t', None) else t' = t2" .
  have s2: "at_tracker t2 = h" "at_ackEliciting t2 = at_ackEliciting t" "at_ackQueued t2 = at_ackQueued t"
    "at_ackAlarm t2 = at_ackAlarm t" "at_maxAckDelay t2 = at_maxAckDelay t" by (auto simp: t2 t1)
  show thesis
  proof (rule that [OF r])
    show "at_tracker t' = h" using t' s2 schedule_ack_ok [of t2 pn e time t'] by (auto split: if_splits)
    show "if el then (if at_ackQueued t then at_ackQueued t' else at_ackQueued t' \<or> at_ackAlarm t' = time + at_maxAckDelay t \<and> at_ackEliciting t + 1 < packetsBeforeAck) \<and>
        at_ackEliciting t' = at_ackEliciting t + 1
      else at_ackQueued t' = at_ackQueued t \<and> at_ackAlarm t' = at_ackAlarm t \<and> at_ackEliciting t' = at_ackEliciting t"
    proof (cases el)
      case True
      with t' have "schedule_ack t2 pn e time = (t', None)" by simp
      from schedule_ack_ok [OF this] show ?thesis using True s2 by (auto split: if_splits)
    qed (use t' s2 in simp)
  qed
qed

lemma pt_ReceivedPacket_new: "pt_ReceivedPacket h pn e el = (h1, None) \<Longrightarrow> pt_hasNewAck h1 = (pt_hasNewAck h \<or> el)"
  by (auto simp: pt_ReceivedPacket_def Let_def count_ecn_def split: prod.splits if_splits ecn.splits)

lemma due_received:
  assumes "app_ReceivedPacket t pn e time el = (t', None)" and "due_by d t"
  shows "due_by d t'"
  by (rule received_tracker [OF assms(1)]) (use assms(2) in \<open>auto simp: due_by_def packetsBeforeAck_def pt_ReceivedPacket_new split: if_splits\<close>)

lemma due_quiet: "quiet t t' \<Longrightarrow> due_by d t \<Longrightarrow> due_by d t'"
proof (induction rule: quiet.induct)
  case (received t pn e time eliciting t')
  then show ?case using due_received by blast
next
  case (ignore t pn)
  then show ?case by (auto simp: due_by_def IgnoreBelow_def)
qed

text \<open>C37: Delayed acknowledgements are sent in time. After an ack-eliciting packet was accepted at some time, whatever
  packets are received or ignored afterwards (as long as one is known and there are fewer than two to the power
  of 62), asking for a queued acknowledgement 25 ms later or at any time after returns one, of exactly the packets
  known then. Until it is asked for, the tracker's alarm is set to a time that has passed by then, or an acknowledgement
  is queued for immediate sending.\<close>

theorem ack_in_time:
  assumes "app_run t S L n" and "app_ReceivedPacket t pn e time True = (t1, None)" and "0 \<le> pn" and "pn < 2 ^ 62" and "time_ok time"
    and "quiet t1 t2" and "app_run t2 S2 L2 n2" and "n2 < 2 ^ 62" and "ph_ranges (hist t2) \<noteq> []"
    and "time + 25000000 \<le> now" and "time_ok now"
  shows "(at_ackQueued t2 \<or> 0 < app_GetAlarmTimeout t2 \<and> app_GetAlarmTimeout t2 \<le> time + 25000000) \<and>
    (\<exists>t3 ack. app_GetAckFrame t2 now True = Inr (t3, Some ack) \<and> acked (af_AckRanges ack) = known t2)"
proof -
  have i: "app_inv t S L n" "app_inv t2 S2 L2 n2" using app_run_inv assms(1,7) by auto
  have m: "at_maxAckDelay t = 25000000" using i(1) by (simp add: app_inv_def clock_ok_def MaxAckDelay_def)
  have "due_by (time + 25000000) t1"
    by (rule received_tracker [OF assms(2)]) (use m assms(5) in \<open>auto simp: due_by_def pt_ReceivedPacket_new time_ok_def split: if_splits\<close>)
  then have d: "due_by (time + 25000000) t2" using due_quiet [OF assms(6)] by blast
  from get_frame [OF i(2) assms(8,9,11), of True] obtain t3 a where g: "app_GetAckFrame t2 now True = Inr (t3, a)"
    "a = None \<longleftrightarrow> \<not> at_ackQueued t2 \<and> (at_ackAlarm t2 = 0 \<or> at_ackAlarm t2 > now) \<or> \<not> pt_hasNewAck (at_tracker t2)"
    "\<forall>ack. a = Some ack \<longrightarrow> (\<exists>out. ack = (plain_ack t2 now)\<lparr>af_ReceiveTimestamps := out\<rparr>)" by blast
  have "a \<noteq> None" using g(2) d assms(10) by (auto simp: due_by_def)
  then obtain ack out where a: "a = Some ack" "ack = (plain_ack t2 now)\<lparr>af_ReceiveTimestamps := out\<rparr>" using g(3) by auto
  have "acked (af_AckRanges ack) = known t2" using i(2) history_ranges_ok(3) [of "hist t2"] by (simp add: a(2) plain_ack_def app_inv_def hist_inv_def)
  then show ?thesis using g(1) a(1) d by (auto simp: due_by_def app_GetAlarmTimeout_def)
qed

section \<open>An example run\<close>

definition ex_t1 :: app_tracker where
  "ex_t1 = enableReceiveTimestamps newAppDataReceivedPacketTracker 10 0 1000 (Some (5, 0)) 2000"

definition ex_t2 :: app_tracker where
  "ex_t2 = fst (app_ReceivedPacket ex_t1 3 ECT1 5000000 True)"

definition ex_t3 :: app_tracker where
  "ex_t3 = fst (app_ReceivedPacket ex_t2 6 ECT1 6000000 False)"

lemma ex_steps: "app_ReceivedPacket ex_t1 3 ECT1 5000000 True = (ex_t2, None)" "app_ReceivedPacket ex_t2 6 ECT1 6000000 False = (ex_t3, None)"
proof -
  have "snd (app_ReceivedPacket ex_t1 3 ECT1 5000000 True) = None" "snd (app_ReceivedPacket ex_t2 6 ECT1 6000000 False) = None" by code_simp+
  then show "app_ReceivedPacket ex_t1 3 ECT1 5000000 True = (ex_t2, None)" "app_ReceivedPacket ex_t2 6 ECT1 6000000 False = (ex_t3, None)"
    unfolding ex_t2_def ex_t3_def by (metis prod.collapse)+
qed

lemma ex_run: "app_run ex_t1 {} [] 0" "app_run ex_t2 {3} [make_stamp ex_t1 3 5000000] 1"
  "app_run ex_t3 {6, 3} [make_stamp ex_t1 3 5000000, make_stamp ex_t2 6 6000000] 2"
proof -
  have l: "at_timestampLimit ex_t1 = 10" "at_timestampLimit ex_t2 = 10" by code_simp+
  show 1: "app_run ex_t1 {} [] 0" unfolding ex_t1_def
    by (rule app_run.enable [OF app_run.start]) (simp_all add: newAppDataReceivedPacketTracker_def time_ok_def)
  from app_run.received [OF this ex_steps(1)] show 2: "app_run ex_t2 {3} [make_stamp ex_t1 3 5000000] 1" by (simp add: time_ok_def l)
  from app_run.received [OF this ex_steps(2)] show "app_run ex_t3 {6, 3} [make_stamp ex_t1 3 5000000, make_stamp ex_t2 6 6000000] 2"
    by (simp add: time_ok_def l numeral_2_eq_2)
qed

lemma ex_known: "ph_ranges (hist ex_t3) = [\<lparr>iv_Start = 3, iv_End = 3\<rparr>, \<lparr>iv_Start = 6, iv_End = 6\<rparr>]"
  by code_simp

lemma ex_get: "case app_GetAckFrame ex_t3 30000000 True of Inr (t, Some ack) \<Rightarrow> length (af_ReceiveTimestamps ack) = 2 | _ \<Rightarrow> False"
  by code_simp

lemma acknowledgements_truthful_witness:
  "\<exists>t' ack bs f' k. app_GetAckFrame ex_t3 30000000 True = Inr (t', Some ack) \<and> length (af_ReceiveTimestamps ack) = 2 \<and> ack_Append ack [] = Inr bs \<and>
     parseAckFrame zero_ack (drop 2 bs) FrameTypeAck 3 = Inr (f', k) \<and> acked (af_AckRanges f') = {3, 6}"
proof -
  have k: "known ex_t3 = {3, 6}" by (auto simp: ex_known)
  have n: "(2 :: nat) < 2 ^ 62" "ph_ranges (hist ex_t3) \<noteq> []" "time_ok 30000000" by (simp_all add: ex_known time_ok_def)
  obtain t' ack where g: "app_GetAckFrame ex_t3 30000000 True = Inr (t', Some ack)" "length (af_ReceiveTimestamps ack) = 2"
    using ex_get by (auto split: sum.splits prod.splits option.splits)
  then have "af_ReceiveTimestamps ack \<noteq> []" by auto
  with acknowledgements_truthful [OF ex_run(3) n, of True] g k show ?thesis by auto
qed

lemma ack_in_time_witness:
  "\<exists>t3 ack. app_GetAckFrame ex_t3 30000000 True = Inr (t3, Some ack) \<and> acked (af_AckRanges ack) = {3, 6}"
proof -
  have k: "known ex_t3 = {3, 6}" by (auto simp: ex_known)
  have q: "quiet ex_t2 ex_t3" by (rule quiet.received [OF quiet.refl ex_steps(2)]) (simp_all add: time_ok_def)
  have n: "(2 :: nat) < 2 ^ 62" "ph_ranges (hist ex_t3) \<noteq> []" "time_ok 30000000" "time_ok 5000000" by (simp_all add: ex_known time_ok_def)
  show ?thesis using ack_in_time [OF ex_run(1) ex_steps(1) _ _ n(4) q ex_run(3) n(1,2) _ n(3)] k by auto
qed

end
