(* ===== verification/Quic_Frames.thy ===== *)
theory Quic_Frames
  imports Packet_Tracker Ack_Props
begin

text \<open>
  The frames of the QUIC transport (\<^verbatim>\<open>deps/quic-go/internal/wire\<close>: one file per frame, \<^verbatim>\<open>frame_type.go\<close> and
  \<^verbatim>\<open>frame_parser.go\<close>) and the loop of \<^verbatim>\<open>connection.go\<close> that reads a packet. Stream identifiers, byte counts and
  stream numbers are signed 64 bit integers that the wire keeps below two to the power of 62; they are \<^typ>\<open>int\<close>.
  A frame's buffer is the list of its bytes; the pool that recycles buffers shows only in their capacity.
\<close>

section \<open>Frame types\<close>

named_theorems frame_types \<open>the numbers of the frame types\<close>

definition FrameTypePing :: u64 where [frame_types]: "FrameTypePing = 0x1"
definition FrameTypeResetStream :: u64 where [frame_types]: "FrameTypeResetStream = 0x4"
definition FrameTypeStopSending :: u64 where [frame_types]: "FrameTypeStopSending = 0x5"
definition FrameTypeCrypto :: u64 where [frame_types]: "FrameTypeCrypto = 0x6"
definition FrameTypeNewToken :: u64 where [frame_types]: "FrameTypeNewToken = 0x7"
definition FrameTypeMaxData :: u64 where [frame_types]: "FrameTypeMaxData = 0x10"
definition FrameTypeMaxStreamData :: u64 where [frame_types]: "FrameTypeMaxStreamData = 0x11"
definition FrameTypeBidiMaxStreams :: u64 where [frame_types]: "FrameTypeBidiMaxStreams = 0x12"
definition FrameTypeUniMaxStreams :: u64 where [frame_types]: "FrameTypeUniMaxStreams = 0x13"
definition FrameTypeDataBlocked :: u64 where [frame_types]: "FrameTypeDataBlocked = 0x14"
definition FrameTypeStreamDataBlocked :: u64 where [frame_types]: "FrameTypeStreamDataBlocked = 0x15"
definition FrameTypeBidiStreamBlocked :: u64 where [frame_types]: "FrameTypeBidiStreamBlocked = 0x16"
definition FrameTypeUniStreamBlocked :: u64 where [frame_types]: "FrameTypeUniStreamBlocked = 0x17"
definition FrameTypeNewConnectionID :: u64 where [frame_types]: "FrameTypeNewConnectionID = 0x18"
definition FrameTypeRetireConnectionID :: u64 where [frame_types]: "FrameTypeRetireConnectionID = 0x19"
definition FrameTypePathChallenge :: u64 where [frame_types]: "FrameTypePathChallenge = 0x1a"
definition FrameTypePathResponse :: u64 where [frame_types]: "FrameTypePathResponse = 0x1b"
definition FrameTypeConnectionClose :: u64 where [frame_types]: "FrameTypeConnectionClose = 0x1c"
definition FrameTypeApplicationClose :: u64 where [frame_types]: "FrameTypeApplicationClose = 0x1d"
definition FrameTypeHandshakeDone :: u64 where [frame_types]: "FrameTypeHandshakeDone = 0x1e"
definition FrameTypeResetStreamAt :: u64 where [frame_types]: "FrameTypeResetStreamAt = 0x24"
definition FrameTypeAckFrequency :: u64 where [frame_types]: "FrameTypeAckFrequency = 0xaf"
definition FrameTypeImmediateAck :: u64 where [frame_types]: "FrameTypeImmediateAck = 0x1f"
definition FrameTypeDatagramNoLength :: u64 where [frame_types]: "FrameTypeDatagramNoLength = 0x30"
definition FrameTypeDatagramWithLength :: u64 where [frame_types]: "FrameTypeDatagramWithLength = 0x31"

lemmas frame_type_numbers = frame_types FrameTypeAck_def FrameTypeAckECN_def

definition IsStreamFrameType :: "u64 \<Rightarrow> bool" where
  "IsStreamFrameType t = (t \<ge> 0x8 \<and> t \<le> 0xf)"

definition isValidRFC9000 :: "u64 \<Rightarrow> bool" where
  "isValidRFC9000 t = (t \<le> 0x1e)"

definition IsAckFrameType :: "u64 \<Rightarrow> bool" where
  "IsAckFrameType t = (t = FrameTypeAck \<or> t = FrameTypeAckECN)"

definition IsDatagramFrameType :: "u64 \<Rightarrow> bool" where
  "IsDatagramFrameType t = (t = FrameTypeDatagramNoLength \<or> t = FrameTypeDatagramWithLength)"

definition isAllowedAtEncLevel :: "u64 \<Rightarrow> enc_level \<Rightarrow> bool" where
  "isAllowedAtEncLevel t encLevel = (case encLevel of
     EncryptionInitial \<Rightarrow> t \<in> {FrameTypeCrypto, FrameTypeAck, FrameTypeAckECN, FrameTypeConnectionClose, FrameTypePing}
   | EncryptionHandshake \<Rightarrow> t \<in> {FrameTypeCrypto, FrameTypeAck, FrameTypeAckECN, FrameTypeConnectionClose, FrameTypePing}
   | Encryption0RTT \<Rightarrow> t \<notin> {FrameTypeCrypto, FrameTypeAck, FrameTypeAckECN, FrameTypeConnectionClose, FrameTypeNewToken,
       FrameTypePathResponse, FrameTypeRetireConnectionID}
   | Encryption1RTT \<Rightarrow> True)"

section \<open>The frames\<close>

datatype stream_type = StreamTypeUni | StreamTypeBidi

record stream_frame =
  sf_StreamID :: int
  sf_Offset :: int
  sf_Data :: bytes
  sf_Fin :: bool
  sf_DataLenPresent :: bool

record crypto_frame =
  cf_Offset :: int
  cf_Data :: bytes

record reset_stream_frame =
  rs_StreamID :: int
  rs_ErrorCode :: u64
  rs_FinalSize :: int
  rs_ReliableSize :: int

record stop_sending_frame =
  ss_StreamID :: int
  ss_ErrorCode :: u64

record stream_data_frame =
  sd_StreamID :: int
  sd_MaximumStreamData :: int

record streams_frame =
  sn_Type :: stream_type
  sn_Num :: int

record new_connection_id_frame =
  nc_SequenceNumber :: u64
  nc_RetirePriorTo :: u64
  nc_ConnectionID :: bytes
  nc_StatelessResetToken :: bytes

record connection_close_frame =
  cc_IsApplicationError :: bool
  cc_ErrorCode :: u64
  cc_FrameType :: u64
  cc_ReasonPhrase :: bytes

record ack_frequency_frame =
  aq_SequenceNumber :: u64
  aq_AckElicitingThreshold :: u64
  aq_RequestMaxAckDelay :: int
  aq_ReorderingThreshold :: int

record datagram_frame =
  df_DataLenPresent :: bool
  df_Data :: bytes

datatype quic_frame = PingFrame | AckFrame ack_frame | ResetStreamFrame reset_stream_frame | StopSendingFrame stop_sending_frame
  | CryptoFrame crypto_frame | NewTokenFrame bytes | StreamFrame stream_frame | MaxDataFrame int | MaxStreamDataFrame stream_data_frame
  | MaxStreamsFrame streams_frame | DataBlockedFrame int | StreamDataBlockedFrame stream_data_frame | StreamsBlockedFrame streams_frame
  | NewConnectionIDFrame new_connection_id_frame | RetireConnectionIDFrame u64 | PathChallengeFrame bytes | PathResponseFrame bytes
  | ConnectionCloseFrame connection_close_frame | HandshakeDoneFrame | AckFrequencyFrame ack_frequency_frame | ImmediateAckFrame
  | DatagramFrame datagram_frame

definition MaxByteCount :: int where "MaxByteCount = 2 ^ 62 - 1"
definition MaxStreamCount :: int where "MaxStreamCount = 2 ^ 60"
definition MaxPacketBufferSize :: nat where "MaxPacketBufferSize = 1452"
definition MinStreamFrameBufferSize :: nat where "MinStreamFrameBufferSize = 128"
definition MaxConnIDLen :: nat where "MaxConnIDLen = 20"

text \<open>A run of fields, each parsed and cut off; the first error ends the run.\<close>

fun varint_fields :: "nat \<Rightarrow> bytes \<Rightarrow> (u64 list \<times> bytes) res" where
  "varint_fields 0 b = Inr ([], b)"
| "varint_fields (Suc n) b = (case next_varint b of
     Inl e \<Rightarrow> Inl e
   | Inr (v, b1) \<Rightarrow> (case varint_fields n b1 of Inl e \<Rightarrow> Inl e | Inr (vs, b2) \<Rightarrow> Inr (v # vs, b2)))"


section \<open>RESET_STREAM, STOP_SENDING\<close>

definition parseResetStreamFrame :: "bytes \<Rightarrow> bool \<Rightarrow> (reset_stream_frame \<times> nat) res" where
  "parseResetStreamFrame b isResetStreamAt = (case varint_fields 3 b of
     Inl e \<Rightarrow> Inl e
   | Inr (vs, b1) \<Rightarrow> (case (if isResetStreamAt then next_varint b1 else Inr (0, b1)) of
       Inl e \<Rightarrow> Inl e
     | Inr (reliableSize, b2) \<Rightarrow>
         if reliableSize > vs ! 2 then Inl (Errorf ''RESET_STREAM_AT: reliable size can't be larger than final size'')
         else Inr (\<lparr>rs_StreamID = uint (vs ! 0), rs_ErrorCode = vs ! 1, rs_FinalSize = uint (vs ! 2), rs_ReliableSize = uint reliableSize\<rparr>,
           length b - length b2)))"

definition ResetStreamFrame_Append :: "reset_stream_frame \<Rightarrow> bytes \<Rightarrow> bytes res" where
  "ResetStreamFrame_Append f b = varint_appends b
     ([if rs_ReliableSize f = 0 then FrameTypeResetStream else FrameTypeResetStreamAt,
       uint64 (rs_StreamID f), rs_ErrorCode f, uint64 (rs_FinalSize f)] @ (if rs_ReliableSize f > 0 then [uint64 (rs_ReliableSize f)] else []))"

definition ResetStreamFrame_Length :: "reset_stream_frame \<Rightarrow> nat res" where
  "ResetStreamFrame_Length f = map_sum id (\<lambda>n. 1 + n) (varint_lens
     ((if rs_ReliableSize f > 0 then [uint64 (rs_ReliableSize f)] else []) @ [uint64 (rs_StreamID f), rs_ErrorCode f, uint64 (rs_FinalSize f)]))"

definition parseStopSendingFrame :: "bytes \<Rightarrow> (stop_sending_frame \<times> nat) res" where
  "parseStopSendingFrame b = (case varint_fields 2 b of
     Inl e \<Rightarrow> Inl e
   | Inr (vs, b1) \<Rightarrow> Inr (\<lparr>ss_StreamID = uint (vs ! 0), ss_ErrorCode = vs ! 1\<rparr>, length b - length b1))"

definition StopSendingFrame_Length :: "stop_sending_frame \<Rightarrow> nat res" where
  "StopSendingFrame_Length f = map_sum id (\<lambda>n. 1 + n) (varint_lens [uint64 (ss_StreamID f), ss_ErrorCode f])"

definition StopSendingFrame_Append :: "stop_sending_frame \<Rightarrow> bytes \<Rightarrow> bytes res" where
  "StopSendingFrame_Append f b = varint_appends (b @ [ucast FrameTypeStopSending]) [uint64 (ss_StreamID f), ss_ErrorCode f]"

section \<open>CRYPTO and NEW_TOKEN\<close>

definition parseCryptoFrame :: "bytes \<Rightarrow> (crypto_frame \<times> nat) res" where
  "parseCryptoFrame b = (case varint_fields 2 b of
     Inl e \<Rightarrow> Inl e
   | Inr (vs, b1) \<Rightarrow>
       if unat (vs ! 1) > length b1 then Inl io_EOF
       else Inr (\<lparr>cf_Offset = uint (vs ! 0), cf_Data = take (unat (vs ! 1)) b1\<rparr>, length b - length b1 + unat (vs ! 1)))"

definition CryptoFrame_Append :: "crypto_frame \<Rightarrow> bytes \<Rightarrow> bytes res" where
  "CryptoFrame_Append f b = (case varint_appends (b @ [ucast FrameTypeCrypto]) [uint64 (cf_Offset f), of_nat (length (cf_Data f))] of
     Inl e \<Rightarrow> Inl e
   | Inr b1 \<Rightarrow> Inr (b1 @ cf_Data f))"

definition CryptoFrame_Length :: "crypto_frame \<Rightarrow> nat res" where
  "CryptoFrame_Length f = map_sum id (\<lambda>n. 1 + n + length (cf_Data f)) (varint_lens [uint64 (cf_Offset f), of_nat (length (cf_Data f))])"

definition CryptoFrame_MaxDataLen :: "crypto_frame \<Rightarrow> int \<Rightarrow> int res" where
  "CryptoFrame_MaxDataLen f maxSize = (case varint_Len (uint64 (cf_Offset f)) of
     Inl e \<Rightarrow> Inl e
   | Inr l \<Rightarrow>
       let headerLen = 1 + int l + 1
       in if headerLen > maxSize then Inr 0
       else let maxDataLen = maxSize - headerLen
         in case varint_Len (uint64 maxDataLen) of
              Inl e \<Rightarrow> Inl e
            | Inr k \<Rightarrow> Inr (if k \<noteq> 1 then maxDataLen - 1 else maxDataLen))"

text \<open>A split returns the frame that was split off, if any, whether splitting was required, and what is left.\<close>

definition CryptoFrame_MaybeSplitOffFrame :: "crypto_frame \<Rightarrow> int \<Rightarrow> (crypto_frame option \<times> bool \<times> crypto_frame) res" where
  "CryptoFrame_MaybeSplitOffFrame f maxSize = (case CryptoFrame_Length f of
     Inl e \<Rightarrow> Inl e
   | Inr l \<Rightarrow>
       if int l \<le> maxSize then Inr (None, False, f)
       else case CryptoFrame_MaxDataLen f maxSize of
         Inl e \<Rightarrow> Inl e
       | Inr n \<Rightarrow>
           if n = 0 then Inr (None, True, f)
           else if int (length (cf_Data f)) < n then Inl (Panic ''makeslice: len out of range'')
           else Inr (Some \<lparr>cf_Offset = cf_Offset f, cf_Data = take (nat n) (cf_Data f)\<rparr>, True,
             \<lparr>cf_Offset = cf_Offset f + n, cf_Data = drop (nat n) (cf_Data f)\<rparr>))"

definition parseNewTokenFrame :: "bytes \<Rightarrow> (bytes \<times> nat) res" where
  "parseNewTokenFrame b = (case varint_fields 1 b of
     Inl e \<Rightarrow> Inl e
   | Inr (vs, b1) \<Rightarrow>
       let tokenLen = unat (vs ! 0)
       in if tokenLen = 0 then Inl (Errorf ''token must not be empty'')
       else if length b1 < tokenLen then Inl io_EOF
       else Inr (take tokenLen b1, length b - length b1 + tokenLen))"

definition NewTokenFrame_Append :: "bytes \<Rightarrow> bytes \<Rightarrow> bytes res" where
  "NewTokenFrame_Append token b = map_sum id (\<lambda>b1. b1 @ token) (varint_appends (b @ [ucast FrameTypeNewToken]) [of_nat (length token)])"

definition NewTokenFrame_Length :: "bytes \<Rightarrow> nat res" where
  "NewTokenFrame_Length token = map_sum id (\<lambda>n. 1 + (n + length token)) (varint_Len (of_nat (length token)))"

section \<open>Flow control frames\<close>

definition parseMaxDataFrame :: "bytes \<Rightarrow> (int \<times> nat) res" where
  "parseMaxDataFrame b = (case varint_fields 1 b of Inl e \<Rightarrow> Inl e | Inr (vs, b1) \<Rightarrow> Inr (uint (vs ! 0), length b - length b1))"

definition MaxDataFrame_Append :: "int \<Rightarrow> bytes \<Rightarrow> bytes res" where
  "MaxDataFrame_Append maximumData b = varint_appends (b @ [ucast FrameTypeMaxData]) [uint64 maximumData]"

definition MaxDataFrame_Length :: "int \<Rightarrow> nat res" where
  "MaxDataFrame_Length maximumData = map_sum id (\<lambda>n. 1 + n) (varint_Len (uint64 maximumData))"

definition parseMaxStreamDataFrame :: "bytes \<Rightarrow> (stream_data_frame \<times> nat) res" where
  "parseMaxStreamDataFrame b = (case varint_fields 2 b of
     Inl e \<Rightarrow> Inl e
   | Inr (vs, b1) \<Rightarrow> Inr (\<lparr>sd_StreamID = uint (vs ! 0), sd_MaximumStreamData = uint (vs ! 1)\<rparr>, length b - length b1))"

definition MaxStreamDataFrame_Append :: "stream_data_frame \<Rightarrow> bytes \<Rightarrow> bytes res" where
  "MaxStreamDataFrame_Append f b =
     varint_appends (b @ [ucast FrameTypeMaxStreamData]) [uint64 (sd_StreamID f), uint64 (sd_MaximumStreamData f)]"

definition MaxStreamDataFrame_Length :: "stream_data_frame \<Rightarrow> nat res" where
  "MaxStreamDataFrame_Length f = map_sum id (\<lambda>n. 1 + n) (varint_lens [uint64 (sd_StreamID f), uint64 (sd_MaximumStreamData f)])"

definition parseMaxStreamsFrame :: "bytes \<Rightarrow> u64 \<Rightarrow> (streams_frame \<times> nat) res" where
  "parseMaxStreamsFrame b typ = (case varint_fields 1 b of
     Inl e \<Rightarrow> Inl e
   | Inr (vs, b1) \<Rightarrow>
       let f = \<lparr>sn_Type = (if typ = FrameTypeBidiMaxStreams then StreamTypeBidi else StreamTypeUni), sn_Num = uint (vs ! 0)\<rparr>
       in if sn_Num f > MaxStreamCount then Inl (Errorf ''exceeds the maximum stream count'')
       else Inr (f, length b - length b1))"

definition MaxStreamsFrame_Append :: "streams_frame \<Rightarrow> bytes \<Rightarrow> bytes res" where
  "MaxStreamsFrame_Append f b = varint_appends
     (b @ [ucast (case sn_Type f of StreamTypeBidi \<Rightarrow> FrameTypeBidiMaxStreams | StreamTypeUni \<Rightarrow> FrameTypeUniMaxStreams)]) [uint64 (sn_Num f)]"

definition MaxStreamsFrame_Length :: "streams_frame \<Rightarrow> nat res" where
  "MaxStreamsFrame_Length f = map_sum id (\<lambda>n. 1 + n) (varint_Len (uint64 (sn_Num f)))"

definition parseDataBlockedFrame :: "bytes \<Rightarrow> (int \<times> nat) res" where
  "parseDataBlockedFrame b = (case varint_fields 1 b of Inl e \<Rightarrow> Inl e | Inr (vs, b1) \<Rightarrow> Inr (uint (vs ! 0), length b - length b1))"

definition DataBlockedFrame_Append :: "int \<Rightarrow> bytes \<Rightarrow> bytes res" where
  "DataBlockedFrame_Append maximumData b = varint_appends (b @ [ucast FrameTypeDataBlocked]) [uint64 maximumData]"

definition DataBlockedFrame_Length :: "int \<Rightarrow> nat res" where
  "DataBlockedFrame_Length maximumData = map_sum id (\<lambda>n. 1 + n) (varint_Len (uint64 maximumData))"

definition parseStreamDataBlockedFrame :: "bytes \<Rightarrow> (stream_data_frame \<times> nat) res" where
  "parseStreamDataBlockedFrame b = (case varint_fields 2 b of
     Inl e \<Rightarrow> Inl e
   | Inr (vs, b1) \<Rightarrow> Inr (\<lparr>sd_StreamID = uint (vs ! 0), sd_MaximumStreamData = uint (vs ! 1)\<rparr>, length b - length b1))"

definition StreamDataBlockedFrame_Append :: "stream_data_frame \<Rightarrow> bytes \<Rightarrow> bytes res" where
  "StreamDataBlockedFrame_Append f b = varint_appends (b @ [0x15]) [uint64 (sd_StreamID f), uint64 (sd_MaximumStreamData f)]"

definition StreamDataBlockedFrame_Length :: "stream_data_frame \<Rightarrow> nat res" where
  "StreamDataBlockedFrame_Length f = map_sum id (\<lambda>n. 1 + n) (varint_lens [uint64 (sd_StreamID f), uint64 (sd_MaximumStreamData f)])"

definition parseStreamsBlockedFrame :: "bytes \<Rightarrow> u64 \<Rightarrow> (streams_frame \<times> nat) res" where
  "parseStreamsBlockedFrame b typ = (case varint_fields 1 b of
     Inl e \<Rightarrow> Inl e
   | Inr (vs, b1) \<Rightarrow>
       let f = \<lparr>sn_Type = (if typ = FrameTypeBidiStreamBlocked then StreamTypeBidi else StreamTypeUni), sn_Num = uint (vs ! 0)\<rparr>
       in if sn_Num f > MaxStreamCount then Inl (Errorf ''exceeds the maximum stream count'')
       else Inr (f, length b - length b1))"

definition StreamsBlockedFrame_Append :: "streams_frame \<Rightarrow> bytes \<Rightarrow> bytes res" where
  "StreamsBlockedFrame_Append f b = varint_appends
     (b @ [ucast (case sn_Type f of StreamTypeBidi \<Rightarrow> FrameTypeBidiStreamBlocked | StreamTypeUni \<Rightarrow> FrameTypeUniStreamBlocked)]) [uint64 (sn_Num f)]"

definition StreamsBlockedFrame_Length :: "streams_frame \<Rightarrow> nat res" where
  "StreamsBlockedFrame_Length f = map_sum id (\<lambda>n. 1 + n) (varint_Len (uint64 (sn_Num f)))"


section \<open>Connection identifiers and paths\<close>

definition parseNewConnectionIDFrame :: "bytes \<Rightarrow> (new_connection_id_frame \<times> nat) res" where
  "parseNewConnectionIDFrame b = (case varint_fields 2 b of
     Inl e \<Rightarrow> Inl e
   | Inr (vs, b1) \<Rightarrow>
       if vs ! 1 > vs ! 0 then Inl (Errorf ''Retire Prior To value larger than Sequence Number'')
       else (case b1 of
         [] \<Rightarrow> Inl io_EOF
       | c # b2 \<Rightarrow>
           let connIDLen = unat c
           in if connIDLen = 0 then Inl (Errorf ''invalid zero-length connection ID'')
           else if connIDLen > MaxConnIDLen then Inl (Errorf ''invalid Connection ID length'')
           else if length b2 < connIDLen then Inl io_EOF
           else let b3 = drop connIDLen b2
             in if length b3 < 16 then Inl io_EOF
             else Inr (\<lparr>nc_SequenceNumber = vs ! 0, nc_RetirePriorTo = vs ! 1, nc_ConnectionID = take connIDLen b2,
               nc_StatelessResetToken = take 16 b3\<rparr>, length b - length b3 + 16)))"

definition NewConnectionIDFrame_Append :: "new_connection_id_frame \<Rightarrow> bytes \<Rightarrow> bytes res" where
  "NewConnectionIDFrame_Append f b = (case varint_appends (b @ [ucast FrameTypeNewConnectionID]) [nc_SequenceNumber f, nc_RetirePriorTo f] of
     Inl e \<Rightarrow> Inl e
   | Inr b1 \<Rightarrow>
       let connIDLen = length (nc_ConnectionID f)
       in if connIDLen > MaxConnIDLen then Inl (Errorf ''invalid connection ID length'')
       else Inr (b1 @ [of_nat connIDLen] @ nc_ConnectionID f @ nc_StatelessResetToken f))"

definition NewConnectionIDFrame_Length :: "new_connection_id_frame \<Rightarrow> nat res" where
  "NewConnectionIDFrame_Length f = map_sum id (\<lambda>n. 1 + (n + 1 + length (nc_ConnectionID f)) + 16)
     (varint_lens [nc_SequenceNumber f, nc_RetirePriorTo f])"

definition parseRetireConnectionIDFrame :: "bytes \<Rightarrow> (u64 \<times> nat) res" where
  "parseRetireConnectionIDFrame b = (case varint_fields 1 b of Inl e \<Rightarrow> Inl e | Inr (vs, b1) \<Rightarrow> Inr (vs ! 0, length b - length b1))"

definition RetireConnectionIDFrame_Append :: "u64 \<Rightarrow> bytes \<Rightarrow> bytes res" where
  "RetireConnectionIDFrame_Append seq b = varint_appends (b @ [ucast FrameTypeRetireConnectionID]) [seq]"

definition RetireConnectionIDFrame_Length :: "u64 \<Rightarrow> nat res" where
  "RetireConnectionIDFrame_Length seq = map_sum id (\<lambda>n. 1 + n) (varint_Len seq)"

definition parsePathChallengeFrame :: "bytes \<Rightarrow> (bytes \<times> nat) res" where
  "parsePathChallengeFrame b = (if length b < 8 then Inl io_EOF else Inr (take 8 b, 8))"

definition PathChallengeFrame_Append :: "bytes \<Rightarrow> bytes \<Rightarrow> bytes res" where
  "PathChallengeFrame_Append d b = Inr (b @ [ucast FrameTypePathChallenge] @ d)"

definition parsePathResponseFrame :: "bytes \<Rightarrow> (bytes \<times> nat) res" where
  "parsePathResponseFrame b = (if length b < 8 then Inl io_EOF else Inr (take 8 b, 8))"

definition PathResponseFrame_Append :: "bytes \<Rightarrow> bytes \<Rightarrow> bytes res" where
  "PathResponseFrame_Append d b = Inr (b @ [ucast FrameTypePathResponse] @ d)"

section \<open>CONNECTION_CLOSE, ACK_FREQUENCY, DATAGRAM\<close>

definition parseConnectionCloseFrame :: "bytes \<Rightarrow> u64 \<Rightarrow> (connection_close_frame \<times> nat) res" where
  "parseConnectionCloseFrame b typ = (let app = (typ = FrameTypeApplicationClose) in case next_varint b of
     Inl e \<Rightarrow> Inl e
   | Inr (ec, b1) \<Rightarrow> (case (if \<not> app then next_varint b1 else Inr (0, b1)) of
       Inl e \<Rightarrow> Inl e
     | Inr (ft, b2) \<Rightarrow> (case next_varint b2 of
         Inl e \<Rightarrow> Inl e
       | Inr (n, b3) \<Rightarrow>
           if unat n > length b3 then Inl io_EOF
           else Inr (\<lparr>cc_IsApplicationError = app, cc_ErrorCode = ec, cc_FrameType = ft, cc_ReasonPhrase = take (unat n) b3\<rparr>,
             length b - length b3 + unat n))))"

definition ConnectionCloseFrame_Length :: "connection_close_frame \<Rightarrow> nat res" where
  "ConnectionCloseFrame_Length f = map_sum id (\<lambda>n. 1 + n + length (cc_ReasonPhrase f)) (varint_lens
     ([cc_ErrorCode f, of_nat (length (cc_ReasonPhrase f))] @ (if \<not> cc_IsApplicationError f then [cc_FrameType f] else [])))"

definition ConnectionCloseFrame_Append :: "connection_close_frame \<Rightarrow> bytes \<Rightarrow> bytes res" where
  "ConnectionCloseFrame_Append f b = map_sum id (\<lambda>b1. b1 @ cc_ReasonPhrase f) (varint_appends
     (b @ [ucast (if cc_IsApplicationError f then FrameTypeApplicationClose else FrameTypeConnectionClose)])
     ([cc_ErrorCode f] @ (if \<not> cc_IsApplicationError f then [cc_FrameType f] else []) @ [of_nat (length (cc_ReasonPhrase f))]))"

definition parseAckFrequencyFrame :: "bytes \<Rightarrow> (ack_frequency_frame \<times> nat) res" where
  "parseAckFrequencyFrame b = (case varint_fields 4 b of
     Inl e \<Rightarrow> Inl e
   | Inr (vs, b1) \<Rightarrow>
       let d = go_int64 (uint (vs ! 2) * 1000); maxAckDelay = (if d < 0 then 2 ^ 63 - 1 else d)
       in Inr (\<lparr>aq_SequenceNumber = vs ! 0, aq_AckElicitingThreshold = vs ! 1, aq_RequestMaxAckDelay = maxAckDelay,
         aq_ReorderingThreshold = uint (vs ! 3)\<rparr>, length b - length b1))"

definition AckFrequencyFrame_Append :: "ack_frequency_frame \<Rightarrow> bytes \<Rightarrow> bytes res" where
  "AckFrequencyFrame_Append f b = varint_appends b [FrameTypeAckFrequency, aq_SequenceNumber f, aq_AckElicitingThreshold f,
     uint64 (aq_RequestMaxAckDelay f sdiv 1000), uint64 (aq_ReorderingThreshold f)]"

definition AckFrequencyFrame_Length :: "ack_frequency_frame \<Rightarrow> nat res" where
  "AckFrequencyFrame_Length f = map_sum id (\<lambda>n. 2 + n) (varint_lens [aq_SequenceNumber f, aq_AckElicitingThreshold f,
     uint64 (aq_RequestMaxAckDelay f sdiv 1000), uint64 (aq_ReorderingThreshold f)])"

definition ImmediateAckFrame_Append :: "bytes \<Rightarrow> bytes res" where
  "ImmediateAckFrame_Append b = varint_Append b FrameTypeImmediateAck"

definition parseDatagramFrame :: "bytes \<Rightarrow> u64 \<Rightarrow> (datagram_frame \<times> nat) res" where
  "parseDatagramFrame b typ = (let present = (typ AND 1 > 0) in
     if present then (case next_varint b of
       Inl e \<Rightarrow> Inl e
     | Inr (n, b1) \<Rightarrow>
         if unat n > length b1 then Inl io_EOF
         else Inr (\<lparr>df_DataLenPresent = present, df_Data = take (unat n) b1\<rparr>, length b - length b1 + unat n))
     else Inr (\<lparr>df_DataLenPresent = present, df_Data = b\<rparr>, length b))"

definition DatagramFrame_Append :: "datagram_frame \<Rightarrow> bytes \<Rightarrow> bytes res" where
  "DatagramFrame_Append f b = map_sum id (\<lambda>b1. b1 @ df_Data f) (varint_appends
     (b @ [if df_DataLenPresent f then 0x30 XOR 1 else 0x30]) (if df_DataLenPresent f then [of_nat (length (df_Data f))] else []))"

definition DatagramFrame_MaxDataLen :: "datagram_frame \<Rightarrow> int \<Rightarrow> int res" where
  "DatagramFrame_MaxDataLen f maxSize =
     (let headerLen = (if df_DataLenPresent f then 2 else 1)
      in if headerLen > maxSize then Inr 0
      else let maxDataLen = maxSize - headerLen
        in if df_DataLenPresent f
           then map_sum id (\<lambda>k. if k \<noteq> 1 then maxDataLen - 1 else maxDataLen) (varint_Len (uint64 maxDataLen))
           else Inr maxDataLen)"

definition DatagramFrame_Length :: "datagram_frame \<Rightarrow> nat res" where
  "DatagramFrame_Length f = map_sum id (\<lambda>n. 1 + length (df_Data f) + n)
     (if df_DataLenPresent f then varint_Len (of_nat (length (df_Data f))) else Inr 0)"

section \<open>STREAM\<close>

definition ParseStreamFrame :: "bytes \<Rightarrow> u64 \<Rightarrow> (stream_frame \<times> nat) res" where
  "ParseStreamFrame b typ =
     (let hasOffset = (typ AND 4 > 0); fin = (typ AND 1 > 0); hasDataLen = (typ AND 2 > 0) in case next_varint b of
        Inl e \<Rightarrow> Inl e
      | Inr (streamID, b1) \<Rightarrow> (case (if hasOffset then next_varint b1 else Inr (0, b1)) of
          Inl e \<Rightarrow> Inl e
        | Inr (offset, b2) \<Rightarrow>
            (case (if hasDataLen
                   then (case next_varint b2 of Inl e \<Rightarrow> Inl e | Inr (n, b3) \<Rightarrow> if unat n > length b3 then Inl io_EOF else Inr (unat n, b3))
                   else Inr (length b2, b2)) of
               Inl e \<Rightarrow> Inl e
             | Inr (dataLen, b3) \<Rightarrow>
                 if \<not> dataLen < MinStreamFrameBufferSize \<and> dataLen > MaxPacketBufferSize then Inl io_EOF
                 else if uint offset + int dataLen > MaxByteCount then Inl (Errorf ''stream data overflows maximum offset'')
                 else Inr (\<lparr>sf_StreamID = uint streamID, sf_Offset = uint offset, sf_Data = take dataLen b3, sf_Fin = fin,
                   sf_DataLenPresent = hasDataLen\<rparr>, length b - length b3 + dataLen))))"

definition DataLen :: "stream_frame \<Rightarrow> int" where
  "DataLen f = int (length (sf_Data f))"

definition StreamFrame_Append :: "stream_frame \<Rightarrow> bytes \<Rightarrow> bytes res" where
  "StreamFrame_Append f b =
     (if length (sf_Data f) = 0 \<and> \<not> sf_Fin f then Inl (Errorf ''StreamFrame: attempting to write empty frame without FIN'')
      else let typ = 0x8 XOR (if sf_Fin f then 1 else 0) XOR (if sf_DataLenPresent f then 2 else 0) XOR (if sf_Offset f \<noteq> 0 then 4 else 0)
        in map_sum id (\<lambda>b1. b1 @ sf_Data f) (varint_appends (b @ [typ])
          ([uint64 (sf_StreamID f)] @ (if sf_Offset f \<noteq> 0 then [uint64 (sf_Offset f)] else [])
           @ (if sf_DataLenPresent f then [uint64 (DataLen f)] else []))))"

definition StreamFrame_Length :: "stream_frame \<Rightarrow> int res" where
  "StreamFrame_Length f = map_sum id (\<lambda>n. int (1 + n) + DataLen f) (varint_lens
     ([uint64 (sf_StreamID f)] @ (if sf_Offset f \<noteq> 0 then [uint64 (sf_Offset f)] else [])
      @ (if sf_DataLenPresent f then [uint64 (DataLen f)] else [])))"

definition StreamFrame_MaxDataLen :: "stream_frame \<Rightarrow> int \<Rightarrow> int res" where
  "StreamFrame_MaxDataLen f maxSize =
     (case varint_lens ([uint64 (sf_StreamID f)] @ (if sf_Offset f \<noteq> 0 then [uint64 (sf_Offset f)] else [])) of
        Inl e \<Rightarrow> Inl e
      | Inr l \<Rightarrow>
          let headerLen = 1 + int l + (if sf_DataLenPresent f then 1 else 0)
          in if headerLen > maxSize then Inr 0
          else let maxDataLen = maxSize - headerLen
            in if sf_DataLenPresent f
               then map_sum id (\<lambda>k. if k \<noteq> 1 then maxDataLen - 1 else maxDataLen) (varint_Len (uint64 maxDataLen))
               else Inr maxDataLen)"

text \<open>What is left moves into a buffer from the pool, whose capacity is \<^const>\<open>MaxPacketBufferSize\<close>.\<close>

definition StreamFrame_MaybeSplitOffFrame :: "stream_frame \<Rightarrow> int \<Rightarrow> (stream_frame option \<times> bool \<times> stream_frame) res" where
  "StreamFrame_MaybeSplitOffFrame f maxSize = (case StreamFrame_Length f of
     Inl e \<Rightarrow> Inl e
   | Inr l \<Rightarrow>
       if maxSize \<ge> l then Inr (None, False, f)
       else case StreamFrame_MaxDataLen f maxSize of
         Inl e \<Rightarrow> Inl e
       | Inr n \<Rightarrow>
           if n = 0 then Inr (None, True, f)
           else if int (length (sf_Data f)) - n < 0 \<or> int (length (sf_Data f)) - n > int MaxPacketBufferSize
             then Inl (Panic ''slice bounds out of range'')
           else Inr (Some (f\<lparr>sf_Fin := False, sf_Data := take (nat n) (sf_Data f)\<rparr>), True,
             f\<lparr>sf_Data := drop (nat n) (sf_Data f), sf_Offset := sf_Offset f + n\<rparr>))"


section \<open>The interface \<open>Frame\<close>\<close>

fun frame_Append :: "quic_frame \<Rightarrow> bytes \<Rightarrow> bytes res" where
  "frame_Append PingFrame b = Inr (b @ [ucast FrameTypePing])"
| "frame_Append (AckFrame f) b = ack_Append f b"
| "frame_Append (ResetStreamFrame f) b = ResetStreamFrame_Append f b"
| "frame_Append (StopSendingFrame f) b = StopSendingFrame_Append f b"
| "frame_Append (CryptoFrame f) b = CryptoFrame_Append f b"
| "frame_Append (NewTokenFrame t) b = NewTokenFrame_Append t b"
| "frame_Append (StreamFrame f) b = StreamFrame_Append f b"
| "frame_Append (MaxDataFrame n) b = MaxDataFrame_Append n b"
| "frame_Append (MaxStreamDataFrame f) b = MaxStreamDataFrame_Append f b"
| "frame_Append (MaxStreamsFrame f) b = MaxStreamsFrame_Append f b"
| "frame_Append (DataBlockedFrame n) b = DataBlockedFrame_Append n b"
| "frame_Append (StreamDataBlockedFrame f) b = StreamDataBlockedFrame_Append f b"
| "frame_Append (StreamsBlockedFrame f) b = StreamsBlockedFrame_Append f b"
| "frame_Append (NewConnectionIDFrame f) b = NewConnectionIDFrame_Append f b"
| "frame_Append (RetireConnectionIDFrame n) b = RetireConnectionIDFrame_Append n b"
| "frame_Append (PathChallengeFrame d) b = PathChallengeFrame_Append d b"
| "frame_Append (PathResponseFrame d) b = PathResponseFrame_Append d b"
| "frame_Append (ConnectionCloseFrame f) b = ConnectionCloseFrame_Append f b"
| "frame_Append HandshakeDoneFrame b = Inr (b @ [ucast FrameTypeHandshakeDone])"
| "frame_Append (AckFrequencyFrame f) b = AckFrequencyFrame_Append f b"
| "frame_Append ImmediateAckFrame b = ImmediateAckFrame_Append b"
| "frame_Append (DatagramFrame f) b = DatagramFrame_Append f b"

fun frame_Length :: "quic_frame \<Rightarrow> int res" where
  "frame_Length PingFrame = Inr 1"
| "frame_Length (AckFrame f) = map_sum id int (ack_Length f)"
| "frame_Length (ResetStreamFrame f) = map_sum id int (ResetStreamFrame_Length f)"
| "frame_Length (StopSendingFrame f) = map_sum id int (StopSendingFrame_Length f)"
| "frame_Length (CryptoFrame f) = map_sum id int (CryptoFrame_Length f)"
| "frame_Length (NewTokenFrame t) = map_sum id int (NewTokenFrame_Length t)"
| "frame_Length (StreamFrame f) = StreamFrame_Length f"
| "frame_Length (MaxDataFrame n) = map_sum id int (MaxDataFrame_Length n)"
| "frame_Length (MaxStreamDataFrame f) = map_sum id int (MaxStreamDataFrame_Length f)"
| "frame_Length (MaxStreamsFrame f) = map_sum id int (MaxStreamsFrame_Length f)"
| "frame_Length (DataBlockedFrame n) = map_sum id int (DataBlockedFrame_Length n)"
| "frame_Length (StreamDataBlockedFrame f) = map_sum id int (StreamDataBlockedFrame_Length f)"
| "frame_Length (StreamsBlockedFrame f) = map_sum id int (StreamsBlockedFrame_Length f)"
| "frame_Length (NewConnectionIDFrame f) = map_sum id int (NewConnectionIDFrame_Length f)"
| "frame_Length (RetireConnectionIDFrame n) = map_sum id int (RetireConnectionIDFrame_Length n)"
| "frame_Length (PathChallengeFrame d) = Inr (1 + 8)"
| "frame_Length (PathResponseFrame d) = Inr (1 + 8)"
| "frame_Length (ConnectionCloseFrame f) = map_sum id int (ConnectionCloseFrame_Length f)"
| "frame_Length HandshakeDoneFrame = Inr 1"
| "frame_Length (AckFrequencyFrame f) = map_sum id int (AckFrequencyFrame_Length f)"
| "frame_Length ImmediateAckFrame = map_sum id int (varint_Len FrameTypeImmediateAck)"
| "frame_Length (DatagramFrame f) = map_sum id int (DatagramFrame_Length f)"

definition IsProbingFrame :: "quic_frame \<Rightarrow> bool" where
  "IsProbingFrame f = (case f of PathChallengeFrame d \<Rightarrow> True | PathResponseFrame d \<Rightarrow> True | NewConnectionIDFrame n \<Rightarrow> True | _ \<Rightarrow> False)"

definition IsProbingFrameType :: "u64 \<Rightarrow> bool" where
  "IsProbingFrameType t = (t \<in> {FrameTypePathChallenge, FrameTypePathResponse, FrameTypeNewConnectionID})"

definition IsFrameTypeAckEliciting :: "u64 \<Rightarrow> bool" where
  "IsFrameTypeAckEliciting t = (t \<notin> {FrameTypeAck, FrameTypeAckECN, FrameTypeConnectionClose, FrameTypeApplicationClose})"

definition IsFrameAckEliciting :: "quic_frame \<Rightarrow> bool" where
  "IsFrameAckEliciting f = (case f of AckFrame a \<Rightarrow> False | ConnectionCloseFrame c \<Rightarrow> False | _ \<Rightarrow> True)"

definition HasAckElicitingFrames :: "quic_frame list \<Rightarrow> bool" where
  "HasAckElicitingFrames fs = list_ex IsFrameAckEliciting fs"

section \<open>FrameParser\<close>

record frame_parser =
  fp_ackDelayExponent :: nat
  fp_supportsDatagrams :: bool
  fp_supportsResetStreamAt :: bool
  fp_supportsAckFrequency :: bool

definition frameEncodingError :: "go_error \<Rightarrow> go_error" where
  "frameEncodingError e = Wrapf ''FRAME_ENCODING_ERROR'' e"

abbreviation as_frame :: "('a \<Rightarrow> quic_frame) \<Rightarrow> ('a \<times> nat) res \<Rightarrow> (quic_frame \<times> nat) res" where
  "as_frame C r \<equiv> map_sum frameEncodingError (map_prod C id) r"

lemma varint_Parse_progress: "varint_Parse b = Inr (v, l) \<Longrightarrow> 1 \<le> l \<and> l \<le> length b"
  by (cases b) (auto simp: varint_Parse_def Let_def Suc_le_eq split: if_splits)

definition type_supported :: "frame_parser \<Rightarrow> u64 \<Rightarrow> bool" where
  "type_supported p ft = (isValidRFC9000 ft \<or> fp_supportsDatagrams p \<and> IsDatagramFrameType ft \<or>
     fp_supportsResetStreamAt p \<and> ft = FrameTypeResetStreamAt \<or>
     fp_supportsAckFrequency p \<and> (ft = FrameTypeAckFrequency \<or> ft = FrameTypeImmediateAck))"

function parse_type :: "frame_parser \<Rightarrow> enc_level \<Rightarrow> nat \<Rightarrow> bytes \<Rightarrow> (u64 \<times> nat) res" where
  "parse_type p encLevel parsed b =
     (if length b = 0 then Inl io_EOF
      else case varint_Parse b of
        Inl e \<Rightarrow> Inl (frameEncodingError e)
      | Inr (typ, l) \<Rightarrow>
          if typ = 0 then parse_type p encLevel (parsed + l) (drop l b)
          else if \<not> type_supported p typ then Inl (frameEncodingError (Errorf ''unknown frame type''))
          else if \<not> isAllowedAtEncLevel typ encLevel then Inl (frameEncodingError (Errorf ''not allowed at encryption level''))
          else Inr (typ, parsed + l))"
  by pat_completeness auto
termination
  by (relation "measure (\<lambda>(p, e, n, b). length b)") (auto dest: varint_Parse_progress)

definition ParseType :: "frame_parser \<Rightarrow> bytes \<Rightarrow> enc_level \<Rightarrow> (u64 \<times> nat) res" where
  "ParseType p b encLevel = parse_type p encLevel 0 b"

definition ParseAckFrame :: "frame_parser \<Rightarrow> u64 \<Rightarrow> bytes \<Rightarrow> enc_level \<Rightarrow> (quic_frame \<times> nat) res" where
  "ParseAckFrame p frameType data encLevel =
     as_frame AckFrame (parseAckFrame zero_ack data frameType (if encLevel \<noteq> Encryption1RTT then 3 else fp_ackDelayExponent p))"

definition ParseLessCommonFrame :: "u64 \<Rightarrow> bytes \<Rightarrow> (quic_frame \<times> nat) res" where
  "ParseLessCommonFrame t data =
     (if t = FrameTypePing then Inr (PingFrame, 0)
      else if t = FrameTypeResetStream then as_frame ResetStreamFrame (parseResetStreamFrame data False)
      else if t = FrameTypeStopSending then as_frame StopSendingFrame (parseStopSendingFrame data)
      else if t = FrameTypeCrypto then as_frame CryptoFrame (parseCryptoFrame data)
      else if t = FrameTypeNewToken then as_frame NewTokenFrame (parseNewTokenFrame data)
      else if t = FrameTypeMaxData then as_frame MaxDataFrame (parseMaxDataFrame data)
      else if t = FrameTypeMaxStreamData then as_frame MaxStreamDataFrame (parseMaxStreamDataFrame data)
      else if t = FrameTypeBidiMaxStreams \<or> t = FrameTypeUniMaxStreams then as_frame MaxStreamsFrame (parseMaxStreamsFrame data t)
      else if t = FrameTypeDataBlocked then as_frame DataBlockedFrame (parseDataBlockedFrame data)
      else if t = FrameTypeStreamDataBlocked then as_frame StreamDataBlockedFrame (parseStreamDataBlockedFrame data)
      else if t = FrameTypeBidiStreamBlocked \<or> t = FrameTypeUniStreamBlocked then as_frame StreamsBlockedFrame (parseStreamsBlockedFrame data t)
      else if t = FrameTypeNewConnectionID then as_frame NewConnectionIDFrame (parseNewConnectionIDFrame data)
      else if t = FrameTypeRetireConnectionID then as_frame RetireConnectionIDFrame (parseRetireConnectionIDFrame data)
      else if t = FrameTypePathChallenge then as_frame PathChallengeFrame (parsePathChallengeFrame data)
      else if t = FrameTypePathResponse then as_frame PathResponseFrame (parsePathResponseFrame data)
      else if t = FrameTypeConnectionClose \<or> t = FrameTypeApplicationClose then as_frame ConnectionCloseFrame (parseConnectionCloseFrame data t)
      else if t = FrameTypeHandshakeDone then Inr (HandshakeDoneFrame, 0)
      else if t = FrameTypeResetStreamAt then as_frame ResetStreamFrame (parseResetStreamFrame data True)
      else if t = FrameTypeAckFrequency then as_frame AckFrequencyFrame (parseAckFrequencyFrame data)
      else if t = FrameTypeImmediateAck then Inr (ImmediateAckFrame, 0)
      else Inl (frameEncodingError (Errorf ''unknown frame type'')))"

text \<open>The choice between the four parsers at the head of the loop of \<^verbatim>\<open>handleFrames\<close>.\<close>

definition parse_frame :: "frame_parser \<Rightarrow> u64 \<Rightarrow> bytes \<Rightarrow> enc_level \<Rightarrow> (quic_frame \<times> nat) res" where
  "parse_frame p t data encLevel =
     (if IsStreamFrameType t then as_frame StreamFrame (ParseStreamFrame data t)
      else if IsAckFrameType t then ParseAckFrame p t data encLevel
      else if IsDatagramFrameType t then as_frame DatagramFrame (parseDatagramFrame data t)
      else ParseLessCommonFrame t data)"


section \<open>Handling the frames of a packet\<close>

text \<open>
  What the connection does with a frame is an argument: the methods that \<^verbatim>\<open>handleFrame\<close> and \<^verbatim>\<open>handleFrames\<close>
  call, on a state of any type.
\<close>

record 's frame_handlers =
  fh_HandleStreamFrame :: "stream_frame \<Rightarrow> 's \<Rightarrow> 's \<times> go_error option"
  fh_handleAckFrame :: "ack_frame \<Rightarrow> enc_level \<Rightarrow> 's \<Rightarrow> 's \<times> go_error option"
  fh_handleDatagramFrame :: "datagram_frame \<Rightarrow> 's \<Rightarrow> 's \<times> go_error option"
  fh_handleCryptoFrame :: "crypto_frame \<Rightarrow> enc_level \<Rightarrow> 's \<Rightarrow> 's \<times> go_error option"
  fh_handleConnectionCloseFrame :: "connection_close_frame \<Rightarrow> 's \<Rightarrow> 's \<times> go_error option"
  fh_HandleResetStreamFrame :: "reset_stream_frame \<Rightarrow> 's \<Rightarrow> 's \<times> go_error option"
  fh_UpdateSendWindow :: "int \<Rightarrow> 's \<Rightarrow> 's"
  fh_HandleMaxStreamDataFrame :: "stream_data_frame \<Rightarrow> 's \<Rightarrow> 's \<times> go_error option"
  fh_HandleMaxStreamsFrame :: "streams_frame \<Rightarrow> 's \<Rightarrow> 's"
  fh_HandleStreamDataBlockedFrame :: "stream_data_frame \<Rightarrow> 's \<Rightarrow> 's \<times> go_error option"
  fh_HandleStopSendingFrame :: "stop_sending_frame \<Rightarrow> 's \<Rightarrow> 's \<times> go_error option"
  fh_handlePathChallengeFrame :: "bytes \<Rightarrow> 's \<Rightarrow> 's"
  fh_handlePathResponseFrame :: "bytes \<Rightarrow> 's \<Rightarrow> 's \<times> go_error option"
  fh_handleNewTokenFrame :: "bytes \<Rightarrow> 's \<Rightarrow> 's \<times> go_error option"
  fh_connIDManager_Add :: "new_connection_id_frame \<Rightarrow> 's \<Rightarrow> 's \<times> go_error option"
  fh_connIDGenerator_Retire :: "u64 \<Rightarrow> 's \<Rightarrow> 's \<times> go_error option"
  fh_handleHandshakeDoneFrame :: "'s \<Rightarrow> 's \<times> go_error option"
  fh_handshakeComplete :: "'s \<Rightarrow> bool"
  fh_handleHandshakeComplete :: "'s \<Rightarrow> 's \<times> go_error option"

definition handleFrame :: "'s frame_handlers \<Rightarrow> quic_frame \<Rightarrow> enc_level \<Rightarrow> 's \<Rightarrow> 's \<times> bytes option \<times> go_error option" where
  "handleFrame h f encLevel s =
     (let plain = (\<lambda>(s1, err). (s1, None, err)) in case f of
        CryptoFrame c \<Rightarrow> plain (fh_handleCryptoFrame h c encLevel s)
      | ConnectionCloseFrame c \<Rightarrow> plain (fh_handleConnectionCloseFrame h c s)
      | ResetStreamFrame r \<Rightarrow> plain (fh_HandleResetStreamFrame h r s)
      | MaxDataFrame n \<Rightarrow> (fh_UpdateSendWindow h n s, None, None)
      | MaxStreamDataFrame d \<Rightarrow> plain (fh_HandleMaxStreamDataFrame h d s)
      | MaxStreamsFrame n \<Rightarrow> (fh_HandleMaxStreamsFrame h n s, None, None)
      | DataBlockedFrame n \<Rightarrow> (s, None, None)
      | StreamDataBlockedFrame d \<Rightarrow> plain (fh_HandleStreamDataBlockedFrame h d s)
      | StreamsBlockedFrame n \<Rightarrow> (s, None, None)
      | StopSendingFrame r \<Rightarrow> plain (fh_HandleStopSendingFrame h r s)
      | PingFrame \<Rightarrow> (s, None, None)
      | PathChallengeFrame d \<Rightarrow> (fh_handlePathChallengeFrame h d s, Some d, None)
      | PathResponseFrame d \<Rightarrow> plain (fh_handlePathResponseFrame h d s)
      | NewTokenFrame t \<Rightarrow> plain (fh_handleNewTokenFrame h t s)
      | NewConnectionIDFrame n \<Rightarrow> plain (fh_connIDManager_Add h n s)
      | RetireConnectionIDFrame n \<Rightarrow> plain (fh_connIDGenerator_Retire h n s)
      | HandshakeDoneFrame \<Rightarrow> plain (fh_handleHandshakeDoneFrame h s)
      | _ \<Rightarrow> (s, None, Some (Errorf ''unexpected frame type'')))"

text \<open>The four branches of \<^verbatim>\<open>handleFrames\<close>; only the last one can report a path challenge.\<close>

definition handle_one :: "'s frame_handlers \<Rightarrow> quic_frame \<Rightarrow> enc_level \<Rightarrow> 's \<Rightarrow> 's \<times> bytes option \<times> go_error option" where
  "handle_one h f encLevel s = (case f of
     StreamFrame x \<Rightarrow> (case fh_HandleStreamFrame h x s of (s1, err) \<Rightarrow> (s1, None, err))
   | AckFrame x \<Rightarrow> (case fh_handleAckFrame h x encLevel s of (s1, err) \<Rightarrow> (s1, None, err))
   | DatagramFrame x \<Rightarrow> (case fh_handleDatagramFrame h x s of (s1, err) \<Rightarrow> (s1, None, err))
   | _ \<Rightarrow> handleFrame h f encLevel s)"

record loop_vars =
  fl_isAckEliciting :: bool
  fl_isNonProbing :: bool
  fl_pathChallenge :: "bytes option"
  fl_handleErr :: "go_error option"
  fl_skipHandling :: bool
  fl_frames :: "quic_frame list"

definition fl_init :: loop_vars where
  "fl_init = \<lparr>fl_isAckEliciting = False, fl_isNonProbing = False, fl_pathChallenge = None, fl_handleErr = None,
     fl_skipHandling = False, fl_frames = []\<rparr>"

definition fl_type :: "u64 \<Rightarrow> loop_vars \<Rightarrow> loop_vars" where
  "fl_type t v = v\<lparr>fl_isAckEliciting := IsFrameTypeAckEliciting t \<or> fl_isAckEliciting v,
     fl_isNonProbing := \<not> IsProbingFrameType t \<or> fl_isNonProbing v\<rparr>"

definition fl_log :: "bool \<Rightarrow> quic_frame \<Rightarrow> loop_vars \<Rightarrow> loop_vars" where
  "fl_log tracing f v = (if tracing then v\<lparr>fl_frames := fl_frames v @ [f]\<rparr> else v)"

definition fl_handled :: "bytes option \<Rightarrow> go_error option \<Rightarrow> loop_vars \<Rightarrow> loop_vars" where
  "fl_handled pc err v = v\<lparr>fl_pathChallenge := (case pc of None \<Rightarrow> fl_pathChallenge v | Some d \<Rightarrow> Some d), fl_handleErr := err,
     fl_skipHandling := (err \<noteq> None)\<rparr>"

declare parse_type.simps [simp del]

lemma parse_type_progress: "parse_type p e n b = Inr (t, k) \<Longrightarrow> n < k"
proof (induction p e n b rule: parse_type.induct)
  case (1 p e n b)
  show ?case
  proof (cases "varint_Parse b")
    case (Inr r)
    then obtain ft l where r: "r = (ft, l)" by fastforce
    with Inr have "1 \<le> l" using varint_Parse_progress by blast
    with 1 Inr r show ?thesis by (subst (asm) (2) parse_type.simps) (force split: if_splits)
  qed (use 1 in \<open>auto simp: parse_type.simps [of p e n b] split: if_splits\<close>)
qed

lemma ParseType_progress: "ParseType p b e = Inr (t, l) \<Longrightarrow> 0 < l"
  by (auto simp: ParseType_def dest: parse_type_progress)

function frames_loop :: "frame_parser \<Rightarrow> 's frame_handlers \<Rightarrow> bool \<Rightarrow> enc_level \<Rightarrow> loop_vars \<Rightarrow> bytes \<Rightarrow> 's \<Rightarrow> 's \<times> loop_vars res" where
  "frames_loop p h tracing encLevel v data s =
     (if \<not> length data > 0 then (s, Inr v)
      else case ParseType p data encLevel of
        Inl e \<Rightarrow> if e = io_EOF then (s, Inr v) else (s, Inl e)
      | Inr (t, l) \<Rightarrow>
          let data1 = drop l data; v1 = fl_type t v
          in case parse_frame p t data1 encLevel of
               Inl e \<Rightarrow> (s, Inl e)
             | Inr (f, k) \<Rightarrow>
                 let data2 = drop k data1; v2 = fl_log tracing f v1
                 in if fl_skipHandling v2 then frames_loop p h tracing encLevel v2 data2 s
                    else (case handle_one h f encLevel s of
                      (s1, pc, err) \<Rightarrow>
                        if err \<noteq> None \<and> \<not> tracing then (s1, Inl (the err))
                        else frames_loop p h tracing encLevel (fl_handled pc err v2) data2 s1))"
  by pat_completeness auto
termination
  by (relation "measure (\<lambda>(p, h, tr, e, v, d, s). length d)") (auto dest: ParseType_progress)

text \<open>
  The result is the state with either an error or the two flags and the path challenge; when the packet is traced, the
  logged frames come with it.
\<close>

definition handleFrames :: "frame_parser \<Rightarrow> 's frame_handlers \<Rightarrow> bool \<Rightarrow> enc_level \<Rightarrow> bytes \<Rightarrow> 's \<Rightarrow>
    's \<times> quic_frame list option \<times> (bool \<times> bool \<times> bytes option) res" where
  "handleFrames p h tracing encLevel data s =
     (let handshakeWasComplete = fh_handshakeComplete h s in case frames_loop p h tracing encLevel fl_init data s of
        (s1, Inl e) \<Rightarrow> (s1, None, Inl e)
      | (s1, Inr v) \<Rightarrow>
          let logged = (if tracing then Some (fl_frames v) else None)
          in if tracing \<and> fl_handleErr v \<noteq> None then (s1, logged, Inl (the (fl_handleErr v)))
          else if \<not> handshakeWasComplete \<and> fh_handshakeComplete h s1
          then (case fh_handleHandshakeComplete h s1 of
              (s2, Some e) \<Rightarrow> (s2, logged, Inl e)
            | (s2, None) \<Rightarrow> (s2, logged, Inr (fl_isAckEliciting v, fl_isNonProbing v, fl_pathChallenge v)))
          else (s1, logged, Inr (fl_isAckEliciting v, fl_isNonProbing v, fl_pathChallenge v)))"


section \<open>Filling a packet\<close>

record payload =
  pl_streamFrames :: "stream_frame list"
  pl_frames :: "quic_frame list"
  pl_ack :: "ack_frame option"
  pl_length :: int

fun append_frames :: "bytes \<Rightarrow> quic_frame list \<Rightarrow> bytes res" where
  "append_frames raw [] = Inr raw"
| "append_frames raw (f # fs) = (case frame_Append f raw of Inl e \<Rightarrow> Inl e | Inr raw1 \<Rightarrow> append_frames raw1 fs)"

text \<open>The shuffle of the control frames is an argument.\<close>

definition appendPacketPayload :: "(quic_frame list \<Rightarrow> quic_frame list) \<Rightarrow> bytes \<Rightarrow> payload \<Rightarrow> int \<Rightarrow> bytes res" where
  "appendPacketPayload shuffle raw pl paddingLen =
     (case (case pl_ack pl of None \<Rightarrow> Inr raw | Some a \<Rightarrow> ack_Append a raw) of
        Inl e \<Rightarrow> Inl e
      | Inr raw1 \<Rightarrow>
          let raw2 = (if paddingLen > 0 then raw1 @ replicate (nat paddingLen) 0 else raw1);
            frames = (if length (pl_frames pl) > 1 then shuffle (pl_frames pl) else pl_frames pl)
          in case append_frames raw2 frames of
               Inl e \<Rightarrow> Inl e
             | Inr raw3 \<Rightarrow> (case append_frames raw3 (map StreamFrame (pl_streamFrames pl)) of
                 Inl e \<Rightarrow> Inl e
               | Inr raw4 \<Rightarrow>
                   if int (length raw4 - length raw) - paddingLen \<noteq> pl_length pl
                   then Inl (Errorf ''PacketPacker BUG: payload size inconsistent'')
                   else Inr raw4))"

end
