(* ===== verification/Frames_Props.thy ===== *)
theory Frames_Props
  imports Quic_Frames
begin

text \<open>
  What the frames of the transport guarantee: a packet that is filled frame by frame is handled frame by frame
  on the other side, announced lengths are exact, and splitting a frame loses nothing.
\<close>

section \<open>Well-formed frames\<close>

abbreviation "vn \<equiv> \<lambda>i. 0 \<le> i \<and> i < (2 :: int) ^ 62"

lemma varint_fields_enc: "list_all vi xs \<Longrightarrow> varint_fields (length xs) (encs xs @ rest) = Inr (xs, rest)"
  by (induction xs) auto

lemma fields_enc:
  "vi x \<Longrightarrow> varint_fields 1 (enc x @ rest) = Inr ([x], rest)"
  "vi x \<Longrightarrow> vi y \<Longrightarrow> varint_fields 2 (enc x @ enc y @ rest) = Inr ([x, y], rest)"
  "vi x \<Longrightarrow> vi y \<Longrightarrow> vi z \<Longrightarrow> varint_fields 3 (enc x @ enc y @ enc z @ rest) = Inr ([x, y, z], rest)"
  "vi x \<Longrightarrow> vi y \<Longrightarrow> vi z \<Longrightarrow> vi w \<Longrightarrow> varint_fields 4 (enc x @ enc y @ enc z @ enc w @ rest) = Inr ([x, y, z, w], rest)"
  by (simp_all add: numeral_eq_Suc)

lemma enc_small: "x \<le> 63 \<Longrightarrow> enc x = [ucast x]"
  using varint.encoded(1) [of x "[]"] order_trans [of x 63 4611686018427387903]
  by (auto simp: varint_Append_def maxVarInt1_def maxVarInt8_def)

lemma vi_len: "n < 2 ^ 62 \<Longrightarrow> vi (of_nat n :: u64)" "n < 2 ^ 62 \<Longrightarrow> unat (of_nat n :: u64) = n"
  by (simp_all add: maxVarInt_bounds unsigned_of_nat take_bit_nat_eq_self)

lemma not_eight_le_one [simp]: "\<not> (8 :: u64) \<le> 1"
  by (simp add: word_le_nat_alt)

lemma uint64_nat [simp]: "uint64 (int n) = of_nat n"
  by (simp add: uint64_def)

fun frame_typ :: "quic_frame \<Rightarrow> u64" where
  "frame_typ PingFrame = FrameTypePing"
| "frame_typ (AckFrame f) = (if hasECN f then FrameTypeAckECN else FrameTypeAck)"
| "frame_typ (ResetStreamFrame f) = (if rs_ReliableSize f = 0 then FrameTypeResetStream else FrameTypeResetStreamAt)"
| "frame_typ (StopSendingFrame f) = FrameTypeStopSending"
| "frame_typ (CryptoFrame f) = FrameTypeCrypto"
| "frame_typ (NewTokenFrame t) = FrameTypeNewToken"
| "frame_typ (StreamFrame f) = 8 XOR (if sf_Fin f then 1 else 0) XOR (if sf_DataLenPresent f then 2 else 0) XOR (if sf_Offset f \<noteq> 0 then 4 else 0)"
| "frame_typ (MaxDataFrame n) = FrameTypeMaxData"
| "frame_typ (MaxStreamDataFrame f) = FrameTypeMaxStreamData"
| "frame_typ (MaxStreamsFrame f) = (case sn_Type f of StreamTypeBidi \<Rightarrow> FrameTypeBidiMaxStreams | StreamTypeUni \<Rightarrow> FrameTypeUniMaxStreams)"
| "frame_typ (DataBlockedFrame n) = FrameTypeDataBlocked"
| "frame_typ (StreamDataBlockedFrame f) = FrameTypeStreamDataBlocked"
| "frame_typ (StreamsBlockedFrame f) = (case sn_Type f of StreamTypeBidi \<Rightarrow> FrameTypeBidiStreamBlocked | StreamTypeUni \<Rightarrow> FrameTypeUniStreamBlocked)"
| "frame_typ (NewConnectionIDFrame f) = FrameTypeNewConnectionID"
| "frame_typ (RetireConnectionIDFrame n) = FrameTypeRetireConnectionID"
| "frame_typ (PathChallengeFrame d) = FrameTypePathChallenge"
| "frame_typ (PathResponseFrame d) = FrameTypePathResponse"
| "frame_typ (ConnectionCloseFrame f) = (if cc_IsApplicationError f then FrameTypeApplicationClose else FrameTypeConnectionClose)"
| "frame_typ HandshakeDoneFrame = FrameTypeHandshakeDone"
| "frame_typ (AckFrequencyFrame f) = FrameTypeAckFrequency"
| "frame_typ ImmediateAckFrame = FrameTypeImmediateAck"
| "frame_typ (DatagramFrame f) = (if df_DataLenPresent f then FrameTypeDatagramWithLength else FrameTypeDatagramNoLength)"

text \<open>Frames whose fields are in the range of the wire format and pass the checks of the parsers.\<close>

fun frame_ok :: "quic_frame \<Rightarrow> bool" where
  "frame_ok (AckFrame f) = (ack_ok f \<and> af_ReceiveTimestamps f = [])"
| "frame_ok (ResetStreamFrame f) = (vn (rs_StreamID f) \<and> vi (rs_ErrorCode f) \<and> vn (rs_FinalSize f) \<and> 0 \<le> rs_ReliableSize f \<and>
     rs_ReliableSize f \<le> rs_FinalSize f)"
| "frame_ok (StopSendingFrame f) = (vn (ss_StreamID f) \<and> vi (ss_ErrorCode f))"
| "frame_ok (CryptoFrame f) = (vn (cf_Offset f) \<and> length (cf_Data f) < 2 ^ 62)"
| "frame_ok (NewTokenFrame t) = (t \<noteq> [] \<and> length t < 2 ^ 62)"
| "frame_ok (StreamFrame f) = (vn (sf_StreamID f) \<and> 0 \<le> sf_Offset f \<and> sf_Offset f + DataLen f \<le> MaxByteCount \<and>
     length (sf_Data f) \<le> MaxPacketBufferSize \<and> (sf_Data f \<noteq> [] \<or> sf_Fin f))"
| "frame_ok (MaxDataFrame n) = vn n"
| "frame_ok (MaxStreamDataFrame f) = (vn (sd_StreamID f) \<and> vn (sd_MaximumStreamData f))"
| "frame_ok (MaxStreamsFrame f) = (0 \<le> sn_Num f \<and> sn_Num f \<le> MaxStreamCount)"
| "frame_ok (DataBlockedFrame n) = vn n"
| "frame_ok (StreamDataBlockedFrame f) = (vn (sd_StreamID f) \<and> vn (sd_MaximumStreamData f))"
| "frame_ok (StreamsBlockedFrame f) = (0 \<le> sn_Num f \<and> sn_Num f \<le> MaxStreamCount)"
| "frame_ok (NewConnectionIDFrame f) = (vi (nc_SequenceNumber f) \<and> nc_RetirePriorTo f \<le> nc_SequenceNumber f \<and> nc_ConnectionID f \<noteq> [] \<and>
     length (nc_ConnectionID f) \<le> MaxConnIDLen \<and> length (nc_StatelessResetToken f) = 16)"
| "frame_ok (RetireConnectionIDFrame n) = vi n"
| "frame_ok (PathChallengeFrame d) = (length d = 8)"
| "frame_ok (PathResponseFrame d) = (length d = 8)"
| "frame_ok (ConnectionCloseFrame f) = (vi (cc_ErrorCode f) \<and> vi (cc_FrameType f) \<and> (cc_IsApplicationError f \<longrightarrow> cc_FrameType f = 0) \<and>
     length (cc_ReasonPhrase f) < 2 ^ 62)"
| "frame_ok (AckFrequencyFrame f) = (vi (aq_SequenceNumber f) \<and> vi (aq_AckElicitingThreshold f) \<and> 0 \<le> aq_RequestMaxAckDelay f \<and>
     aq_RequestMaxAckDelay f < 2 ^ 63 \<and> vn (aq_ReorderingThreshold f))"
| "frame_ok (DatagramFrame f) = (length (df_Data f) < 2 ^ 62)"
| "frame_ok _ = True"

text \<open>What the other side gets: ACK frames are cut and rounded, the delay of an ACK_FREQUENCY frame is in microseconds.\<close>

fun frame_received :: "quic_frame \<Rightarrow> quic_frame" where
  "frame_received (AckFrame f) = AckFrame (received f)"
| "frame_received (AckFrequencyFrame f) = AckFrequencyFrame (f\<lparr>aq_RequestMaxAckDelay := aq_RequestMaxAckDelay f div 1000 * 1000\<rparr>)"
| "frame_received f = f"

text \<open>Frames that say where they end; the others reach to the end of the packet.\<close>

fun delimited :: "quic_frame \<Rightarrow> bool" where
  "delimited (StreamFrame f) = sf_DataLenPresent f"
| "delimited (DatagramFrame f) = df_DataLenPresent f"
| "delimited _ = True"

definition wire_form :: "frame_parser \<Rightarrow> enc_level \<Rightarrow> quic_frame \<Rightarrow> bytes \<Rightarrow> bool" where
  "wire_form p lvl f bs \<longleftrightarrow> (\<forall>b. frame_Append f b = Inr (b @ enc (frame_typ f) @ bs)) \<and>
     frame_Length f = Inr (int (length (enc (frame_typ f)) + length bs)) \<and>
     (\<forall>rest. (delimited f \<or> rest = []) \<longrightarrow> parse_frame p (frame_typ f) (bs @ rest) lvl = Inr (frame_received f, length bs))"

lemmas wire_simps = wire_form_def parse_frame_def ParseLessCommonFrame_def IsStreamFrameType_def IsAckFrameType_def IsDatagramFrameType_def
  frame_type_numbers enc_small fields_enc varint_appends_enc varint_lens_enc


declare varint_appends.simps [simp del] varint_lens.simps [simp del]

lemma vi_count: "0 \<le> n \<Longrightarrow> n \<le> MaxStreamCount \<Longrightarrow> vn n"
  by (simp add: MaxStreamCount_def)

lemma wire_simple:
  "wire_form p lvl PingFrame []" "wire_form p lvl HandshakeDoneFrame []" "wire_form p lvl ImmediateAckFrame []"
  by (simp_all add: wire_simps ImmediateAckFrame_Append_def varint_Append_def varint_Len_def maxVarInt1_def)

lemma wire_stop_sending: "frame_ok (StopSendingFrame f) \<Longrightarrow> wire_form p lvl (StopSendingFrame f) (encs [uint64 (ss_StreamID f), ss_ErrorCode f])"
  by (simp add: wire_simps StopSendingFrame_Append_def StopSendingFrame_Length_def parseStopSendingFrame_def vi_uint64)

lemma wire_max_data: "frame_ok (MaxDataFrame n) \<Longrightarrow> wire_form p lvl (MaxDataFrame n) (encs [uint64 n])"
  by (simp add: wire_simps MaxDataFrame_Append_def MaxDataFrame_Length_def parseMaxDataFrame_def vi_uint64 varint.encoded(3))

lemma wire_data_blocked: "frame_ok (DataBlockedFrame n) \<Longrightarrow> wire_form p lvl (DataBlockedFrame n) (encs [uint64 n])"
  by (simp add: wire_simps DataBlockedFrame_Append_def DataBlockedFrame_Length_def parseDataBlockedFrame_def vi_uint64 varint.encoded(3))

lemma wire_max_stream_data: "frame_ok (MaxStreamDataFrame f) \<Longrightarrow>
    wire_form p lvl (MaxStreamDataFrame f) (encs [uint64 (sd_StreamID f), uint64 (sd_MaximumStreamData f)])"
  by (simp add: wire_simps MaxStreamDataFrame_Append_def MaxStreamDataFrame_Length_def parseMaxStreamDataFrame_def vi_uint64)

lemma wire_stream_data_blocked: "frame_ok (StreamDataBlockedFrame f) \<Longrightarrow>
    wire_form p lvl (StreamDataBlockedFrame f) (encs [uint64 (sd_StreamID f), uint64 (sd_MaximumStreamData f)])"
  by (simp add: wire_simps StreamDataBlockedFrame_Append_def StreamDataBlockedFrame_Length_def parseStreamDataBlockedFrame_def vi_uint64)

lemma wire_max_streams: "frame_ok (MaxStreamsFrame f) \<Longrightarrow> wire_form p lvl (MaxStreamsFrame f) (encs [uint64 (sn_Num f)])"
  using vi_count [of "sn_Num f"]
  by (cases "sn_Type f"; cases f)
    (simp_all add: wire_simps MaxStreamsFrame_Append_def MaxStreamsFrame_Length_def parseMaxStreamsFrame_def vi_uint64 varint.encoded(3))

lemma wire_streams_blocked: "frame_ok (StreamsBlockedFrame f) \<Longrightarrow> wire_form p lvl (StreamsBlockedFrame f) (encs [uint64 (sn_Num f)])"
  using vi_count [of "sn_Num f"]
  by (cases "sn_Type f"; cases f)
    (simp_all add: wire_simps StreamsBlockedFrame_Append_def StreamsBlockedFrame_Length_def parseStreamsBlockedFrame_def vi_uint64 varint.encoded(3))

lemma wire_retire: "frame_ok (RetireConnectionIDFrame n) \<Longrightarrow> wire_form p lvl (RetireConnectionIDFrame n) (encs [n])"
  by (simp add: wire_simps RetireConnectionIDFrame_Append_def RetireConnectionIDFrame_Length_def parseRetireConnectionIDFrame_def varint.encoded(3))

lemma wire_path: "frame_ok (PathChallengeFrame d) \<Longrightarrow> wire_form p lvl (PathChallengeFrame d) d"
    "frame_ok (PathResponseFrame d) \<Longrightarrow> wire_form p lvl (PathResponseFrame d) d"
  by (simp_all add: wire_simps PathChallengeFrame_Append_def parsePathChallengeFrame_def PathResponseFrame_Append_def parsePathResponseFrame_def)

lemma wire_crypto: "frame_ok (CryptoFrame f) \<Longrightarrow>
    wire_form p lvl (CryptoFrame f) (encs [uint64 (cf_Offset f), of_nat (length (cf_Data f))] @ cf_Data f)"
  by (cases f) (simp add: wire_simps CryptoFrame_Append_def CryptoFrame_Length_def parseCryptoFrame_def vi_uint64 vi_len)

lemma wire_new_token: "frame_ok (NewTokenFrame t) \<Longrightarrow> wire_form p lvl (NewTokenFrame t) (encs [of_nat (length t)] @ t)"
  by (simp add: wire_simps NewTokenFrame_Append_def NewTokenFrame_Length_def parseNewTokenFrame_def vi_len varint.encoded(3) Let_def)


lemma wire_reset:
  assumes "frame_ok (ResetStreamFrame f)"
  shows "wire_form p lvl (ResetStreamFrame f) (encs ([uint64 (rs_StreamID f), rs_ErrorCode f, uint64 (rs_FinalSize f)]
     @ (if rs_ReliableSize f > 0 then [uint64 (rs_ReliableSize f)] else [])))"
proof -
  have v: "vn (rs_ReliableSize f)" using assms by auto
  have le: "\<not> uint64 (rs_ReliableSize f) > uint64 (rs_FinalSize f)" using assms v by (simp add: word_less_alt)
  have t: "vi (4 :: u64)" "vi (0x24 :: u64)" by (simp_all add: maxVarInt8_def)
  show ?thesis using assms v le t
    by (cases f; cases "rs_ReliableSize f = 0")
      (simp_all add: wire_simps ResetStreamFrame_Append_def ResetStreamFrame_Length_def parseResetStreamFrame_def vi_uint64)
qed

lemma wire_new_connection_id:
  assumes "frame_ok (NewConnectionIDFrame f)"
  shows "wire_form p lvl (NewConnectionIDFrame f)
    (encs [nc_SequenceNumber f, nc_RetirePriorTo f] @ [of_nat (length (nc_ConnectionID f))] @ nc_ConnectionID f @ nc_StatelessResetToken f)"
proof -
  have "unat (of_nat (length (nc_ConnectionID f)) :: 8 word) = length (nc_ConnectionID f)"
    using assms by (simp add: MaxConnIDLen_def unsigned_of_nat take_bit_nat_eq_self)
  moreover have "vi (nc_RetirePriorTo f)" using assms by (auto intro: order_trans)
  ultimately show ?thesis using assms
    by (cases f) (simp add: wire_simps NewConnectionIDFrame_Append_def NewConnectionIDFrame_Length_def parseNewConnectionIDFrame_def Let_def
      linorder_not_less [symmetric])
qed

lemma wire_connection_close:
  assumes "frame_ok (ConnectionCloseFrame f)"
  shows "wire_form p lvl (ConnectionCloseFrame f) (encs ([cc_ErrorCode f] @ (if \<not> cc_IsApplicationError f then [cc_FrameType f] else [])
    @ [of_nat (length (cc_ReasonPhrase f))]) @ cc_ReasonPhrase f)"
  using assms
  by (cases f; cases "cc_IsApplicationError f")
    (simp_all add: wire_simps ConnectionCloseFrame_Append_def ConnectionCloseFrame_Length_def parseConnectionCloseFrame_def vi_len Let_def)

lemma wire_datagram:
  assumes "frame_ok (DatagramFrame f)"
  shows "wire_form p lvl (DatagramFrame f) (encs (if df_DataLenPresent f then [of_nat (length (df_Data f))] else []) @ df_Data f)"
  using assms
  by (cases f; cases "df_DataLenPresent f")
    (simp_all add: wire_simps DatagramFrame_Append_def DatagramFrame_Length_def parseDatagramFrame_def vi_len Let_def varint.encoded(3))

lemma wire_ack_frequency:
  assumes "frame_ok (AckFrequencyFrame f)"
  shows "wire_form p lvl (AckFrequencyFrame f) (encs [aq_SequenceNumber f, aq_AckElicitingThreshold f,
     uint64 (aq_RequestMaxAckDelay f sdiv 1000), uint64 (aq_ReorderingThreshold f)])"
proof -
  let ?d = "aq_RequestMaxAckDelay f"
  have s: "?d sdiv 1000 = ?d div 1000" using assms by (auto simp: signed_divide_int_def sgn_if)
  have b: "vn (?d div 1000)" "?d div 1000 * 1000 < 2 ^ 63" "0 \<le> ?d div 1000 * 1000" using assms by auto
  have g: "go_int64 (?d div 1000 * 1000) = ?d div 1000 * 1000" using b by (intro go_int64_id) auto
  have t: "vi (0xaf :: u64)" "length (enc (0xaf :: u64)) = 2"
    using varint.encoded(3) [of "0xaf"] by (simp_all add: maxVarInt8_def varint_Len_def maxVarInt1_def maxVarInt2_def)
  have u: "vi (uint64 (?d div 1000))" "uint (uint64 (?d div 1000)) = ?d div 1000" using b(1) by (simp_all add: vi_uint64)
  have e: "\<lparr>aq_SequenceNumber = aq_SequenceNumber f, aq_AckElicitingThreshold = aq_AckElicitingThreshold f, aq_RequestMaxAckDelay = x,
      aq_ReorderingThreshold = aq_ReorderingThreshold f\<rparr> = f\<lparr>aq_RequestMaxAckDelay := x\<rparr>" for x by (cases f) simp
  show ?thesis using assms b g t u
    by (simp add: wire_simps AckFrequencyFrame_Append_def AckFrequencyFrame_Length_def parseAckFrequencyFrame_def vi_uint64 s e Let_def)
qed

lemma stream_type_bits:
  fixes fin dl off :: bool
  defines "t \<equiv> (8 :: u64) XOR (if fin then 1 else 0) XOR (if dl then 2 else 0) XOR (if off then 4 else 0)"
  shows "IsStreamFrameType t" "t AND 1 > 0 \<longleftrightarrow> fin" "t AND 2 > 0 \<longleftrightarrow> dl" "t AND 4 > 0 \<longleftrightarrow> off" "enc t = [ucast t]" "t \<noteq> 0"
    and "ucast t = (8 :: 8 word) XOR (if fin then 1 else 0) XOR (if dl then 2 else 0) XOR (if off then 4 else 0)"
  by (cases fin; cases dl; cases off; simp add: t_def IsStreamFrameType_def enc_small)+

lemma wire_stream:
  assumes "frame_ok (StreamFrame f)"
  shows "wire_form p lvl (StreamFrame f) (encs ([uint64 (sf_StreamID f)] @ (if sf_Offset f \<noteq> 0 then [uint64 (sf_Offset f)] else [])
     @ (if sf_DataLenPresent f then [uint64 (DataLen f)] else [])) @ sf_Data f)"
proof -
  note bits = stream_type_bits [where fin = "sf_Fin f" and dl = "sf_DataLenPresent f" and off = "sf_Offset f \<noteq> 0"]
  have o: "vn (sf_Offset f)" "length (sf_Data f) < 2 ^ 62" using assms by (auto simp: MaxByteCount_def MaxPacketBufferSize_def DataLen_def)
  have n: "\<not> (length (sf_Data f) = 0 \<and> \<not> sf_Fin f)" using assms by auto
  let ?hdr = "[uint64 (sf_StreamID f)] @ (if sf_Offset f \<noteq> 0 then [uint64 (sf_Offset f)] else [])
     @ (if sf_DataLenPresent f then [uint64 (DataLen f)] else [])"
  have v: "list_all vi ?hdr" using assms o by (auto simp: vi_uint64 DataLen_def vi_len)
  have "frame_Append (StreamFrame f) b = Inr (b @ enc (frame_typ (StreamFrame f)) @ encs ?hdr @ sf_Data f)" for b
    using varint_appends_enc [OF v] n bits(5,7) by (simp add: StreamFrame_Append_def del: encs_simps)
  moreover have "frame_Length (StreamFrame f) = Inr (int (length (enc (frame_typ (StreamFrame f))) + length (encs ?hdr @ sf_Data f)))"
    using varint_lens_enc [OF v] bits(5) by (simp add: StreamFrame_Length_def DataLen_def del: encs_simps)
  moreover have "ParseStreamFrame ((encs ?hdr @ sf_Data f) @ rest) (frame_typ (StreamFrame f)) = Inr (f, length (encs ?hdr @ sf_Data f))"
    if "sf_DataLenPresent f \<or> rest = []" for rest
    using that assms o unfolding ParseStreamFrame_def frame_typ.simps Let_def bits
    by (cases f; cases "sf_Offset f = 0"; cases "sf_DataLenPresent f")
      (simp_all add: vi_uint64 vi_len DataLen_def)
  ultimately show ?thesis using bits(1) by (simp add: wire_form_def parse_frame_def del: encs_simps)
qed


lemma wire_ack_frame:
  assumes "frame_ok (AckFrame f)" and "lvl = Encryption1RTT \<Longrightarrow> fp_ackDelayExponent p = 3"
  shows "\<exists>bs. wire_form p lvl (AckFrame f) bs"
proof -
  from plain_roundtrip [of f] assms(1) obtain bs where bs: "\<forall>b. append_plain f b = Inr (b @ ucast (frame_typ (AckFrame f)) # bs)"
    "length_plain f = Inr (1 + length bs)" "\<forall>rest. parseAckFrame zero_ack (bs @ rest) (frame_typ (AckFrame f)) 3 = Inr (received f, length bs)" by auto
  have t: "enc (frame_typ (AckFrame f)) = [ucast (frame_typ (AckFrame f))]" "\<not> IsStreamFrameType (frame_typ (AckFrame f))"
    "IsAckFrameType (frame_typ (AckFrame f))"
    by (simp_all add: frame_type_numbers enc_small IsStreamFrameType_def IsAckFrameType_def)
  have "wire_form p lvl (AckFrame f) bs"
    using bs t assms unfolding wire_form_def by (simp add: parse_frame_def ParseAckFrame_def ack_Append_def ack_Length_def del: frame_typ.simps)
  then show ?thesis by blast
qed

lemmas wire_frames = wire_simple wire_stop_sending wire_max_data wire_data_blocked wire_max_stream_data wire_stream_data_blocked wire_max_streams
  wire_streams_blocked wire_retire wire_path wire_crypto wire_new_token wire_reset wire_new_connection_id wire_connection_close wire_datagram
  wire_ack_frequency wire_stream

lemma wire_exists:
  assumes "frame_ok f" and "lvl = Encryption1RTT \<Longrightarrow> fp_ackDelayExponent p = 3"
  shows "\<exists>bs. wire_form p lvl f bs"
proof (cases f)
  case (AckFrame a)
  then show ?thesis using wire_ack_frame [of a lvl p] assms by simp
qed (use assms(1) wire_frames in metis)+

lemma frame_typ_pos: "frame_typ f \<noteq> 0" "vi (frame_typ f)"
proof -
  have b: "vi (frame_typ f) \<and> frame_typ f \<noteq> 0"
  proof (cases f)
    case (StreamFrame s)
    note t = stream_type_bits [where fin = "sf_Fin s" and dl = "sf_DataLenPresent s" and off = "sf_Offset s \<noteq> 0"]
    have "frame_typ f \<le> 15" using t(1) unfolding IsStreamFrameType_def StreamFrame frame_typ.simps by simp
    then have "vi (frame_typ f)" using order_trans [of "frame_typ f" 15 maxVarInt8] by (simp add: maxVarInt8_def)
    with t(6) show ?thesis by (simp add: StreamFrame)
  qed (simp_all add: frame_type_numbers maxVarInt8_def split: stream_type.splits)
  then show "frame_typ f \<noteq> 0" "vi (frame_typ f)" by auto
qed


section \<open>A packet is handled frame by frame\<close>

declare frames_loop.simps [simp del] frame_typ.simps [simp del]

definition acceptable :: "frame_parser \<Rightarrow> enc_level \<Rightarrow> quic_frame \<Rightarrow> bool" where
  "acceptable p lvl f \<longleftrightarrow> frame_ok f \<and> type_supported p (frame_typ f) \<and> isAllowedAtEncLevel (frame_typ f) lvl"

definition frame_bytes :: "quic_frame \<Rightarrow> bytes" where
  "frame_bytes f = (case frame_Append f [] of Inr b \<Rightarrow> b | Inl e \<Rightarrow> [])"

definition frame_size :: "quic_frame \<Rightarrow> int" where
  "frame_size f = (case frame_Length f of Inr n \<Rightarrow> n | Inl e \<Rightarrow> 0)"

lemma wire_form_bytes:
  assumes "wire_form p lvl f bs"
  shows "frame_Append f b = Inr (b @ frame_bytes f)" "frame_bytes f = enc (frame_typ f) @ bs" "frame_size f = int (length (frame_bytes f))"
  using assms by (auto simp: wire_form_def frame_bytes_def frame_size_def)

lemma frame_append_bytes: "frame_ok f \<Longrightarrow> frame_Append f b = Inr (b @ frame_bytes f)" "frame_ok f \<Longrightarrow> frame_size f = int (length (frame_bytes f))"
  using wire_exists [of f EncryptionInitial] wire_form_bytes by blast+

lemma append_frames_bytes: "list_all frame_ok fs \<Longrightarrow> append_frames b fs = Inr (b @ concat (map frame_bytes fs))"
  by (induction fs arbitrary: b) (auto simp: frame_append_bytes)

lemma parse_type_padding: "parse_type p lvl n (replicate j 0 @ b) = parse_type p lvl (n + j) b"
proof (induction j arbitrary: n)
  case (Suc j)
  have "varint_Parse (0 # replicate j 0 @ b) = Inr (0, 1)" by (simp add: varint_Parse_def)
  with Suc [of "Suc n"] show ?case by (subst parse_type.simps) simp
qed simp

lemma ParseType_padded:
  assumes "type_supported p t" and "isAllowedAtEncLevel t lvl" and "vi t" and "t \<noteq> 0"
  shows "ParseType p (replicate j 0 @ enc t @ b) lvl = Inr (t, j + length (enc t))"
  using assms varint.encoded(2,4) [OF assms(3)] by (simp add: ParseType_def parse_type_padding) (subst parse_type.simps, simp)

lemma ParseType_only_padding: "ParseType p (replicate j 0) lvl = Inl io_EOF"
  using parse_type_padding [of p lvl 0 j "[]"] by (simp add: ParseType_def) (subst parse_type.simps, simp)

text \<open>The loop on a list of frames instead of bytes.\<close>

fun deliver :: "'s frame_handlers \<Rightarrow> bool \<Rightarrow> enc_level \<Rightarrow> loop_vars \<Rightarrow> quic_frame list \<Rightarrow> 's \<Rightarrow> 's \<times> loop_vars res" where
  "deliver h tracing lvl v [] s = (s, Inr v)"
| "deliver h tracing lvl v (f # fs) s =
     (let v2 = fl_log tracing (frame_received f) (fl_type (frame_typ f) v)
      in if fl_skipHandling v2 then deliver h tracing lvl v2 fs s
         else (case handle_one h (frame_received f) lvl s of (s1, pc, err) \<Rightarrow>
           if err \<noteq> None \<and> \<not> tracing then (s1, Inl (the err)) else deliver h tracing lvl (fl_handled pc err v2) fs s1))"

lemma frames_loop_padding: "frames_loop p h tracing lvl v (replicate k 0) s = (s, Inr v)"
  by (subst frames_loop.simps) (simp add: ParseType_only_padding)

lemma frames_loop_deliver:
  assumes "\<forall>(j, f) \<in> set jfs. acceptable p lvl f" and "lvl = Encryption1RTT \<Longrightarrow> fp_ackDelayExponent p = 3"
    and "list_all delimited (butlast (map snd jfs))" and "k = 0 \<or> list_all delimited (map snd jfs)"
  shows "frames_loop p h tracing lvl v (concat (map (\<lambda>(j, f). replicate j 0 @ frame_bytes f) jfs) @ replicate k 0) s
    = deliver h tracing lvl v (map snd jfs) s"
  using assms(1,3,4)
proof (induction jfs arbitrary: v s)
  case Nil
  then show ?case by (simp add: frames_loop_padding)
next
  case (Cons jf jfs)
  obtain j f where jf: "jf = (j, f)" by fastforce
  have a: "acceptable p lvl f" using Cons.prems jf by auto
  from wire_exists [OF _ assms(2)] a obtain bs where w: "wire_form p lvl f bs" unfolding acceptable_def by blast
  let ?rest = "concat (map (\<lambda>(j, f). replicate j 0 @ frame_bytes f) jfs) @ replicate k 0"
  have d: "delimited f \<or> ?rest = []" using Cons.prems(2,3) jf by (cases jfs) auto
  have pt: "ParseType p (replicate j 0 @ enc (frame_typ f) @ bs @ ?rest) lvl = Inr (frame_typ f, j + length (enc (frame_typ f)))"
    using a frame_typ_pos by (intro ParseType_padded) (auto simp: acceptable_def)
  have pf: "parse_frame p (frame_typ f) (bs @ ?rest) lvl = Inr (frame_received f, length bs)" using w d unfolding wire_form_def by blast
  have ne: "length (replicate j 0 @ enc (frame_typ f) @ bs @ ?rest) > 0" using varint.encoded(4) [OF frame_typ_pos(2)] by simp
  have ih: "frames_loop p h tracing lvl v ?rest s = deliver h tracing lvl v (map snd jfs) s" for v s
    using Cons.prems by (intro Cons.IH) (auto split: if_splits)
  have b: "concat (map (\<lambda>(j, f). replicate j 0 @ frame_bytes f) (jf # jfs)) @ replicate k 0 = replicate j 0 @ enc (frame_typ f) @ bs @ ?rest"
    by (simp add: jf wire_form_bytes(2) [OF w])
  show ?case unfolding b
    by (subst frames_loop.simps, simp only: ne pt) (use ih in \<open>cases tracing; simp add: pf jf Let_def split: prod.splits\<close>)
qed


lemma type_kinds: "IsFrameTypeAckEliciting (frame_typ f) = IsFrameAckEliciting (frame_received f)"
  "IsProbingFrameType (frame_typ f) = IsProbingFrame (frame_received f)"
proof -
  have "IsFrameTypeAckEliciting (frame_typ f) = IsFrameAckEliciting (frame_received f) \<and> IsProbingFrameType (frame_typ f) = IsProbingFrame (frame_received f)"
  proof (cases f)
    case (StreamFrame s)
    note t = stream_type_bits(1) [where fin = "sf_Fin s" and dl = "sf_DataLenPresent s" and off = "sf_Offset s \<noteq> 0"]
    then have "IsStreamFrameType (frame_typ f)" by (simp add: StreamFrame frame_typ.simps)
    then have "8 \<le> unat (frame_typ f)" "unat (frame_typ f) \<le> 15" by (simp_all add: IsStreamFrameType_def word_le_nat_alt)
    then show ?thesis by (auto simp: StreamFrame IsFrameTypeAckEliciting_def IsFrameAckEliciting_def IsProbingFrameType_def IsProbingFrame_def frame_type_numbers)
  qed (simp_all add: frame_typ.simps IsFrameTypeAckEliciting_def IsFrameAckEliciting_def IsProbingFrameType_def IsProbingFrame_def frame_type_numbers
    split: stream_type.splits)
  then show "IsFrameTypeAckEliciting (frame_typ f) = IsFrameAckEliciting (frame_received f)"
    "IsProbingFrameType (frame_typ f) = IsProbingFrame (frame_received f)" by auto
qed

fun challenge :: "quic_frame \<Rightarrow> bytes option" where
  "challenge (PathChallengeFrame d) = Some d"
| "challenge _ = None"

lemma handle_one_challenge: "handle_one h f lvl s = (s1, pc, err) \<Longrightarrow> pc = challenge f"
  by (cases f) (auto simp: handle_one_def handleFrame_def split: prod.splits)

text \<open>The reference: the frames one after the other until a handler reports an error.\<close>

fun handle_all :: "'s frame_handlers \<Rightarrow> enc_level \<Rightarrow> quic_frame list \<Rightarrow> 's \<Rightarrow> 's \<times> go_error option" where
  "handle_all h lvl [] s = (s, None)"
| "handle_all h lvl (f # fs) s = (case handle_one h f lvl s of
     (s1, pc, Some e) \<Rightarrow> (s1, Some e)
   | (s1, pc, None) \<Rightarrow> handle_all h lvl fs s1)"

fun last_challenge :: "quic_frame list \<Rightarrow> bytes option" where
  "last_challenge [] = None"
| "last_challenge (f # fs) = (case last_challenge fs of None \<Rightarrow> challenge f | Some d \<Rightarrow> Some d)"

definition handle_packet :: "'s frame_handlers \<Rightarrow> bool \<Rightarrow> enc_level \<Rightarrow> quic_frame list \<Rightarrow> 's \<Rightarrow>
    's \<times> quic_frame list option \<times> (bool \<times> bool \<times> bytes option) res" where
  "handle_packet h tracing lvl fs s =
     (let logged = (if tracing then Some fs else None); r = (HasAckElicitingFrames fs, list_ex (\<lambda>f. \<not> IsProbingFrame f) fs, last_challenge fs)
      in case handle_all h lvl fs s of
           (s1, Some e) \<Rightarrow> (s1, logged, Inl e)
         | (s1, None) \<Rightarrow>
             if \<not> fh_handshakeComplete h s \<and> fh_handshakeComplete h s1
             then (case fh_handleHandshakeComplete h s1 of (s2, Some e) \<Rightarrow> (s2, logged, Inl e) | (s2, None) \<Rightarrow> (s2, logged, Inr r))
             else (s1, logged, Inr r))"

lemmas fl_defs = fl_type_def fl_log_def fl_handled_def

lemma deliver_skip:
  "fl_skipHandling v \<Longrightarrow> \<exists>w. deliver h True lvl v fs s = (s, Inr w) \<and> fl_handleErr w = fl_handleErr v \<and>
    fl_frames w = fl_frames v @ map frame_received fs"
proof (induction fs arbitrary: v)
  case (Cons f fs)
  from Cons.IH [of "fl_log True (frame_received f) (fl_type (frame_typ f) v)"] Cons.prems show ?case by (auto simp: fl_defs Let_def)
qed simp

definition delivered :: "'s frame_handlers \<Rightarrow> bool \<Rightarrow> enc_level \<Rightarrow> loop_vars \<Rightarrow> quic_frame list \<Rightarrow> 's \<Rightarrow> 's \<times> loop_vars res \<Rightarrow> bool" where
  "delivered h tracing lvl v fs s r \<longleftrightarrow> (case handle_all h lvl fs s of
     (s1, Some e) \<Rightarrow> if tracing then \<exists>w. r = (s1, Inr w) \<and> fl_handleErr w = Some e \<and> fl_frames w = fl_frames v @ fs else r = (s1, Inl e)
   | (s1, None) \<Rightarrow> \<exists>w. r = (s1, Inr w) \<and> fl_handleErr w = None \<and> fl_frames w = fl_frames v @ (if tracing then fs else []) \<and>
       fl_isAckEliciting w = (fl_isAckEliciting v \<or> HasAckElicitingFrames fs) \<and>
       fl_isNonProbing w = (fl_isNonProbing v \<or> list_ex (\<lambda>f. \<not> IsProbingFrame f) fs) \<and>
       fl_pathChallenge w = (case last_challenge fs of None \<Rightarrow> fl_pathChallenge v | Some d \<Rightarrow> Some d))"

lemma delivered_Cons:
  assumes "handle_one h (frame_received f) lvl s = (s1, pc, None)"
    and "delivered h tracing lvl (fl_handled pc None (fl_log tracing (frame_received f) (fl_type (frame_typ f) v))) gs s1 r"
  shows "delivered h tracing lvl v (frame_received f # gs) s r"
proof -
  obtain s2 e where a: "handle_all h lvl gs s1 = (s2, e)" by fastforce
  then have "handle_all h lvl (frame_received f # gs) s = (s2, e)" using assms(1) by simp
  then show ?thesis using assms(2) a handle_one_challenge [OF assms(1)]
    by (cases e; cases tracing) (auto simp: delivered_def fl_defs type_kinds HasAckElicitingFrames_def split: option.splits)
qed

lemma deliver_delivered:
  "\<not> fl_skipHandling v \<Longrightarrow> fl_handleErr v = None \<Longrightarrow> delivered h tracing lvl v (map frame_received fs) s (deliver h tracing lvl v fs s)"
proof (induction fs arbitrary: v s)
  case Nil
  then show ?case by (auto simp: delivered_def HasAckElicitingFrames_def)
next
  case (Cons f fs)
  let ?g = "frame_received f"
  obtain s1 pc err where o: "handle_one h ?g lvl s = (s1, pc, err)" by (cases "handle_one h ?g lvl s") auto
  let ?v2 = "fl_log tracing ?g (fl_type (frame_typ f) v)"
  have pc: "pc = challenge ?g" using o by (rule handle_one_challenge)
  have ns: "\<not> fl_skipHandling ?v2" using Cons.prems(1) by (simp add: fl_defs)
  show ?case
  proof (cases err)
    case None
    let ?w = "fl_handled pc None ?v2"
    have "delivered h tracing lvl ?w (map frame_received fs) s1 (deliver h tracing lvl ?w fs s1)"
      by (rule Cons.IH) (simp_all add: fl_handled_def)
    moreover have "deliver h tracing lvl v (f # fs) s = deliver h tracing lvl ?w fs s1" using ns o None by (simp add: Let_def)
    ultimately show ?thesis using delivered_Cons o None by fastforce
  next
    case (Some e)
    let ?w = "fl_handled pc (Some e) ?v2"
    have w: "fl_skipHandling ?w" "fl_handleErr ?w = Some e" "tracing \<Longrightarrow> fl_frames ?w = fl_frames v @ [?g]" by (simp_all add: fl_defs)
    have "deliver h tracing lvl v (f # fs) s = (if tracing then deliver h tracing lvl ?w fs s1 else (s1, Inl e))"
      using ns o Some by (simp add: Let_def)
    then show ?thesis using o Some w deliver_skip [OF w(1), of h lvl fs s1] by (cases tracing) (auto simp: delivered_def)
  qed
qed

lemma handleFrames_packet:
  assumes "\<forall>(j, f) \<in> set jfs. acceptable p lvl f" and "lvl = Encryption1RTT \<Longrightarrow> fp_ackDelayExponent p = 3"
    and "list_all delimited (butlast (map snd jfs))" and "k = 0 \<or> list_all delimited (map snd jfs)"
  shows "handleFrames p h tracing lvl (concat (map (\<lambda>(j, f). replicate j 0 @ frame_bytes f) jfs) @ replicate k 0) s
    = handle_packet h tracing lvl (map (frame_received \<circ> snd) jfs) s"
proof -
  have "delivered h tracing lvl fl_init (map frame_received (map snd jfs)) s (deliver h tracing lvl fl_init (map snd jfs) s)"
    by (rule deliver_delivered) (simp_all add: fl_init_def)
  then show ?thesis
    using frames_loop_deliver [OF assms, of h tracing fl_init s]
    by (auto simp: handleFrames_def handle_packet_def delivered_def fl_init_def Let_def split: prod.splits option.splits if_splits)
qed


section \<open>From the packer to the handlers\<close>

definition ack_list :: "payload \<Rightarrow> quic_frame list" where
  "ack_list pl = (case pl_ack pl of None \<Rightarrow> [] | Some a \<Rightarrow> [AckFrame a])"

definition payload_frames :: "payload \<Rightarrow> quic_frame list" where
  "payload_frames pl = ack_list pl @ pl_frames pl @ map StreamFrame (pl_streamFrames pl)"

text \<open>The order in which the frames stand in the packet.\<close>

definition packed :: "(quic_frame list \<Rightarrow> quic_frame list) \<Rightarrow> payload \<Rightarrow> quic_frame list" where
  "packed shuffle pl = ack_list pl @ (if length (pl_frames pl) > 1 then shuffle (pl_frames pl) else pl_frames pl)
     @ map StreamFrame (pl_streamFrames pl)"

text \<open>Where the padding goes: in front of the first frame after the acknowledgement.\<close>

fun padded :: "nat \<Rightarrow> quic_frame list \<Rightarrow> (nat \<times> quic_frame) list" where
  "padded k [] = []"
| "padded k (f # fs) = (k, f) # map (Pair 0) fs"

lemma padded_snd [simp]: "map snd (padded k fs) = fs"
  by (cases fs) (simp_all add: o_def)

lemma padded_frame_bytes: "concat (map (\<lambda>(j, f). replicate j 0 @ frame_bytes f) (padded k fs)) @ replicate (if fs = [] then k else 0) 0
    = replicate k 0 @ concat (map frame_bytes fs)"
  by (cases fs) (simp_all add: o_def)

lemma frame_sizes: "list_all frame_ok fs \<Longrightarrow> sum_list (map frame_size fs) = int (length (concat (map frame_bytes fs)))"
  by (induction fs) (auto simp: frame_append_bytes)

text \<open>C38: A packet arrives as it was packed. The payload that the packer writes, the acknowledgement, padding, control frames in
  any order a shuffle gives and STREAM frames, has exactly the announced length, and the receiving connection handles
  exactly these frames in this order: it passes each to its handler until one reports an error, and otherwise reports
  whether the packet elicits an acknowledgement, whether it probes a path, and its last path challenge. The
  frames have to be permitted at the encryption level, and only the last may lack a length.\<close>

theorem packet_payload_handled:
  assumes "mset (shuffle (pl_frames pl)) = mset (pl_frames pl)" and "0 \<le> paddingLen"
    and "list_all (acceptable p lvl) (payload_frames pl)" and "lvl = Encryption1RTT \<Longrightarrow> fp_ackDelayExponent p = 3"
    and "list_all delimited (butlast (packed shuffle pl))"
    and "pl_length pl = sum_list (map frame_size (payload_frames pl))"
  shows "\<exists>pkt. appendPacketPayload shuffle raw pl paddingLen = Inr (raw @ pkt) \<and> int (length pkt) = pl_length pl + paddingLen \<and>
    handleFrames p h tracing lvl pkt s = handle_packet h tracing lvl (map frame_received (packed shuffle pl)) s"
proof -
  let ?cs = "if length (pl_frames pl) > 1 then shuffle (pl_frames pl) else pl_frames pl"
  let ?rest = "?cs @ map StreamFrame (pl_streamFrames pl)"
  have m: "mset (packed shuffle pl) = mset (payload_frames pl)" using assms(1) by (simp add: packed_def payload_frames_def)
  then have "set (packed shuffle pl) = set (payload_frames pl)" by (rule mset_eq_setD)
  then have acc: "list_all (acceptable p lvl) (packed shuffle pl)" using assms(3) by (simp add: list_all_iff)
  then have ok: "list_all frame_ok (packed shuffle pl)" by (simp add: list_all_iff acceptable_def)
  have p: "packed shuffle pl = ack_list pl @ ?rest" by (simp add: packed_def)
  define pad where "pad = nat paddingLen"
  let ?jfs = "map (Pair 0) (ack_list pl) @ padded pad ?rest"
  let ?k = "if ?rest = [] then pad else 0"
  let ?pkt = "concat (map frame_bytes (ack_list pl)) @ replicate pad 0 @ concat (map frame_bytes ?rest)"
  have sn: "map snd ?jfs = packed shuffle pl" by (simp add: p o_def)
  have mem: "f \<in> set (packed shuffle pl)" if "(j, f) \<in> set ?jfs" for j f
    unfolding sn [symmetric] set_map using that by (rule image_eqI [rotated]) simp
  have bytes: "concat (map (\<lambda>(j, f). replicate j 0 @ frame_bytes f) ?jfs) @ replicate ?k 0 = ?pkt"
    using padded_frame_bytes [of pad ?rest] by (simp add: o_def)
  have "sum_list (map frame_size (packed shuffle pl)) = pl_length pl"
    using m unfolding assms(6) by (metis mset_map sum_mset_sum_list)
  then have len: "int (length ?pkt) = pl_length pl + paddingLen"
    using frame_sizes [OF ok] assms(2) by (simp add: p pad_def)
  have "list_all frame_ok ?cs" "list_all frame_ok (map StreamFrame (pl_streamFrames pl))" "list_all frame_ok (ack_list pl)"
    using ok by (simp_all add: packed_def)
  note app = append_frames_bytes [OF this(1)] append_frames_bytes [OF this(2)] append_frames_bytes [OF this(3)]
  have ack: "(case pl_ack pl of None \<Rightarrow> Inr raw | Some a \<Rightarrow> ack_Append a raw) = Inr (raw @ concat (map frame_bytes (ack_list pl)))"
    using app(3) [of raw] by (auto simp: ack_list_def split: option.splits sum.splits)
  have pd: "(if paddingLen > 0 then b @ replicate (nat paddingLen) 0 else b) = b @ replicate pad 0" for b :: bytes by (simp add: pad_def)
  have "appendPacketPayload shuffle raw pl paddingLen = Inr (raw @ ?pkt)"
    using len unfolding appendPacketPayload_def ack sum.case Let_def pd app by simp
  moreover have "handleFrames p h tracing lvl ?pkt s = handle_packet h tracing lvl (map (frame_received \<circ> snd) ?jfs) s"
    unfolding bytes [symmetric]
  proof (rule handleFrames_packet)
    show "\<forall>(j, f) \<in> set ?jfs. acceptable p lvl f" using acc mem by (auto simp only: list_all_iff)
    show "list_all delimited (butlast (map snd ?jfs))" unfolding sn by (rule assms(5))
    show "?k = 0 \<or> list_all delimited (map snd ?jfs)" by (auto simp: p o_def ack_list_def split: option.splits)
  qed (rule assms(4))
  moreover have "map (frame_received \<circ> snd) ?jfs = map frame_received (packed shuffle pl)" unfolding sn [symmetric] map_map by (rule refl)
  ultimately show ?thesis using len by (intro exI [of _ ?pkt]) simp
qed


definition log1 :: "('a \<Rightarrow> quic_frame) \<Rightarrow> 'a \<Rightarrow> quic_frame list \<Rightarrow> quic_frame list \<times> go_error option" where
  "log1 C x s = (s @ [C x], None)"

definition ex_handlers :: "quic_frame list frame_handlers" where
  "ex_handlers =
     \<lparr>fh_HandleStreamFrame = log1 StreamFrame, fh_handleAckFrame = (\<lambda>x l. log1 AckFrame x), fh_handleDatagramFrame = log1 DatagramFrame,
      fh_handleCryptoFrame = (\<lambda>x l. log1 CryptoFrame x), fh_handleConnectionCloseFrame = log1 ConnectionCloseFrame,
      fh_HandleResetStreamFrame = log1 ResetStreamFrame, fh_UpdateSendWindow = (\<lambda>n s. s @ [MaxDataFrame n]),
      fh_HandleMaxStreamDataFrame = log1 MaxStreamDataFrame, fh_HandleMaxStreamsFrame = (\<lambda>x s. s @ [MaxStreamsFrame x]),
      fh_HandleStreamDataBlockedFrame = log1 StreamDataBlockedFrame, fh_HandleStopSendingFrame = log1 StopSendingFrame,
      fh_handlePathChallengeFrame = (\<lambda>d s. s @ [PathChallengeFrame d]), fh_handlePathResponseFrame = log1 PathResponseFrame,
      fh_handleNewTokenFrame = log1 NewTokenFrame, fh_connIDManager_Add = log1 NewConnectionIDFrame,
      fh_connIDGenerator_Retire = log1 RetireConnectionIDFrame, fh_handleHandshakeDoneFrame = (\<lambda>s. (s @ [HandshakeDoneFrame], None)),
      fh_handshakeComplete = (\<lambda>s. True), fh_handleHandshakeComplete = (\<lambda>s. (s, None))\<rparr>"

definition ex_stream :: stream_frame where
  "ex_stream = \<lparr>sf_StreamID = 4, sf_Offset = 0, sf_Data = [1, 2], sf_Fin = True, sf_DataLenPresent = False\<rparr>"

definition ex_payload :: payload where
  "ex_payload = \<lparr>pl_streamFrames = [ex_stream], pl_frames = [MaxDataFrame 100, PathChallengeFrame [1, 2, 3, 4, 5, 6, 7, 8]], pl_ack = None, pl_length = 16\<rparr>"

definition ex_parser :: frame_parser where
  "ex_parser = \<lparr>fp_ackDelayExponent = 3, fp_supportsDatagrams = True, fp_supportsResetStreamAt = False, fp_supportsAckFrequency = False\<rparr>"

lemma packet_payload_handled_witness:
  "mset (rev (pl_frames ex_payload)) = mset (pl_frames ex_payload) \<and> list_all (acceptable ex_parser Encryption1RTT) (payload_frames ex_payload) \<and>
   list_all delimited (butlast (packed rev ex_payload)) \<and> pl_length ex_payload = sum_list (map frame_size (payload_frames ex_payload)) \<and>
   (\<exists>pkt. appendPacketPayload rev [] ex_payload 3 = Inr pkt \<and> length pkt = 19 \<and>
      handleFrames ex_parser ex_handlers False Encryption1RTT pkt [] =
        ([PathChallengeFrame [1, 2, 3, 4, 5, 6, 7, 8], MaxDataFrame 100, StreamFrame ex_stream], None, Inr (True, True, Some [1, 2, 3, 4, 5, 6, 7, 8])))"
proof -
  have m: "mset (rev (pl_frames ex_payload)) = mset (pl_frames ex_payload)" by simp
  have fs: "payload_frames ex_payload = [MaxDataFrame 100, PathChallengeFrame [1, 2, 3, 4, 5, 6, 7, 8], StreamFrame ex_stream]"
    "packed rev ex_payload = [PathChallengeFrame [1, 2, 3, 4, 5, 6, 7, 8], MaxDataFrame 100, StreamFrame ex_stream]"
    by (simp_all add: payload_frames_def packed_def ack_list_def ex_payload_def)
  have a: "list_all (acceptable ex_parser Encryption1RTT) (payload_frames ex_payload)"
    by (simp add: fs acceptable_def type_supported_def isAllowedAtEncLevel_def isValidRFC9000_def frame_typ.simps frame_type_numbers
      ex_stream_def DataLen_def MaxByteCount_def MaxPacketBufferSize_def)
  have d: "list_all delimited (butlast (packed rev ex_payload))" by (simp add: fs)
  have l: "pl_length ex_payload = sum_list (map frame_size (payload_frames ex_payload))"
    unfolding fs by (simp add: frame_size_def MaxDataFrame_Length_def StreamFrame_Length_def varint_lens.simps varint_Len_def maxVarInt1_def maxVarInt2_def uint64_def
      ex_stream_def DataLen_def ex_payload_def)
  have h: "handle_packet ex_handlers False Encryption1RTT (map frame_received (packed rev ex_payload)) [] =
      ([PathChallengeFrame [1, 2, 3, 4, 5, 6, 7, 8], MaxDataFrame 100, StreamFrame ex_stream], None, Inr (True, True, Some [1, 2, 3, 4, 5, 6, 7, 8]))"
    by (simp add: fs handle_packet_def handle_one_def handleFrame_def ex_handlers_def log1_def HasAckElicitingFrames_def IsFrameAckEliciting_def IsProbingFrame_def)
  show ?thesis
    using packet_payload_handled [OF m _ a _ d l, of 3 "[]" ex_handlers False "[]"] m a d l h by (simp add: ex_parser_def ex_payload_def)
qed


section \<open>Splitting STREAM frames\<close>

lemma varint_Len_packet: "n < 16384 \<Longrightarrow> varint_Len (of_nat n) = Inr (if n < 64 then 1 else 2)"
proof -
  assume n: "n < 16384"
  then have "unat (of_nat n :: u64) = n" by (simp add: unsigned_of_nat take_bit_nat_eq_self)
  with n show ?thesis by (simp add: varint_Len_def maxVarInt_bounds)
qed

text \<open>Identifier and offset, and their size on the wire.\<close>

definition head_fields :: "stream_frame \<Rightarrow> u64 list" where
  "head_fields f = [uint64 (sf_StreamID f)] @ (if sf_Offset f \<noteq> 0 then [uint64 (sf_Offset f)] else [])"

lemma varint_lens_append: "varint_lens (xs @ ys) = (case varint_lens xs of Inl e \<Rightarrow> Inl e
    | Inr m \<Rightarrow> (case varint_lens ys of Inl e \<Rightarrow> Inl e | Inr n \<Rightarrow> Inr (m + n)))"
  by (induction xs) (auto simp: varint_lens.simps split: sum.splits)

lemma StreamFrame_Length_head:
  assumes "varint_lens (head_fields f) = Inr l" and "length (sf_Data f) < 16384"
  shows "StreamFrame_Length f = Inr (1 + int l + (if sf_DataLenPresent f then if length (sf_Data f) < 64 then 1 else 2 else 0) + int (length (sf_Data f)))"
proof -
  have "StreamFrame_Length f = map_sum id (\<lambda>n. int (1 + n) + int (length (sf_Data f)))
      (varint_lens (head_fields f @ (if sf_DataLenPresent f then [of_nat (length (sf_Data f))] else [])))"
    by (simp only: StreamFrame_Length_def head_fields_def DataLen_def append_assoc uint64_nat)
  then show ?thesis using assms by (simp add: varint_lens_append varint_lens.simps varint_Len_packet)
qed

lemma StreamFrame_MaxDataLen_head:
  assumes "varint_lens (head_fields f) = Inr l" and "maxSize \<le> 16384"
  defines "room \<equiv> maxSize - (1 + int l + (if sf_DataLenPresent f then 1 else 0))"
  shows "StreamFrame_MaxDataLen f maxSize = Inr (if room < 0 then 0 else if sf_DataLenPresent f \<and> 64 \<le> room then room - 1 else room)"
proof (cases "room < 0 \<or> \<not> sf_DataLenPresent f")
  case True
  then show ?thesis using assms(1) by (auto simp: StreamFrame_MaxDataLen_def head_fields_def room_def Let_def)
next
  case False
  then have r: "0 \<le> room" "sf_DataLenPresent f" "nat room < 16384" using assms(2) by (auto simp: room_def)
  then have "varint_Len (uint64 room) = Inr (if room < 64 then 1 else 2)" using varint_Len_packet [of "nat room"] uint64_nat [of "nat room"] by (simp add: nat_less_iff)
  with r assms(1) show ?thesis by (simp add: StreamFrame_MaxDataLen_def head_fields_def room_def Let_def)
qed

text \<open>C39: Splitting a STREAM frame loses nothing. For a frame of at most the size of a packet buffer and every limit up to the size that a
  two byte length covers, a frame that fits is left alone. Otherwise the piece split off and the rest carry the
  data of the frame in order and at contiguous offsets, only the rest keeps the FIN bit, the piece fits the
  limit and one byte more would not; and if nothing is split off, not even a single byte would have fitted. Nothing panics.\<close>

theorem stream_split:
  assumes "frame_ok (StreamFrame f)" and "maxSize \<le> 16384"
  shows "case StreamFrame_MaybeSplitOffFrame f maxSize of
     Inl e \<Rightarrow> False
   | Inr (None, split, g) \<Rightarrow> g = f \<and> (\<exists>l. StreamFrame_Length f = Inr l \<and> split = (l > maxSize)) \<and>
       (split \<longrightarrow> (\<forall>x. \<exists>l > maxSize. StreamFrame_Length (f\<lparr>sf_Data := [x]\<rparr>) = Inr l))
   | Inr (Some n, split, g) \<Rightarrow> split \<and> sf_Data n @ sf_Data g = sf_Data f \<and> sf_Data n \<noteq> [] \<and> sf_Data g \<noteq> [] \<and>
       sf_Offset n = sf_Offset f \<and> sf_Offset g = sf_Offset n + DataLen n \<and> sf_StreamID n = sf_StreamID f \<and> sf_StreamID g = sf_StreamID f \<and>
       \<not> sf_Fin n \<and> sf_Fin g = sf_Fin f \<and> frame_ok (StreamFrame n) \<and> frame_ok (StreamFrame g) \<and>
       (\<exists>l \<le> maxSize. StreamFrame_Length n = Inr l) \<and> (\<forall>x. \<exists>l > maxSize. StreamFrame_Length (n\<lparr>sf_Data := sf_Data n @ [x]\<rparr>) = Inr l)"
proof -
  have o: "vn (sf_Offset f)" "vn (sf_StreamID f)" and d: "length (sf_Data f) \<le> 1452"
    using assms(1) by (auto simp: MaxByteCount_def MaxPacketBufferSize_def DataLen_def)
  have v: "list_all vi (head_fields f)" using o by (simp add: head_fields_def vi_uint64)
  from varint_lens_enc [OF v] obtain l where l: "varint_lens (head_fields f) = Inr l" by blast
  have hd: "varint_lens (head_fields (f\<lparr>sf_Data := x\<rparr>)) = Inr l" "varint_lens (head_fields (f\<lparr>sf_Fin := b, sf_Data := x\<rparr>)) = Inr l" for x b
    using l by (simp_all add: head_fields_def split: if_splits)
  let ?hl = "1 + int l + (if sf_DataLenPresent f then 1 else 0)"
  let ?n = "if maxSize - ?hl < 0 then 0 else if sf_DataLenPresent f \<and> 64 \<le> maxSize - ?hl then maxSize - ?hl - 1 else maxSize - ?hl"
  note L = StreamFrame_Length_head [OF l] StreamFrame_Length_head [OF hd(1)] StreamFrame_Length_head [OF hd(2)]
  show ?thesis
  proof (cases "\<exists>k \<le> maxSize. StreamFrame_Length f = Inr k")
    case True
    then show ?thesis by (auto simp: StreamFrame_MaybeSplitOffFrame_def)
  next
    case False
    then have big: "1 + int l + (if sf_DataLenPresent f then if length (sf_Data f) < 64 then 1 else 2 else 0) + int (length (sf_Data f)) > maxSize"
      using L(1) d by auto
    have bad: "\<exists>k. StreamFrame_Length f = Inr k \<and> \<not> maxSize \<ge> k" using L(1) d big by auto
    note M = StreamFrame_MaxDataLen_head [OF l assms(2)]
    show ?thesis
    proof (cases "?n = 0")
      case True
      then have "\<exists>k > maxSize. StreamFrame_Length (f\<lparr>sf_Data := [x]\<rparr>) = Inr k" for x using L(2) by (auto split: if_splits)
      with bad M True show ?thesis by (auto simp: StreamFrame_MaybeSplitOffFrame_def)
    next
      case False
      define n where "n = nat ?n"
      have n: "?n = int n" "0 < n" "n < length (sf_Data f)" using False big by (auto simp: n_def split: if_splits)
      let ?p = "f\<lparr>sf_Fin := False, sf_Data := take n (sf_Data f)\<rparr>" and ?g = "f\<lparr>sf_Data := drop n (sf_Data f), sf_Offset := sf_Offset f + int n\<rparr>"
      have "StreamFrame_MaybeSplitOffFrame f maxSize = Inr (Some ?p, True, ?g)"
        using bad M n d by (auto simp: StreamFrame_MaybeSplitOffFrame_def MaxPacketBufferSize_def)
      moreover have "\<exists>k \<le> maxSize. StreamFrame_Length ?p = Inr k" using L(3) n d by (auto split: if_splits)
      moreover have "\<exists>k > maxSize. StreamFrame_Length (?p\<lparr>sf_Data := sf_Data ?p @ [x]\<rparr>) = Inr k" for x
        using L(3) n d by (auto split: if_splits)
      moreover have "frame_ok (StreamFrame ?p)" "frame_ok (StreamFrame ?g)" using assms(1) n by (auto simp: DataLen_def)
      ultimately show ?thesis using n by (simp add: DataLen_def)
    qed
  qed
qed


definition ex_long :: stream_frame where
  "ex_long = \<lparr>sf_StreamID = 4, sf_Offset = 0, sf_Data = replicate 100 7, sf_Fin = True, sf_DataLenPresent = True\<rparr>"

lemma stream_split_witness:
  "frame_ok (StreamFrame ex_long) \<and> (\<exists>n g. StreamFrame_MaybeSplitOffFrame ex_long 70 = Inr (Some n, True, g) \<and>
     sf_Data n @ sf_Data g = replicate 100 7 \<and> sf_Data n \<noteq> [] \<and> (\<exists>l \<le> 70. StreamFrame_Length n = Inr l))"
proof -
  have ok: "frame_ok (StreamFrame ex_long)" by (simp add: ex_long_def DataLen_def MaxByteCount_def MaxPacketBufferSize_def)
  have "\<exists>n g. StreamFrame_MaybeSplitOffFrame ex_long 70 = Inr (Some n, True, g)"
    by (simp add: StreamFrame_MaybeSplitOffFrame_def StreamFrame_Length_def StreamFrame_MaxDataLen_def ex_long_def DataLen_def varint_lens.simps
      varint_Len_def maxVarInt1_def maxVarInt2_def uint64_def MaxPacketBufferSize_def)
  with stream_split [OF ok, of 70] ok show ?thesis by (auto simp: ex_long_def)
qed

end
