(* ===== verification/Packet_Number.thy ===== *)
theory Packet_Number
  imports Ack_Frame
begin

text \<open>
  Packet numbers of the transport: how many bytes of one are sent and how the receiver completes them
  (\<^verbatim>\<open>internal/protocol/packet_number.go\<close>), the short header that carries them (\<^verbatim>\<open>internal/wire/short_header.go\<close>, with
  \<^verbatim>\<open>appendPacketNumber\<close> of \<^verbatim>\<open>extended_header.go\<close> and \<^verbatim>\<open>readPacketNumber\<close> of \<^verbatim>\<open>header.go\<close>), and the generators that skip
  numbers (\<^verbatim>\<open>internal/ackhandler/packet_number_generator.go\<close>). A packet number is a signed 64 bit integer below two
  to the power of 62, read as \<^typ>\<open>int\<close>.
\<close>

section \<open>Truncation\<close>

definition DecodePacketNumber :: "nat \<Rightarrow> int \<Rightarrow> int \<Rightarrow> int" where
  "DecodePacketNumber len largest truncated =
     (let expected = largest + 1; win = 2 ^ (len * 8); hwin = win div 2; mask = win - 1;
        candidate = (expected AND NOT mask) OR truncated
      in if candidate \<le> expected - hwin \<and> candidate < 2 ^ 62 - win then candidate + win
         else if candidate > expected + hwin \<and> candidate \<ge> win then candidate - win
         else candidate)"

definition PacketNumberLengthForHeader :: "int \<Rightarrow> int \<Rightarrow> nat" where
  "PacketNumberLengthForHeader pn largestAcked =
     (let numUnacked = (if largestAcked = - 1 then pn + 1 else pn - largestAcked)
      in if numUnacked < 2 ^ 15 then 2 else if numUnacked < 2 ^ 23 then 3 else 4)"

section \<open>The short header\<close>

definition be16_put :: "u16 \<Rightarrow> bytes" where
  "be16_put n = [ucast (drop_bit 8 n), ucast n]"

definition be16_get :: "bytes \<Rightarrow> u16" where
  "be16_get b = ucast (b ! 1) OR push_bit 8 (ucast (b ! 0))"

definition appendPacketNumber :: "bytes \<Rightarrow> int \<Rightarrow> nat \<Rightarrow> bytes res" where
  "appendPacketNumber b pn pnLen =
     (if pnLen = 1 then Inr (b @ [word_of_int pn])
      else if pnLen = 2 then Inr (b @ be16_put (word_of_int pn))
      else if pnLen = 3 then Inr (b @ drop 1 (be32_put (word_of_int pn)))
      else if pnLen = 4 then Inr (b @ be32_put (word_of_int pn))
      else Inl (Errorf ''invalid packet number length''))"

definition readPacketNumber :: "bytes \<Rightarrow> nat \<Rightarrow> int res" where
  "readPacketNumber d pnLen =
     (if pnLen \<notin> {1, 2, 3, 4} then Inl (Errorf ''invalid packet number length'')
      else if length d < pnLen then Inl (Panic ''index out of range'')
      else if pnLen = 1 then Inr (uint (d ! 0))
      else if pnLen = 2 then Inr (uint (be16_get (take 2 d)))
      else if pnLen = 3 then Inr (uint (ucast (d ! 2) + push_bit 8 (ucast (d ! 1)) + push_bit 16 (ucast (d ! 0)) :: u32))
      else Inr (uint (be32_get (take 4 d))))"

datatype key_phase_bit = KeyPhaseUndefined | KeyPhaseZero | KeyPhaseOne

definition AppendShortHeader :: "bytes \<Rightarrow> bytes \<Rightarrow> int \<Rightarrow> nat \<Rightarrow> key_phase_bit \<Rightarrow> bytes res" where
  "AppendShortHeader b connID pn pnLen kp =
     (let typeByte = 0x40 OR (of_nat pnLen - 1); typeByte = (if kp = KeyPhaseOne then typeByte OR push_bit 2 1 else typeByte)
      in appendPacketNumber (b @ [typeByte] @ connID) pn pnLen)"

definition ShortHeaderLen :: "bytes \<Rightarrow> nat \<Rightarrow> nat" where
  "ShortHeaderLen dest pnLen = 1 + length dest + pnLen"

text \<open>With wrong reserved bits the fields are returned together with an error.\<close>

definition ParseShortHeader :: "bytes \<Rightarrow> nat \<Rightarrow> (nat \<times> int \<times> nat \<times> key_phase_bit \<times> go_error option) res" where
  "ParseShortHeader d connIDLen =
     (case d of
        [] \<Rightarrow> Inl io_EOF
      | x # xs \<Rightarrow>
          if x AND 0x80 > 0 then Inl (Errorf ''not a short header packet'')
          else if x AND 0x40 = 0 then Inl (Errorf ''not a QUIC packet'')
          else let pnLen = unat (x AND 3) + 1
            in if length d < 1 + pnLen + connIDLen then Inl io_EOF
            else (case readPacketNumber (drop (1 + connIDLen) d) pnLen of
              Inl e \<Rightarrow> Inl e
            | Inr pn \<Rightarrow> Inr (1 + connIDLen + pnLen, pn, pnLen, if x AND 4 > 0 then KeyPhaseOne else KeyPhaseZero,
                if x AND 0x18 \<noteq> 0 then Some (Errorf ''invalid reserved bits'') else None)))"

section \<open>Generators\<close>

definition sequential_Pop :: "int \<Rightarrow> (bool \<times> int) \<times> int" where
  "sequential_Pop nxt = ((False, nxt), nxt + 1)"

record skipping_generator =
  sg_period :: int
  sg_maxPeriod :: int
  sg_next :: int
  sg_nextToSkip :: int

text \<open>The random number, below twice the period, is an argument.\<close>

definition generateNewSkip :: "int \<Rightarrow> skipping_generator \<Rightarrow> skipping_generator" where
  "generateNewSkip r g = g\<lparr>sg_nextToSkip := sg_next g + 3 + r, sg_period := min (2 * sg_period g) (sg_maxPeriod g)\<rparr>"

definition newSkippingPacketNumberGenerator :: "int \<Rightarrow> int \<Rightarrow> int \<Rightarrow> int \<Rightarrow> skipping_generator" where
  "newSkippingPacketNumberGenerator initial initialPeriod maxPeriod r =
     generateNewSkip r \<lparr>sg_period = initialPeriod, sg_maxPeriod = maxPeriod, sg_next = initial, sg_nextToSkip = 0\<rparr>"

definition skipping_Peek :: "skipping_generator \<Rightarrow> int" where
  "skipping_Peek g = (if sg_next g = sg_nextToSkip g then sg_next g + 1 else sg_next g)"

definition skipping_Pop :: "int \<Rightarrow> skipping_generator \<Rightarrow> (bool \<times> int) \<times> skipping_generator" where
  "skipping_Pop r g =
     (if sg_next g = sg_nextToSkip g
      then ((True, sg_next g + 1), generateNewSkip r (g\<lparr>sg_next := sg_next g + 2\<rparr>))
      else ((False, sg_next g), g\<lparr>sg_next := sg_next g + 1\<rparr>))"


section \<open>Correctness\<close>

lemma candidate_sum:
  assumes "0 \<le> t" and "t < 2 ^ n"
  shows "((e :: int) AND NOT (2 ^ n - 1)) OR t = e - e mod 2 ^ n + t"
proof -
  have m: "e AND NOT (2 ^ n - 1) = push_bit n (drop_bit n e)"
    by (rule bit_eqI) (auto simp: bit_simps mask_eq_exp_minus_1 [symmetric])
  have "\<not> bit t k" if "n \<le> k" for k
  proof -
    have "take_bit n t = t" using assms by (simp add: take_bit_int_eq_self)
    then show ?thesis using that by (metis bit_take_bit_iff linorder_not_less)
  qed
  then have "push_bit n (drop_bit n e) OR t = push_bit n (drop_bit n e) + t"
    by (intro disjunctive_add [symmetric]) (auto simp: bit_push_bit_iff)
  moreover have "push_bit n (drop_bit n e) = e - e mod 2 ^ n"
    by (simp add: push_bit_eq_mult drop_bit_eq_div minus_mod_eq_div_mult)
  ultimately show ?thesis unfolding m by metis
qed

lemma DecodePacketNumber_window:
  assumes "0 \<le> pn" "pn < 2 ^ 62" "0 < n" "lg + 1 - 2 ^ (8 * n - 1) < pn" "pn \<le> lg + 1 + 2 ^ (8 * n - 1)"
  shows "DecodePacketNumber n lg (pn mod 2 ^ (8 * n)) = pn"
proof -
  let ?w = "2 ^ (8 * n) :: int" and ?h = "2 ^ (8 * n - 1) :: int"
  obtain k where "8 * n = Suc k" using assms(3) by (cases "8 * n") auto
  then have w: "?w = 2 * ?h" "0 < ?h" by simp_all
  define qe r q t where "qe = (lg + 1) div ?w" and "r = (lg + 1) mod ?w" and "q = pn div ?w" and "t = pn mod ?w"
  have e: "lg + 1 = qe * ?w + r" "0 \<le> r" "r < ?w" and p: "pn = q * ?w + t" "0 \<le> t" "t < ?w"
    using div_mult_mod_eq [of "lg + 1" ?w] div_mult_mod_eq [of pn ?w] by (simp_all add: qe_def r_def q_def t_def)
  define d where "d = q - qe"
  have c: "lg + 1 - (lg + 1) mod ?w + t = pn - d * ?w" using e p by (simp add: r_def [symmetric] d_def algebra_simps)
  have "d * ?w = pn - (lg + 1) + r - t" using e p by (simp add: d_def algebra_simps)
  then have "- (2 * ?w) < d * ?w" "d * ?w < 2 * ?w" using assms(4,5) e(2,3) p(2,3) w by linarith+
  then have "(-2) * ?w < d * ?w" "d * ?w < 2 * ?w" by simp_all
  then have "-2 < d" "d < 2" using w by (simp_all only: mult_less_cancel_right)
  then consider "d = -1" | "d = 0" | "d = 1" by linarith
  then have "if pn - d * ?w \<le> lg + 1 - ?h \<and> pn - d * ?w < 2 ^ 62 - ?w then d = 1
     else if pn - d * ?w > lg + 1 + ?h \<and> pn - d * ?w \<ge> ?w then d = - 1 else d = 0"
    by cases (use assms(1,2,4,5) w in \<open>auto split: if_splits\<close>)
  moreover have "((lg + 1) AND NOT (?w - 1)) OR t = pn - d * ?w" using candidate_sum [OF p(2,3)] c by simp
  moreover have "?w div 2 = ?h" using w by simp
  ultimately show ?thesis unfolding DecodePacketNumber_def t_def [symmetric] mult.commute [of n 8]
    by (simp only: Let_def) (auto split: if_splits)
qed

lemma be16_get_put: "be16_get (be16_put n @ r) = n"
proof (rule bit_word_eqI)
  fix k :: nat
  assume "k < LENGTH(16)"
  then consider "k < 8" | "8 \<le> k" "k < 16" by fastforce
  then show "bit (be16_get (be16_put n @ r)) k \<longleftrightarrow> bit n k" by cases (auto simp: be16_get_def be16_put_def bit_simps)
qed

lemma three_bytes:
  fixes n :: u32
  shows "ucast (ucast n :: 8 word) + push_bit 8 (ucast (ucast (drop_bit 8 n) :: 8 word)) + push_bit 16 (ucast (ucast (drop_bit 16 n) :: 8 word))
    = take_bit 24 n"
proof -
  have "ucast (ucast n :: 8 word) + push_bit 8 (ucast (ucast (drop_bit 8 n) :: 8 word)) = take_bit 16 n"
    by (subst disjunctive_add) (auto simp: bit_simps intro!: bit_word_eqI)
  moreover have "take_bit 16 n + push_bit 16 (ucast (ucast (drop_bit 16 n) :: 8 word)) = take_bit 24 n"
    by (subst disjunctive_add) (auto simp: bit_simps intro!: bit_word_eqI)
  ultimately show ?thesis by simp
qed

lemma read_appended:
  assumes "n \<in> {2, 3, 4}"
  shows "\<exists>bs. (\<forall>b. appendPacketNumber b pn n = Inr (b @ bs)) \<and> length bs = n \<and> (\<forall>rest. readPacketNumber (bs @ rest) n = Inr (pn mod 2 ^ (8 * n)))"
proof -
  consider "n = 2" | "n = 3" | "n = 4" using assms by auto
  then show ?thesis
  proof cases
    case 1
    have "uint (be16_get (take 2 (be16_put (word_of_int pn) @ rest))) = pn mod 2 ^ 16" for rest
      using be16_get_put [of "word_of_int pn" "[]"] by (simp add: be16_put_def uint_word_of_int)
    then show ?thesis using 1 by (auto simp: appendPacketNumber_def readPacketNumber_def be16_put_def)
  next
    case 2
    let ?w = "word_of_int pn :: u32"
    have "uint (take_bit 24 ?w) = pn mod 2 ^ 24" 
      unfolding unsigned_take_bit_eq by (simp add: take_bit_eq_mod uint_word_of_int mod_mod_cancel)
    then show ?thesis using 2 three_bytes [of ?w] by (simp add: appendPacketNumber_def readPacketNumber_def be32_put_def)
  next
    case 3
    have "uint (be32_get (take 4 (be32_put (word_of_int pn) @ rest))) = pn mod 2 ^ 32" for rest
      by (simp add: uint_word_of_int)
    then show ?thesis using 3 by (auto simp: appendPacketNumber_def readPacketNumber_def)
  qed
qed


lemma header_length_window:
  assumes "- 1 \<le> la" "la < pn" "pn - la < 2 ^ 31"
  shows "PacketNumberLengthForHeader pn la \<in> {2, 3, 4}" and "pn - la < 2 ^ (8 * PacketNumberLengthForHeader pn la - 1)"
    and "(2 :: int) ^ 15 \<le> 2 ^ (8 * PacketNumberLengthForHeader pn la - 1)"
  using assms by (auto simp: PacketNumberLengthForHeader_def Let_def)

text \<open>C40: A truncated packet number is recovered. A packet number is sent with the number of bytes chosen from the largest acknowledged
  packet, behind a short header. Its header has the announced length and is parsed back, key phase included, and the
  receiver completes the number correctly from the largest packet number it has seen, if that is not below the acknowledged
  one and the packet is not overtaken by 32767 or more, for every number below two to the power of 62 with fewer than
  two to the power of 31 unacknowledged packets.\<close>

theorem packet_number_recovered:
  assumes "- 1 \<le> la" "la < pn" "pn < 2 ^ 62" "pn - la < 2 ^ 31" "la \<le> lg" "lg - pn < 2 ^ 15 - 1" and "kp \<noteq> KeyPhaseUndefined"
  shows "\<exists>hdr t. AppendShortHeader b connID pn (PacketNumberLengthForHeader pn la) kp = Inr (b @ hdr) \<and>
    length hdr = ShortHeaderLen connID (PacketNumberLengthForHeader pn la) \<and>
    ParseShortHeader (hdr @ rest) (length connID) = Inr (length hdr, t, PacketNumberLengthForHeader pn la, kp, None) \<and>
    DecodePacketNumber (PacketNumberLengthForHeader pn la) lg t = pn"
proof -
  let ?n = "PacketNumberLengthForHeader pn la"
  note n = header_length_window [OF assms(1,2,4)]
  from read_appended [OF n(1), of pn] obtain bs where bs: "\<And>b. appendPacketNumber b pn ?n = Inr (b @ bs)" "length bs = ?n"
    "\<And>rest. readPacketNumber (bs @ rest) ?n = Inr (pn mod 2 ^ (8 * ?n))" by blast
  define x :: "8 word" where "x = (if kp = KeyPhaseOne then (0x40 OR (of_nat ?n - 1)) OR push_bit 2 1 else 0x40 OR (of_nat ?n - 1))"
  have x: "\<not> x AND 0x80 > 0" "x AND 0x40 \<noteq> 0" "unat (x AND 3) + 1 = ?n" "(x AND 4 > 0) = (kp = KeyPhaseOne)" "x AND 0x18 = 0"
    using n(1) by (auto simp: x_def)
  let ?hdr = "x # connID @ bs"
  have "AppendShortHeader b connID pn ?n kp = Inr (b @ ?hdr)" by (simp add: AppendShortHeader_def Let_def x_def bs(1))
  moreover have "ParseShortHeader (?hdr @ rest) (length connID) = Inr (length ?hdr, pn mod 2 ^ (8 * ?n), ?n, kp, None)"
    using x bs assms(7) by (cases kp) (simp_all add: ParseShortHeader_def Let_def)
  moreover have "DecodePacketNumber ?n lg (pn mod 2 ^ (8 * ?n)) = pn"
    using n assms by (intro DecodePacketNumber_window) auto
  ultimately show ?thesis using bs(2) by (intro exI [of _ ?hdr] exI [of _ "pn mod 2 ^ (8 * ?n)"]) (simp add: ShortHeaderLen_def)
qed

lemma packet_number_recovered_witness:
  "\<exists>hdr t. AppendShortHeader [] [1, 2, 3, 4] 100000 (PacketNumberLengthForHeader 100000 99000) KeyPhaseOne = Inr hdr \<and>
    ParseShortHeader (hdr @ [9]) 4 = Inr (length hdr, t, 2, KeyPhaseOne, None) \<and> DecodePacketNumber 2 101500 t = 100000"
proof -
  have "PacketNumberLengthForHeader 100000 99000 = 2" by (simp add: PacketNumberLengthForHeader_def Let_def)
  with packet_number_recovered [of 99000 100000 101500 KeyPhaseOne "[]" "[1, 2, 3, 4]" "[9]"] show ?thesis by (auto simp: eval_nat_numeral)
qed

section \<open>Generated numbers\<close>

definition generator_ok :: "skipping_generator \<Rightarrow> bool" where
  "generator_ok g \<longleftrightarrow> sg_next g \<le> sg_nextToSkip g"

text \<open>\<open>Peek\<close> announces what \<open>Pop\<close> returns; numbers only grow, at most one is skipped, and never two in a row.\<close>

lemma skipping_Pop_next:
  assumes "generator_ok g" and "0 \<le> r" and "skipping_Pop r g = ((skipped, pn), g1)"
  shows "generator_ok g1 \<and> pn = skipping_Peek g \<and> skipping_Peek g1 > pn \<and> skipping_Peek g1 \<le> pn + 2 \<and>
    skipped = (pn = sg_next g + 1) \<and> (skipped \<longrightarrow> skipping_Peek g1 = pn + 1)"
  using assms by (auto simp: generator_ok_def skipping_Pop_def skipping_Peek_def generateNewSkip_def split: if_splits)

lemma newSkippingPacketNumberGenerator_ok: "0 \<le> r \<Longrightarrow> generator_ok (newSkippingPacketNumberGenerator i p m r)"
  by (simp add: generator_ok_def newSkippingPacketNumberGenerator_def generateNewSkip_def)

end
