(* ===== verification/Spec2Isabelle.thy ===== *)
theory Spec2Isabelle
  imports Playback_Props Moqmi_Props Recording Server_Props Tracker_Props Frames_Props Packet_Number
begin

text \<open>
  \<^bold>\<open>A verification library for moqlivemock.\<close>

  The program is a live media test service for Media over QUIC. A publisher (\<^verbatim>\<open>mlmpub\<close>) loads a few
  seconds of video and audio, plays them in a loop aligned to wall-clock time and serves them as tracks of
  groups and objects in several packagings: CMAF chunks, LOCMAF, LOC and moq-mi; subtitles and captions are
  generated on the fly and tracks may be encrypted. A subscriber (\<^verbatim>\<open>mlmsub\<close>) fetches a catalog, selects
  tracks, decrypts, writes or multiplexes what it reads, and can simulate a player for layered video.

  \<^bold>\<open>Conventions.\<close> Go structs are records with the source's field names behind a short prefix, 64, 32 and
  8 bit unsigned integers are words of that width (so that wrap-around is the machine's), Go's \<^verbatim>\<open>int\<close>
  is \<^typ>\<open>int\<close> where its size does not matter. A fallible function returns \<open>'a res\<close>, that is
  \<open>go_error + 'a\<close>; panics are errors of the constructor \<open>Panic\<close>. State is passed explicitly. A \<^verbatim>\<open>float64\<close>
  is a rational that every operation rounds to 53 bits (\<open>Go_Float\<close>). Code of other modules (mp4ff, go608,
  locmaf, the JSON and template packages, the MoQ session, the file system and the clock) is an argument:
  a record of functions whose laws are hypotheses of the theorems that need them, each instantiated by a
  concrete record in a witness.

  \<^bold>\<open>Parts and theories.\<close>
  \<^item> \<open>Mlm_Prelude\<close>, \<open>Go_Float\<close>, \<open>Go_Base64\<close>, \<open>Go_Base64_Url\<close>: results and errors, words, loops over words,
    stable sorting, base64 and hexadecimal text; round trips of the encodings.
  \<^item> \<open>Catalog\<close> (\<^verbatim>\<open>internal/catalog.go\<close>) and \<open>Track_Model\<close> (types of \<^verbatim>\<open>asset.go\<close>, \<^verbatim>\<open>media.go\<close>, \<^verbatim>\<open>subtitle.go\<close>): data
    and lookups by name.
  \<^item> \<open>Sample_Clock\<close> (\<^verbatim>\<open>asset.go\<close>: \<^verbatim>\<open>CalcSample\<close>, \<^verbatim>\<open>setLoopDuration\<close>, \<^verbatim>\<open>validateAV1SVCGOP\<close>; \<^verbatim>\<open>moqgroup.go\<close>): which
    looped sample is live at which time. Groups tile the sample sequence, the sample index is in range, and
    groups of layered sources are their GOPs.
  \<^item> \<open>Nalu\<close>, \<open>Sample_Rewrite\<close>, \<open>Audio_Init\<close>, \<open>Av1_Layers\<close> (\<^verbatim>\<open>media.go\<close>, parts of \<^verbatim>\<open>cc608/splice.go\<close> and \<^verbatim>\<open>sub/loc.go\<close>):
    length-prefixed units, in-place rewriting of samples over an explicit buffer, audio configurations, the
    split of AV1 temporal units into spatial layers. The in-place rewriting equals copying, the layer split
    is a partition, LOC key frames come out as Annex B.
  \<^item> \<open>Cc608\<close> (\<^verbatim>\<open>internal/cc608\<close>, \<^verbatim>\<open>pub/caption.go\<close>): caption schedules and splicing; both output paths agree.
  \<^item> \<open>Media_Chunks\<close> (\<^verbatim>\<open>asset.go\<close>: fragments, encryption, LOCMAF; \<^verbatim>\<open>moqgroup.go\<close>): the objects of a group.
    Every sample appears once and in order, IVs never repeat within a run, writing is a prefix of the group.
  \<^item> \<open>Asset_Load\<close>, \<open>Asset_Props\<close> (\<^verbatim>\<open>asset.go\<close>: \<^verbatim>\<open>LoadAssetWithDRM\<close> and what it calls): structure of a loaded
    asset, protected variants, and that no chunk of a protected track is sent in the clear.
  \<^item> \<open>Catalog_Gen\<close>, \<open>Catalog_Props\<close> (\<^verbatim>\<open>asset.go\<close>, \<^verbatim>\<open>subtitle.go\<close>): the generated catalogs; init references
    resolve, captions are announced exactly when injected, layers are listed base first and resolve.
  \<^item> \<open>Subtitles\<close> (\<^verbatim>\<open>subtitle.go\<close>): cue intervals and WVTT or STPP groups; the samples tile the second.
  \<^item> \<open>Loc_Object\<close> (\<^verbatim>\<open>pub/pub.go\<close>, \<^verbatim>\<open>sub/loc.go\<close>): LOC properties on both sides and their round trip.
  \<^item> \<open>Publisher\<close>, \<open>Publish_Props\<close> (\<^verbatim>\<open>pub/pub.go\<close>): the session handlers and the publishing loops. A loop
    returns the log of its stream operations for an environment that says what fails and when. The locale
    \<open>group_publisher\<close> states what one round of such a loop promises; each loop interprets it and obtains the
    subgroup protocol.
  \<^item> \<open>Moqmi\<close>, \<open>Moqmi_Props\<close> (\<^verbatim>\<open>pub/moqmi.go\<close>, \<^verbatim>\<open>sub/moqmi.go\<close>): two more interpretations of that locale, and
    the sequence numbers read by the subscriber.
  \<^item> \<open>Deps\<close> (\<^verbatim>\<open>sub/sub.go\<close>: \<^verbatim>\<open>dependencyOrder\<close>): termination and correctness of the dependency search.
  \<^item> \<open>Playback\<close>, \<open>Playback_Inv\<close>, \<open>Playback_Props\<close> (\<^verbatim>\<open>sub/playback.go\<close>): the player as a state machine; an
    invariant over all reachable states, refinement of the layer switch, pacing and deadlines.
  \<^item> \<open>Sub_Catalog\<close> (\<^verbatim>\<open>sub/sub.go\<close>): the catalog modes, run against the publisher's handlers.
  \<^item> \<open>Subscriber\<close>, \<open>Subscriber_Props\<close> (\<^verbatim>\<open>sub/sub.go\<close>: \<^verbatim>\<open>handle\<close>, \<^verbatim>\<open>subscribeAndRead\<close>; writers of \<^verbatim>\<open>sub/loc.go\<close>): the session
    from the catalog to the reading goroutines. Which tracks it selects, that it starts on clear catalogs, and
    that the goroutines do not disturb each other in any interleaving (\<open>readers_run\<close>).
  \<^item> \<open>Recording\<close>: publisher and subscriber run against each other; what the output file of a recording holds
    for the CMAF and the LOCMAF variant of a rendition.
  \<^item> \<open>Server\<close>, \<open>Server_Props\<close> (\<^verbatim>\<open>cmd/mlmpub/main.go\<close>: \<^verbatim>\<open>runServer\<close>; \<^verbatim>\<open>pub/pub.go\<close>: \<^verbatim>\<open>Handle\<close>): from the options to the
    asset, the namespaces and the handler, and the announcements of a session. What is written in a protected
    namespace was encrypted with the configured key; which namespaces a subscriber is told.
  \<^item> \<open>Cmaf_Mux\<close> (\<^verbatim>\<open>sub/mux.go\<close>): the multiplexer under every interleaving of its callers.
  \<^item> \<open>Drm\<close>, \<open>Cenc_Sub\<close> (\<^verbatim>\<open>drm.go\<close>, \<^verbatim>\<open>sub/cenc.go\<close>, the ClearKey endpoint of \<^verbatim>\<open>cmd/mlmpub/handler.go\<close>): protection
    data, license request and decryption, from the publisher's flags to the subscriber's key.

  The transport underneath is the repository's fork of quic-go (\<^verbatim>\<open>deps/quic-go\<close>). Of it the library holds the
  wire format, how a packet is handled, and the acknowledgement machinery, which the fork extends with receive timestamps:
  \<^item> \<open>Quic_Varint\<close> (\<^verbatim>\<open>quicvarint/varint.go\<close>): variable-length integers. The locale \<open>wire_codec\<close> states what an
    encoding promises to a parser that reads on behind it; the varints interpret it.
  \<^item> \<open>Ack_Frame\<close>, \<open>Ack_Props\<close> (\<^verbatim>\<open>internal/wire/ack_frame.go\<close>, \<^verbatim>\<open>ack_receive_timestamps.go\<close>): writing, sizing,
    truncating and parsing ACK frames, with ECN counts and receive timestamps. The round trip, that a truncated
    frame fits its packet, that prepared timestamps lie inside the acknowledged ranges.
  \<^item> \<open>Packet_History\<close> (\<^verbatim>\<open>internal/ackhandler/received_packet_history.go\<close>): the list of received ranges refines
    a set of packet numbers, up to the ranges it gave up.
  \<^item> \<open>Packet_Tracker\<close>, \<open>Tracker_Props\<close> (\<^verbatim>\<open>received_packet_tracker.go\<close>, \<^verbatim>\<open>received_packet_handler.go\<close>): when an
    acknowledgement is due. Over all runs of the tracker every acknowledged packet was received, and an
    ack-eliciting packet is acknowledged at once or has an alarm within the maximum delay.
  \<^item> \<open>Quic_Frames\<close>, \<open>Frames_Props\<close> (\<^verbatim>\<open>internal/wire\<close>: the other frames and \<^verbatim>\<open>frame_parser.go\<close>; \<^verbatim>\<open>connection.go\<close>: \<^verbatim>\<open>handleFrames\<close>,
    \<^verbatim>\<open>handleFrame\<close>; \<^verbatim>\<open>packet_packer.go\<close>: \<^verbatim>\<open>appendPacketPayload\<close>): a packet as it is filled and as it is handled. The handlers
    of the connection are an argument, on a state of any type. What was packed is what is handled, frame by frame; splitting
    a STREAM frame loses nothing.
  \<^item> \<open>Packet_Number\<close> (\<^verbatim>\<open>internal/protocol/packet_number.go\<close>, \<^verbatim>\<open>short_header.go\<close>, \<^verbatim>\<open>packet_number_generator.go\<close>): a truncated
    packet number is recovered; generated numbers grow and no two in a row are skipped.

  \<^bold>\<open>Bounds and fuel.\<close> Loops over sample numbers are functions with a termination proof (a word measure).
  Where Go's loop variable may wrap around (\<open>group_loop\<close>, \<open>cue_loop\<close>) or the search is nested (\<open>visit\<close>) the
  function takes fuel, and a theorem gives the amount that is enough: the number of batches, the number of
  cues, the number of catalog tracks plus one. The publishing loops run until the environment stops them;
  their fuel is the number of rounds and the theorems hold for every number.

  \<^bold>\<open>Not modelled.\<close> The rest of the command line programs (flags, TLS, listeners, log files), the tools that prepare
  media, the rest of the QUIC library (connection state, packet
  protection, congestion control, HTTP/3), and the construction of MP4 boxes inside mp4ff. Goroutines are modelled
  by the sequences of operations they perform, not by a scheduler; blocking on the clock is the reading of
  the environment's clock.
\<close>

end
